(* ===== verification/Panther_Prelude.thy ===== *)
theory Panther_Prelude
  imports Main "HOL-Library.Multiset" "HOL-Library.Word"
begin

text \<open>
  Shared vocabulary of the development: the types that stand for Go's errors and machine
  integers, the parts of Go's \<open>strconv\<close> and \<open>strings\<close> packages the program uses, association
  lists for Go maps whose iteration order matters, and the generic lemmas on lists and multisets
  that the component theories share.

  A Go map is an association list with distinct keys, listed in the order in which a
  \<open>for ... range\<close> over it visits the keys. Go leaves that order open; a theorem that holds for
  every association list holds for every order.
\<close>

named_theorems decimal_simps \<open>decimal printing and parsing\<close>
named_theorems amap_simps \<open>association lists as Go maps\<close>

type_synonym error = string
type_synonym uint64 = "64 word"
type_synonym ('k, 'v) amap = "('k \<times> 'v) list"

section \<open>Decimal strings: strconv.Itoa, strconv.FormatInt, strconv.Atoi\<close>

definition digit_char :: "nat \<Rightarrow> char" where
  "digit_char d = char_of (48 + d)"

fun string_of_nat :: "nat \<Rightarrow> string" where
  "string_of_nat n =
     (if n < 10 then [digit_char n]
      else string_of_nat (n div 10) @ [digit_char (n mod 10)])"

declare string_of_nat.simps [simp del]

definition Itoa :: "int \<Rightarrow> string" where
  "Itoa i = (if i < 0 then CHR ''-'' # string_of_nat (nat (- i)) else string_of_nat (nat i))"

definition is_digit :: "char \<Rightarrow> bool" where
  "is_digit c \<longleftrightarrow> 48 \<le> (of_char c :: nat) \<and> (of_char c :: nat) \<le> 57"

definition digit_val :: "char \<Rightarrow> nat" where
  "digit_val c = of_char c - 48"

definition nat_of_digits :: "string \<Rightarrow> nat" where
  "nat_of_digits s = foldl (\<lambda>acc c. 10 * acc + digit_val c) 0 s"

text \<open>\<open>strconv.Atoi\<close>: an optional sign, at least one digit, nothing else, and a value in the
  range of a 64-bit \<open>int\<close>. Every other text is an error.\<close>

definition Atoi_digits :: "string \<Rightarrow> nat option" where
  "Atoi_digits s = (if s \<noteq> [] \<and> list_all is_digit s then Some (nat_of_digits s) else None)"

definition in_int64 :: "int \<Rightarrow> bool" where
  "in_int64 i \<longleftrightarrow> - (2 ^ 63) \<le> i \<and> i < 2 ^ 63"

text \<open>The result of an operation on Go's 64-bit \<open>int\<close>, which wraps around.\<close>

definition wrap64 :: "int \<Rightarrow> int" where
  "wrap64 i = (i + 2 ^ 63) mod 2 ^ 64 - 2 ^ 63"

lemma wrap64_id: "in_int64 i \<Longrightarrow> wrap64 i = i"
  by (simp add: wrap64_def in_int64_def)

text \<open>Just above the range the result is negative.\<close>

lemma wrap64_above: "2 ^ 63 \<le> i \<Longrightarrow> i < 2 ^ 64 \<Longrightarrow> wrap64 i = i - 2 ^ 64"
proof -
  assume "2 ^ 63 \<le> i" "i < 2 ^ 64"
  then have "(i + 2 ^ 63 - 2 ^ 64) mod 2 ^ 64 = i + 2 ^ 63 - 2 ^ 64" by (intro mod_pos_pos_trivial) simp_all
  then show ?thesis unfolding wrap64_def by (simp only: mod_diff_right_eq minus_mod_self2)
qed

text \<open>\<open>time.Time.Sub\<close> saturates at the bounds of the 64-bit \<open>time.Duration\<close>.\<close>

definition time_Sub :: "int \<Rightarrow> int \<Rightarrow> int" where
  "time_Sub t u = max (- (2 ^ 63)) (min (2 ^ 63 - 1) (t - u))"

abbreviation Minute :: int where "Minute \<equiv> 60000000000"

text \<open>\<open>errors.Wrap\<close>\<close>

definition Wrap :: "error \<Rightarrow> string \<Rightarrow> error" where
  "Wrap err msg = msg @ '': '' @ err"

definition Atoi :: "string \<Rightarrow> int option" where
  "Atoi s =
     (let (sign, rest) =
        (case s of
           [] \<Rightarrow> (1, [])
         | c # cs \<Rightarrow> if c = CHR ''-'' then (- 1, cs)
                     else if c = CHR ''+'' then (1, cs) else (1, s))
      in case Atoi_digits rest of
           None \<Rightarrow> None
         | Some n \<Rightarrow> (let v = sign * int n in if in_int64 v then Some v else None))"

lemma of_char_digit_char [decimal_simps]: "d < 10 \<Longrightarrow> of_char (digit_char d) = (48 + d :: nat)"
  by (simp add: digit_char_def)

lemma digit_char_values:
  "digit_char 0 = CHR ''0''" "digit_char 1 = CHR ''1''" "digit_char (Suc 0) = CHR ''1''"
  "digit_char 2 = CHR ''2''" "digit_char 3 = CHR ''3''" "digit_char 4 = CHR ''4''"
  "digit_char 5 = CHR ''5''" "digit_char 6 = CHR ''6''" "digit_char 7 = CHR ''7''"
  "digit_char 8 = CHR ''8''" "digit_char 9 = CHR ''9''"
  by (simp_all add: digit_char_def char_of_def bit_0)

lemma is_digit_digit_char [decimal_simps]: "d < 10 \<Longrightarrow> is_digit (digit_char d)"
  by (simp add: is_digit_def decimal_simps)

lemma digit_val_digit_char [decimal_simps]: "d < 10 \<Longrightarrow> digit_val (digit_char d) = d"
  by (simp add: digit_val_def decimal_simps)

lemma string_of_nat_digits: "list_all is_digit (string_of_nat n)"
proof (induction n rule: string_of_nat.induct)
  case (1 n)
  then show ?case by (subst string_of_nat.simps) (auto simp: decimal_simps)
qed

lemma string_of_nat_nonempty [simp]: "string_of_nat n \<noteq> []"
  by (subst string_of_nat.simps) simp

lemma nat_of_digits_snoc: "nat_of_digits (s @ [c]) = 10 * nat_of_digits s + digit_val c"
  by (simp add: nat_of_digits_def)

lemma nat_of_digits_string_of_nat [decimal_simps]: "nat_of_digits (string_of_nat n) = n"
proof (induction n rule: string_of_nat.induct)
  case (1 n)
  show ?case
  proof (cases "n < 10")
    case True
    then show ?thesis
      by (subst string_of_nat.simps) (simp add: nat_of_digits_def decimal_simps)
  next
    case False
    with 1 show ?thesis
      by (subst string_of_nat.simps) (simp add: nat_of_digits_snoc decimal_simps)
  qed
qed

lemma string_of_nat_inject [simp]: "string_of_nat m = string_of_nat n \<longleftrightarrow> m = n"
  by (metis nat_of_digits_string_of_nat)

lemma Atoi_digits_string_of_nat [decimal_simps]: "Atoi_digits (string_of_nat n) = Some n"
  by (simp add: Atoi_digits_def string_of_nat_digits decimal_simps)

lemma not_digit_sign [simp]: "\<not> is_digit (CHR ''-'')" "\<not> is_digit (CHR ''+'')"
    "\<not> is_digit (CHR '':'')"
  by (simp_all add: is_digit_def)

lemma string_of_nat_hd: "string_of_nat n = c # cs \<Longrightarrow> is_digit c"
  using string_of_nat_digits [of n] by simp

lemma Atoi_in_int64: "Atoi s = Some v \<Longrightarrow> in_int64 v"
  by (auto simp: Atoi_def Let_def split: option.splits if_splits list.splits prod.splits)

lemma Atoi_Itoa: "in_int64 i \<Longrightarrow> Atoi (Itoa i) = Some i"
proof (cases "i < 0")
  case True
  then show "in_int64 i \<Longrightarrow> Atoi (Itoa i) = Some i"
    by (simp add: Atoi_def Itoa_def decimal_simps)
next
  case False
  obtain c cs where c: "string_of_nat (nat i) = c # cs"
    by (cases "string_of_nat (nat i)") auto
  with string_of_nat_hd [OF c] False show "in_int64 i \<Longrightarrow> Atoi (Itoa i) = Some i"
    using Atoi_digits_string_of_nat [of "nat i"]
    by (auto simp: Atoi_def Itoa_def)
qed

lemma Itoa_inject [simp]: "Itoa i = Itoa j \<longleftrightarrow> i = j"
proof
  assume eq: "Itoa i = Itoa j"
  have hd_minus: "string_of_nat n \<noteq> CHR ''-'' # s" for n s
    using string_of_nat_hd [of n "CHR ''-''" s] by auto
  with eq show "i = j"
    by (auto simp: Itoa_def hd_minus [symmetric] split: if_splits)
qed simp

lemma Itoa_no_colon: "CHR '':'' \<notin> set (Itoa i)"
  using string_of_nat_digits [of "nat i"] string_of_nat_digits [of "nat (- i)"]
  by (auto simp: Itoa_def list_all_iff)

section \<open>strings.TrimSpace\<close>

text \<open>The white space of \<open>unicode.IsSpace\<close> in UTF-8: the ASCII characters, U+0085, U+00A0, U+1680, U+2000 to U+200A, U+2028, U+2029, U+202F,
  U+205F and U+3000. A rune of them at the front or at the end of a text is recognised by its bytes.\<close>

definition white_space :: "string list" where
  "white_space = map (map char_of) ([[9], [10], [11], [12], [13], [32], [194, 133], [194, 160], [225, 154, 128]] @
     map (\<lambda>b. [226, 128, 128 + b]) [0..<11] @ [[226, 128, 168], [226, 128, 169], [226, 128, 175], [226, 129, 159], [227, 128, 128 :: nat]])"

definition starts_with :: "string \<Rightarrow> string \<Rightarrow> bool" where
  "starts_with s w \<longleftrightarrow> w \<noteq> [] \<and> take (length w) s = w"

lemma starts_with_shorter: "find (starts_with s) ws = Some w \<Longrightarrow> length (drop (length w) s) < length s"
proof -
  assume "find (starts_with s) ws = Some w"
  then have "w \<noteq> []" "take (length w) s = w" by (auto simp: find_Some_iff starts_with_def)
  then show ?thesis by (cases s) auto
qed

function trim_front :: "string list \<Rightarrow> string \<Rightarrow> string" where
  "trim_front ws s = (case find (starts_with s) ws of None \<Rightarrow> s | Some w \<Rightarrow> trim_front ws (drop (length w) s))"
  by pat_completeness auto
termination
  by (relation "measure (\<lambda>(_, s). length s)") (auto dest: starts_with_shorter)

declare trim_front.simps [simp del]

definition TrimSpace :: "string \<Rightarrow> string" where
  "TrimSpace s = rev (trim_front (map rev white_space) (rev (trim_front white_space s)))"

lemma trim_front_Nil [simp]: "trim_front ws [] = []"
proof -
  have "find (starts_with []) ws = None" by (auto simp: find_None_iff starts_with_def)
  then show ?thesis by (simp add: trim_front.simps)
qed

lemma TrimSpace_Nil [simp]: "TrimSpace [] = []"
  by (simp add: TrimSpace_def)

section \<open>Go maps as association lists\<close>

fun amap_put :: "'k \<Rightarrow> 'v \<Rightarrow> ('k, 'v) amap \<Rightarrow> ('k, 'v) amap" where
  "amap_put k v [] = [(k, v)]"
| "amap_put k v ((k', v') # m) = (if k' = k then (k, v) # m else (k', v') # amap_put k v m)"

definition amap_del :: "'k \<Rightarrow> ('k, 'v) amap \<Rightarrow> ('k, 'v) amap" where
  "amap_del k m = filter (\<lambda>p. fst p \<noteq> k) m"

lemma map_of_amap_put [amap_simps]: "map_of (amap_put k v m) = (map_of m)(k \<mapsto> v)"
  by (induction k v m rule: amap_put.induct) (auto simp: fun_eq_iff)

lemma keys_amap_put [amap_simps]: "fst ` set (amap_put k v m) = insert k (fst ` set m)"
  by (induction k v m rule: amap_put.induct) auto

lemma distinct_amap_put [amap_simps]:
  "distinct (map fst m) \<Longrightarrow> distinct (map fst (amap_put k v m))"
proof (induction k v m rule: amap_put.induct)
  case (2 k v k' v' m)
  then show ?case
    using keys_amap_put [of k v m] by auto
qed simp

lemma map_of_amap_del [amap_simps]: "map_of (amap_del k m) = (map_of m)(k := None)"
  by (induction m) (auto simp: amap_del_def fun_eq_iff)

lemma distinct_amap_del [amap_simps]:
  "distinct (map fst m) \<Longrightarrow> distinct (map fst (amap_del k m))"
  by (simp add: amap_del_def distinct_map_filter)

lemma amap_put_in: "p \<in> set (amap_put k v m) \<Longrightarrow> p = (k, v) \<or> p \<in> set m"
  by (induction k v m rule: amap_put.induct) (auto split: if_splits)

lemma set_amap_del: "set (amap_del k m) = {p \<in> set m. fst p \<noteq> k}"
  by (auto simp: amap_del_def)

lemma set_amap_put: "distinct (map fst m) \<Longrightarrow>
    set (amap_put k v m) = insert (k, v) {p \<in> set m. fst p \<noteq> k}"
  by (induction k v m rule: amap_put.induct) (auto simp: rev_image_eqI)

section \<open>Lists and multisets\<close>

lemma mset_filter_split: "mset (filter P xs) + mset (filter (\<lambda>x. \<not> P x) xs) = mset xs"
  by (simp add: multiset_partition [symmetric])

lemma sum_list_filter_le: "sum_list (map f (filter P xs)) \<le> sum_list (map (f :: 'a \<Rightarrow> nat) xs)"
  by (induction xs) auto

lemma drop_nth_Cons: "i < length xs \<Longrightarrow> drop i xs = xs ! i # drop (Suc i) xs"
  by (rule Cons_nth_drop_Suc [symmetric])

end
