(* ===== verification/Backoff.thy ===== *)
theory Backoff
  imports Panther_Prelude
begin

text \<open>
  The four packages under \<open>pkg/awsbatch\<close> send their requests through \<open>backoff.Retry\<close> of
  \<open>github.com/cenkalti/backoff\<close>, which is not part of the repository. It is a parameter
  \<open>retry\<close> of every definition that calls it; its documented behaviour is the relation
  \<open>retry_run\<close>: the operation is called at least once, a \<open>nil\<close> result ends the loop with
  \<open>nil\<close>, a \<open>PermanentError\<close> ends it with the wrapped error, and after any other error the
  operation is either called again or its error is returned (the policy ran out of time).

  The locales below state what a \<open>send\<close> method of these packages promises (nothing is lost
  between what the service acknowledged and what is still to be sent) and derive, once for all
  four packages, what the retry loop and the loop over the batches promise.
\<close>

datatype op_error = Permanent error | Transient error

type_synonym 's operation = "'s \<Rightarrow> op_error option \<times> 's"
type_synonym 's retry = "'s operation \<Rightarrow> 's \<Rightarrow> error option \<times> 's"

inductive retry_run :: "'s operation \<Rightarrow> 's \<Rightarrow> error option \<Rightarrow> 's \<Rightarrow> bool"
  for send :: "'s operation" where
  run_success: "send s = (None, s') \<Longrightarrow> retry_run send s None s'"
| run_permanent: "send s = (Some (Permanent e), s') \<Longrightarrow> retry_run send s (Some e) s'"
| run_give_up: "send s = (Some (Transient e), s') \<Longrightarrow> retry_run send s (Some e) s'"
| run_again: "send s = (Some (Transient e), s') \<Longrightarrow> retry_run send s' r s'' \<Longrightarrow>
    retry_run send s r s''"

inductive_cases retry_runE: "retry_run send s r s'"

definition backoff_retry :: "'s retry \<Rightarrow> bool" where
  "backoff_retry retry \<longleftrightarrow>
     (\<forall>send s. retry_run send s (fst (retry send s)) (snd (retry send s)))"

lemma backoff_retryD: "backoff_retry retry \<Longrightarrow> retry send s = (r, s') \<Longrightarrow> retry_run send s r s'"
  by (metis backoff_retry_def fst_conv snd_conv)

text \<open>A concrete policy, at most \<open>n\<close> further attempts: it shows that the documented behaviour
  can be met, and the witnesses run the model with it.\<close>

fun retry_attempts :: "nat \<Rightarrow> 's retry" where
  "retry_attempts n send s =
     (case send s of
        (None, s') \<Rightarrow> (None, s')
      | (Some (Permanent e), s') \<Rightarrow> (Some e, s')
      | (Some (Transient e), s') \<Rightarrow>
          (case n of 0 \<Rightarrow> (Some e, s') | Suc m \<Rightarrow> retry_attempts m send s'))"

declare retry_attempts.simps [simp del]

lemma retry_attempts_run:
  "retry_run send s (fst (retry_attempts n send s)) (snd (retry_attempts n send s))"
proof (induction n arbitrary: s)
  case 0
  show ?case
    by (subst (1 2) retry_attempts.simps)
       (auto split: prod.splits option.splits op_error.splits intro: retry_run.intros)
next
  case (Suc n)
  show ?case
    by (subst (1 2) retry_attempts.simps)
       (use Suc in \<open>auto split: prod.splits option.splits op_error.splits intro: retry_run.intros\<close>)
qed

lemma backoff_retry_attempts: "backoff_retry (retry_attempts n)"
  by (simp add: backoff_retry_def retry_attempts_run)

section \<open>The contract of a send method\<close>

text \<open>
  \<open>pending s\<close> is what the current request still holds, \<open>acked s\<close> what the service has
  acknowledged so far.
\<close>

locale retryable_send =
  fixes send :: "'s operation"
    and pending :: "'s \<Rightarrow> 'i multiset"
    and acked :: "'s \<Rightarrow> 'i multiset"
    and invar :: "'s \<Rightarrow> bool"
  assumes send_ok: "invar s \<Longrightarrow> send s = (None, s') \<Longrightarrow>
      invar s' \<and> acked s' = acked s + pending s"
    and send_transient: "invar s \<Longrightarrow> send s = (Some (Transient e), s') \<Longrightarrow>
      invar s' \<and> acked s' + pending s' = acked s + pending s"
    and send_permanent: "invar s \<Longrightarrow> send s = (Some (Permanent e), s') \<Longrightarrow>
      invar s' \<and> acked s' = acked s \<and> pending s' = pending s"
begin

lemma retry_run_conserves:
  assumes "retry_run send s r s'" and "invar s"
  shows "invar s' \<and>
    (if r = None then acked s' = acked s + pending s
     else acked s' + pending s' = acked s + pending s)"
  using assms
proof (induction rule: retry_run.induct)
  case (run_success s s')
  then show ?case using send_ok by simp
next
  case (run_permanent s e s')
  then show ?case using send_permanent by simp
next
  case (run_give_up s e s')
  then show ?case using send_transient by simp
next
  case (run_again s e s' r s'')
  then show ?case using send_transient by metis
qed

end

section \<open>The loop over the batches\<close>

text \<open>\<open>run_batches\<close> loads one batch after the other into the request and sends it with
  retries, stopping at the first error. It is what the paging loops of the four packages come
  down to once their way of cutting batches is set apart.\<close>

fun run_batches :: "'s retry \<Rightarrow> 's operation \<Rightarrow> ('b \<Rightarrow> 's \<Rightarrow> 's) \<Rightarrow> 'b list \<Rightarrow> 's \<Rightarrow> error option \<times> 's"
where
  "run_batches retry send load [] s = (None, s)"
| "run_batches retry send load (b # bs) s =
     (case retry send (load b s) of
        (Some e, s') \<Rightarrow> (Some e, s')
      | (None, s') \<Rightarrow> run_batches retry send load bs s')"

lemma run_batches_append:
  "run_batches retry send load (as @ bs) s =
     (case run_batches retry send load as s of
        (Some e, s') \<Rightarrow> (Some e, s')
      | (None, s') \<Rightarrow> run_batches retry send load bs s')"
  by (induction as arbitrary: s) (auto split: prod.splits option.splits)

text \<open>\<open>base\<close> is the part of the invariant that does not concern the batch in the request (the
  request holds the caller's whole input before the first batch is loaded); \<open>counted\<close> is the
  request's success counter.\<close>

locale paged_send = retryable_send send pending acked invar
  for send :: "'s operation"
    and pending :: "'s \<Rightarrow> 'i multiset"
    and acked :: "'s \<Rightarrow> 'i multiset"
    and invar :: "'s \<Rightarrow> bool" +
  fixes base :: "'s \<Rightarrow> bool"
    and counted :: "'s \<Rightarrow> int"
    and load :: "'b \<Rightarrow> 's \<Rightarrow> 's"
    and contents :: "'b \<Rightarrow> 'i multiset"
    and fits :: "'b \<Rightarrow> bool"
  assumes invar_base: "invar s \<Longrightarrow> base s"
    and counted_acked: "base s \<Longrightarrow> counted s = int (size (acked s))"
    and load_invar: "base s \<Longrightarrow> fits b \<Longrightarrow> invar (load b s)"
    and load_pending: "pending (load b s) = contents b"
    and load_acked: "acked (load b s) = acked s"
begin

lemma run_batches_ok:
  assumes "backoff_retry retry"
  shows "run_batches retry send load bs s = (None, s') \<Longrightarrow> base s \<Longrightarrow> list_all fits bs \<Longrightarrow>
    base s' \<and> acked s' = acked s + sum_list (map contents bs)"
proof (induction bs arbitrary: s)
  case (Cons b bs)
  obtain r s1 where r: "retry send (load b s) = (r, s1)" by (cases "retry send (load b s)")
  with Cons.prems have none: "r = None" by (auto split: option.splits)
  have "invar (load b s)" using Cons.prems load_invar by simp
  from retry_run_conserves [OF backoff_retryD [OF assms r] this] none
  have "base s1" "acked s1 = acked s + contents b"
    by (simp_all add: load_pending load_acked invar_base)
  with Cons r none show ?case by (simp add: add.assoc)
qed simp

lemma run_batches_err:
  assumes "backoff_retry retry"
  shows "run_batches retry send load bs s = (Some e, s') \<Longrightarrow> base s \<Longrightarrow> list_all fits bs \<Longrightarrow>
    invar s' \<and> (\<exists>rest. acked s' + pending s' + rest = acked s + sum_list (map contents bs))"
proof (induction bs arbitrary: s)
  case (Cons b bs)
  obtain r s1 where r: "retry send (load b s) = (r, s1)" by (cases "retry send (load b s)")
  have "invar (load b s)" using Cons.prems load_invar by simp
  note conserve = retry_run_conserves [OF backoff_retryD [OF assms r] this]
  show ?case
  proof (cases r)
    case None
    with conserve have s1: "base s1" "acked s1 = acked s + contents b"
      by (simp_all add: load_pending load_acked invar_base)
    moreover have "run_batches retry send load bs s1 = (Some e, s')"
      using Cons.prems r None by simp
    ultimately show ?thesis using Cons.IH [of s1] Cons.prems(3) by (simp add: add.assoc)
  next
    case (Some e')
    with Cons.prems r have "s' = s1" by simp
    with conserve Some show ?thesis
      by (auto simp: load_pending load_acked add.assoc intro!: exI [of _ "sum_list (map contents bs)"])
  qed
qed simp

lemma run_batches_base:
  "backoff_retry retry \<Longrightarrow> run_batches retry send load bs s = (r, s') \<Longrightarrow> base s \<Longrightarrow>
   list_all fits bs \<Longrightarrow> base s'"
  by (cases r) (use run_batches_ok run_batches_err invar_base in blast)+

lemma run_batches_acked_le:
  assumes "backoff_retry retry" "run_batches retry send load bs s = (r, s')" "base s"
    "list_all fits bs"
  shows "acked s' \<subseteq># acked s + sum_list (map contents bs)"
proof (cases r)
  case None
  with run_batches_ok assms have "acked s' = acked s + sum_list (map contents bs)" by blast
  then show ?thesis by simp
next
  case (Some e)
  with run_batches_err assms obtain rest
    where "acked s' + pending s' + rest = acked s + sum_list (map contents bs)"
    by blast
  then show ?thesis by (metis add.assoc mset_subset_eq_add_left)
qed

end

section \<open>Errors of the AWS clients\<close>

text \<open>An error of a client call: one with an AWS error code (\<open>awserr.Error\<close>) or any other.\<close>

datatype aws_code = ProvisionedThroughputExceeded | InternalServerError | OtherCode string

datatype call_error = AwsErr aws_code error | OtherErr error

fun call_error_text :: "call_error \<Rightarrow> error" where
  "call_error_text (AwsErr c e) = e"
| "call_error_text (OtherErr e) = e"

section \<open>Paging by index\<close>

text \<open>
  The loop that \<open>kinesisbatch.PutRecords\<close> and \<open>s3batch.DeleteObjects\<close> share line by line:
  \<open>for i := 0; i < len(all); i += max\<close>, the last page being whatever is left. The page size is a
  positive constant of each package; the test for 0 only makes the recursion total.
\<close>

function page_loop :: "nat \<Rightarrow> 's retry \<Rightarrow> 's operation \<Rightarrow> ('a list \<Rightarrow> 's \<Rightarrow> 's) \<Rightarrow> 'a list \<Rightarrow> nat \<Rightarrow> 's
    \<Rightarrow> error option \<times> 's" where
  "page_loop m retry send load all i s =
     (if m = 0 \<or> \<not> i < length all then (None, s)
      else (case retry send
              (load (if i + m \<ge> length all then drop i all else take m (drop i all)) s) of
              (Some e, s') \<Rightarrow> (Some e, s')
            | (None, s') \<Rightarrow> page_loop m retry send load all (i + m) s'))"
  by pat_completeness auto
termination
  by (relation "measure (\<lambda>(m, _, _, _, all, i, _). length all - i)") auto

declare page_loop.simps [simp del]

function pages :: "nat \<Rightarrow> 'a list \<Rightarrow> 'a list list" where
  "pages m xs = (if m = 0 \<or> xs = [] then [] else take m xs # pages m (drop m xs))"
  by pat_completeness auto
termination
  by (relation "measure (\<lambda>(m, xs). length xs)") auto

declare pages.simps [simp del]

lemma pages_concat: "0 < m \<Longrightarrow> concat (pages m xs) = xs"
  by (induction m xs rule: pages.induct) (subst pages.simps, simp)

lemma pages_bounded: "0 < m \<Longrightarrow> list_all (\<lambda>p. p \<noteq> [] \<and> length p \<le> m) (pages m xs)"
proof (induction m xs rule: pages.induct)
  case (1 m xs)
  then show ?case by (subst pages.simps) auto
qed

lemma page_loop_run_batches:
  "0 < m \<Longrightarrow> page_loop m retry send load all i s = run_batches retry send load (pages m (drop i all)) s"
proof (induction m retry send load all i s rule: page_loop.induct)
  case (1 m retry send load all i s)
  show ?case
  proof (cases "i < length all")
    case False
    then show ?thesis by (simp add: page_loop.simps pages.simps)
  next
    case True
    then have step: "pages m (drop i all) =
        (if i + m \<ge> length all then drop i all else take m (drop i all)) # pages m (drop (i + m) all)"
      using "1.prems" by (subst pages.simps) (auto simp: add.commute)
    show ?thesis
      using True "1.prems" "1.IH"
      by (subst page_loop.simps) (auto simp: step split: prod.split option.split)
  qed
qed

lemma sum_list_mset_concat: "sum_list (map mset xss) = mset (concat xss)"
  by (induction xss) simp_all

locale page_sender = paged_send send pending acked invar base counted load mset fits
  for send :: "'s operation"
    and pending :: "'s \<Rightarrow> 'i multiset"
    and acked :: "'s \<Rightarrow> 'i multiset"
    and invar :: "'s \<Rightarrow> bool"
    and base :: "'s \<Rightarrow> bool"
    and counted :: "'s \<Rightarrow> int"
    and load :: "'i list \<Rightarrow> 's \<Rightarrow> 's"
    and fits :: "'i list \<Rightarrow> bool" +
  fixes page_size :: nat
  assumes page_size_pos: "0 < page_size"
    and page_fits: "p \<noteq> [] \<Longrightarrow> length p \<le> page_size \<Longrightarrow> fits p"
begin

lemma page_loop_ok:
  assumes "backoff_retry retry" "base s" "page_loop page_size retry send load all 0 s = (r, s')"
  shows "base s' \<and> acked s' \<subseteq># acked s + mset all \<and> (r = None \<longrightarrow> acked s' = acked s + mset all)"
proof -
  have run: "run_batches retry send load (pages page_size all) s = (r, s')"
    using assms(3) page_loop_run_batches [OF page_size_pos, of retry send load all 0 s] by simp
  have all_fit: "list_all fits (pages page_size all)"
    using pages_bounded [OF page_size_pos, of all] page_fits by (auto simp: list_all_iff)
  have whole: "sum_list (map mset (pages page_size all)) = mset all"
    by (simp add: sum_list_mset_concat pages_concat page_size_pos)
  show ?thesis
    using run_batches_base [OF assms(1) run assms(2) all_fit]
      run_batches_acked_le [OF assms(1) run assms(2) all_fit]
      run_batches_ok [OF assms(1) _ assms(2) all_fit] run
    by (simp add: whole)
qed

end

end
