(* ===== verification/Awsbatch_SQS.thy ===== *)
theory Awsbatch_SQS
  imports Backoff
begin

text \<open>
  \<open>pkg/awsbatch/sqsbatch/send_message_batch.go\<close>: sending any number of messages to SQS in
  batches that respect the service's limits, with retries of the entries the service rejected.

  The SQS client is a parameter: a function of the calls made so far and the entries of this
  call. \<open>sqs_client_ok\<close> is what AWS documents of \<open>SendMessageBatch\<close>: a batch with repeated ids is
  refused as a whole, and otherwise every entry is reported exactly once, as successful or as
  failed. The record of a request carries the history of its calls, so that what the service
  acknowledged can be stated.
\<close>

record sqs_entry =
  Id :: string
  MessageBody :: "string option"
  DelaySeconds :: "int option"

record sqs_response =
  Successful :: "string list"
  Failed :: "(string \<times> string) list" \<comment> \<open>id and message\<close>

type_synonym sqs_call = "sqs_entry list \<times> (error + sqs_response)"
type_synonym sqs_client = "sqs_call list \<Rightarrow> sqs_entry list \<Rightarrow> error + sqs_response"

record sendMessageBatchRequest =
  sqs_Entries :: "sqs_entry list"
  sqs_successCount :: int
  sqs_calls :: "sqs_call list"

abbreviation maxMessages :: nat where "maxMessages \<equiv> 10"
abbreviation maxMessageBytes :: nat where "maxMessageBytes \<equiv> 260000"

definition sqs_send :: "sqs_client \<Rightarrow> sendMessageBatchRequest operation" where
  "sqs_send client r =
     (let es = sqs_Entries r;
          resp = client (sqs_calls r) es;
          r1 = r\<lparr>sqs_calls := sqs_calls r @ [(es, resp)]\<rparr>
      in case resp of
           Inl e \<Rightarrow> (Some (Permanent e), r1)
         | Inr response \<Rightarrow>
             (let r2 = r1\<lparr>sqs_successCount :=
                         sqs_successCount r1 + int (length (Successful response))\<rparr>
              in case Failed response of
                   [] \<Rightarrow> (None, r2)
                 | (_, msg) # _ \<Rightarrow>
                     (let retryIDs = map fst (Failed response);
                          retryEntries = filter (\<lambda>entry. Id entry \<in> set retryIDs) es
                      in (Some (Transient (msg @ '': '' @ Itoa (int (length (Failed response)))
                            @ '' unprocessed items'')),
                          r2\<lparr>sqs_Entries := retryEntries\<rparr>))))"

text \<open>\<open>len(aws.StringValue(entry.MessageBody))\<close>, which reads a nil body as empty.\<close>

definition entry_size :: "sqs_entry \<Rightarrow> nat" where
  "entry_size e = length (case MessageBody e of None \<Rightarrow> [] | Some b \<Rightarrow> b)"

text \<open>The inner loop. Its variables are \<open>input.Entries\<close>, \<open>currentBatchSize\<close> and
  \<open>bigMessages\<close>; it takes entries from the front of \<open>allEntries[i:]\<close>, setting over-sized ones
  aside, and stops when the next entry would exceed the number or the size of a batch. The result
  is the new \<open>allEntries[i:]\<close> with the variables. The loop is entered with at least one entry
  left.\<close>

type_synonym batch_vars = "sqs_entry list \<times> nat \<times> sqs_entry list"

fun add_entry :: "sqs_entry \<Rightarrow> batch_vars \<Rightarrow> batch_vars" where
  "add_entry x (entries, currentBatchSize, bigMessages) =
     (if entry_size x > maxMessageBytes then (entries, currentBatchSize, bigMessages @ [x])
      else (entries @ [x], currentBatchSize + entry_size x, bigMessages))"

fun batch_full :: "batch_vars \<Rightarrow> sqs_entry \<Rightarrow> bool" where
  "batch_full (entries, currentBatchSize, _) next_entry \<longleftrightarrow>
     length entries = maxMessages \<or> currentBatchSize + entry_size next_entry \<ge> maxMessageBytes"

fun fill_batch :: "sqs_entry list \<Rightarrow> batch_vars \<Rightarrow> sqs_entry list \<times> batch_vars" where
  "fill_batch [] vars = ([], vars)"
| "fill_batch [x] vars = ([], add_entry x vars)"
| "fill_batch (x # y # rest) vars =
     (if batch_full (add_entry x vars) y then (y # rest, add_entry x vars)
      else fill_batch (y # rest) (add_entry x vars))"

lemma fill_batch_rest_length: "length (fst (fill_batch xs vars)) \<le> length xs - 1"
  by (induction xs vars rule: fill_batch.induct) auto

text \<open>The outer loop: the error of the batch that failed for good, if one did, with
  \<open>bigMessages\<close> and the request.\<close>

function send_loop :: "sendMessageBatchRequest retry \<Rightarrow> sqs_client \<Rightarrow> sqs_entry list
    \<Rightarrow> sqs_entry list \<Rightarrow> sendMessageBatchRequest
    \<Rightarrow> error option \<times> sqs_entry list \<times> sendMessageBatchRequest" where
  "send_loop retry client rest bigMessages r =
     (if rest = [] then (None, bigMessages, r)
      else (let filled = fill_batch rest ([], 0, bigMessages);
                entries = fst (snd filled);
                big = snd (snd (snd filled));
                r1 = r\<lparr>sqs_Entries := entries\<rparr>
            in if entries = [] then (None, big, r1)
               else (case retry (sqs_send client) r1 of
                       (Some e, r2) \<Rightarrow> (Some e, big, r2)
                     | (None, r2) \<Rightarrow> send_loop retry client (fst filled) big r2)))"
  by pat_completeness auto
termination
proof (relation "measure (\<lambda>(_, _, rest, _, _). length rest)", goal_cases)
  case (2 retry client rest big r)
  have "length (fst (fill_batch rest ([], 0, big))) < length rest"
    using fill_batch_rest_length [of rest "([], 0, big)"] 2(1) by (cases rest) auto
  with 2 show ?case by simp
qed simp

declare send_loop.simps [simp del]

datatype sqs_error = ErrBatchRequestTooLong | ErrSend error

text \<open>\<open>err.Error()\<close>\<close>

fun sqs_error_text :: "sqs_error \<Rightarrow> error" where
  "sqs_error_text ErrBatchRequestTooLong = ''AWS.SimpleQueueService.BatchRequestTooLong''"
| "sqs_error_text (ErrSend err) = err"

text \<open>The slice \<open>allEntries[request.successCount:]\<close> panics when the count exceeds the length.\<close>

datatype sqs_result = SqsReturned "sqs_entry list" "sqs_error option" | SqsPanic

definition SendMessageBatch :: "sendMessageBatchRequest retry \<Rightarrow> sqs_client \<Rightarrow> sqs_entry list
    \<Rightarrow> sqs_result \<times> sendMessageBatchRequest" where
  "SendMessageBatch retry client allEntries =
     (case send_loop retry client allEntries []
             \<lparr>sqs_Entries = allEntries, sqs_successCount = 0, sqs_calls = []\<rparr> of
        (Some e, bigMessages, r) \<Rightarrow>
          (if sqs_successCount r > int (length allEntries) then SqsPanic
           else SqsReturned (drop (nat (sqs_successCount r)) allEntries @ bigMessages)
                  (Some (ErrSend e)), r)
      | (None, bigMessages, r) \<Rightarrow>
          (if bigMessages \<noteq> [] then SqsReturned bigMessages (Some ErrBatchRequestTooLong)
           else SqsReturned [] None, r))"

section \<open>What the service acknowledged\<close>

fun sqs_call_acked :: "sqs_call \<Rightarrow> sqs_entry multiset" where
  "sqs_call_acked (es, Inl e) = {#}"
| "sqs_call_acked (es, Inr resp) = mset (filter (\<lambda>e. Id e \<notin> set (map fst (Failed resp))) es)"

definition sqs_acked :: "sendMessageBatchRequest \<Rightarrow> sqs_entry multiset" where
  "sqs_acked r = sum_list (map sqs_call_acked (sqs_calls r))"

definition sqs_client_ok :: "sqs_client \<Rightarrow> bool" where
  "sqs_client_ok client \<longleftrightarrow> (\<forall>h es resp. client h es = Inr resp \<longrightarrow>
     distinct (map Id es) \<and>
     mset (Successful resp) + mset (map fst (Failed resp)) = mset (map Id es))"

text \<open>The limits of one call.\<close>

definition sqs_fits :: "sqs_entry list \<Rightarrow> bool" where
  "sqs_fits es \<longleftrightarrow> es \<noteq> [] \<and> length es \<le> maxMessages \<and>
     sum_list (map entry_size es) \<le> maxMessageBytes"

definition sqs_base :: "sqs_client \<Rightarrow> sendMessageBatchRequest \<Rightarrow> bool" where
  "sqs_base client r \<longleftrightarrow> sqs_client_ok client \<and>
     sqs_successCount r = int (size (sqs_acked r)) \<and>
     (\<forall>c \<in> set (sqs_calls r). sqs_fits (fst c))"

definition sqs_inv :: "sqs_client \<Rightarrow> sendMessageBatchRequest \<Rightarrow> bool" where
  "sqs_inv client r \<longleftrightarrow> sqs_base client r \<and> sqs_fits (sqs_Entries r)"

lemma sqs_client_okD:
  assumes "sqs_client_ok client" "client h es = Inr resp"
  shows "length (filter (\<lambda>e. Id e \<notin> set (map fst (Failed resp))) es) = length (Successful resp)"
    and "set (map fst (Failed resp)) \<subseteq> set (map Id es)"
proof -
  let ?F = "map fst (Failed resp)"
  from assms have d: "distinct (map Id es)" and m: "mset (Successful resp) + mset ?F = mset (map Id es)"
    unfolding sqs_client_ok_def by blast+
  from m have perm: "mset (Successful resp @ ?F) = mset (map Id es)" by simp
  with d have d2: "distinct (Successful resp @ ?F)" by (metis mset_eq_imp_distinct_iff)
  from perm have s: "set (Successful resp) \<union> set ?F = set (map Id es)"
    by (metis set_append set_mset_mset)
  then show "set ?F \<subseteq> set (map Id es)" by blast
  have "set (map Id (filter (\<lambda>e. Id e \<notin> set ?F) es)) = set (Successful resp)"
  proof -
    have "Id ` {x \<in> set es. Id x \<notin> set ?F} = Id ` set es - set ?F" by auto
    also have "\<dots> = set (Successful resp)" using s d2 by auto
    finally show ?thesis by simp
  qed
  moreover have "distinct (map Id (filter (\<lambda>e. Id e \<notin> set ?F) es))"
    using d by (rule distinct_map_filter)
  ultimately show "length (filter (\<lambda>e. Id e \<notin> set ?F) es) = length (Successful resp)"
    using d2 by (metis distinct_append distinct_card length_map)
qed

lemma sqs_acked_append: "sqs_calls r' = sqs_calls r @ [c] \<Longrightarrow> sqs_acked r' = sqs_acked r + sqs_call_acked c"
  by (simp add: sqs_acked_def)

lemma sqs_fits_filter: "sqs_fits es \<Longrightarrow> filter P es \<noteq> [] \<Longrightarrow> sqs_fits (filter P es)"
  using length_filter_le [of P es] sum_list_filter_le [of entry_size P es]
  unfolding sqs_fits_def by linarith

text \<open>The three ways a send can end, in terms of the call it makes.\<close>

lemma sqs_send_cases:
  assumes "sqs_send client r = (out, r')"
  obtains (permanent) e where "client (sqs_calls r) (sqs_Entries r) = Inl e" "out = Some (Permanent e)"
      "r' = r\<lparr>sqs_calls := sqs_calls r @ [(sqs_Entries r, Inl e)]\<rparr>"
    | (success) resp where "client (sqs_calls r) (sqs_Entries r) = Inr resp" "out = None"
      "Failed resp = []"
      "r' = r\<lparr>sqs_calls := sqs_calls r @ [(sqs_Entries r, Inr resp)],
        sqs_successCount := sqs_successCount r + int (length (Successful resp))\<rparr>"
    | (transient) resp e where "client (sqs_calls r) (sqs_Entries r) = Inr resp"
      "out = Some (Transient e)" "Failed resp \<noteq> []"
      "r' = r\<lparr>sqs_calls := sqs_calls r @ [(sqs_Entries r, Inr resp)],
        sqs_successCount := sqs_successCount r + int (length (Successful resp)),
        sqs_Entries := filter (\<lambda>e. Id e \<in> set (map fst (Failed resp))) (sqs_Entries r)\<rparr>"
  using assms by (auto simp: sqs_send_def Let_def split: sum.splits list.splits)

lemma sqs_base_call:
  assumes "sqs_base client r" "sqs_fits es" "client (sqs_calls r) es = Inr resp"
    "sqs_calls r' = sqs_calls r @ [(es, Inr resp)]"
    "sqs_successCount r' = sqs_successCount r + int (length (Successful resp))"
  shows "sqs_base client r'"
  using assms sqs_client_okD(1) [of client "sqs_calls r" es resp]
  by (auto simp: sqs_base_def sqs_acked_append [OF assms(4)] simp del: mset_filter)

interpretation sqs: paged_send
  "sqs_send client" "\<lambda>r. mset (sqs_Entries r)" sqs_acked "sqs_inv client" "sqs_base client"
  sqs_successCount "\<lambda>b r. r\<lparr>sqs_Entries := b\<rparr>" mset sqs_fits for client
proof (unfold_locales, goal_cases)
  case (1 s s')
  from 1(2) show ?case
  proof (cases rule: sqs_send_cases)
    case (success resp)
    with 1(1) have "sqs_base client s'" by (auto simp: sqs_inv_def intro: sqs_base_call)
    moreover have "sqs_acked s' = sqs_acked s + mset (sqs_Entries s)"
      using success by (subst sqs_acked_append [of s' s "(sqs_Entries s, Inr resp)"]) simp_all
    ultimately show ?thesis using 1(1) success by (simp add: sqs_inv_def)
  qed simp_all
next
  case (2 s e s')
  from 2(2) show ?case
  proof (cases rule: sqs_send_cases)
    case (transient resp e')
    with 2(1) have base: "sqs_base client s'" by (auto simp: sqs_inv_def intro: sqs_base_call)
    have "sqs_acked s' + mset (sqs_Entries s') = sqs_acked s + mset (sqs_Entries s)"
      using transient mset_filter_split [of "\<lambda>e. Id e \<in> set (map fst (Failed resp))" "sqs_Entries s"]
      by (subst sqs_acked_append [of s' s "(sqs_Entries s, Inr resp)"])
         (simp_all add: add.assoc add.commute)
    moreover have "sqs_Entries s' \<noteq> []"
      using transient sqs_client_okD(2) [of client "sqs_calls s" "sqs_Entries s" resp] 2(1)
      by (cases "Failed resp") (auto simp: sqs_inv_def sqs_base_def filter_empty_conv)
    ultimately show ?thesis
      using base 2(1) transient sqs_fits_filter by (auto simp: sqs_inv_def)
  qed simp_all
next
  case (3 s e s')
  from 3(2) show ?case
  proof (cases rule: sqs_send_cases)
    case (permanent e')
    then show ?thesis using 3(1) by (auto simp: sqs_inv_def sqs_base_def sqs_acked_def)
  qed simp_all
qed (auto simp: sqs_inv_def sqs_base_def sqs_acked_def)

section \<open>How the batches are cut\<close>

function cut_batches :: "sqs_entry list \<Rightarrow> sqs_entry list list" where
  "cut_batches rest =
     (if rest = [] then []
      else (let filled = fill_batch rest ([], 0, [])
            in if fst (snd filled) = [] then []
               else fst (snd filled) # cut_batches (fst filled)))"
  by pat_completeness auto
termination
proof (relation "measure length", goal_cases)
  case (2 rest)
  then show ?case
    using fill_batch_rest_length [of rest "([], 0, [])"] by (cases rest) auto
qed simp

declare cut_batches.simps [simp del]

lemma fill_batch_big:
  "fill_batch xs (es, n, big @ b) =
     (fst (fill_batch xs (es, n, b)), fst (snd (fill_batch xs (es, n, b))),
      fst (snd (snd (fill_batch xs (es, n, b)))), big @ snd (snd (snd (fill_batch xs (es, n, b)))))"
  by (induction xs "(es, n, b)" arbitrary: es n b rule: fill_batch.induct) auto

lemma fill_batch_big_Nil:
  "fst (fill_batch xs (es, n, big)) = fst (fill_batch xs (es, n, []))"
  "fst (snd (fill_batch xs (es, n, big))) = fst (snd (fill_batch xs (es, n, [])))"
  using fill_batch_big [of xs es n big "[]"] by simp_all

text \<open>The variables of the inner loop: the size is that of the entries taken, and both limits
  hold.\<close>

fun vars_ok :: "batch_vars \<Rightarrow> bool" where
  "vars_ok (entries, currentBatchSize, _) \<longleftrightarrow> length entries \<le> maxMessages \<and>
     currentBatchSize = sum_list (map entry_size entries) \<and> currentBatchSize \<le> maxMessageBytes"

lemma add_entry_ok:
  "vars_ok vars \<Longrightarrow> fst vars = [] \<or> \<not> batch_full vars x \<Longrightarrow> vars_ok (add_entry x vars)"
  by (cases vars) auto

lemma fill_batch_ok:
  "vars_ok vars \<Longrightarrow> xs = [] \<or> fst vars = [] \<or> \<not> batch_full vars (hd xs) \<Longrightarrow>
   vars_ok (snd (fill_batch xs vars))"
  by (induction xs vars rule: fill_batch.induct) (simp_all add: add_entry_ok del: vars_ok.simps)

lemma add_entry_small:
  "entry_size x \<le> maxMessageBytes \<Longrightarrow> fst (add_entry x vars) = fst vars @ [x] \<and>
   snd (snd (add_entry x vars)) = snd (snd vars)"
  by (cases vars) auto

lemma fill_batch_small:
  "\<forall>x \<in> set xs. entry_size x \<le> maxMessageBytes \<Longrightarrow>
   fst (snd (fill_batch xs vars)) @ fst (fill_batch xs vars) = fst vars @ xs \<and>
   snd (snd (snd (fill_batch xs vars))) = snd (snd vars)"
  by (induction xs vars rule: fill_batch.induct) (simp_all add: add_entry_small)

lemma add_entry_over_sized:
  "\<exists>ys. snd (snd (add_entry x vars)) = snd (snd vars) @ ys \<and>
     set ys \<subseteq> {x' \<in> {x}. entry_size x' > maxMessageBytes}"
  by (cases vars) auto

lemma fill_batch_over_sized:
  "\<exists>ys. snd (snd (snd (fill_batch xs vars))) = snd (snd vars) @ ys \<and>
     set ys \<subseteq> {x \<in> set xs. entry_size x > maxMessageBytes}"
proof (induction xs vars rule: fill_batch.induct)
  case (2 x vars)
  then show ?case using add_entry_over_sized [of x vars] by auto
next
  case (3 x y rest vars)
  obtain ys where ys: "snd (snd (add_entry x vars)) = snd (snd vars) @ ys"
    "set ys \<subseteq> {x' \<in> {x}. entry_size x' > maxMessageBytes}"
    using add_entry_over_sized by blast
  show ?case
  proof (cases "batch_full (add_entry x vars) y")
    case True
    with ys show ?thesis by auto
  next
    case False
    with 3 obtain zs
      where "snd (snd (snd (fill_batch (y # rest) (add_entry x vars)))) = snd (snd (add_entry x vars)) @ zs"
        "set zs \<subseteq> {x \<in> set (y # rest). entry_size x > maxMessageBytes}" by blast
    with ys False show ?thesis by (intro exI [of _ "ys @ zs"]) auto
  qed
qed simp

lemma fill_batch_rest_subset: "set (fst (fill_batch xs vars)) \<subseteq> set xs"
  by (induction xs vars rule: fill_batch.induct) auto

lemma cut_batches_fit: "list_all sqs_fits (cut_batches rest)"
proof (induction rest rule: cut_batches.induct)
  case (1 rest)
  have "vars_ok (snd (fill_batch rest ([], 0, [])))" by (rule fill_batch_ok) simp_all
  then have "fst (snd (fill_batch rest ([], 0, []))) \<noteq> [] \<Longrightarrow>
      sqs_fits (fst (snd (fill_batch rest ([], 0, []))))"
    by (cases "snd (fill_batch rest ([], 0, []))") (simp add: sqs_fits_def)
  with 1 show ?case by (subst cut_batches.simps) (simp add: Let_def)
qed

lemma cut_batches_small:
  "\<forall>x \<in> set rest. entry_size x \<le> maxMessageBytes \<Longrightarrow> concat (cut_batches rest) = rest"
proof (induction rest rule: cut_batches.induct)
  case (1 rest)
  let ?filled = "fill_batch rest ([], 0, [])"
  from fill_batch_small [of rest "([], 0, [])"] "1.prems"
  have split: "fst (snd ?filled) @ fst ?filled = rest" by simp
  then have small: "\<forall>x \<in> set (fst ?filled). entry_size x \<le> maxMessageBytes"
    using "1.prems" by (metis Un_iff set_append)
  show ?case
  proof (cases "rest = []")
    case True
    then show ?thesis by (simp add: cut_batches.simps)
  next
    case False
    with split have "fst (snd ?filled) \<noteq> []"
      using fill_batch_rest_length [of rest "([], 0, [])"]
      by (metis Nitpick.size_list_simp(2) Suc_n_not_le_n append_Nil diff_Suc_1 length_tl)
    with False "1.IH" [OF False refl _ small] split show ?thesis
      by (subst cut_batches.simps) (simp add: Let_def)
  qed
qed

lemma send_loop_run_batches:
  "send_loop retry client rest big r = (e, big', r') \<Longrightarrow>
   \<exists>r0. run_batches retry (sqs_send client) (\<lambda>b r. r\<lparr>sqs_Entries := b\<rparr>) (cut_batches rest) r = (e, r0) \<and>
     (r' = r0 \<or> r' = r0\<lparr>sqs_Entries := []\<rparr>)"
proof (induction retry client rest big r rule: send_loop.induct)
  case (1 retry client rest big r)
  note fb = fill_batch_big_Nil [of rest "[]" 0 big]
  show ?case
  proof (cases "rest = [] \<or> fst (snd (fill_batch rest ([], 0, big))) = []")
    case True
    then have "(e, big', r') = (if rest = [] then (None, big, r)
        else (None, snd (snd (snd (fill_batch rest ([], 0, big)))), r\<lparr>sqs_Entries := []\<rparr>))"
      using "1.prems" by (auto simp: send_loop.simps [of retry client rest big r] Let_def)
    moreover have "cut_batches rest = []"
      using True fb by (subst cut_batches.simps) (auto simp: Let_def)
    ultimately show ?thesis by (auto split: if_splits)
  next
    case False
    let ?r1 = "r\<lparr>sqs_Entries := fst (snd (fill_batch rest ([], 0, big)))\<rparr>"
    obtain e1 r2 where ret: "retry (sqs_send client) ?r1 = (e1, r2)"
      by (cases "retry (sqs_send client) ?r1")
    have cut: "cut_batches rest = fst (snd (fill_batch rest ([], 0, big))) #
        cut_batches (fst (fill_batch rest ([], 0, big)))"
      using False fb by (subst cut_batches.simps) (simp add: Let_def)
    show ?thesis
    proof (cases e1)
      case None
      with False ret "1.prems"
      have "send_loop retry client (fst (fill_batch rest ([], 0, big)))
          (snd (snd (snd (fill_batch rest ([], 0, big))))) r2 = (e, big', r')"
        by (simp add: send_loop.simps [of retry client rest big r] Let_def)
      with "1.IH" [OF _ refl refl refl refl _ ret [symmetric]] False None ret cut
      show ?thesis by simp
    next
      case (Some e2)
      with False ret "1.prems" cut show ?thesis
        by (auto simp: send_loop.simps [of retry client rest big r] Let_def)
    qed
  qed
qed

lemma send_loop_big:
  "send_loop retry client rest big r = (e, big', r') \<Longrightarrow>
   \<exists>ys. big' = big @ ys \<and> set ys \<subseteq> {x \<in> set rest. entry_size x > maxMessageBytes}"
proof (induction retry client rest big r rule: send_loop.induct)
  case (1 retry client rest big r)
  let ?filled = "fill_batch rest ([], 0, big)"
  from fill_batch_over_sized [of rest "([], 0, big)"] obtain ys
    where b: "snd (snd (snd ?filled)) = big @ ys"
      "set ys \<subseteq> {x \<in> set rest. entry_size x > maxMessageBytes}" by auto
  obtain e1 r2 where ret: "retry (sqs_send client) (r\<lparr>sqs_Entries := fst (snd ?filled)\<rparr>) = (e1, r2)"
    by (cases "retry (sqs_send client) (r\<lparr>sqs_Entries := fst (snd ?filled)\<rparr>)")
  show ?case
  proof (cases "rest \<noteq> [] \<and> fst (snd ?filled) \<noteq> [] \<and> e1 = None")
    case False
    then have "big' = big \<or> big' = snd (snd (snd ?filled))"
      using "1.prems" ret
      by (auto simp: send_loop.simps [of retry client rest big r] Let_def split: if_splits option.splits)
    with b show ?thesis by auto
  next
    case True
    with "1.prems" ret have "send_loop retry client (fst ?filled) (snd (snd (snd ?filled))) r2 = (e, big', r')"
      by (simp add: send_loop.simps [of retry client rest big r] Let_def)
    with "1.IH" [OF _ refl refl refl refl _ ret [symmetric]] True obtain zs
      where "big' = snd (snd (snd ?filled)) @ zs"
        "set zs \<subseteq> {x \<in> set (fst ?filled). entry_size x > maxMessageBytes}" by auto
    with b fill_batch_rest_subset [of rest "([], 0, big)"] show ?thesis
      by (intro exI [of _ "ys @ zs"]) auto
  qed
qed

text \<open>Filling a batch loses no entry, and only takes entries that are not over-sized.\<close>

lemma add_entry_conserves:
  "mset (fst (add_entry x vars)) + mset (snd (snd (add_entry x vars))) =
     add_mset x (mset (fst vars) + mset (snd (snd vars)))"
  by (cases vars) auto

lemma fill_batch_conserves:
  "mset (fst (fill_batch xs vars)) + (mset (fst (snd (fill_batch xs vars))) + mset (snd (snd (snd (fill_batch xs vars))))) =
     mset xs + (mset (fst vars) + mset (snd (snd vars)))"
  by (induction xs vars rule: fill_batch.induct) (simp_all add: add_entry_conserves)

lemma fill_batch_takes_small:
  "\<forall>x \<in> set (fst vars). entry_size x \<le> maxMessageBytes \<Longrightarrow>
   \<forall>x \<in> set (fst (snd (fill_batch xs vars))). entry_size x \<le> maxMessageBytes"
proof (induction xs vars rule: fill_batch.induct)
  case (2 x vars)
  then show ?case by (cases vars) auto
next
  case (3 x y rest vars)
  then have "\<forall>z \<in> set (fst (add_entry x vars)). entry_size z \<le> maxMessageBytes" by (cases vars) auto
  with 3 show ?case by simp
qed simp

text \<open>An over-sized entry is always handed back, so when none is, there was none.\<close>

lemma send_loop_all_small:
  "send_loop retry client rest big r = (None, [], r') \<Longrightarrow> \<forall>x \<in> set rest. entry_size x \<le> maxMessageBytes"
proof (induction retry client rest big r rule: send_loop.induct)
  case (1 retry client rest big r)
  let ?filled = "fill_batch rest ([], 0, big)"
  show ?case
  proof (cases "rest = []")
    case False
    have Nil: "big = []" using send_loop_big [OF "1.prems"] by auto
    have conserve: "mset rest = mset (fst ?filled) + (mset (fst (snd ?filled)) + mset (snd (snd (snd ?filled))))"
      using fill_batch_conserves [of rest "([], 0, big)"] Nil by simp
    obtain e1 r2 where ret: "retry (sqs_send client) (r\<lparr>sqs_Entries := fst (snd ?filled)\<rparr>) = (e1, r2)"
      by (cases "retry (sqs_send client) (r\<lparr>sqs_Entries := fst (snd ?filled)\<rparr>)")
    have big: "snd (snd (snd ?filled)) = []"
      using "1.prems" False ret
      by (auto simp: send_loop.simps [of retry client rest big r] Let_def dest: send_loop_big
          split: if_splits prod.splits option.splits)
    have some: "fst (snd ?filled) \<noteq> []"
    proof
      assume "fst (snd ?filled) = []"
      with conserve big have "length rest = length (fst ?filled)" by (metis add.right_neutral mset.simps(1) size_mset)
      with fill_batch_rest_length [of rest "([], 0, big)"] False show False by (cases rest) auto
    qed
    with "1.prems" False ret have "send_loop retry client (fst ?filled) (snd (snd (snd ?filled))) r2 = (None, [], r')" "e1 = None"
      by (auto simp: send_loop.simps [of retry client rest big r] Let_def split: option.splits)
    with "1.IH" [OF False refl refl refl refl some ret [symmetric]]
    have "\<forall>x \<in> set (fst ?filled). entry_size x \<le> maxMessageBytes" by simp
    moreover have "set rest = set (fst ?filled) \<union> set (fst (snd ?filled))"
      using arg_cong [OF conserve, of set_mset] big by simp
    ultimately show ?thesis using fill_batch_takes_small [of "([], 0, big)" rest] by auto
  qed simp
qed

lemma add_entry_mset: "mset (fst (add_entry x vars)) \<subseteq># add_mset x (mset (fst vars))"
  by (cases vars) auto

lemma fill_batch_mset:
  "mset (fst (snd (fill_batch xs vars))) + mset (fst (fill_batch xs vars)) \<subseteq># mset (fst vars) + mset xs"
proof (induction xs vars rule: fill_batch.induct)
  case (2 x vars)
  then show ?case using add_entry_mset [of x vars] by simp
next
  case (3 x y rest vars)
  have "mset (fst (add_entry x vars)) + mset (y # rest) \<subseteq># mset (fst vars) + mset (x # y # rest)"
    using subset_mset.add_mono [OF add_entry_mset [of x vars] subset_mset.order_refl [of "mset (y # rest)"]]
    by simp
  with 3 show ?case by (auto intro: subset_mset.order_trans)
qed simp

lemma cut_batches_mset: "mset (concat (cut_batches rest)) \<subseteq># mset rest"
proof (induction rest rule: cut_batches.induct)
  case (1 rest)
  let ?filled = "fill_batch rest ([], 0, [])"
  have whole: "mset (fst (snd ?filled)) + mset (fst ?filled) \<subseteq># mset rest"
    using fill_batch_mset [of rest "([], 0, [])"] by simp
  show ?case
  proof (cases "rest = [] \<or> fst (snd ?filled) = []")
    case True
    then show ?thesis by (subst cut_batches.simps) (auto simp: Let_def)
  next
    case False
    with 1 have "mset (concat (cut_batches (fst ?filled))) \<subseteq># mset (fst ?filled)" by simp
    then have "mset (fst (snd ?filled)) + mset (concat (cut_batches (fst ?filled))) \<subseteq># mset rest"
      by (rule subset_mset.order_trans [OF subset_mset.add_left_mono whole])
    with False show ?thesis by (subst cut_batches.simps) (simp add: Let_def)
  qed
qed

lemma sqs_base_initial: "sqs_client_ok client \<Longrightarrow>
    sqs_base client \<lparr>sqs_Entries = es, sqs_successCount = 0, sqs_calls = []\<rparr>"
  by (simp add: sqs_base_def sqs_acked_def)

text \<open>What every run of the loop guarantees, from the interpretation of the batch interface.\<close>

lemma send_loop_ok:
  assumes "backoff_retry retry" "sqs_client_ok client"
    and loop: "send_loop retry client es [] \<lparr>sqs_Entries = es, sqs_successCount = 0, sqs_calls = []\<rparr>
      = (e, big, r)"
  shows "sqs_base client r" and "sqs_acked r \<subseteq># mset es"
    and "e = None \<Longrightarrow> sqs_acked r = mset (concat (cut_batches es))"
proof -
  let ?init = "\<lparr>sqs_Entries = es, sqs_successCount = 0, sqs_calls = []\<rparr>"
  let ?load = "\<lambda>b r. r\<lparr>sqs_Entries := b\<rparr>"
  from send_loop_run_batches [OF loop] obtain r0
    where run: "run_batches retry (sqs_send client) ?load (cut_batches es) ?init = (e, r0)"
      and r: "r = r0 \<or> r = r0\<lparr>sqs_Entries := []\<rparr>" by blast
  have same: "sqs_acked r = sqs_acked r0" "sqs_base client r \<longleftrightarrow> sqs_base client r0"
    using r by (auto simp: sqs_acked_def sqs_base_def)
  note init = sqs_base_initial [OF assms(2), of es]
  show "sqs_base client r"
    using sqs.run_batches_base [OF assms(1) run init cut_batches_fit] same by simp
  show "sqs_acked r \<subseteq># mset es"
    using sqs.run_batches_acked_le [OF assms(1) run init cut_batches_fit] same
      cut_batches_mset [of es] subset_mset.order_trans
    by (simp add: sum_list_mset_concat) (simp add: sqs_acked_def)
  show "e = None \<Longrightarrow> sqs_acked r = mset (concat (cut_batches es))"
    using sqs.run_batches_ok [OF assms(1) _ init cut_batches_fit] run same
    by (simp add: sum_list_mset_concat) (simp add: sqs_acked_def)
qed

section \<open>Properties\<close>

definition sqs_accepting_client :: sqs_client where
  "sqs_accepting_client h es =
     (if distinct (map Id es) then Inr \<lparr>Successful = map Id es, Failed = []\<rparr>
      else Inl ''BatchEntryIdsNotDistinct'')"

text \<open>A client that rejects the first entry of the first call.\<close>

definition sqs_flaky_client :: sqs_client where
  "sqs_flaky_client h es =
     (if \<not> distinct (map Id es) then Inl ''BatchEntryIdsNotDistinct''
      else if h = [] \<and> es \<noteq> []
      then Inr \<lparr>Successful = map Id (tl es), Failed = [(Id (hd es), ''throttled'')]\<rparr>
      else Inr \<lparr>Successful = map Id es, Failed = []\<rparr>)"

lemma sqs_flaky_client_ok: "sqs_client_ok sqs_flaky_client"
  unfolding sqs_client_ok_def
proof (intro allI impI)
  fix h es resp
  assume "sqs_flaky_client h es = Inr resp"
  then show "distinct (map Id es) \<and>
      mset (Successful resp) + mset (map fst (Failed resp)) = mset (map Id es)"
    by (cases es) (auto simp: sqs_flaky_client_def split: if_splits)
qed

lemmas sqs_run_simps = SendMessageBatch_def send_loop.simps retry_attempts.simps sqs_send_def
  Let_def entry_size_def sqs_flaky_client_def Itoa_def string_of_nat.simps digit_char_values

abbreviation sample_entry :: "string \<Rightarrow> string \<Rightarrow> sqs_entry" where
  "sample_entry i b \<equiv> \<lparr>Id = i, MessageBody = Some b, DelaySeconds = None\<rparr>"

lemma SendMessageBatch_no_error:
  assumes "backoff_retry retry" "sqs_client_ok client"
    and "SendMessageBatch retry client es = (SqsReturned xs None, r)"
  shows "xs = [] \<and> sqs_acked r = mset es \<and> sqs_successCount r = int (length es) \<and>
    (\<forall>x \<in> set es. entry_size x \<le> maxMessageBytes)"
proof -
  obtain e big r' where loop: "send_loop retry client es []
      \<lparr>sqs_Entries = es, sqs_successCount = 0, sqs_calls = []\<rparr> = (e, big, r')"
    by (cases "send_loop retry client es [] \<lparr>sqs_Entries = es, sqs_successCount = 0, sqs_calls = []\<rparr>")
  with assms(3) have r: "e = None" "r' = r" "xs = []" "big = []"
    by (auto simp: SendMessageBatch_def split: option.splits if_splits)
  have small: "\<forall>x \<in> set es. entry_size x \<le> maxMessageBytes"
    using send_loop_all_small loop r by metis
  with send_loop_ok [OF assms(1,2) loop] cut_batches_small [OF small] r show ?thesis
    using sqs.counted_acked [of client r] by simp
qed

text \<open>C1. When \<open>SendMessageBatch\<close> returns no error, none of the messages was over-sized, every message was
  acknowledged by the service exactly once, the success counter is the number of messages and no
  entry is handed back.\<close>

theorem SendMessageBatch_complete:
  assumes "backoff_retry retry" "sqs_client_ok client"
    and "SendMessageBatch retry client es = (SqsReturned xs None, r)"
  shows "xs = [] \<and> sqs_acked r = mset es \<and> sqs_successCount r = int (length es) \<and>
    (\<forall>x \<in> set es. entry_size x \<le> maxMessageBytes)"
  using assms by (rule SendMessageBatch_no_error)

theorem SendMessageBatch_complete_witness:
  "sqs_acked (snd (SendMessageBatch (retry_attempts 1) sqs_flaky_client
      [sample_entry ''0'' ''a'', sample_entry ''1'' ''bc'']))
    = {# sample_entry ''0'' ''a'', sample_entry ''1'' ''bc'' #}"
proof -
  let ?es = "[sample_entry ''0'' ''a'', sample_entry ''1'' ''bc'']"
  have "fst (SendMessageBatch (retry_attempts 1) sqs_flaky_client ?es) = SqsReturned [] None"
    by (simp add: sqs_run_simps)
  then have "SendMessageBatch (retry_attempts 1) sqs_flaky_client ?es =
      (SqsReturned [] None, snd (SendMessageBatch (retry_attempts 1) sqs_flaky_client ?es))"
    by (simp add: prod_eq_iff)
  from SendMessageBatch_complete [OF backoff_retry_attempts sqs_flaky_client_ok this]
  show ?thesis by simp
qed

text \<open>C31. Whatever the input and however the service answers, every call that is made carries at
  least one and at most ten entries and at most 260000 bytes of message bodies; over-sized
  messages are never sent.\<close>

theorem SendMessageBatch_limits:
  assumes "backoff_retry retry" "sqs_client_ok client"
    and "SendMessageBatch retry client es = (res, r)"
  shows "\<forall>(batch, _) \<in> set (sqs_calls r). batch \<noteq> [] \<and> length batch \<le> maxMessages \<and>
     sum_list (map entry_size batch) \<le> maxMessageBytes"
proof -
  obtain e big r' where loop: "send_loop retry client es []
      \<lparr>sqs_Entries = es, sqs_successCount = 0, sqs_calls = []\<rparr> = (e, big, r')"
    by (cases "send_loop retry client es [] \<lparr>sqs_Entries = es, sqs_successCount = 0, sqs_calls = []\<rparr>")
  with assms(3) have "r' = r"
    by (auto simp: SendMessageBatch_def split: option.splits if_splits)
  with send_loop_ok(1) [OF assms(1,2) loop] show ?thesis
    by (auto simp: sqs_base_def sqs_fits_def)
qed

theorem SendMessageBatch_limits_witness:
  "list_all (\<lambda>(batch, _). batch \<noteq> [] \<and> length batch \<le> maxMessages \<and> sum_list (map entry_size batch) \<le> maxMessageBytes)
     (sqs_calls (snd (SendMessageBatch (retry_attempts 1) sqs_flaky_client
        (map (\<lambda>i. sample_entry (Itoa i) ''m'') [0..11]))))"
  unfolding list_all_iff
  by (rule SendMessageBatch_limits [OF backoff_retry_attempts [of 1] sqs_flaky_client_ok])
     (rule prod.collapse [symmetric])

lemma SendMessageBatch_small:
  assumes "\<forall>x \<in> set es. entry_size x \<le> maxMessageBytes" "SendMessageBatch retry client es = (SqsReturned xs (Some e), r)"
  shows "e \<noteq> ErrBatchRequestTooLong"
proof -
  obtain err big r' where loop: "send_loop retry client es []
      \<lparr>sqs_Entries = es, sqs_successCount = 0, sqs_calls = []\<rparr> = (err, big, r')"
    by (cases "send_loop retry client es [] \<lparr>sqs_Entries = es, sqs_successCount = 0, sqs_calls = []\<rparr>")
  from send_loop_big [OF loop] assms(1) have "set big \<subseteq> {}" by fastforce
  with loop assms(2) show ?thesis by (auto simp: SendMessageBatch_def split: option.splits if_splits)
qed

text \<open>An error is the client's or ends with the number of unprocessed items.\<close>

lemma sqs_send_error:
  "sqs_send client r = (Some (Permanent e), r') \<Longrightarrow> \<exists>h es. client h es = Inl e"
  "sqs_send client r = (Some (Transient e), r') \<Longrightarrow> \<exists>msg. e = msg @ '' unprocessed items''"
  by (auto simp: sqs_send_def Let_def split: sum.splits list.splits)

lemma retry_run_sqs_error:
  "retry_run (sqs_send client) r (Some e) r' \<Longrightarrow> (\<exists>h es. client h es = Inl e) \<or> (\<exists>msg. e = msg @ '' unprocessed items'')"
  by (induction r "Some e" r' rule: retry_run.induct) (auto dest: sqs_send_error)

lemma send_loop_error:
  assumes "backoff_retry retry" "send_loop retry client rest big r = (Some e, xs, r')"
  shows "(\<exists>h es. client h es = Inl e) \<or> (\<exists>msg. e = msg @ '' unprocessed items'')"
  using assms
proof (induction retry client rest big r rule: send_loop.induct)
  case (1 retry client rest big r)
  let ?filled = "fill_batch rest ([], 0, big)"
  let ?r1 = "r\<lparr>sqs_Entries := fst (snd ?filled)\<rparr>"
  have ne: "rest \<noteq> []" "fst (snd ?filled) \<noteq> []"
    using 1(3) by (auto simp: send_loop.simps [of retry client rest] Let_def split: if_splits)
  obtain res r2 where run: "retry (sqs_send client) ?r1 = (res, r2)" by (cases "retry (sqs_send client) ?r1")
  show ?case
  proof (cases res)
    case None
    with 1(3) ne run have "send_loop retry client (fst ?filled) (snd (snd (snd ?filled))) r2 = (Some e, xs, r')"
      by (simp add: send_loop.simps [of retry client rest] Let_def)
    with 1(1) [OF ne(1) refl refl refl refl ne(2) run [symmetric]] None 1(2) show ?thesis by simp
  next
    case (Some e')
    with 1(3) ne run have "e' = e" by (simp add: send_loop.simps [of retry client rest] Let_def)
    with Some backoff_retryD [OF 1(2) run] show ?thesis by (auto dest: retry_run_sqs_error)
  qed
qed

lemma SendMessageBatch_error:
  assumes "backoff_retry retry" "SendMessageBatch retry client es = (SqsReturned xs (Some (ErrSend e)), r)"
  shows "(\<exists>h es. client h es = Inl e) \<or> (\<exists>msg. e = msg @ '' unprocessed items'')"
proof -
  obtain err big r' where loop: "send_loop retry client es [] \<lparr>sqs_Entries = es, sqs_successCount = 0, sqs_calls = []\<rparr> = (err, big, r')"
    by (cases "send_loop retry client es [] \<lparr>sqs_Entries = es, sqs_successCount = 0, sqs_calls = []\<rparr>")
  with assms(2) have "err = Some e" by (auto simp: SendMessageBatch_def split: option.splits if_splits)
  with send_loop_error [OF assms(1)] loop show ?thesis by blast
qed

lemma SendMessageBatch_two_big:
  assumes "entry_size b1 > maxMessageBytes" "entry_size b2 \<ge> maxMessageBytes"
  shows "SendMessageBatch retry client (b1 # b2 # rest) =
    (SqsReturned [b1] (Some ErrBatchRequestTooLong),
     \<lparr>sqs_Entries = [], sqs_successCount = 0, sqs_calls = []\<rparr>)"
  using assms by (simp add: SendMessageBatch_def send_loop.simps Let_def)

text \<open>C32. The call never panics, acknowledges no message more often than it was given, and what it
  returns under the code for over-sized requests are over-sized messages of the input.\<close>

theorem SendMessageBatch_safe:
  assumes "backoff_retry retry" "sqs_client_ok client"
    and "SendMessageBatch retry client es = (res, r)"
  shows "res \<noteq> SqsPanic \<and> sqs_acked r \<subseteq># mset es \<and>
    (\<forall>xs. res = SqsReturned xs (Some ErrBatchRequestTooLong) \<longrightarrow>
       xs \<noteq> [] \<and> set xs \<subseteq> {x \<in> set es. entry_size x > maxMessageBytes})"
proof -
  obtain e big r' where loop: "send_loop retry client es []
      \<lparr>sqs_Entries = es, sqs_successCount = 0, sqs_calls = []\<rparr> = (e, big, r')"
    by (cases "send_loop retry client es [] \<lparr>sqs_Entries = es, sqs_successCount = 0, sqs_calls = []\<rparr>")
  with assms(3) have r: "r' = r"
    by (auto simp: SendMessageBatch_def split: option.splits if_splits)
  note ok = send_loop_ok [OF assms(1,2) loop]
  have "sqs_successCount r \<le> int (length es)"
    using sqs.counted_acked [OF ok(1)] size_mset_mono [OF ok(2)] r by simp
  with assms(3) loop r ok(2) send_loop_big [OF loop] show ?thesis
    by (auto simp: SendMessageBatch_def split: option.splits if_splits)
qed

theorem SendMessageBatch_safe_witness:
  "sqs_acked (snd (SendMessageBatch (retry_attempts 0) sqs_flaky_client
      [sample_entry ''0'' ''a'', sample_entry ''1'' ''bc'']))
    \<subseteq># {# sample_entry ''0'' ''a'', sample_entry ''1'' ''bc'' #}"
  using SendMessageBatch_safe [OF backoff_retry_attempts [of 0] sqs_flaky_client_ok
      prod.collapse [symmetric],
      of "[sample_entry ''0'' ''a'', sample_entry ''1'' ''bc'']"]
  by simp

text \<open>An over-sized message followed by a message of 260000 bytes or more ends the whole
  operation: nothing is sent, only the first message is handed back, and every later message of
  the input is dropped although it was neither sent nor returned.\<close>

theorem SendMessageBatch_drops_rest:
  assumes "entry_size b1 > maxMessageBytes" "entry_size b2 \<ge> maxMessageBytes"
  shows "SendMessageBatch retry client (b1 # b2 # rest) =
    (SqsReturned [b1] (Some ErrBatchRequestTooLong),
     \<lparr>sqs_Entries = [], sqs_successCount = 0, sqs_calls = []\<rparr>)"
  using assms by (rule SendMessageBatch_two_big)

theorem SendMessageBatch_drops_rest_witness:
  "SendMessageBatch (retry_attempts 0) sqs_accepting_client
     [sample_entry ''0'' (replicate 260001 (CHR ''x'')), sample_entry ''1'' (replicate 260001 (CHR ''x'')),
      sample_entry ''2'' ''ok''] =
    (SqsReturned [sample_entry ''0'' (replicate 260001 (CHR ''x''))] (Some ErrBatchRequestTooLong),
     \<lparr>sqs_Entries = [], sqs_successCount = 0, sqs_calls = []\<rparr>)"
  by (rule SendMessageBatch_drops_rest) (simp_all add: entry_size_def)

text \<open>When a batch fails for good, the entries handed back are the input from position
  \<open>successCount\<close> on. They need not be the ones that failed: here the first message is rejected,
  the second is delivered, and the second is what the caller gets back.\<close>

theorem SendMessageBatch_returns_delivered:
  "SendMessageBatch (retry_attempts 0) sqs_flaky_client [sample_entry ''0'' ''a'', sample_entry ''1'' ''bc''] =
    (SqsReturned [sample_entry ''1'' ''bc''] (Some (ErrSend ''throttled: 1 unprocessed items'')),
     \<lparr>sqs_Entries = [sample_entry ''0'' ''a''], sqs_successCount = 1,
      sqs_calls = [([sample_entry ''0'' ''a'', sample_entry ''1'' ''bc''],
        Inr \<lparr>Successful = [''1''], Failed = [(''0'', ''throttled'')]\<rparr>)]\<rparr>)"
  by (simp add: sqs_run_simps)

end
