(* ===== verification/Awsbatch_Kinesis.thy ===== *)
theory Awsbatch_Kinesis
  imports Backoff
begin

text \<open>
  \<open>pkg/awsbatch/kinesisbatch/put_records.go\<close>: putting any number of records on a Kinesis stream in
  pages of 500, retrying the records the service could not take.

  The Kinesis client is a parameter. What AWS documents of \<open>PutRecords\<close>: a response carries one
  result per record, in the order of the request, a failed record has an error message, and
  \<open>FailedRecordCount\<close> is the number of failed records.
\<close>

record putRecords_response =
  FailedRecordCount :: "int option"
  kin_results :: "string option list" \<comment> \<open>the \<open>ErrorMessage\<close> of each result\<close>

type_synonym 'a kinesis_call = "'a list \<times> (call_error + putRecords_response)"
type_synonym 'a kinesis_client = "'a kinesis_call list \<Rightarrow> 'a list \<Rightarrow> call_error + putRecords_response"

record 'a putRecordsRequest =
  kin_Records :: "'a list"
  kin_successCount :: int
  kin_calls :: "'a kinesis_call list"

abbreviation maxRecords :: nat where "maxRecords \<equiv> 500"

definition retry_records :: "putRecords_response \<Rightarrow> 'a list \<Rightarrow> 'a list" where
  "retry_records response records =
     map snd (filter (\<lambda>(result, _). result \<noteq> None) (zip (kin_results response) records))"

definition kin_send :: "'a kinesis_client \<Rightarrow> 'a putRecordsRequest operation" where
  "kin_send client r =
     (let records = kin_Records r;
          resp = client (kin_calls r) records;
          r1 = r\<lparr>kin_calls := kin_calls r @ [(records, resp)]\<rparr>
      in case resp of
           Inl err \<Rightarrow>
             (case err of
                AwsErr ProvisionedThroughputExceeded e \<Rightarrow> (Some (Transient e), r1)
              | _ \<Rightarrow> (Some (Permanent (call_error_text err)), r1))
         | Inr response \<Rightarrow>
             (let r2 = r1\<lparr>kin_successCount := kin_successCount r1 + int (length records)\<rparr>
              in case FailedRecordCount response of
                   Some n \<Rightarrow>
                     if n > 0
                     then (Some (Transient (Itoa n @ '' failed records'')),
                           r2\<lparr>kin_successCount := kin_successCount r2 - n,
                              kin_Records := retry_records response records\<rparr>)
                     else (None, r2)
                 | None \<Rightarrow> (None, r2)))"

definition PutRecords :: "'a putRecordsRequest retry \<Rightarrow> 'a kinesis_client \<Rightarrow> 'a list
    \<Rightarrow> error option \<times> 'a putRecordsRequest" where
  "PutRecords retry client allRecords =
     page_loop maxRecords retry (kin_send client) (\<lambda>page r. r\<lparr>kin_Records := page\<rparr>) allRecords 0
       \<lparr>kin_Records = allRecords, kin_successCount = 0, kin_calls = []\<rparr>"

section \<open>What the service acknowledged\<close>

definition kinesis_client_ok :: "'a kinesis_client \<Rightarrow> bool" where
  "kinesis_client_ok client \<longleftrightarrow> (\<forall>h rs resp. client h rs = Inr resp \<longrightarrow>
     length (kin_results resp) = length rs \<and>
     (FailedRecordCount resp = Some (int (length (filter (\<lambda>m. m \<noteq> None) (kin_results resp)))) \<or>
      FailedRecordCount resp = None \<and> (\<forall>m \<in> set (kin_results resp). m = None)))"

fun kin_call_acked :: "'a kinesis_call \<Rightarrow> 'a multiset" where
  "kin_call_acked (rs, Inl e) = {#}"
| "kin_call_acked (rs, Inr resp) =
     mset (map snd (filter (\<lambda>(result, _). result = None) (zip (kin_results resp) rs)))"

definition kin_acked :: "'a putRecordsRequest \<Rightarrow> 'a multiset" where
  "kin_acked r = sum_list (map kin_call_acked (kin_calls r))"

definition kin_fits :: "'a list \<Rightarrow> bool" where
  "kin_fits page \<longleftrightarrow> page \<noteq> [] \<and> length page \<le> maxRecords"

definition kin_base :: "'a kinesis_client \<Rightarrow> 'a putRecordsRequest \<Rightarrow> bool" where
  "kin_base client r \<longleftrightarrow> kinesis_client_ok client \<and>
     kin_successCount r = int (size (kin_acked r)) \<and> (\<forall>c \<in> set (kin_calls r). kin_fits (fst c))"

definition kin_inv :: "'a kinesis_client \<Rightarrow> 'a putRecordsRequest \<Rightarrow> bool" where
  "kin_inv client r \<longleftrightarrow> kin_base client r \<and> kin_fits (kin_Records r)"

lemma zip_results_split:
  "length ms = length rs \<Longrightarrow>
   mset (map snd (filter (\<lambda>(m, _). m = None) (zip ms rs)))
     + mset (map snd (filter (\<lambda>(m, _). m \<noteq> None) (zip ms rs))) = mset rs"
  by (induction ms rs rule: list_induct2) auto

lemma zip_results_length:
  "length ms = length rs \<Longrightarrow>
   length (filter (\<lambda>(m, _). m \<noteq> None) (zip ms rs)) = length (filter (\<lambda>m. m \<noteq> None) ms)"
  by (induction ms rs rule: list_induct2) auto

lemma retry_records_split:
  "length (kin_results resp) = length rs \<Longrightarrow>
   kin_call_acked (rs, Inr resp) + mset (retry_records resp rs) = mset rs"
  unfolding retry_records_def kin_call_acked.simps by (rule zip_results_split)

lemma length_retry_records:
  "length (kin_results resp) = length rs \<Longrightarrow>
   length (retry_records resp rs) = length (filter (\<lambda>m. m \<noteq> None) (kin_results resp))"
  unfolding retry_records_def length_map by (rule zip_results_length)

lemma kin_acked_append: "kin_calls r' = kin_calls r @ [c] \<Longrightarrow> kin_acked r' = kin_acked r + kin_call_acked c"
  by (simp add: kin_acked_def)

lemma retry_records_le: "length (retry_records resp rs) \<le> length rs"
proof -
  have "length (retry_records resp rs) \<le> length (zip (kin_results resp) rs)"
    unfolding retry_records_def by (metis length_filter_le length_map)
  then show ?thesis by simp
qed

text \<open>The four ways a send can end.\<close>

lemma kin_send_cases:
  assumes "kin_send client r = (out, r')"
  obtains (permanent) e err where "out = Some (Permanent e)"
      "r' = r\<lparr>kin_calls := kin_calls r @ [(kin_Records r, Inl err)]\<rparr>"
    | (throttled) e err where "out = Some (Transient e)"
      "r' = r\<lparr>kin_calls := kin_calls r @ [(kin_Records r, Inl err)]\<rparr>"
    | (success) resp where "client (kin_calls r) (kin_Records r) = Inr resp" "out = None"
      "\<not> (\<exists>n. FailedRecordCount resp = Some n \<and> n > 0)"
      "r' = r\<lparr>kin_calls := kin_calls r @ [(kin_Records r, Inr resp)],
        kin_successCount := kin_successCount r + int (length (kin_Records r))\<rparr>"
    | (partial) resp n where "client (kin_calls r) (kin_Records r) = Inr resp"
      "out = Some (Transient (Itoa n @ '' failed records''))" "FailedRecordCount resp = Some n" "n > 0"
      "r' = r\<lparr>kin_calls := kin_calls r @ [(kin_Records r, Inr resp)],
        kin_successCount := kin_successCount r + int (length (kin_Records r)) - n,
        kin_Records := retry_records resp (kin_Records r)\<rparr>"
  using assms
  by (auto simp: kin_send_def Let_def split: sum.splits option.splits if_splits
      call_error.splits aws_code.splits)

lemma kin_response:
  assumes "kinesis_client_ok client" "client h rs = Inr resp"
  shows "kin_call_acked (rs, Inr resp) + mset (retry_records resp rs) = mset rs"
    and "FailedRecordCount resp = Some n \<Longrightarrow> n = int (length (retry_records resp rs))"
    and "FailedRecordCount resp = None \<Longrightarrow> retry_records resp rs = []"
proof -
  from assms have len: "length (kin_results resp) = length rs" and
    cnt: "FailedRecordCount resp = Some (int (length (filter (\<lambda>m. m \<noteq> None) (kin_results resp)))) \<or>
      FailedRecordCount resp = None \<and> (\<forall>m \<in> set (kin_results resp). m = None)"
    unfolding kinesis_client_ok_def by blast+
  show "kin_call_acked (rs, Inr resp) + mset (retry_records resp rs) = mset rs"
    by (rule retry_records_split [OF len])
  show "FailedRecordCount resp = Some n \<Longrightarrow> n = int (length (retry_records resp rs))"
    using cnt length_retry_records [OF len] by auto
  show "FailedRecordCount resp = None \<Longrightarrow> retry_records resp rs = []"
    using cnt by (auto simp: retry_records_def filter_empty_conv dest: set_zip_leftD)
qed

lemma kin_base_call:
  assumes "kin_base client r" "kin_fits rs" "client (kin_calls r) rs = Inr resp"
    "kin_calls r' = kin_calls r @ [(rs, Inr resp)]"
    "kin_successCount r' = kin_successCount r + int (length rs) - int (length (retry_records resp rs))"
  shows "kin_base client r'"
proof -
  have "size (kin_call_acked (rs, Inr resp)) + length (retry_records resp rs) = length rs"
    using kin_response(1) [of client "kin_calls r" rs resp] assms
    by (metis kin_base_def size_mset size_union)
  then show ?thesis using assms by (auto simp: kin_base_def kin_acked_append [OF assms(4)])
qed

interpretation kinesis: page_sender
  "kin_send client" "\<lambda>r. mset (kin_Records r)" kin_acked "kin_inv client" "kin_base client"
  kin_successCount "\<lambda>page r. r\<lparr>kin_Records := page\<rparr>" kin_fits maxRecords for client
proof (unfold_locales, goal_cases)
  case (1 s s')
  from 1(2) show ?case
  proof (cases rule: kin_send_cases)
    case (success resp)
    have ok: "kinesis_client_ok client" using 1(1) by (simp add: kin_inv_def kin_base_def)
    have none: "retry_records resp (kin_Records s) = []"
      using kin_response(2,3) [OF ok success(1)] success(3)
      by (cases "FailedRecordCount resp") fastforce+
    have "kin_base client s'"
      using 1(1) success none by (auto simp: kin_inv_def intro: kin_base_call)
    moreover have "kin_acked s' = kin_acked s + mset (kin_Records s)"
      using kin_response(1) [OF ok success(1)] none success(4)
      by (subst kin_acked_append [of s' s "(kin_Records s, Inr resp)"]) simp_all
    ultimately show ?thesis using 1(1) success by (simp add: kin_inv_def)
  qed simp_all
next
  case (2 s e s')
  have ok: "kinesis_client_ok client" using 2(1) by (simp add: kin_inv_def kin_base_def)
  from 2(2) show ?case
  proof (cases rule: kin_send_cases)
    case (throttled e' err)
    then show ?thesis using 2(1) by (auto simp: kin_inv_def kin_base_def kin_acked_def)
  next
    case (partial resp n)
    have n: "n = int (length (retry_records resp (kin_Records s)))"
      using kin_response(2) [OF ok partial(1,3)] .
    have "kin_base client s'"
      using 2(1) partial n by (auto simp: kin_inv_def intro: kin_base_call)
    moreover have "kin_acked s' + mset (kin_Records s') = kin_acked s + mset (kin_Records s)"
      using kin_response(1) [OF ok partial(1)] partial(5)
      by (subst kin_acked_append [of s' s "(kin_Records s, Inr resp)"]) (simp_all add: add.assoc)
    moreover have "kin_fits (kin_Records s')"
      using 2(1) partial(4,5) n retry_records_le [of resp "kin_Records s"]
      by (auto simp: kin_inv_def kin_fits_def)
    ultimately show ?thesis using partial(5) by (simp add: kin_inv_def)
  qed simp_all
next
  case (3 s e s')
  from 3(2) show ?case
  proof (cases rule: kin_send_cases)
    case (permanent e' err)
    then show ?thesis using 3(1) by (auto simp: kin_inv_def kin_base_def kin_acked_def)
  qed simp_all
qed (auto simp: kin_inv_def kin_base_def kin_acked_def kin_fits_def)

section \<open>Properties\<close>

text \<open>A client that cannot take the second record of the first call.\<close>

definition kinesis_flaky_client :: "'a kinesis_client" where
  "kinesis_flaky_client h rs =
     (let results = (case rs of
        a # b # rest \<Rightarrow> None # (if h = [] then Some ''throttled'' else None) # map (\<lambda>_. None) rest
      | _ \<Rightarrow> map (\<lambda>_. None) rs)
      in Inr \<lparr>FailedRecordCount = Some (int (length (filter (\<lambda>m. m \<noteq> None) results))),
              kin_results = results\<rparr>)"

lemma kinesis_flaky_client_ok: "kinesis_client_ok kinesis_flaky_client"
  by (auto simp: kinesis_client_ok_def kinesis_flaky_client_def Let_def split: list.splits)

text \<open>\<open>PutRecords\<close> sends only non-empty requests of at most 500 records, puts no record more
  often than it was given, keeps its success counter equal to the number of records the service
  took, and returns no error only when every record was taken exactly once.\<close>

theorem PutRecords_correct:
  assumes "backoff_retry retry" "kinesis_client_ok client" "PutRecords retry client rs = (err, r)"
  shows "(\<forall>(batch, _) \<in> set (kin_calls r). batch \<noteq> [] \<and> length batch \<le> maxRecords) \<and>
    kin_acked r \<subseteq># mset rs \<and> kin_successCount r = int (size (kin_acked r)) \<and>
    (err = None \<longrightarrow> kin_acked r = mset rs)"
proof -
  have init: "kin_base client \<lparr>kin_Records = rs, kin_successCount = 0, kin_calls = []\<rparr>"
    using assms(2) by (simp add: kin_base_def kin_acked_def)
  from kinesis.page_loop_ok [OF assms(1) init assms(3) [unfolded PutRecords_def]] show ?thesis
    by (auto simp: kin_base_def kin_acked_def kin_fits_def)
qed

theorem PutRecords_correct_witness:
  "kin_acked (snd (PutRecords (retry_attempts 1) kinesis_flaky_client [10, 20, 30 :: nat]))
     = {# 10, 20, 30 #}"
proof -
  let ?run = "PutRecords (retry_attempts 1) kinesis_flaky_client [10, 20, 30 :: nat]"
  have "fst ?run = None"
    by (simp add: PutRecords_def page_loop.simps retry_attempts.simps kin_send_def Let_def
        kinesis_flaky_client_def retry_records_def)
  then have "?run = (None, snd ?run)" by (simp add: prod_eq_iff)
  from PutRecords_correct [OF backoff_retry_attempts kinesis_flaky_client_ok this]
  show ?thesis by simp
qed

end
