(* ===== verification/Awsbatch_S3.thy ===== *)
theory Awsbatch_S3
  imports Backoff
begin

text \<open>
  \<open>pkg/awsbatch/s3batch/delete_objects.go\<close>: deleting any number of object versions in pages of
  1000, retrying those the service reports as failed. The retried identifiers are rebuilt from the
  keys and versions in the response, not taken from the request.

  What AWS documents of \<open>DeleteObjects\<close> (verbose mode, the default): every object of the request
  is reported once, as deleted or as an error with its key and version.
\<close>

record object_id =
  obj_Key :: string
  obj_VersionId :: "string option"

record delete_error =
  err_Key :: string
  err_VersionId :: "string option"
  err_Code :: string
  err_Message :: string

record deleteObjects_response =
  s3_Deleted :: "object_id list"
  s3_Errors :: "delete_error list"

type_synonym s3_call = "object_id list \<times> (error + deleteObjects_response)"
type_synonym s3_client = "s3_call list \<Rightarrow> object_id list \<Rightarrow> error + deleteObjects_response"

record deleteObjectsRequest =
  s3_Objects :: "object_id list"
  s3_deleted :: int
  s3_calls :: "s3_call list"

abbreviation maxObjects :: nat where "maxObjects \<equiv> 1000"

definition retry_object :: "delete_error \<Rightarrow> object_id" where
  "retry_object e = \<lparr>obj_Key = err_Key e, obj_VersionId = err_VersionId e\<rparr>"

definition s3_send :: "s3_client \<Rightarrow> deleteObjectsRequest operation" where
  "s3_send client r =
     (let objects = s3_Objects r;
          resp = client (s3_calls r) objects;
          r1 = r\<lparr>s3_calls := s3_calls r @ [(objects, resp)]\<rparr>
      in case resp of
           Inl e \<Rightarrow> (Some (Permanent e), r1)
         | Inr response \<Rightarrow>
             (let r2 = r1\<lparr>s3_deleted := s3_deleted r1 + int (length (s3_Deleted response))\<rparr>
              in if length (s3_Errors response) > 0
                 then (Some (Transient (Itoa (int (length (s3_Errors response))) @ '' unprocessed items'')),
                       r2\<lparr>s3_Objects := map retry_object (s3_Errors response)\<rparr>)
                 else (None, r2)))"

definition DeleteObjects :: "deleteObjectsRequest retry \<Rightarrow> s3_client \<Rightarrow> object_id list
    \<Rightarrow> error option \<times> deleteObjectsRequest" where
  "DeleteObjects retry client allObjects =
     page_loop maxObjects retry (s3_send client) (\<lambda>page r. r\<lparr>s3_Objects := page\<rparr>) allObjects 0
       \<lparr>s3_Objects = allObjects, s3_deleted = 0, s3_calls = []\<rparr>"

section \<open>What the service deleted\<close>

definition s3_client_ok :: "s3_client \<Rightarrow> bool" where
  "s3_client_ok client \<longleftrightarrow> (\<forall>h os resp. client h os = Inr resp \<longrightarrow>
     mset (s3_Deleted resp) + mset (map retry_object (s3_Errors resp)) = mset os)"

fun s3_call_acked :: "s3_call \<Rightarrow> object_id multiset" where
  "s3_call_acked (os, Inl e) = {#}"
| "s3_call_acked (os, Inr resp) = mset (s3_Deleted resp)"

definition s3_acked :: "deleteObjectsRequest \<Rightarrow> object_id multiset" where
  "s3_acked r = sum_list (map s3_call_acked (s3_calls r))"

definition s3_fits :: "object_id list \<Rightarrow> bool" where
  "s3_fits page \<longleftrightarrow> page \<noteq> [] \<and> length page \<le> maxObjects"

definition s3_base :: "s3_client \<Rightarrow> deleteObjectsRequest \<Rightarrow> bool" where
  "s3_base client r \<longleftrightarrow> s3_client_ok client \<and> s3_deleted r = int (size (s3_acked r)) \<and>
     (\<forall>c \<in> set (s3_calls r). s3_fits (fst c))"

definition s3_inv :: "s3_client \<Rightarrow> deleteObjectsRequest \<Rightarrow> bool" where
  "s3_inv client r \<longleftrightarrow> s3_base client r \<and> s3_fits (s3_Objects r)"

lemma s3_acked_append: "s3_calls r' = s3_calls r @ [c] \<Longrightarrow> s3_acked r' = s3_acked r + s3_call_acked c"
  by (simp add: s3_acked_def)

lemma s3_send_cases:
  assumes "s3_send client r = (out, r')"
  obtains (permanent) e where "out = Some (Permanent e)"
      "r' = r\<lparr>s3_calls := s3_calls r @ [(s3_Objects r, Inl e)]\<rparr>"
    | (success) resp where "client (s3_calls r) (s3_Objects r) = Inr resp" "out = None"
      "s3_Errors resp = []"
      "r' = r\<lparr>s3_calls := s3_calls r @ [(s3_Objects r, Inr resp)],
        s3_deleted := s3_deleted r + int (length (s3_Deleted resp))\<rparr>"
    | (partial) resp e where "client (s3_calls r) (s3_Objects r) = Inr resp"
      "out = Some (Transient e)" "s3_Errors resp \<noteq> []"
      "r' = r\<lparr>s3_calls := s3_calls r @ [(s3_Objects r, Inr resp)],
        s3_deleted := s3_deleted r + int (length (s3_Deleted resp)),
        s3_Objects := map retry_object (s3_Errors resp)\<rparr>"
  using assms by (auto simp: s3_send_def Let_def split: sum.splits if_splits)

lemma s3_base_call:
  assumes "s3_base client r" "s3_fits os" "s3_calls r' = s3_calls r @ [(os, Inr resp)]"
    "s3_deleted r' = s3_deleted r + int (length (s3_Deleted resp))"
  shows "s3_base client r'"
  using assms by (auto simp: s3_base_def s3_acked_append [OF assms(3)])

lemma s3_response:
  assumes "s3_client_ok client" "client h os = Inr resp"
  shows "mset (s3_Deleted resp) + mset (map retry_object (s3_Errors resp)) = mset os"
    and "length (s3_Errors resp) \<le> length os"
proof -
  from assms show split: "mset (s3_Deleted resp) + mset (map retry_object (s3_Errors resp)) = mset os"
    unfolding s3_client_ok_def by blast
  then have "size (mset (s3_Deleted resp)) + size (mset (map retry_object (s3_Errors resp))) = size (mset os)"
    by (metis size_union)
  then show "length (s3_Errors resp) \<le> length os" by simp
qed

interpretation s3_delete: page_sender
  "s3_send client" "\<lambda>r. mset (s3_Objects r)" s3_acked "s3_inv client" "s3_base client"
  s3_deleted "\<lambda>page r. r\<lparr>s3_Objects := page\<rparr>" s3_fits maxObjects for client
proof (unfold_locales, goal_cases)
  case (1 s s')
  from 1(2) show ?case
  proof (cases rule: s3_send_cases)
    case (success resp)
    have ok: "s3_client_ok client" using 1(1) by (simp add: s3_inv_def s3_base_def)
    have "s3_base client s'" using 1(1) success by (auto simp: s3_inv_def intro: s3_base_call)
    moreover have "s3_acked s' = s3_acked s + mset (s3_Objects s)"
      using s3_response(1) [OF ok success(1)] success(3,4)
      by (subst s3_acked_append [of s' s "(s3_Objects s, Inr resp)"]) simp_all
    ultimately show ?thesis using 1(1) success by (simp add: s3_inv_def)
  qed simp_all
next
  case (2 s e s')
  from 2(2) show ?case
  proof (cases rule: s3_send_cases)
    case (partial resp e')
    have ok: "s3_client_ok client" using 2(1) by (simp add: s3_inv_def s3_base_def)
    have "s3_base client s'" using 2(1) partial by (auto simp: s3_inv_def intro: s3_base_call)
    moreover have "s3_acked s' + mset (s3_Objects s') = s3_acked s + mset (s3_Objects s)"
      using s3_response(1) [OF ok partial(1)] partial(4)
      by (subst s3_acked_append [of s' s "(s3_Objects s, Inr resp)"]) (simp_all add: add.assoc)
    moreover have "s3_fits (s3_Objects s')"
      using 2(1) s3_response(2) [OF ok partial(1)] partial(3,4)
      by (auto simp: s3_inv_def s3_fits_def)
    ultimately show ?thesis by (simp add: s3_inv_def)
  qed simp_all
next
  case (3 s e s')
  from 3(2) show ?case
  proof (cases rule: s3_send_cases)
    case (permanent e')
    then show ?thesis using 3(1) by (auto simp: s3_inv_def s3_base_def s3_acked_def)
  qed simp_all
qed (auto simp: s3_inv_def s3_base_def s3_acked_def s3_fits_def)

section \<open>Properties\<close>

text \<open>A client that fails on the first object of the first call.\<close>

definition s3_flaky_client :: s3_client where
  "s3_flaky_client h os =
     (case os of
        x # rest \<Rightarrow>
          if h = []
          then Inr \<lparr>s3_Deleted = rest,
                    s3_Errors = [\<lparr>err_Key = obj_Key x, err_VersionId = obj_VersionId x,
                                  err_Code = ''SlowDown'', err_Message = ''retry''\<rparr>]\<rparr>
          else Inr \<lparr>s3_Deleted = os, s3_Errors = []\<rparr>
      | [] \<Rightarrow> Inl ''MalformedXML'')"

lemma s3_flaky_client_ok: "s3_client_ok s3_flaky_client"
  unfolding s3_client_ok_def
proof (intro allI impI)
  fix h os resp
  assume "s3_flaky_client h os = Inr resp"
  then show "mset (s3_Deleted resp) + mset (map retry_object (s3_Errors resp)) = mset os"
    by (cases os) (auto simp: s3_flaky_client_def retry_object_def split: if_splits)
qed

text \<open>\<open>DeleteObjects\<close> sends only non-empty requests of at most 1000 objects, deletes nothing it
  was not asked to delete, counts what was deleted, and returns no error only when every object
  version was deleted.\<close>

theorem DeleteObjects_correct:
  assumes "backoff_retry retry" "s3_client_ok client" "DeleteObjects retry client os = (err, r)"
  shows "(\<forall>(batch, _) \<in> set (s3_calls r). batch \<noteq> [] \<and> length batch \<le> maxObjects) \<and>
    s3_acked r \<subseteq># mset os \<and> s3_deleted r = int (size (s3_acked r)) \<and>
    (err = None \<longrightarrow> s3_acked r = mset os)"
proof -
  have init: "s3_base client \<lparr>s3_Objects = os, s3_deleted = 0, s3_calls = []\<rparr>"
    using assms(2) by (simp add: s3_base_def s3_acked_def)
  from s3_delete.page_loop_ok [OF assms(1) init assms(3) [unfolded DeleteObjects_def]] show ?thesis
    by (auto simp: s3_base_def s3_acked_def s3_fits_def)
qed

theorem DeleteObjects_correct_witness:
  "let os = [\<lparr>obj_Key = ''a'', obj_VersionId = None\<rparr>, \<lparr>obj_Key = ''b'', obj_VersionId = Some ''1''\<rparr>]
   in s3_acked (snd (DeleteObjects (retry_attempts 1) s3_flaky_client os)) = mset os"
proof -
  let ?os = "[\<lparr>obj_Key = ''a'', obj_VersionId = None\<rparr>, \<lparr>obj_Key = ''b'', obj_VersionId = Some ''1''\<rparr>]"
  let ?run = "DeleteObjects (retry_attempts 1) s3_flaky_client ?os"
  have "fst ?run = None"
    by (simp add: DeleteObjects_def page_loop.simps retry_attempts.simps s3_send_def Let_def
        s3_flaky_client_def retry_object_def)
  then have "?run = (None, snd ?run)" by (simp add: prod_eq_iff)
  from DeleteObjects_correct [OF backoff_retry_attempts s3_flaky_client_ok this]
  show ?thesis by simp
qed

end
