(* ===== verification/Awsbatch_Dynamo.thy ===== *)
theory Awsbatch_Dynamo
  imports Backoff
begin

text \<open>
  \<open>pkg/awsbatch/dynamodbbatch\<close>: \<open>BatchWriteItem\<close> writes any number of items in requests of at most
  25 with retries of the unprocessed ones; \<open>BatchGetItem\<close> reads any number of keys in requests of
  at most 100 and collects the pages of the answers.

  A request map (table name to items) is an association list in iteration order. The two nested
  loops over it are one recursion over the list of its (table, item) pairs, \<open>flat\<close>. The DynamoDB
  client is a parameter; AWS documents that the \<open>UnprocessedItems\<close> of a response are items of the
  request, none of whose lists is empty.
\<close>

definition flat :: "(string, 'a list) amap \<Rightarrow> (string \<times> 'a) list" where
  "flat m = concat (map (\<lambda>(table, items). map (Pair table) items) m)"

definition amap_append :: "'k \<Rightarrow> 'a \<Rightarrow> ('k, 'a list) amap \<Rightarrow> ('k, 'a list) amap" where
  "amap_append k x m = amap_put k ((case map_of m k of None \<Rightarrow> [] | Some xs \<Rightarrow> xs) @ [x]) m"

definition writeItemCount :: "(string, 'a list) amap \<Rightarrow> nat" where
  "writeItemCount m = foldl (\<lambda>result (_, val). result + length val) 0 m"

lemma flat_simps [simp]: "flat [] = []" "flat ((t, is) # m) = map (Pair t) is @ flat m"
  by (simp_all add: flat_def)

lemma writeItemCount_flat: "writeItemCount m = length (flat m)"
proof -
  have "foldl (\<lambda>result (_, val). result + length val) n m = n + length (flat m)" for n
    by (induction m arbitrary: n) (auto split: prod.splits)
  then show ?thesis by (simp add: writeItemCount_def)
qed

lemma mset_flat_amap_append: "mset (flat (amap_append t x m)) = add_mset (t, x) (mset (flat m))"
proof (induction m)
  case (Cons p m)
  then show ?case by (cases p) (auto simp: amap_append_def)
qed (simp add: amap_append_def)

definition group :: "(string \<times> 'a) list \<Rightarrow> (string, 'a list) amap" where
  "group ps = foldl (\<lambda>m (t, x). amap_append t x m) [] ps"

lemma group_snoc: "group (ps @ [(t, x)]) = amap_append t x (group ps)"
  by (simp add: group_def)

lemma group_Nil [simp]: "group [] = []"
  by (simp add: group_def)

lemma mset_flat_group: "mset (flat (group ps)) = mset ps"
  by (induction ps rule: rev_induct) (auto simp: group_snoc mset_flat_amap_append)

lemma length_flat_group: "length (flat (group ps)) = length ps"
  by (metis mset_flat_group size_mset)

section \<open>BatchWriteItem\<close>

type_synonym 'a bw_call = "(string, 'a list) amap \<times> (call_error + (string, 'a list) amap)"
type_synonym 'a bw_client = "'a bw_call list \<Rightarrow> (string, 'a list) amap \<Rightarrow> call_error + (string, 'a list) amap"

record 'a batchWriteRequest =
  bw_RequestItems :: "(string, 'a list) amap"
  bw_successCount :: int
  bw_calls :: "'a bw_call list"

abbreviation maxBatchWriteItems :: nat where "maxBatchWriteItems \<equiv> 25"

definition bw_send :: "'a bw_client \<Rightarrow> 'a batchWriteRequest operation" where
  "bw_send client r =
     (let items = bw_RequestItems r;
          itemCount = writeItemCount items;
          resp = client (bw_calls r) items;
          r1 = r\<lparr>bw_calls := bw_calls r @ [(items, resp)]\<rparr>
      in case resp of
           Inl err \<Rightarrow>
             (case err of
                AwsErr InternalServerError e \<Rightarrow> (Some (Transient e), r1)
              | AwsErr ProvisionedThroughputExceeded e \<Rightarrow> (Some (Transient e), r1)
              | _ \<Rightarrow> (Some (Permanent (call_error_text err)), r1))
         | Inr unprocessedItems \<Rightarrow>
             (let r2 = r1\<lparr>bw_successCount := bw_successCount r1 + int itemCount\<rparr>
              in if length unprocessedItems > 0
                 then (let failedCount = writeItemCount unprocessedItems
                       in (Some (Transient (Itoa (int failedCount) @ '' unprocessed items'')),
                           r2\<lparr>bw_successCount := bw_successCount r2 - int failedCount,
                              bw_RequestItems := unprocessedItems\<rparr>))
                 else (None, r2)))"

fun write_loop :: "'a batchWriteRequest retry \<Rightarrow> 'a bw_client \<Rightarrow> (string \<times> 'a) list \<Rightarrow> nat
    \<Rightarrow> 'a batchWriteRequest \<Rightarrow> error option \<times> 'a batchWriteRequest" where
  "write_loop retry client [] itemCount r =
     (if itemCount > 0 then retry (bw_send client) r else (None, r))"
| "write_loop retry client ((tableName, item) # rest) itemCount r =
     (let r1 = r\<lparr>bw_RequestItems := amap_append tableName item (bw_RequestItems r)\<rparr>
      in if Suc itemCount = maxBatchWriteItems
         then (case retry (bw_send client) r1 of
                 (Some e, r2) \<Rightarrow> (Some e, r2)
               | (None, r2) \<Rightarrow> write_loop retry client rest 0 (r2\<lparr>bw_RequestItems := []\<rparr>))
         else write_loop retry client rest (Suc itemCount) r1)"

definition BatchWriteItem :: "'a batchWriteRequest retry \<Rightarrow> 'a bw_client \<Rightarrow> (string, 'a list) amap
    \<Rightarrow> error option \<times> 'a batchWriteRequest" where
  "BatchWriteItem retry client allItems =
     write_loop retry client (flat allItems) 0
       \<lparr>bw_RequestItems = [], bw_successCount = 0, bw_calls = []\<rparr>"

text \<open>What the service wrote: the request less the unprocessed items.\<close>

definition bw_client_ok :: "'a bw_client \<Rightarrow> bool" where
  "bw_client_ok client \<longleftrightarrow> (\<forall>h m unprocessed. client h m = Inr unprocessed \<longrightarrow>
     mset (flat unprocessed) \<subseteq># mset (flat m) \<and> (\<forall>(_, is) \<in> set unprocessed. is \<noteq> []))"

fun bw_call_acked :: "'a bw_call \<Rightarrow> (string \<times> 'a) multiset" where
  "bw_call_acked (m, Inl e) = {#}"
| "bw_call_acked (m, Inr unprocessed) = mset (flat m) - mset (flat unprocessed)"

definition bw_acked :: "'a batchWriteRequest \<Rightarrow> (string \<times> 'a) multiset" where
  "bw_acked r = sum_list (map bw_call_acked (bw_calls r))"

definition bw_request_fits :: "(string, 'a list) amap \<Rightarrow> bool" where
  "bw_request_fits m \<longleftrightarrow> flat m \<noteq> [] \<and> length (flat m) \<le> maxBatchWriteItems"

definition bw_fits :: "(string \<times> 'a) list \<Rightarrow> bool" where
  "bw_fits ps \<longleftrightarrow> ps \<noteq> [] \<and> length ps \<le> maxBatchWriteItems"

definition bw_base :: "'a bw_client \<Rightarrow> 'a batchWriteRequest \<Rightarrow> bool" where
  "bw_base client r \<longleftrightarrow> bw_client_ok client \<and> bw_successCount r = int (size (bw_acked r)) \<and>
     (\<forall>c \<in> set (bw_calls r). bw_request_fits (fst c))"

definition bw_inv :: "'a bw_client \<Rightarrow> 'a batchWriteRequest \<Rightarrow> bool" where
  "bw_inv client r \<longleftrightarrow> bw_base client r \<and> bw_request_fits (bw_RequestItems r)"

lemma bw_acked_append: "bw_calls r' = bw_calls r @ [c] \<Longrightarrow> bw_acked r' = bw_acked r + bw_call_acked c"
  by (simp add: bw_acked_def)

lemma bw_send_cases:
  assumes "bw_send client r = (out, r')"
  obtains (permanent) e err where "out = Some (Permanent e)"
      "r' = r\<lparr>bw_calls := bw_calls r @ [(bw_RequestItems r, Inl err)]\<rparr>"
    | (throttled) e err where "out = Some (Transient e)"
      "r' = r\<lparr>bw_calls := bw_calls r @ [(bw_RequestItems r, Inl err)]\<rparr>"
    | (success) "client (bw_calls r) (bw_RequestItems r) = Inr []" "out = None"
      "r' = r\<lparr>bw_calls := bw_calls r @ [(bw_RequestItems r, Inr [])],
        bw_successCount := bw_successCount r + int (length (flat (bw_RequestItems r)))\<rparr>"
    | (partial) m e where "client (bw_calls r) (bw_RequestItems r) = Inr m"
      "out = Some (Transient e)" "m \<noteq> []"
      "r' = r\<lparr>bw_calls := bw_calls r @ [(bw_RequestItems r, Inr m)],
        bw_successCount := bw_successCount r + int (length (flat (bw_RequestItems r))) - int (length (flat m)),
        bw_RequestItems := m\<rparr>"
  using assms
  by (auto simp: bw_send_def Let_def writeItemCount_flat split: sum.splits if_splits
      call_error.splits aws_code.splits)

lemma bw_response:
  assumes "bw_client_ok client" "client h m = Inr un"
  shows "bw_call_acked (m, Inr un) + mset (flat un) = mset (flat m)"
    and "size (bw_call_acked (m, Inr un)) + length (flat un) = length (flat m)"
    and "un \<noteq> [] \<Longrightarrow> flat un \<noteq> []"
proof -
  from assms have sub: "mset (flat un) \<subseteq># mset (flat m)" and ne: "\<forall>(_, is) \<in> set un. is \<noteq> []"
    unfolding bw_client_ok_def by blast+
  from sub show split: "bw_call_acked (m, Inr un) + mset (flat un) = mset (flat m)" by simp
  from arg_cong [OF split, of size] show "size (bw_call_acked (m, Inr un)) + length (flat un) = length (flat m)"
    by (simp only: size_union size_mset)
  from ne show "un \<noteq> [] \<Longrightarrow> flat un \<noteq> []" by (cases un) auto
qed

lemma bw_base_call:
  assumes "bw_base client r" "bw_request_fits m" "client (bw_calls r) m = Inr un"
    "bw_calls r' = bw_calls r @ [(m, Inr un)]"
    "bw_successCount r' = bw_successCount r + int (length (flat m)) - int (length (flat un))"
  shows "bw_base client r'"
  using assms bw_response(2) [of client "bw_calls r" m un]
  by (auto simp: bw_base_def bw_acked_append [OF assms(4)] simp del: bw_call_acked.simps)

interpretation dynamo_write: page_sender
  "bw_send client" "\<lambda>r. mset (flat (bw_RequestItems r))" bw_acked "bw_inv client" "bw_base client"
  bw_successCount "\<lambda>page r. r\<lparr>bw_RequestItems := group page\<rparr>" bw_fits maxBatchWriteItems for client
proof (unfold_locales, goal_cases)
  case (1 s s')
  from 1(2) show ?case
  proof (cases rule: bw_send_cases)
    case success
    have "bw_base client s'" using 1(1) success by (auto simp: bw_inv_def intro: bw_base_call)
    moreover have "bw_acked s' = bw_acked s + mset (flat (bw_RequestItems s))"
      using success by (subst bw_acked_append [of s' s "(bw_RequestItems s, Inr [])"]) simp_all
    ultimately show ?thesis using 1(1) success by (simp add: bw_inv_def)
  qed simp_all
next
  case (2 s e s')
  from 2(2) show ?case
  proof (cases rule: bw_send_cases)
    case (throttled e' err)
    then show ?thesis using 2(1) by (auto simp: bw_inv_def bw_base_def bw_acked_def)
  next
    case (partial m e')
    have ok: "bw_client_ok client" using 2(1) by (simp add: bw_inv_def bw_base_def)
    note resp = bw_response [OF ok partial(1)]
    have "bw_base client s'" using 2(1) partial by (auto simp: bw_inv_def intro: bw_base_call)
    moreover have "bw_acked s' + mset (flat (bw_RequestItems s')) = bw_acked s + mset (flat (bw_RequestItems s))"
      using resp(1) partial(4)
      by (subst bw_acked_append [of s' s "(bw_RequestItems s, Inr m)"])
         (simp_all add: add.assoc del: bw_call_acked.simps)
    moreover have "bw_request_fits (bw_RequestItems s')"
      using 2(1) resp(2,3) partial(3,4) by (auto simp: bw_inv_def bw_request_fits_def)
    ultimately show ?thesis by (simp add: bw_inv_def)
  qed simp_all
next
  case (3 s e s')
  from 3(2) show ?case
  proof (cases rule: bw_send_cases)
    case (permanent e' err)
    then show ?thesis using 3(1) by (auto simp: bw_inv_def bw_base_def bw_acked_def)
  qed simp_all
next
  case (6 s b)
  then show ?case
    using length_flat_group [of b]
    by (cases "flat (group b)") (auto simp: bw_inv_def bw_base_def bw_request_fits_def bw_fits_def bw_acked_def)
qed (auto simp: bw_inv_def bw_base_def bw_acked_def bw_fits_def mset_flat_group)

text \<open>The loop that fills requests one item at a time cuts the items into pages of 25.\<close>

lemma write_loop_run_batches:
  "length acc < maxBatchWriteItems \<Longrightarrow>
   write_loop retry client ps (length acc) (r\<lparr>bw_RequestItems := group acc\<rparr>) = (e, r') \<Longrightarrow>
   \<exists>r0. run_batches retry (bw_send client) (\<lambda>page r. r\<lparr>bw_RequestItems := group page\<rparr>)
          (pages maxBatchWriteItems (acc @ ps)) r = (e, r0) \<and>
        (r' = r0 \<or> r' = r0\<lparr>bw_RequestItems := []\<rparr>)"
proof (induction ps arbitrary: acc r)
  case Nil
  show ?case
  proof (cases "acc = []")
    case True
    with Nil show ?thesis by (auto simp: pages.simps)
  next
    case False
    with Nil have "pages maxBatchWriteItems acc = [acc]" by (simp add: pages.simps)
    with Nil False show ?thesis by (auto split: prod.splits option.splits)
  qed
next
  case (Cons p ps)
  obtain t x where p: "p = (t, x)" by (cases p)
  let ?r1 = "r\<lparr>bw_RequestItems := group (acc @ [(t, x)])\<rparr>"
  show ?case
  proof (cases "Suc (length acc) = maxBatchWriteItems")
    case True
    then have cut: "pages maxBatchWriteItems (acc @ p # ps) = (acc @ [p]) # pages maxBatchWriteItems ps"
      by (subst pages.simps) simp
    obtain e1 r2 where ret: "retry (bw_send client) ?r1 = (e1, r2)" by (cases "retry (bw_send client) ?r1")
    show ?thesis
    proof (cases e1)
      case None
      with Cons.prems True p ret
      have "write_loop retry client ps (length []) (r2\<lparr>bw_RequestItems := group []\<rparr>) = (e, r')"
        by (simp add: group_snoc)
      from Cons.IH [OF _ this] None cut p ret show ?thesis by simp
    next
      case (Some e2)
      with Cons.prems True p ret cut show ?thesis by (auto simp: group_snoc)
    qed
  next
    case False
    with Cons.prems p have "write_loop retry client ps (length (acc @ [p])) (r\<lparr>bw_RequestItems := group (acc @ [p])\<rparr>) = (e, r')"
      by (simp add: group_snoc)
    from Cons.IH [OF _ this] False Cons.prems show ?thesis by simp
  qed
qed

section \<open>BatchGetItem\<close>

text \<open>
  \<open>client.BatchGetItemPages\<close> answers a request with pages (table name to items), and an error if
  the pagination broke off. The callback that receives a page always asks for the next one.
  The options of a table's request (\<open>attrs\<close> without its keys) travel unchanged with every request
  and are left out.
\<close>

type_synonym ('a, 'b) bg_client =
  "(string, 'a list) amap list \<Rightarrow> (string, 'a list) amap \<Rightarrow> (string, 'b list) amap list \<times> error option"

record ('a, 'b) batchGet =
  bg_RequestItems :: "(string, 'a list) amap"
  bg_Responses :: "(string, 'b list) amap"
  bg_calls :: "(string, 'a list) amap list"

abbreviation maxBatchGetItems :: nat where "maxBatchGetItems \<equiv> 100"

definition getItemCount :: "(string, 'a list) amap \<Rightarrow> nat" where
  "getItemCount m = foldl (\<lambda>result (_, val). result + length val) 0 m"

definition updateResult :: "(string, 'b list) amap \<Rightarrow> (string, 'b list) amap \<Rightarrow> (string, 'b list) amap" where
  "updateResult page responses =
     foldl (\<lambda>res (tableName, attributes).
        amap_put tableName ((case map_of res tableName of None \<Rightarrow> [] | Some xs \<Rightarrow> xs) @ attributes) res)
       responses page"

definition bg_send :: "('a, 'b) bg_client \<Rightarrow> ('a, 'b) batchGet \<Rightarrow> error option \<times> ('a, 'b) batchGet" where
  "bg_send client s =
     (let (got, err) = client (bg_calls s) (bg_RequestItems s)
      in (err, s\<lparr>bg_Responses := foldl (\<lambda>res page. updateResult page res) (bg_Responses s) got,
                bg_calls := bg_calls s @ [bg_RequestItems s]\<rparr>))"

fun get_loop :: "('a, 'b) bg_client \<Rightarrow> (string \<times> 'a) list \<Rightarrow> nat \<Rightarrow> ('a, 'b) batchGet
    \<Rightarrow> error option \<times> ('a, 'b) batchGet" where
  "get_loop client [] itemCount s = (if itemCount > 0 then bg_send client s else (None, s))"
| "get_loop client ((tableName, key) # rest) itemCount s =
     (let s1 = s\<lparr>bg_RequestItems := amap_append tableName key (bg_RequestItems s)\<rparr>
      in if Suc itemCount = maxBatchGetItems
         then (case bg_send client s1 of
                 (Some e, s2) \<Rightarrow> (Some e, s2)
               | (None, s2) \<Rightarrow> get_loop client rest 0 (s2\<lparr>bg_RequestItems := []\<rparr>))
         else get_loop client rest (Suc itemCount) s1)"

definition BatchGetItem :: "('a, 'b) bg_client \<Rightarrow> (string, 'a list) amap
    \<Rightarrow> (error + (string, 'b list) amap) \<times> ('a, 'b) batchGet" where
  "BatchGetItem client allItems =
     (case get_loop client (flat allItems) 0 \<lparr>bg_RequestItems = [], bg_Responses = [], bg_calls = []\<rparr> of
        (Some e, s) \<Rightarrow> (Inl e, s)
      | (None, s) \<Rightarrow> (Inr (bg_Responses s), s))"

lemma bg_send_calls:
  "bg_send client s = (e, s') \<Longrightarrow> bg_calls s' = bg_calls s @ [bg_RequestItems s]"
  by (auto simp: bg_send_def split: prod.splits)

definition bg_requested :: "(string, 'a list) amap list \<Rightarrow> (string \<times> 'a) multiset" where
  "bg_requested calls = sum_list (map (\<lambda>m. mset (flat m)) calls)"

lemma bg_requested_snoc [simp]: "bg_requested (cs @ [m]) = bg_requested cs + mset (flat m)"
  by (simp add: bg_requested_def)

lemma get_loop_requests:
  "get_loop client ps n s = (e, s') \<Longrightarrow> n = length (flat (bg_RequestItems s)) \<Longrightarrow> n < maxBatchGetItems \<Longrightarrow>
   \<forall>m \<in> set (bg_calls s). flat m \<noteq> [] \<and> length (flat m) \<le> maxBatchGetItems \<Longrightarrow>
   (\<forall>m \<in> set (bg_calls s'). flat m \<noteq> [] \<and> length (flat m) \<le> maxBatchGetItems) \<and>
   (e = None \<longrightarrow>
      bg_requested (bg_calls s') = bg_requested (bg_calls s) + mset (flat (bg_RequestItems s)) + mset ps)"
proof (induction client ps n s rule: get_loop.induct)
  case (1 client n s)
  then show ?case by (auto split: if_splits dest!: bg_send_calls)
next
  case (2 client t x rest n s)
  let ?s1 = "s\<lparr>bg_RequestItems := amap_append t x (bg_RequestItems s)\<rparr>"
  have m1: "mset (flat (bg_RequestItems ?s1)) = add_mset (t, x) (mset (flat (bg_RequestItems s)))"
    by (simp add: mset_flat_amap_append)
  from arg_cong [OF m1, of size] have len1: "length (flat (bg_RequestItems ?s1)) = Suc n"
    using "2.prems"(2) by simp
  show ?case
  proof (cases "Suc n = maxBatchGetItems")
    case False
    have loop: "get_loop client rest (Suc n) ?s1 = (e, s')" using "2.prems"(1) False by simp
    have lt: "Suc n < maxBatchGetItems" using False "2.prems"(3) by simp
    have fit: "\<forall>m \<in> set (bg_calls ?s1). flat m \<noteq> [] \<and> length (flat m) \<le> maxBatchGetItems"
      using "2.prems"(4) by simp
    from "2.IH"(2) [OF refl False loop len1 [symmetric] lt fit] show ?thesis
      unfolding m1 by simp
  next
    case True
    obtain e1 s2 where sent: "bg_send client ?s1 = (e1, s2)" by (cases "bg_send client ?s1")
    have calls: "bg_calls s2 = bg_calls s @ [bg_RequestItems ?s1]" using bg_send_calls [OF sent] by simp
    have fits: "\<forall>m \<in> set (bg_calls s2). flat m \<noteq> [] \<and> length (flat m) \<le> maxBatchGetItems"
      using calls len1 True "2.prems"(4) by (cases "flat (bg_RequestItems ?s1)") auto
    show ?thesis
    proof (cases e1)
      case (Some a)
      with "2.prems"(1) True sent have "e = Some a" "s' = s2" by simp_all
      with fits show ?thesis by simp
    next
      case None
      then have loop: "get_loop client rest 0 (s2\<lparr>bg_RequestItems := []\<rparr>) = (e, s')"
        using "2.prems"(1) True sent by simp
      have "bg_requested (bg_calls s2) = bg_requested (bg_calls s) + mset (flat (bg_RequestItems s)) + {#(t, x)#}"
        unfolding calls bg_requested_snoc m1 by simp
      with "2.IH"(1) [OF refl True sent [symmetric] None loop] fits show ?thesis by simp
    qed
  qed
qed

text \<open>The items collected for a table are those of the pages, in the order of the pages.\<close>

lemma updateResult_lookup:
  assumes "distinct (map fst page)"
  shows "(case map_of (updateResult page res) t of None \<Rightarrow> [] | Some xs \<Rightarrow> xs) =
    (case map_of res t of None \<Rightarrow> [] | Some xs \<Rightarrow> xs) @ (case map_of page t of None \<Rightarrow> [] | Some xs \<Rightarrow> xs)"
  using assms
proof (induction page arbitrary: res)
  case (Cons p page)
  obtain t' xs where p: "p = (t', xs)" by (cases p)
  with Cons have notin: "map_of page t' = None" by (simp add: map_of_eq_None_iff)
  let ?res = "amap_put t' ((case map_of res t' of None \<Rightarrow> [] | Some ys \<Rightarrow> ys) @ xs) res"
  have "updateResult (p # page) res = updateResult page ?res"
    by (simp add: updateResult_def p)
  with Cons p notin show ?case by (auto simp: map_of_amap_put split: option.splits)
qed (simp add: updateResult_def)

section \<open>Properties\<close>

text \<open>A client that leaves the last table of the first request unprocessed.\<close>

definition bw_flaky_client :: "'a bw_client" where
  "bw_flaky_client h m =
     (case rev m of
        (t, x # xs) # _ \<Rightarrow> Inr (if h = [] then [(t, x # xs)] else [])
      | _ \<Rightarrow> Inr [])"

lemma bw_flaky_client_ok: "bw_client_ok bw_flaky_client"
  unfolding bw_client_ok_def
proof (intro allI impI)
  fix h :: "'a bw_call list" and m un
  assume run: "bw_flaky_client h m = Inr un"
  from run show "mset (flat un) \<subseteq># mset (flat m) \<and> (\<forall>(_, is) \<in> set un. is \<noteq> [])"
    by (auto simp: bw_flaky_client_def flat_def split: list.splits prod.splits if_splits)
qed

lemma BatchWriteItem_ok:
  assumes "backoff_retry retry" "bw_client_ok client" "BatchWriteItem retry client items = (err, r)"
  shows "(\<forall>(m, _) \<in> set (bw_calls r). 0 < writeItemCount m \<and> writeItemCount m \<le> maxBatchWriteItems) \<and>
    bw_acked r \<subseteq># mset (flat items) \<and> bw_successCount r = int (size (bw_acked r)) \<and>
    (err = None \<longrightarrow> bw_acked r = mset (flat items))"
proof -
  let ?init = "\<lparr>bw_RequestItems = [], bw_successCount = 0, bw_calls = []\<rparr>"
  let ?load = "\<lambda>page r. r\<lparr>bw_RequestItems := group page\<rparr>"
  have init: "bw_base client ?init" using assms(2) by (simp add: bw_base_def bw_acked_def)
  have "write_loop retry client (flat items) (length []) (?init\<lparr>bw_RequestItems := group []\<rparr>) = (err, r)"
    using assms(3) by (simp add: BatchWriteItem_def)
  from write_loop_run_batches [OF _ this] obtain r0
    where run: "run_batches retry (bw_send client) ?load (pages maxBatchWriteItems (flat items)) ?init = (err, r0)"
      and r: "r = r0 \<or> r = r0\<lparr>bw_RequestItems := []\<rparr>" by auto
  have loop: "page_loop maxBatchWriteItems retry (bw_send client) ?load (flat items) 0 ?init = (err, r0)"
    using run page_loop_run_batches [of maxBatchWriteItems retry "bw_send client" ?load "flat items" 0 ?init]
    by simp
  have "bw_acked r = bw_acked r0" "bw_calls r = bw_calls r0" "bw_successCount r = bw_successCount r0"
    using r by (auto simp: bw_acked_def)
  with dynamo_write.page_loop_ok [OF assms(1) init loop] show ?thesis
    by (auto simp: bw_base_def bw_request_fits_def writeItemCount_flat bw_acked_def)
qed

text \<open>C16. \<open>BatchWriteItem\<close> makes only requests of 1 to 25 items, writes nothing it was not given and
  nothing twice, counts the items written, and returns no error only when every item of every table
  was written exactly once.\<close>

theorem BatchWriteItem_correct:
  assumes "backoff_retry retry" "bw_client_ok client" "BatchWriteItem retry client items = (err, r)"
  shows "(\<forall>(m, _) \<in> set (bw_calls r). 0 < writeItemCount m \<and> writeItemCount m \<le> maxBatchWriteItems) \<and>
    bw_acked r \<subseteq># mset (flat items) \<and> bw_successCount r = int (size (bw_acked r)) \<and>
    (err = None \<longrightarrow> bw_acked r = mset (flat items))"
  using assms by (rule BatchWriteItem_ok)

theorem BatchWriteItem_correct_witness:
  "bw_acked (snd (BatchWriteItem (retry_attempts 1) bw_flaky_client [(''t'', [1, 2]), (''u'', [3 :: nat])]))
    = {# (''t'', 1), (''t'', 2), (''u'', 3) #}"
proof -
  let ?run = "BatchWriteItem (retry_attempts 1) bw_flaky_client [(''t'', [1, 2]), (''u'', [3 :: nat])]"
  have "fst ?run = None"
    by (simp add: BatchWriteItem_def retry_attempts.simps bw_send_def Let_def bw_flaky_client_def
        amap_append_def)
  then have "?run = (None, snd ?run)" by (simp add: prod_eq_iff)
  from BatchWriteItem_correct [OF backoff_retry_attempts bw_flaky_client_ok this]
  show ?thesis by simp
qed

text \<open>\<open>BatchGetItem\<close> makes only requests of 1 to 100 keys, and when it returns a result, the
  requests together asked for every key of every table exactly once.\<close>

theorem BatchGetItem_requests:
  assumes "BatchGetItem client keys = (result, s)"
  shows "(\<forall>m \<in> set (bg_calls s). 0 < getItemCount m \<and> getItemCount m \<le> maxBatchGetItems) \<and>
    (\<forall>found. result = Inr found \<longrightarrow> bg_requested (bg_calls s) = mset (flat keys))"
proof -
  let ?init = "\<lparr>bg_RequestItems = [], bg_Responses = [], bg_calls = []\<rparr>"
  obtain e s' where loop: "get_loop client (flat keys) 0 ?init = (e, s')"
    by (cases "get_loop client (flat keys) 0 ?init")
  with assms have "s' = s" "e = None \<longleftrightarrow> (\<exists>found. result = Inr found)"
    by (auto simp: BatchGetItem_def split: option.splits)
  with get_loop_requests [OF loop] show ?thesis
    by (auto simp: getItemCount_def writeItemCount_flat [unfolded writeItemCount_def] bg_requested_def)
qed

theorem BatchGetItem_requests_witness:
  "bg_requested (bg_calls (snd (BatchGetItem (\<lambda>h m. ([m], None)) [(''t'', [1, 2]), (''u'', [3 :: nat])])))
    = {# (''t'', 1), (''t'', 2), (''u'', 3) #}"
proof -
  let ?run = "BatchGetItem (\<lambda>h m. ([m], None)) [(''t'', [1, 2]), (''u'', [3 :: nat])]"
  have "fst ?run = Inr [(''t'', [1, 2]), (''u'', [3])]"
    by (simp add: BatchGetItem_def bg_send_def Let_def amap_append_def updateResult_def)
  then have "?run = (Inr [(''t'', [1, 2]), (''u'', [3])], snd ?run)" by (simp add: prod_eq_iff)
  from BatchGetItem_requests [OF this] show ?thesis by simp
qed

end
