(* ===== verification/Parser_Queue.thy ===== *)
theory Parser_Queue
  imports Panther_Prelude
begin

text \<open>
  \<open>log_processor/classification/parser_queue.go\<close>: the slice of parsers with their penalties and
  its five \<open>heap.Interface\<close> methods, together with the functions of Go's \<open>container/heap\<close> that the
  classifier calls on it (\<open>heap.Push\<close>, \<open>heap.Pop\<close> and their helpers \<open>up\<close> and \<open>down\<close>).

  The locale \<open>penalty_queue\<close> is the contract the classifier relies on (a priority queue over a
  multiset of items); it is interpreted on the slice heap at the end. A penalty is an unbounded integer: the code adds
  one to an \<open>int\<close> for a line that a parser refuses, which does not wrap around before \<open>2 ^ 63\<close> lines of one object.
\<close>

record 'p ParserQueueItem =
  q_parser :: 'p
  q_penalty :: int

type_synonym 'p parser_queue = "'p ParserQueueItem list"

definition initialize :: "'p list \<Rightarrow> 'p parser_queue" where
  "initialize elements = map (\<lambda>p. \<lparr>q_parser = p, q_penalty = 1\<rparr>) elements"

definition Less :: "'p parser_queue \<Rightarrow> nat \<Rightarrow> nat \<Rightarrow> bool" where
  "Less q i j \<longleftrightarrow> q_penalty (q ! i) < q_penalty (q ! j)"

definition Swap :: "'p parser_queue \<Rightarrow> nat \<Rightarrow> nat \<Rightarrow> 'p parser_queue" where
  "Swap q i j = q[i := q ! j, j := q ! i]"

definition Push :: "'p parser_queue \<Rightarrow> 'p ParserQueueItem \<Rightarrow> 'p parser_queue" where
  "Push q x = q @ [x]"

text \<open>\<open>Pop\<close> and \<open>Peek\<close> panic on an empty queue: \<open>None\<close>.\<close>

definition Pop :: "'p parser_queue \<Rightarrow> ('p ParserQueueItem \<times> 'p parser_queue) option" where
  "Pop q = (if q = [] then None else Some (last q, butlast q))"

definition Peek :: "'p parser_queue \<Rightarrow> 'p ParserQueueItem option" where
  "Peek q = (case q of [] \<Rightarrow> None | x # _ \<Rightarrow> Some x)"

section \<open>container/heap\<close>

function heap_up :: "'p parser_queue \<Rightarrow> nat \<Rightarrow> 'p parser_queue" where
  "heap_up q j =
     (let i = (j - 1) div 2
      in if i = j \<or> \<not> Less q j i then q else heap_up (Swap q i j) i)"
  by pat_completeness auto
termination
  by (relation "measure (\<lambda>(q, j). j)") (auto simp: Let_def)

definition down_child :: "'p parser_queue \<Rightarrow> nat \<Rightarrow> nat \<Rightarrow> nat" where
  "down_child q i n =
     (let j1 = 2 * i + 1; j2 = j1 + 1 in if j2 < n \<and> Less q j2 j1 then j2 else j1)"

function heap_down :: "'p parser_queue \<Rightarrow> nat \<Rightarrow> nat \<Rightarrow> 'p parser_queue" where
  "heap_down q i n =
     (if 2 * i + 1 \<ge> n then q
      else (let j = down_child q i n
            in if \<not> Less q j i then q else heap_down (Swap q i j) j n))"
  by pat_completeness auto
termination
  by (relation "measure (\<lambda>(q, i, n). n - i)") (auto simp: down_child_def Let_def)

declare heap_up.simps [simp del] heap_down.simps [simp del]

definition heap_Push :: "'p parser_queue \<Rightarrow> 'p ParserQueueItem \<Rightarrow> 'p parser_queue" where
  "heap_Push q x = heap_up (Push q x) (length (Push q x) - 1)"

definition heap_Pop :: "'p parser_queue \<Rightarrow> ('p ParserQueueItem \<times> 'p parser_queue) option" where
  "heap_Pop q =
     (if q = [] then None
      else (let n = length q - 1 in Pop (heap_down (Swap q 0 n) 0 n)))"

section \<open>The heap invariant and its weakened forms\<close>

abbreviation parent :: "nat \<Rightarrow> nat" where
  "parent k \<equiv> (k - 1) div 2"

definition heap_upto :: "'p parser_queue \<Rightarrow> nat \<Rightarrow> bool" where
  "heap_upto q n \<longleftrightarrow> (\<forall>k. 0 < k \<and> k < n \<longrightarrow> q_penalty (q ! parent k) \<le> q_penalty (q ! k))"

definition is_heap :: "'p parser_queue \<Rightarrow> bool" where
  "is_heap q \<longleftrightarrow> heap_upto q (length q)"

text \<open>Everything in order but possibly the item at \<open>j\<close> against its parent.\<close>

definition heap_but_up :: "'p parser_queue \<Rightarrow> nat \<Rightarrow> bool" where
  "heap_but_up q j \<longleftrightarrow>
     (\<forall>k. 0 < k \<and> k < length q \<and> k \<noteq> j \<longrightarrow> q_penalty (q ! parent k) \<le> q_penalty (q ! k)) \<and>
     (\<forall>k. 0 < k \<and> k < length q \<and> parent k = j \<and> 0 < j \<longrightarrow>
        q_penalty (q ! parent j) \<le> q_penalty (q ! k))"

text \<open>Everything below \<open>n\<close> in order but possibly the item at \<open>i\<close> against its children.\<close>

definition heap_but_down :: "'p parser_queue \<Rightarrow> nat \<Rightarrow> nat \<Rightarrow> bool" where
  "heap_but_down q i n \<longleftrightarrow>
     (\<forall>k. 0 < k \<and> k < n \<and> parent k \<noteq> i \<longrightarrow> q_penalty (q ! parent k) \<le> q_penalty (q ! k)) \<and>
     (\<forall>k. 0 < k \<and> k < n \<and> parent k = i \<and> 0 < i \<longrightarrow>
        q_penalty (q ! parent i) \<le> q_penalty (q ! k))"

lemma length_Swap [simp]: "length (Swap q i j) = length q"
  by (simp add: Swap_def)

lemma nth_Swap: "i < length q \<Longrightarrow> j < length q \<Longrightarrow> k < length q \<Longrightarrow>
    Swap q i j ! k = (if k = j then q ! i else if k = i then q ! j else q ! k)"
  by (simp add: Swap_def nth_list_update)

lemma mset_Swap [simp]: "i < length q \<Longrightarrow> j < length q \<Longrightarrow> mset (Swap q i j) = mset q"
  by (simp add: Swap_def mset_swap)

lemma length_heap_up [simp]: "length (heap_up q j) = length q"
  by (induction q j rule: heap_up.induct) (subst heap_up.simps, simp add: Let_def)

lemma length_heap_down [simp]: "length (heap_down q i n) = length q"
  by (induction q i n rule: heap_down.induct) (subst heap_down.simps, simp add: Let_def)

lemma mset_heap_up: "j < length q \<Longrightarrow> mset (heap_up q j) = mset q"
proof (induction q j rule: heap_up.induct)
  case (1 q j)
  then have "parent j < length q" by linarith
  with 1 show ?case by (subst heap_up.simps) (simp add: Let_def)
qed

lemma down_child_bounds:
  "2 * i + 1 < n \<Longrightarrow> i < down_child q i n \<and> down_child q i n < n \<and> parent (down_child q i n) = i"
  by (auto simp: down_child_def Let_def)

lemma mset_heap_down: "n \<le> length q \<Longrightarrow> mset (heap_down q i n) = mset q"
proof (induction q i n rule: heap_down.induct)
  case (1 q i n)
  show ?case
  proof (cases "2 * i + 1 < n")
    case True
    then have "i < length q" "down_child q i n < length q"
      using down_child_bounds [OF True, of q] "1.prems" by linarith+
    with 1 True show ?thesis by (subst heap_down.simps) (simp add: Let_def)
  qed (simp add: heap_down.simps)
qed

lemma heap_down_above: "n \<le> length q \<Longrightarrow> n \<le> k \<Longrightarrow> k < length q \<Longrightarrow> heap_down q i n ! k = q ! k"
proof (induction q i n rule: heap_down.induct)
  case (1 q i n)
  show ?case
  proof (cases "2 * i + 1 < n")
    case True
    then have "i < n" "down_child q i n < n" using down_child_bounds [OF True, of q] by linarith+
    with 1 True show ?thesis by (subst heap_down.simps) (simp add: Let_def nth_Swap)
  qed (simp add: heap_down.simps)
qed

lemma heap_up_restores: "heap_but_up q j \<Longrightarrow> j < length q \<Longrightarrow> is_heap (heap_up q j)"
proof (induction q j rule: heap_up.induct)
  case (1 q j)
  let ?i = "parent j"
  show ?case
  proof (cases "?i = j \<or> \<not> Less q j ?i")
    case True
    then have "is_heap q" using "1.prems"
      by (auto simp: is_heap_def heap_upto_def heap_but_up_def Less_def)
    with True show ?thesis by (subst heap_up.simps) (simp add: Let_def)
  next
    case False
    then have ij: "?i < j" "?i < length q" "0 < j" using "1.prems"(2) by linarith+
    have lt: "q_penalty (q ! j) < q_penalty (q ! ?i)" using False by (simp add: Less_def)
    have "heap_but_up (Swap q ?i j) ?i"
      unfolding heap_but_up_def
    proof (intro conjI allI impI; elim conjE)
      fix k assume k: "0 < k" "k < length (Swap q ?i j)" "k \<noteq> ?i"
      have pk: "parent k < k" using k by linarith
      consider "k = j" | "k \<noteq> j" "parent k = j" | "k \<noteq> j" "parent k = ?i" | "k \<noteq> j" "parent k \<noteq> j" "parent k \<noteq> ?i"
        by blast
      then show "q_penalty (Swap q ?i j ! parent k) \<le> q_penalty (Swap q ?i j ! k)"
      proof cases
        case 1
        then show ?thesis using lt ij k by (simp add: nth_Swap)
      next
        case 2
        then show ?thesis using "1.prems" ij k pk by (auto simp: nth_Swap heap_but_up_def)
      next
        case 3
        then have "q_penalty (q ! ?i) \<le> q_penalty (q ! k)"
          using "1.prems" k unfolding heap_but_up_def by (metis length_Swap)
        with 3 lt ij k pk "1.prems" show ?thesis by (simp add: nth_Swap)
      next
        case 4
        then have "q_penalty (q ! parent k) \<le> q_penalty (q ! k)"
          using "1.prems" k unfolding heap_but_up_def by (metis length_Swap)
        with 4 ij k pk "1.prems" show ?thesis by (simp add: nth_Swap)
      qed
    next
      fix k assume k: "0 < k" "k < length (Swap q ?i j)" "parent k = ?i" "0 < ?i"
      have pi: "parent ?i < ?i" using k by linarith
      have up: "q_penalty (q ! parent ?i) \<le> q_penalty (q ! ?i)"
        using "1.prems" ij k pi unfolding heap_but_up_def by (metis order_less_imp_not_eq2)
      show "q_penalty (Swap q ?i j ! parent ?i) \<le> q_penalty (Swap q ?i j ! k)"
      proof (cases "k = j")
        case True
        then show ?thesis using up ij pi k "1.prems" by (simp add: nth_Swap)
      next
        case False
        then have "q_penalty (q ! ?i) \<le> q_penalty (q ! k)"
          using "1.prems" k unfolding heap_but_up_def by (metis length_Swap)
        moreover have "k \<noteq> ?i" using k by linarith
        ultimately show ?thesis using up False ij pi k "1.prems" by (simp add: nth_Swap)
      qed
    qed
    with "1.IH" [OF refl] False ij show ?thesis
      by (subst heap_up.simps) (simp add: Let_def)
  qed
qed

lemma heap_down_restores:
  "heap_but_down q i n \<Longrightarrow> n \<le> length q \<Longrightarrow> heap_upto (heap_down q i n) n"
proof (induction q i n rule: heap_down.induct)
  case (1 q i n)
  let ?j = "down_child q i n"
  show ?case
  proof (cases "2 * i + 1 < n")
    case False
    then have "heap_upto q n" using "1.prems" by (auto simp: heap_upto_def heap_but_down_def)
    with False show ?thesis by (subst heap_down.simps) simp
  next
    case True
    note j = down_child_bounds [OF True, of q]
    have least: "q_penalty (q ! ?j) \<le> q_penalty (q ! k)" if "0 < k" "k < n" "parent k = i" for k
    proof -
      from that have "k = 2 * i + 1 \<or> k = 2 * i + 2" by linarith
      with that show ?thesis by (auto simp: down_child_def Let_def Less_def)
    qed
    show ?thesis
    proof (cases "Less q ?j i")
      case False
      then have le: "q_penalty (q ! i) \<le> q_penalty (q ! ?j)" by (simp add: Less_def)
      have "heap_upto q n"
        unfolding heap_upto_def
      proof (intro allI impI)
        fix k assume "0 < k \<and> k < n"
        with le least [of k] "1.prems" show "q_penalty (q ! parent k) \<le> q_penalty (q ! k)"
          by (cases "parent k = i") (auto simp: heap_but_down_def)
      qed
      with True False show ?thesis by (subst heap_down.simps) (simp add: Let_def)
    next
      case less: True
      then have lt: "q_penalty (q ! ?j) < q_penalty (q ! i)" by (simp add: Less_def)
      have len: "i < length q" "?j < length q" using j "1.prems" by linarith+
      have "heap_but_down (Swap q i ?j) ?j n"
        unfolding heap_but_down_def
      proof (intro conjI allI impI; elim conjE)
        fix k assume k: "0 < k" "k < n" "parent k \<noteq> ?j"
        have pk: "parent k < n" "k < length q" "parent k < length q" using k "1.prems" by linarith+
        consider "k = i" | "k = ?j" | "k \<noteq> i" "k \<noteq> ?j" "parent k = i" | "k \<noteq> i" "k \<noteq> ?j" "parent k \<noteq> i"
          by blast
        then show "q_penalty (Swap q i ?j ! parent k) \<le> q_penalty (Swap q i ?j ! k)"
        proof cases
          case 1
          then have "parent k \<noteq> i" using k by linarith
          moreover have "q_penalty (q ! parent i) \<le> q_penalty (q ! ?j)"
            using "1.prems"(1) 1 j k unfolding heap_but_down_def
            by (metis bot_nat_0.extremum_strict not_gr_zero)
          moreover have "?j \<noteq> i" using j by linarith
          ultimately show ?thesis using 1 k pk len by (simp add: nth_Swap)
        next
          case 2
          then show ?thesis using lt len pk j by (simp add: nth_Swap)
        next
          case 3
          then show ?thesis using least [of k] k len pk j by (simp add: nth_Swap)
        next
          case 4
          then have "q_penalty (q ! parent k) \<le> q_penalty (q ! k)"
            using "1.prems" k unfolding heap_but_down_def by blast
          with 4 k len pk show ?thesis by (simp add: nth_Swap)
        qed
      next
        fix k assume k: "0 < k" "k < n" "parent k = ?j" "0 < ?j"
        have ne: "?j \<noteq> i" "k \<noteq> i" "k \<noteq> ?j" using j k by linarith+
        have "q_penalty (q ! ?j) \<le> q_penalty (q ! k)"
          using "1.prems" k ne unfolding heap_but_down_def by metis
        with ne k j len "1.prems" show "q_penalty (Swap q i ?j ! parent ?j) \<le> q_penalty (Swap q i ?j ! k)"
          by (simp add: nth_Swap)
      qed
      with "1.IH" [OF _ refl] True less "1.prems" show ?thesis
        by (subst heap_down.simps) (simp add: Let_def)
    qed
  qed
qed

lemma heap_root_least: "is_heap q \<Longrightarrow> k < length q \<Longrightarrow> q_penalty (q ! 0) \<le> q_penalty (q ! k)"
proof (induction k rule: less_induct)
  case (less k)
  show ?case
  proof (cases "k = 0")
    case False
    then have "parent k < k" by linarith
    with less have "q_penalty (q ! 0) \<le> q_penalty (q ! parent k)" by simp
    also have "\<dots> \<le> q_penalty (q ! k)"
      using less.prems False by (simp add: is_heap_def heap_upto_def)
    finally show ?thesis .
  qed simp
qed

lemma is_heap_initialize: "is_heap (initialize elements)"
  by (auto simp: is_heap_def heap_upto_def initialize_def)

text \<open>Lowering the penalty of the root, which the classifier does in place, keeps the heap.\<close>

lemma is_heap_lower_root:
  "is_heap q \<Longrightarrow> q \<noteq> [] \<Longrightarrow> q_penalty x \<le> q_penalty (q ! 0) \<Longrightarrow> is_heap (q[0 := x])"
  using heap_root_least [of q]
  by (fastforce simp: is_heap_def heap_upto_def nth_list_update)

lemma heap_Push_correct:
  assumes "is_heap q"
  shows "is_heap (heap_Push q x)" and "mset (heap_Push q x) = add_mset x (mset q)"
proof -
  have "heap_but_up (q @ [x]) (length q)"
    unfolding heap_but_up_def
  proof (intro conjI allI impI; elim conjE)
    fix k assume k: "0 < k" "k < length (q @ [x])" "k \<noteq> length q"
    then have "parent k < length q" "k < length q" by auto
    with assms k show "q_penalty ((q @ [x]) ! parent k) \<le> q_penalty ((q @ [x]) ! k)"
      by (simp add: is_heap_def heap_upto_def nth_append)
  qed auto
  then show "is_heap (heap_Push q x)"
    by (auto simp: heap_Push_def Push_def intro: heap_up_restores)
  show "mset (heap_Push q x) = add_mset x (mset q)"
    by (simp add: heap_Push_def Push_def mset_heap_up)
qed

lemma heap_Pop_correct:
  assumes "is_heap q" "q \<noteq> []"
  obtains q' where "heap_Pop q = Some (q ! 0, q')" "is_heap q'" "mset q = add_mset (q ! 0) (mset q')"
    "length q = Suc (length q')"
proof -
  let ?n = "length q - 1"
  let ?s = "Swap q 0 ?n"
  let ?d = "heap_down ?s 0 ?n"
  have n: "?n < length q" "0 < length q" using assms(2) by (cases q; simp)+
  have "heap_but_down ?s 0 ?n"
    unfolding heap_but_down_def
  proof (intro conjI allI impI; elim conjE)
    fix k assume k: "0 < k" "k < ?n" "parent k \<noteq> 0"
    then have "parent k < ?n" "k < length q" by auto
    with assms(1) k n show "q_penalty (?s ! parent k) \<le> q_penalty (?s ! k)"
      by (simp add: is_heap_def heap_upto_def nth_Swap)
  qed simp
  then have heap: "heap_upto ?d ?n" by (rule heap_down_restores) (simp add: n)
  have "?d \<noteq> []" using n by (metis length_0_conv length_Swap length_heap_down less_nat_zero_code)
  then have last: "last ?d = q ! 0"
    using n heap_down_above [of ?n ?s ?n 0] by (simp add: last_conv_nth nth_Swap)
  have "is_heap (butlast ?d)"
    using heap n by (auto simp: is_heap_def heap_upto_def nth_butlast)
  moreover have "mset q = add_mset (q ! 0) (mset (butlast ?d))"
  proof -
    have "mset q = mset ?d" using n by (simp add: mset_heap_down)
    also have "\<dots> = mset (butlast ?d @ [last ?d])" using \<open>?d \<noteq> []\<close> by simp
    finally show ?thesis unfolding last by simp
  qed
  ultimately show ?thesis
    using that [of "butlast ?d"] assms(2) \<open>?d \<noteq> []\<close> last n by (simp add: heap_Pop_def Let_def Pop_def)
qed

section \<open>The contract of the queue\<close>

locale penalty_queue =
  fixes peek :: "'q \<Rightarrow> 'x option"
    and pop :: "'q \<Rightarrow> ('x \<times> 'q) option"
    and push :: "'q \<Rightarrow> 'x \<Rightarrow> 'q"
    and items :: "'q \<Rightarrow> 'x multiset"
    and prio :: "'x \<Rightarrow> int"
    and invar :: "'q \<Rightarrow> bool"
  assumes peek_None: "invar q \<Longrightarrow> peek q = None \<longleftrightarrow> items q = {#}"
    and peek_least: "invar q \<Longrightarrow> peek q = Some x \<Longrightarrow> y \<in># items q \<Longrightarrow> prio x \<le> prio y"
    and pop_peek: "invar q \<Longrightarrow> peek q = Some x \<Longrightarrow>
      \<exists>q'. pop q = Some (x, q') \<and> invar q' \<and> items q = add_mset x (items q')"
    and push_ok: "invar q \<Longrightarrow> invar (push q x) \<and> items (push q x) = add_mset x (items q)"
begin

lemma peek_in: "invar q \<Longrightarrow> peek q = Some x \<Longrightarrow> x \<in># items q"
  using pop_peek by fastforce

lemma pop_Some: "invar q \<Longrightarrow> pop q = Some (x, q') \<Longrightarrow> peek q \<noteq> None \<Longrightarrow>
    peek q = Some x \<and> invar q' \<and> items q = add_mset x (items q')"
  using pop_peek by fastforce

text \<open>Putting back a list of items.\<close>

lemma push_all: "invar q \<Longrightarrow> invar (foldl push q xs) \<and> items (foldl push q xs) = items q + mset xs"
  by (induction xs arbitrary: q) (auto simp: push_ok)

end

interpretation parser_heap: penalty_queue Peek heap_Pop heap_Push mset q_penalty is_heap
proof (unfold_locales, goal_cases)
  case (1 q)
  then show ?case by (simp add: Peek_def split: list.split)
next
  case (2 q x y)
  then obtain k where "k < length q" "y = q ! k" by (metis in_set_conv_nth set_mset_mset)
  moreover have "x = q ! 0" using 2 by (auto simp: Peek_def split: list.splits)
  ultimately show ?case using 2 heap_root_least by blast
next
  case (3 q x)
  then have "q \<noteq> []" "x = q ! 0" by (auto simp: Peek_def split: list.splits)
  with 3 show ?case by (auto elim: heap_Pop_correct)
next
  case (4 q x)
  then show ?case using heap_Push_correct by blast
qed

end
