(* ===== verification/Classifier.thy ===== *)
theory Classifier
  imports Parser_Queue
begin

text \<open>
  \<open>log_processor/classification/classifier.go\<close>: finding the parser that accepts a log line.

  \<open>parsers.LogParser\<close> is an interface with many implementations, some of them stateful: a parser
  is a value of a type \<open>'p\<close>, its methods are the parameters \<open>parse\<close> (the outcome and the parser
  afterwards) and \<open>logType\<close>. A parse can panic, return nil (the line is not of its type) or return
  events. The elapsed times that \<open>Classify\<close> measures are inputs. Stats counters are 64-bit words.

  The queue is reached through the contract \<open>penalty_queue\<close> (facts \<open>parser_heap.*\<close>).
\<close>

datatype 'e parse_outcome = Panics | Parsed "'e list option"

type_synonym ('p, 'e) parse_method = "'p \<Rightarrow> string \<Rightarrow> 'e parse_outcome \<times> 'p"

record 'e ClassifierResult =
  Events :: "'e list"
  LogType :: "string option"

record ClassifierStats =
  ClassifyTimeMicroseconds :: uint64
  BytesProcessedCount :: uint64
  LogLineCount :: uint64
  EventCount :: uint64
  SuccessfullyClassifiedCount :: uint64
  ClassificationFailureCount :: uint64

record ParserStats =
  ps_ParserTimeMicroseconds :: uint64
  ps_BytesProcessedCount :: uint64
  ps_LogLineCount :: uint64
  ps_EventCount :: uint64
  ps_LogType :: string

record 'p Classifier =
  c_parsers :: "'p parser_queue"
  c_stats :: ClassifierStats
  c_parserStats :: "(string, ParserStats) amap"

definition NewClassifier :: "'p list \<Rightarrow> 'p Classifier" where
  "NewClassifier elements =
     \<lparr>c_parsers = initialize elements,
      c_stats = \<lparr>ClassifyTimeMicroseconds = 0, BytesProcessedCount = 0, LogLineCount = 0,
                 EventCount = 0, SuccessfullyClassifiedCount = 0, ClassificationFailureCount = 0\<rparr>,
      c_parserStats = []\<rparr>"

definition safeLogParse :: "('p, 'e) parse_method \<Rightarrow> 'p \<Rightarrow> string \<Rightarrow> 'e list option \<times> 'p" where
  "safeLogParse parse parser log =
     (case parse parser log of
        (Panics, parser') \<Rightarrow> (None, parser')
      | (Parsed events, parser') \<Rightarrow> (events, parser'))"

lemma length_heap_Pop: "heap_Pop q = Some (x, q') \<Longrightarrow> length q' < length q"
  by (cases "q = []") (auto simp: heap_Pop_def Pop_def Let_def split: if_splits)

text \<open>The loop over the queue: the accepted item's parser with its events if there is one, the
  queue, and the popped items. The item at the root is updated in place (the queue holds
  pointers); a rejected one leaves the queue and then gets its penalty raised.\<close>

function classify_loop :: "('p, 'e) parse_method \<Rightarrow> string \<Rightarrow> 'p parser_queue \<Rightarrow> 'p parser_queue
    \<Rightarrow> ('p \<times> 'e list) option \<times> 'p parser_queue \<times> 'p parser_queue" where
  "classify_loop parse log q popped =
     (case q of
        [] \<Rightarrow> (None, q, popped)
      | currentItem # _ \<Rightarrow>
          (case safeLogParse parse (q_parser currentItem) log of
             (None, parser') \<Rightarrow>
               (case heap_Pop (q[0 := currentItem\<lparr>q_parser := parser'\<rparr>]) of
                  None \<Rightarrow> (None, q, popped)
                | Some (item, q') \<Rightarrow>
                    classify_loop parse log q' (popped @ [item\<lparr>q_penalty := q_penalty item + 1\<rparr>]))
           | (Some events, parser') \<Rightarrow>
               (Some (parser', events),
                q[0 := currentItem\<lparr>q_parser := parser', q_penalty := 0\<rparr>], popped)))"
  by pat_completeness auto

termination
proof (relation "measure (\<lambda>(_, _, q, _). length q)", goal_cases)
  case (2 parse log q popped item rest res parser' pop item' q')
  then have "length q' < length (q[0 := item\<lparr>q_parser := parser'\<rparr>])"
    by (metis length_heap_Pop surj_pair)
  then show ?case by simp
qed simp

declare classify_loop.simps [simp del]

definition addParserStat :: "string \<Rightarrow> uint64 \<Rightarrow> string \<Rightarrow> 'e list \<Rightarrow> (string, ParserStats) amap
    \<Rightarrow> (string, ParserStats) amap" where
  "addParserStat lt parseMicros log events stats =
     (let parserStat =
        (case map_of stats lt of
           Some st \<Rightarrow> st
         | None \<Rightarrow> \<lparr>ps_ParserTimeMicroseconds = 0, ps_BytesProcessedCount = 0, ps_LogLineCount = 0,
                    ps_EventCount = 0, ps_LogType = lt\<rparr>)
      in amap_put lt
           (parserStat\<lparr>ps_ParserTimeMicroseconds := ps_ParserTimeMicroseconds parserStat + parseMicros,
              ps_BytesProcessedCount := ps_BytesProcessedCount parserStat + of_nat (length log),
              ps_LogLineCount := ps_LogLineCount parserStat + 1,
              ps_EventCount := ps_EventCount parserStat + of_nat (length events)\<rparr>) stats)"

text \<open>The deferred function. It reads the variable \<open>log\<close> when \<open>Classify\<close> returns, after it was
  trimmed: a line of white space is counted, but neither as classified nor as failed.\<close>

definition updateStats :: "uint64 \<Rightarrow> string \<Rightarrow> 'e ClassifierResult \<Rightarrow> ClassifierStats \<Rightarrow> ClassifierStats" where
  "updateStats classifyMicros log result st =
     (let st1 = st\<lparr>ClassifyTimeMicroseconds := classifyMicros,
                  BytesProcessedCount := BytesProcessedCount st + of_nat (length log),
                  LogLineCount := LogLineCount st + 1,
                  EventCount := EventCount st + of_nat (length (Events result))\<rparr>
      in if length log > 0
         then (if LogType result = None
               then st1\<lparr>ClassificationFailureCount := ClassificationFailureCount st1 + 1\<rparr>
               else st1\<lparr>SuccessfullyClassifiedCount := SuccessfullyClassifiedCount st1 + 1\<rparr>)
         else st1)"

definition classify_trimmed :: "('p, 'e) parse_method \<Rightarrow> ('p \<Rightarrow> string) \<Rightarrow> uint64 \<Rightarrow> 'p Classifier \<Rightarrow> string
    \<Rightarrow> 'e ClassifierResult \<times> 'p Classifier" where
  "classify_trimmed parse logType parseMicros c log =
     (case classify_loop parse log (c_parsers c) [] of (found, q, popped) \<Rightarrow>
        (let c1 = c\<lparr>c_parsers := foldl heap_Push q popped\<rparr>
         in case found of
              None \<Rightarrow> (\<lparr>Events = [], LogType = None\<rparr>, c1)
            | Some (parser, events) \<Rightarrow>
                (\<lparr>Events = events, LogType = Some (logType parser)\<rparr>,
                 c1\<lparr>c_parserStats :=
                     addParserStat (logType parser) parseMicros log events (c_parserStats c)\<rparr>)))"

definition Classify :: "('p, 'e) parse_method \<Rightarrow> ('p \<Rightarrow> string) \<Rightarrow> uint64 \<Rightarrow> uint64 \<Rightarrow> 'p Classifier \<Rightarrow> string
    \<Rightarrow> 'e ClassifierResult \<times> 'p Classifier" where
  "Classify parse logType classifyMicros parseMicros c line =
     (if length line = 0 then (\<lparr>Events = [], LogType = None\<rparr>, c)
      else (let log = TrimSpace line;
                (result, c1) =
                  (if length log = 0 then (\<lparr>Events = [], LogType = None\<rparr>, c)
                   else classify_trimmed parse logType parseMicros c log)
            in (result, c1\<lparr>c_stats := updateStats classifyMicros log result (c_stats c1)\<rparr>)))"

section \<open>What the loop does to the queue\<close>

definition accepts :: "('p, 'e) parse_method \<Rightarrow> string \<Rightarrow> 'p \<Rightarrow> bool" where
  "accepts parse log p \<longleftrightarrow> fst (safeLogParse parse p log) \<noteq> None"

definition parser_after :: "('p, 'e) parse_method \<Rightarrow> string \<Rightarrow> 'p \<Rightarrow> 'p" where
  "parser_after parse log p = snd (safeLogParse parse p log)"

text \<open>An item whose parser rejected the line.\<close>

definition penalise :: "('p, 'e) parse_method \<Rightarrow> string \<Rightarrow> 'p ParserQueueItem \<Rightarrow> 'p ParserQueueItem" where
  "penalise parse log it =
     it\<lparr>q_parser := parser_after parse log (q_parser it), q_penalty := q_penalty it + 1\<rparr>"

definition reward :: "('p, 'e) parse_method \<Rightarrow> string \<Rightarrow> 'p ParserQueueItem \<Rightarrow> 'p ParserQueueItem" where
  "reward parse log it = it\<lparr>q_parser := parser_after parse log (q_parser it), q_penalty := 0\<rparr>"

abbreviation item_accepts :: "('p, 'e) parse_method \<Rightarrow> string \<Rightarrow> 'p ParserQueueItem \<Rightarrow> bool" where
  "item_accepts parse log it \<equiv> accepts parse log (q_parser it)"

text \<open>The penalties of a queue are never negative, so setting one to 0 does not break the order.\<close>

definition queue_ok :: "'p parser_queue \<Rightarrow> bool" where
  "queue_ok q \<longleftrightarrow> is_heap q \<and> (\<forall>it \<in> set q. 0 \<le> q_penalty it)"

lemma root_update:
  assumes "is_heap (it # rest)" "q_penalty it' = q_penalty it"
  obtains q' where "heap_Pop ((it # rest)[0 := it']) = Some (it', q')" "is_heap q'" "mset q' = mset rest"
proof -
  have "is_heap (it' # rest)"
    using is_heap_lower_root [OF assms(1), of it'] assms(2) by simp
  then show ?thesis using that by (auto elim!: heap_Pop_correct [of "it' # rest"])
qed

text \<open>The functional behaviour of the loop on the multiset of items: the parsers are tried in
  the order of their penalties until one accepts.\<close>

inductive search :: "('p, 'e) parse_method \<Rightarrow> string \<Rightarrow> 'p ParserQueueItem multiset
    \<Rightarrow> 'p ParserQueueItem list \<Rightarrow> 'p ParserQueueItem option \<Rightarrow> 'p ParserQueueItem multiset \<Rightarrow> bool"
  for parse log where
  search_empty: "search parse log {#} [] None {#}"
| search_hit: "\<forall>y \<in># rest. q_penalty it \<le> q_penalty y \<Longrightarrow> item_accepts parse log it \<Longrightarrow>
    search parse log (add_mset it rest) [] (Some it) rest"
| search_miss: "\<forall>y \<in># rest. q_penalty it \<le> q_penalty y \<Longrightarrow> \<not> item_accepts parse log it \<Longrightarrow>
    search parse log rest tried found left \<Longrightarrow>
    search parse log (add_mset it rest) (it # tried) found left"

lemma classify_loop_search:
  "is_heap q \<Longrightarrow>
   \<exists>tried found left q'.
     search parse log (mset q) tried found left \<and>
     classify_loop parse log q popped =
       (map_option (\<lambda>it. (parser_after parse log (q_parser it),
            the (fst (safeLogParse parse (q_parser it) log)))) found,
        q', popped @ map (penalise parse log) tried) \<and>
     (case found of
        None \<Rightarrow> q' = [] \<and> left = {#}
      | Some it \<Rightarrow> (\<exists>rest. is_heap (it # rest) \<and> mset rest = left \<and> q' = reward parse log it # rest))"
proof (induction parse log q popped rule: classify_loop.induct)
  case (1 parse log q popped)
  show ?case
  proof (cases q)
    case Nil
    then show ?thesis
      by (auto simp: classify_loop.simps [of parse log "[]"] intro!: exI [of _ "[]"] exI [of _ None] search_empty)
  next
    case (Cons it rest)
    have least: "\<forall>y \<in># mset rest. q_penalty it \<le> q_penalty y"
      using parser_heap.peek_least [OF "1.prems", of it] Cons by (auto simp: Peek_def)
    obtain res p' where sp: "safeLogParse parse (q_parser it) log = (res, p')"
      by (cases "safeLogParse parse (q_parser it) log")
    show ?thesis
    proof (cases res)
      case (Some events)
      have "search parse log (mset q) [] (Some it) (mset rest)"
        using least sp Some Cons by (auto simp: accepts_def intro!: search_hit)
      moreover have "classify_loop parse log q popped =
          (Some (p', events), reward parse log it # rest, popped)"
        using Cons sp Some
        by (subst classify_loop.simps) (simp add: reward_def parser_after_def)
      ultimately show ?thesis
        using "1.prems" Cons sp Some
        by (intro exI [of _ "[]"] exI [of _ "Some it"] exI [of _ "mset rest"]
             exI [of _ "reward parse log it # rest"]) (auto simp: parser_after_def)
    next
      case None
      let ?it = "it\<lparr>q_parser := p'\<rparr>"
      obtain q1 where pop: "heap_Pop (q[0 := ?it]) = Some (?it, q1)" "is_heap q1" "mset q1 = mset rest"
        using root_update [of it rest ?it] "1.prems" Cons by auto
      from "1.IH" [OF Cons sp [symmetric] None pop(1) refl pop(2)]
      obtain tried found left q' where IH:
        "search parse log (mset q1) tried found left"
        "classify_loop parse log q1 (popped @ [?it\<lparr>q_penalty := q_penalty ?it + 1\<rparr>]) =
          (map_option (\<lambda>it. (parser_after parse log (q_parser it),
              the (fst (safeLogParse parse (q_parser it) log)))) found,
           q', (popped @ [?it\<lparr>q_penalty := q_penalty ?it + 1\<rparr>]) @ map (penalise parse log) tried)"
        "case found of None \<Rightarrow> q' = [] \<and> left = {#}
          | Some it \<Rightarrow> (\<exists>rest. is_heap (it # rest) \<and> mset rest = left \<and> q' = reward parse log it # rest)"
        by blast
      have "search parse log (mset q) (it # tried) found left"
        using IH(1) least sp None Cons pop(3) by (auto simp: accepts_def intro!: search_miss)
      moreover have "classify_loop parse log q popped = classify_loop parse log q1
          (popped @ [?it\<lparr>q_penalty := q_penalty ?it + 1\<rparr>])"
        using Cons sp None pop(1) by (subst classify_loop.simps) simp
      moreover have "penalise parse log it = ?it\<lparr>q_penalty := q_penalty ?it + 1\<rparr>"
        using sp by (simp add: penalise_def parser_after_def)
      ultimately show ?thesis
        using IH(2,3)
        by (intro exI [of _ "it # tried"] exI [of _ found] exI [of _ left] exI [of _ q']) auto
    qed
  qed
qed

inductive_cases search_foundE: "search parse log M tried found left"

lemma search_spec:
  "search parse log M tried found left \<Longrightarrow>
   M = mset tried + (case found of None \<Rightarrow> {#} | Some it \<Rightarrow> {#it#}) + left \<and>
   (\<forall>t \<in> set tried. \<not> item_accepts parse log t) \<and>
   (case found of
      None \<Rightarrow> left = {#}
    | Some it \<Rightarrow> item_accepts parse log it \<and> (\<forall>t \<in> set tried. q_penalty t \<le> q_penalty it) \<and>
        (\<forall>y \<in># left. q_penalty it \<le> q_penalty y))"
  by (induction rule: search.induct) (auto split: option.splits)

text \<open>The complete effect of \<open>Classify\<close> on a line that is not blank.\<close>

lemma Classify_spec:
  assumes "queue_ok (c_parsers c)" "TrimSpace line \<noteq> []"
    and "Classify parse logType cm pm c line = (result, c')"
  obtains tried found left where
    "search parse (TrimSpace line) (mset (c_parsers c)) tried found left"
    "LogType result = map_option (\<lambda>it. logType (parser_after parse (TrimSpace line) (q_parser it))) found"
    "Events result = (case found of None \<Rightarrow> []
       | Some it \<Rightarrow> the (fst (safeLogParse parse (q_parser it) (TrimSpace line))))"
    "mset (c_parsers c') = image_mset (penalise parse (TrimSpace line)) (mset tried)
       + (case found of None \<Rightarrow> {#} | Some it \<Rightarrow> {# reward parse (TrimSpace line) it #}) + left"
    "queue_ok (c_parsers c')"
proof -
  let ?log = "TrimSpace line"
  have heap: "is_heap (c_parsers c)" and nonneg: "\<forall>it \<in># mset (c_parsers c). 0 \<le> q_penalty it"
    using assms(1) by (auto simp: queue_ok_def)
  from classify_loop_search [OF heap, of parse ?log "[]"] obtain tried found left q'
    where s: "search parse ?log (mset (c_parsers c)) tried found left"
    and loop: "classify_loop parse ?log (c_parsers c) [] =
       (map_option (\<lambda>it. (parser_after parse ?log (q_parser it),
            the (fst (safeLogParse parse (q_parser it) ?log)))) found,
        q', map (penalise parse ?log) tried)"
    and q': "case found of
        None \<Rightarrow> q' = [] \<and> left = {#}
      | Some it \<Rightarrow> (\<exists>rest. is_heap (it # rest) \<and> mset rest = left \<and> q' = reward parse ?log it # rest)"
    by auto
  note spec = search_spec [OF s]
  have pen: "\<forall>t \<in> set tried. 0 \<le> q_penalty t" "\<forall>t \<in># left. 0 \<le> q_penalty t"
    "\<forall>it. found = Some it \<longrightarrow> 0 \<le> q_penalty it"
    using spec nonneg by auto
  have "is_heap q'"
  proof (cases found)
    case (Some it)
    with q' obtain rest where "is_heap (it # rest)" "q' = reward parse ?log it # rest" by auto
    then show ?thesis
      using is_heap_lower_root [of "it # rest" "reward parse ?log it"] pen(3) Some
      by (simp add: reward_def)
  qed (use q' in \<open>simp add: is_heap_def heap_upto_def\<close>)
  note push = parser_heap.push_all [OF this, of "map (penalise parse ?log) tried"]
  have "line \<noteq> []" using assms(2) by auto
  then have run: "(result, c') =
      (fst (classify_trimmed parse logType pm c ?log),
       (snd (classify_trimmed parse logType pm c ?log))\<lparr>c_stats :=
          updateStats cm ?log (fst (classify_trimmed parse logType pm c ?log))
            (c_stats (snd (classify_trimmed parse logType pm c ?log)))\<rparr>)"
    using assms(2,3) by (auto simp: Classify_def Let_def case_prod_beta)
  have parsers: "c_parsers c' = foldl heap_Push q' (map (penalise parse ?log) tried)"
    using run loop by (cases found) (simp_all add: classify_trimmed_def Let_def)
  have items: "mset (c_parsers c') = image_mset (penalise parse ?log) (mset tried)
       + (case found of None \<Rightarrow> {#} | Some it \<Rightarrow> {# reward parse ?log it #}) + left"
    using push q' parsers by (auto simp: ac_simps split: option.splits)
  moreover have "queue_ok (c_parsers c')"
  proof -
    have "\<forall>it \<in># mset (c_parsers c'). 0 \<le> q_penalty it"
      unfolding items using pen by (auto simp: penalise_def reward_def split: option.splits)
    moreover have "is_heap (c_parsers c')" using push parsers by simp
    ultimately show ?thesis by (simp only: queue_ok_def set_mset_mset [symmetric] simp_thms)
  qed
  moreover have "LogType result = map_option (\<lambda>it. logType (parser_after parse ?log (q_parser it))) found"
    and "Events result = (case found of None \<Rightarrow> []
       | Some it \<Rightarrow> the (fst (safeLogParse parse (q_parser it) ?log)))"
    using run loop by (cases found; simp add: classify_trimmed_def Let_def)+
  ultimately show ?thesis using that s by blast
qed

lemma Classify_blank:
  "TrimSpace line = [] \<Longrightarrow> Classify parse logType cm pm c line = (result, c') \<Longrightarrow>
   LogType result = None \<and> Events result = [] \<and> c_parsers c' = c_parsers c \<and>
   c_parserStats c' = c_parserStats c"
  by (auto simp: Classify_def Let_def split: if_splits)

lemma queue_ok_initialize: "queue_ok (initialize elements)"
  by (auto simp: queue_ok_def is_heap_initialize) (auto simp: initialize_def)

lemma Classify_queue_ok:
  "queue_ok (c_parsers c) \<Longrightarrow> Classify parse logType cm pm c line = (result, c') \<Longrightarrow>
   queue_ok (c_parsers c')"
  by (cases "TrimSpace line = []") (use Classify_blank in fastforce, blast elim: Classify_spec)

section \<open>Statistics over a sequence of lines\<close>

text \<open>One classifier reads a whole file: a sequence of lines, each with the measured times.\<close>

fun classify_all :: "('p, 'e) parse_method \<Rightarrow> ('p \<Rightarrow> string) \<Rightarrow> (string \<times> uint64 \<times> uint64) list
    \<Rightarrow> 'p Classifier \<Rightarrow> 'e ClassifierResult list \<times> 'p Classifier" where
  "classify_all parse logType [] c = ([], c)"
| "classify_all parse logType ((line, cm, pm) # rest) c =
     (case Classify parse logType cm pm c line of
        (result, c1) \<Rightarrow>
          (case classify_all parse logType rest c1 of (results, c2) \<Rightarrow> (result # results, c2)))"

definition parser_total :: "(ParserStats \<Rightarrow> uint64) \<Rightarrow> (string, ParserStats) amap \<Rightarrow> uint64" where
  "parser_total f stats = sum_list (map (f \<circ> snd) stats)"

text \<open>The counters agree with each other: the per-parser line and event counts add up to the
  classified lines and to the events.\<close>

definition stats_ok :: "'p Classifier \<Rightarrow> bool" where
  "stats_ok c \<longleftrightarrow>
     parser_total ps_LogLineCount (c_parserStats c) = SuccessfullyClassifiedCount (c_stats c) \<and>
     parser_total ps_EventCount (c_parserStats c) = EventCount (c_stats c) \<and>
     (\<forall>(lt, st) \<in> set (c_parserStats c). ps_LogType st = lt)"

lemma parser_total_put:
  "parser_total f (amap_put k v m) =
     parser_total f m - (case map_of m k of None \<Rightarrow> 0 | Some w \<Rightarrow> f w) + f v"
  by (induction k v m rule: amap_put.induct) (auto simp: parser_total_def)

lemma addParserStat_totals:
  "parser_total ps_LogLineCount (addParserStat lt pm log events stats) = parser_total ps_LogLineCount stats + 1"
  "parser_total ps_EventCount (addParserStat lt pm log events stats) =
     parser_total ps_EventCount stats + of_nat (length events)"
  by (auto simp: addParserStat_def Let_def parser_total_put split: option.splits)

lemma addParserStat_logType:
  assumes "\<forall>(lt, st) \<in> set stats. ps_LogType st = lt"
  shows "\<forall>(lt', st) \<in> set (addParserStat lt pm log events stats). ps_LogType st = lt'"
proof -
  have "ps_LogType st = lt" if "map_of stats lt = Some st" for st
    using assms map_of_SomeD [OF that] by auto
  then show ?thesis
    using assms by (auto simp: addParserStat_def Let_def dest!: amap_put_in split: option.splits)
qed

lemma Classify_cases:
  assumes "Classify parse logType cm pm c line = (result, c')"
  obtains (empty) "line = []" "LogType result = None" "Events result = []" "c' = c"
    | (blank) "line \<noteq> []" "TrimSpace line = []" "LogType result = None" "Events result = []"
        "c' = c\<lparr>c_stats := updateStats cm [] result (c_stats c)\<rparr>"
    | (failed) "line \<noteq> []" "TrimSpace line \<noteq> []" "LogType result = None" "Events result = []"
        "c_parserStats c' = c_parserStats c" "c_stats c' = updateStats cm (TrimSpace line) result (c_stats c)"
    | (classified) lt where "line \<noteq> []" "TrimSpace line \<noteq> []" "LogType result = Some lt"
        "c_parserStats c' = addParserStat lt pm (TrimSpace line) (Events result) (c_parserStats c)"
        "c_stats c' = updateStats cm (TrimSpace line) result (c_stats c)"
proof (cases "TrimSpace line = []")
  case True
  then show ?thesis
    using assms empty blank by (cases "line = []") (auto simp: Classify_def Let_def)
next
  case False
  then have "line \<noteq> []" by auto
  moreover obtain found q popped where "classify_loop parse (TrimSpace line) (c_parsers c) [] = (found, q, popped)"
    by (cases "classify_loop parse (TrimSpace line) (c_parsers c) []")
  ultimately show ?thesis
    using assms False failed classified
    by (cases found) (auto simp: Classify_def classify_trimmed_def Let_def)
qed

lemma Classify_stats_ok:
  "stats_ok c \<Longrightarrow> Classify parse logType cm pm c line = (result, c') \<Longrightarrow> stats_ok c'"
  by (erule Classify_cases)
     (auto simp: stats_ok_def updateStats_def Let_def addParserStat_totals
       dest: addParserStat_logType [of "c_parserStats c"] split: if_splits)

definition blank_line :: "string \<Rightarrow> bool" where
  "blank_line line \<longleftrightarrow> TrimSpace line = []"

lemma classify_all_counts:
  "classify_all parse logType xs c = (results, c') \<Longrightarrow>
   LogLineCount (c_stats c') = LogLineCount (c_stats c) + of_nat (length (filter (\<lambda>(l, _). l \<noteq> []) xs)) \<and>
   SuccessfullyClassifiedCount (c_stats c') =
     SuccessfullyClassifiedCount (c_stats c) + of_nat (length (filter (\<lambda>r. LogType r \<noteq> None) results)) \<and>
   SuccessfullyClassifiedCount (c_stats c') + ClassificationFailureCount (c_stats c') =
     SuccessfullyClassifiedCount (c_stats c) + ClassificationFailureCount (c_stats c)
       + of_nat (length (filter (\<lambda>(l, _). \<not> blank_line l) xs)) \<and>
   EventCount (c_stats c') = EventCount (c_stats c) + of_nat (length (concat (map Events results)))"
proof (induction parse logType xs c arbitrary: results rule: classify_all.induct)
  case (2 parse logType line cm pm rest c)
  obtain r1 c1 where one: "Classify parse logType cm pm c line = (r1, c1)"
    by (cases "Classify parse logType cm pm c line")
  obtain rs c2 where more: "classify_all parse logType rest c1 = (rs, c2)"
    by (cases "classify_all parse logType rest c1")
  from "2.prems" one more have eq: "results = r1 # rs" "c' = c2" by auto
  note IH = "2.IH" [OF one [symmetric] more [unfolded eq(2) [symmetric]]]
  from one show ?case
    by (cases rule: Classify_cases)
       (use IH in \<open>auto simp: eq updateStats_def Let_def blank_line_def algebra_simps\<close>)
qed simp

lemma classify_all_invariants:
  "classify_all parse logType xs c = (results, c') \<Longrightarrow> queue_ok (c_parsers c) \<Longrightarrow> stats_ok c \<Longrightarrow>
   queue_ok (c_parsers c') \<and> stats_ok c'"
proof (induction parse logType xs c arbitrary: results rule: classify_all.induct)
  case (2 parse logType line cm pm rest c)
  then show ?case
    by (auto split: prod.splits dest: Classify_queue_ok Classify_stats_ok)
qed simp

section \<open>Properties\<close>

text \<open>Parsers for the witnesses: one per first character, the log type is the character.\<close>

definition sample_parse :: "(char, string) parse_method" where
  "sample_parse p log =
     (if log \<noteq> [] \<and> hd log = p then (Parsed (Some [log]), p)
      else if p = CHR ''x'' then (Panics, p) else (Parsed None, p))"

text \<open>C5. Classification of a line that is not blank is complete and respects the priorities: it
  fails exactly when every parser of the queue rejects the line, and otherwise returns the log type
  and the events of an accepting parser whose penalty is least among the accepting ones.\<close>

theorem Classify_finds_parser:
  assumes "queue_ok (c_parsers c)" "TrimSpace line \<noteq> []"
    and "Classify parse logType cm pm c line = (result, c')"
  shows "(LogType result = None \<longleftrightarrow>
      (\<forall>it \<in> set (c_parsers c). \<not> item_accepts parse (TrimSpace line) it)) \<and>
    (LogType result \<noteq> None \<longrightarrow>
      (\<exists>it \<in> set (c_parsers c).
         fst (safeLogParse parse (q_parser it) (TrimSpace line)) = Some (Events result) \<and>
         LogType result = Some (logType (parser_after parse (TrimSpace line) (q_parser it))) \<and>
         (\<forall>it' \<in> set (c_parsers c).
            item_accepts parse (TrimSpace line) it' \<longrightarrow> q_penalty it \<le> q_penalty it')))"
proof -
  from Classify_spec [OF assms] obtain tried found left where
    s: "search parse (TrimSpace line) (mset (c_parsers c)) tried found left"
    and lt: "LogType result = map_option (\<lambda>it. logType (parser_after parse (TrimSpace line) (q_parser it))) found"
    and ev: "Events result = (case found of None \<Rightarrow> []
       | Some it \<Rightarrow> the (fst (safeLogParse parse (q_parser it) (TrimSpace line))))" by metis
  note spec = search_spec [OF s]
  have members: "it \<in> set (c_parsers c) \<longleftrightarrow> it \<in> set tried \<or> found = Some it \<or> it \<in># left" for it
    using arg_cong [OF conjunct1 [OF spec], of set_mset] by (cases found) auto
  show ?thesis
  proof (cases found)
    case None
    with spec lt members show ?thesis by auto
  next
    case (Some it)
    with spec lt ev members show ?thesis
      by (auto simp: accepts_def intro!: bexI [of _ it])
  qed
qed

theorem Classify_finds_parser_witness:
  "LogType (fst (Classify sample_parse (\<lambda>p. [p]) 5 2 (NewClassifier [CHR ''x'', CHR ''b'', CHR ''a'']) '' apple''))
    = Some ''a''"
proof -
  let ?c = "NewClassifier [CHR ''x'', CHR ''b'', CHR ''a'']"
  let ?run = "Classify sample_parse (\<lambda>p. [p]) 5 2 ?c '' apple''"
  have ok: "queue_ok (c_parsers ?c)" by (simp add: NewClassifier_def queue_ok_initialize)
  have trim: "TrimSpace '' apple'' = ''apple''" by code_simp
  note found = Classify_finds_parser [OF ok _ prod.collapse [symmetric], of "'' apple''" sample_parse
      "\<lambda>p. [p]" 5 2, unfolded trim, simplified]
  have "\<exists>it \<in> set (c_parsers ?c). item_accepts sample_parse ''apple'' it"
    by (simp add: NewClassifier_def initialize_def accepts_def safeLogParse_def sample_parse_def)
  with found obtain it where "it \<in> set (c_parsers ?c)"
    "fst (safeLogParse sample_parse (q_parser it) ''apple'') = Some (Events (fst ?run))"
    "LogType (fst ?run) = Some [parser_after sample_parse ''apple'' (q_parser it)]" by blast
  then show ?thesis
    by (auto simp: NewClassifier_def initialize_def safeLogParse_def sample_parse_def parser_after_def)
qed

text \<open>C38. Classification loses no parser and keeps the queue a heap: what the queue holds afterwards
  are the parsers tried and rejected with their penalty raised by one, the accepting parser with
  penalty 0, and the untried parsers as they were; in particular the number of parsers and their
  log types do not change.\<close>

theorem Classify_keeps_queue:
  assumes "queue_ok (c_parsers c)" "TrimSpace line \<noteq> []"
    and "Classify parse logType cm pm c line = (result, c')"
    and "\<forall>p l. logType (parser_after parse l p) = logType p"
  shows "\<exists>tried found left.
      mset (c_parsers c) = mset tried + (case found of None \<Rightarrow> {#} | Some it \<Rightarrow> {#it#}) + left \<and>
      (\<forall>t \<in> set tried. \<not> item_accepts parse (TrimSpace line) t) \<and>
      (\<forall>it. found = Some it \<longrightarrow> item_accepts parse (TrimSpace line) it) \<and>
      mset (c_parsers c') = image_mset (penalise parse (TrimSpace line)) (mset tried)
        + (case found of None \<Rightarrow> {#} | Some it \<Rightarrow> {# reward parse (TrimSpace line) it #}) + left \<and>
      queue_ok (c_parsers c') \<and>
      image_mset (logType \<circ> q_parser) (mset (c_parsers c')) = image_mset (logType \<circ> q_parser) (mset (c_parsers c))"
proof -
  from Classify_spec [OF assms(1-3)] obtain tried found left where
    s: "search parse (TrimSpace line) (mset (c_parsers c)) tried found left"
    and items: "mset (c_parsers c') = image_mset (penalise parse (TrimSpace line)) (mset tried)
        + (case found of None \<Rightarrow> {#} | Some it \<Rightarrow> {# reward parse (TrimSpace line) it #}) + left"
    and ok: "queue_ok (c_parsers c')" by metis
  note spec = search_spec [OF s]
  have same: "image_mset (logType \<circ> q_parser) (mset (c_parsers c')) =
      image_mset (logType \<circ> q_parser) (mset (c_parsers c))"
    unfolding items conjunct1 [OF spec] using assms(4)
    by (cases found) (auto simp: multiset.map_comp o_def penalise_def reward_def)
  with spec items ok show ?thesis
    by (intro exI [of _ tried] exI [of _ found] exI [of _ left]) (auto split: option.splits)
qed

theorem Classify_keeps_queue_witness:
  "image_mset ((\<lambda>p. [p]) \<circ> q_parser) (mset (c_parsers (snd (Classify sample_parse (\<lambda>p. [p]) 5 2
      (NewClassifier [CHR ''x'', CHR ''b'', CHR ''a'']) '' apple'')))) = {# ''x'', ''b'', ''a'' #}"
proof -
  let ?c = "NewClassifier [CHR ''x'', CHR ''b'', CHR ''a'']"
  have ok: "queue_ok (c_parsers ?c)" by (simp add: NewClassifier_def queue_ok_initialize)
  have trim: "TrimSpace '' apple'' \<noteq> []" by code_simp
  have lt: "\<forall>p l. [parser_after sample_parse l p] = [p]"
    by (simp add: parser_after_def safeLogParse_def sample_parse_def)
  from Classify_keeps_queue [OF ok trim prod.collapse [symmetric] lt, of 5 2]
  show ?thesis by (auto simp: NewClassifier_def initialize_def)
qed

text \<open>Over any sequence of lines read by a new classifier, the statistics are exact (as 64-bit
  counters): every non-empty line is counted, every line that is not blank is counted once as
  classified or as failed, and the per-parser statistics add up to the aggregate ones and are filed
  under their own log type.\<close>

theorem classifier_stats_exact:
  assumes "classify_all parse logType xs (NewClassifier elements) = (results, c)"
  shows "LogLineCount (c_stats c) = of_nat (length (filter (\<lambda>(l, _). l \<noteq> []) xs)) \<and>
    SuccessfullyClassifiedCount (c_stats c) = of_nat (length (filter (\<lambda>r. LogType r \<noteq> None) results)) \<and>
    SuccessfullyClassifiedCount (c_stats c) + ClassificationFailureCount (c_stats c) =
      of_nat (length (filter (\<lambda>(l, _). TrimSpace l \<noteq> []) xs)) \<and>
    EventCount (c_stats c) = of_nat (length (concat (map Events results))) \<and>
    parser_total ps_LogLineCount (c_parserStats c) = SuccessfullyClassifiedCount (c_stats c) \<and>
    parser_total ps_EventCount (c_parserStats c) = EventCount (c_stats c) \<and>
    (\<forall>(lt, st) \<in> set (c_parserStats c). ps_LogType st = lt)"
proof -
  have "stats_ok (NewClassifier elements)" "queue_ok (c_parsers (NewClassifier elements))"
    by (simp_all add: stats_ok_def parser_total_def NewClassifier_def queue_ok_initialize)
  then have "stats_ok c" using classify_all_invariants [OF assms] by blast
  moreover have "c_stats (NewClassifier elements) =
      \<lparr>ClassifyTimeMicroseconds = 0, BytesProcessedCount = 0, LogLineCount = 0, EventCount = 0,
       SuccessfullyClassifiedCount = 0, ClassificationFailureCount = 0\<rparr>"
    by (simp add: NewClassifier_def)
  ultimately show ?thesis
    using classify_all_counts [OF assms] unfolding stats_ok_def blank_line_def by force
qed

theorem classifier_stats_exact_witness:
  "LogLineCount (c_stats (snd (classify_all sample_parse (\<lambda>p. [p]) [(''apple'', 5, 2), ('' '', 1, 0), ([], 0, 0)]
      (NewClassifier [CHR ''b'', CHR ''a''])))) = 2"
  using classifier_stats_exact [OF prod.collapse [symmetric], of sample_parse "\<lambda>p. [p]"
      "[(''apple'', 5, 2), ('' '', 1, 0), ([], 0, 0)]" "[CHR ''b'', CHR ''a'']"]
  by simp

text \<open>The classification time is not accumulated: after a sequence of lines that ends with a
  non-empty line it is the time of that last line alone, although the field is documented as the
  total time.\<close>

theorem classify_time_not_accumulated:
  assumes "line \<noteq> []" and "Classify parse logType cm pm c line = (result, c')"
  shows "ClassifyTimeMicroseconds (c_stats c') = cm"
  using assms(2)
  by (cases rule: Classify_cases) (use assms(1) in \<open>auto simp: updateStats_def Let_def\<close>)

theorem classify_time_not_accumulated_witness:
  "ClassifyTimeMicroseconds (c_stats (snd (Classify sample_parse (\<lambda>p. [p]) 7 2
     (snd (Classify sample_parse (\<lambda>p. [p]) 5 2 (NewClassifier [CHR ''a'']) ''apple'')) ''avocado''))) = 7"
  by (rule classify_time_not_accumulated [OF _ prod.collapse [symmetric]]) simp

end
