(* ===== verification/Log_Processor.thy ===== *)
theory Log_Processor
  imports Classifier
begin

text \<open>
  \<open>log_processor/processor/processor.go\<close>: reading a data stream line by line, classifying each line
  and forwarding its events; running the streams one after the other with one destination.

  The classifier is an interface in the source (\<open>classification.ClassifierAPI\<close>): here a state \<open>'c\<close>
  and its method \<open>classify\<close>. A data stream is the bytes its reader delivers and the error that ends
  it, if it does not end with \<open>io.EOF\<close>. The channel of parsed events is the list of the events
  written to it. The destination is the interface \<open>destinations.Destination\<close>: the errors it writes
  to the error channel for a list of events. The two writers of the error channel are concurrent,
  so the result of \<open>process\<close> is a set, one element for each interleaving.
\<close>

type_synonym ('c, 'e) classify_method = "'c \<Rightarrow> string \<Rightarrow> 'e ClassifierResult \<times> 'c"

record DataStream =
  ds_data :: string
  ds_error :: "error option" \<comment> \<open>\<open>None\<close>: the reader ends with \<open>io.EOF\<close>\<close>

abbreviation EventDelimiter :: char where "EventDelimiter \<equiv> CHR 0x0A"

text \<open>\<open>bufio.Reader.ReadString(EventDelimiter)\<close>: the bytes up to and including the first delimiter,
  or all that is left when there is none (with the error that ends the stream).\<close>

definition ReadString :: "string \<Rightarrow> string \<times> string option" where
  "ReadString s =
     (case dropWhile (\<lambda>ch. ch \<noteq> EventDelimiter) s of
        [] \<Rightarrow> (s, None)
      | d # rest \<Rightarrow> (takeWhile (\<lambda>ch. ch \<noteq> EventDelimiter) s @ [d], Some rest))"

definition processLogLine :: "('c, 'e) classify_method \<Rightarrow> 'c \<Rightarrow> string \<Rightarrow> 'e list \<times> 'c" where
  "processLogLine classify c line =
     (case classify c line of (result, c') \<Rightarrow>
        (case LogType result of
           None \<Rightarrow> ([], c')
         | Some _ \<Rightarrow> (Events result, c')))"

lemma ReadString_shorter: "ReadString s = (line, Some rest) \<Longrightarrow> length rest < length s"
proof -
  assume "ReadString s = (line, Some rest)"
  then obtain d where "dropWhile (\<lambda>ch. ch \<noteq> EventDelimiter) s = d # rest"
    by (auto simp: ReadString_def split: list.splits)
  then show ?thesis
    using length_dropWhile_le [of "\<lambda>ch. ch \<noteq> EventDelimiter" s] by simp
qed

function run_loop :: "('c, 'e) classify_method \<Rightarrow> string \<Rightarrow> error option \<Rightarrow> 'c
    \<Rightarrow> error option \<times> 'e list \<times> 'c" where
  "run_loop classify s err c =
     (case ReadString s of
        (line, None) \<Rightarrow>
          (case err of
             None \<Rightarrow> (case processLogLine classify c line of (events, c') \<Rightarrow> (None, events, c'))
           | Some e \<Rightarrow> (Some e, [], c))
      | (line, Some rest) \<Rightarrow>
          (case processLogLine classify c line of (events, c') \<Rightarrow>
             (case run_loop classify rest err c' of (e, events2, c'') \<Rightarrow> (e, events @ events2, c''))))"
  by pat_completeness auto
termination
  by (relation "measure (\<lambda>(_, s, _, _). length s)") (auto dest: ReadString_shorter [OF sym])

declare run_loop.simps [simp del]

definition run :: "('c, 'e) classify_method \<Rightarrow> DataStream \<Rightarrow> 'c \<Rightarrow> error option \<times> 'e list \<times> 'c" where
  "run classify input c =
     (case run_loop classify (ds_data input) (ds_error input) c of
        (None, events, c') \<Rightarrow> (None, events, c')
      | (Some e, events, c') \<Rightarrow> (Some (''failed to ReadString(): '' @ e), events, c'))"

text \<open>The loop over the streams in \<open>process\<close>: it stops at the first stream that fails.\<close>

fun run_streams :: "('c, 'e) classify_method \<Rightarrow> (DataStream \<Rightarrow> 'c) \<Rightarrow> DataStream list
    \<Rightarrow> error list \<times> 'e list" where
  "run_streams classify newProcessor [] = ([], [])"
| "run_streams classify newProcessor (d # ds) =
     (case run classify d (newProcessor d) of
        (Some e, events, _) \<Rightarrow> ([e], events)
      | (None, events, _) \<Rightarrow>
          (case run_streams classify newProcessor ds of (errs, events2) \<Rightarrow> (errs, events @ events2)))"

text \<open>The reader of the error channel keeps the last error it receives.\<close>

definition last_error :: "error list \<Rightarrow> error option" where
  "last_error es = (if es = [] then None else Some (last es))"

definition process :: "('c, 'e) classify_method \<Rightarrow> (DataStream \<Rightarrow> 'c) \<Rightarrow> ('e list \<Rightarrow> error list)
    \<Rightarrow> DataStream list \<Rightarrow> error option set" where
  "process classify newProcessor sendEvents dataStreams =
     (case run_streams classify newProcessor dataStreams of (errs, events) \<Rightarrow>
        last_error ` shuffles (sendEvents events) errs)"

section \<open>The lines of a stream\<close>

function stream_lines :: "string \<Rightarrow> string list" where
  "stream_lines s =
     (case ReadString s of (line, None) \<Rightarrow> [line] | (line, Some rest) \<Rightarrow> line # stream_lines rest)"
  by pat_completeness auto
termination
  by (relation "measure length") (auto dest: ReadString_shorter [OF sym])

declare stream_lines.simps [simp del]

lemma ReadString_append: "ReadString s = (line, Some rest) \<Longrightarrow>
    s = line @ rest \<and> (\<exists>pre. line = pre @ [EventDelimiter] \<and> EventDelimiter \<notin> set pre)"
proof -
  assume rs: "ReadString s = (line, Some rest)"
  then obtain d where d: "dropWhile (\<lambda>ch. ch \<noteq> EventDelimiter) s = d # rest"
    "line = takeWhile (\<lambda>ch. ch \<noteq> EventDelimiter) s @ [d]"
    by (auto simp: ReadString_def split: list.splits)
  then have "d = EventDelimiter" using hd_dropWhile [of "\<lambda>ch. ch \<noteq> EventDelimiter" s] by simp
  with d takeWhile_dropWhile_id [of "\<lambda>ch. ch \<noteq> EventDelimiter" s] show ?thesis
    by (auto dest: set_takeWhileD)
qed

lemma ReadString_last: "ReadString s = (line, None) \<Longrightarrow> line = s \<and> EventDelimiter \<notin> set s"
  by (auto simp: ReadString_def split: list.splits)

lemma stream_lines_concat: "concat (stream_lines s) = s"
proof (induction s rule: stream_lines.induct)
  case (1 s)
  then show ?case
    by (subst stream_lines.simps)
       (auto split: prod.splits option.splits dest: ReadString_append ReadString_last)
qed

lemma stream_lines_nonempty [simp]: "stream_lines s \<noteq> []"
  by (subst stream_lines.simps) (auto split: prod.splits option.splits)

lemma stream_lines_terminated:
  "\<forall>line \<in> set (butlast (stream_lines s)). \<exists>pre. line = pre @ [EventDelimiter] \<and> EventDelimiter \<notin> set pre"
proof (induction s rule: stream_lines.induct)
  case (1 s)
  show ?case
  proof (cases "ReadString s")
    case (Pair line rest)
    with 1 ReadString_append [of s line] show ?thesis
      by (subst stream_lines.simps) (cases rest; auto)
  qed
qed

text \<open>Classifying the lines one after the other.\<close>

fun process_lines :: "('c, 'e) classify_method \<Rightarrow> string list \<Rightarrow> 'c \<Rightarrow> 'e list \<times> 'c" where
  "process_lines classify [] c = ([], c)"
| "process_lines classify (l # ls) c =
     (case processLogLine classify c l of (events, c') \<Rightarrow>
        (case process_lines classify ls c' of (events2, c'') \<Rightarrow> (events @ events2, c'')))"

lemma run_loop_lines:
  "run_loop classify s err c =
     (case err of
        None \<Rightarrow> (case process_lines classify (stream_lines s) c of (events, c') \<Rightarrow> (None, events, c'))
      | Some e \<Rightarrow> (case process_lines classify (butlast (stream_lines s)) c of
                    (events, c') \<Rightarrow> (Some e, events, c')))"
proof (induction classify s err c rule: run_loop.induct)
  case (1 classify s err c)
  show ?case
  proof (cases "ReadString s")
    case (Pair line rest)
    with 1 show ?thesis
      by (subst run_loop.simps, subst (1 2) stream_lines.simps)
         (auto split: option.splits prod.splits)
  qed
qed

section \<open>Properties\<close>

text \<open>A stream that ends normally is cut into lines whose concatenation is the stream, all but
  the last ending with the only delimiter they contain; every one of them is classified, in order,
  by the same classifier, and exactly the events of the classified lines are forwarded, in order.
  When the stream breaks off with an error, the same holds of the complete lines read before it,
  the last, incomplete line is not processed, and the error is returned.\<close>

theorem run_processes_every_line:
  "concat (stream_lines s) = s \<and>
   (\<forall>line \<in> set (butlast (stream_lines s)). \<exists>pre. line = pre @ [EventDelimiter] \<and> EventDelimiter \<notin> set pre) \<and>
   run classify \<lparr>ds_data = s, ds_error = None\<rparr> c =
     (case process_lines classify (stream_lines s) c of (events, c') \<Rightarrow> (None, events, c')) \<and>
   run classify \<lparr>ds_data = s, ds_error = Some e\<rparr> c =
     (case process_lines classify (butlast (stream_lines s)) c of
        (events, c') \<Rightarrow> (Some (''failed to ReadString(): '' @ e), events, c'))"
  using stream_lines_concat [of s] stream_lines_terminated [of s]
  by (auto simp: run_def run_loop_lines split: prod.splits)

theorem run_processes_every_line_witness:
  "stream_lines (''a'' @ [EventDelimiter] @ ''b'') = [''a'' @ [EventDelimiter], ''b''] \<and>
   (\<exists>pre. ''a'' @ [EventDelimiter] = pre @ [EventDelimiter] \<and> EventDelimiter \<notin> set pre) \<and>
   run (\<lambda>c line. (\<lparr>Events = [line], LogType = Some ''raw''\<rparr>, c + 1)) \<lparr>ds_data = ''a'' @ [EventDelimiter] @ ''b'', ds_error = None\<rparr> (0 :: nat)
     = (None, [''a'' @ [EventDelimiter], ''b''], 2)"
proof -
  let ?s = "''a'' @ [EventDelimiter] @ ''b''"
  let ?cl = "\<lambda>c line. (\<lparr>Events = [line], LogType = Some ''raw''\<rparr>, c + 1)"
  have lines: "stream_lines ?s = [''a'' @ [EventDelimiter], ''b'']" by code_simp
  have "process_lines ?cl [''a'' @ [EventDelimiter], ''b''] (0 :: nat) = ([''a'' @ [EventDelimiter], ''b''], 2)"
    by code_simp
  with run_processes_every_line [of ?s ?cl "0 :: nat" "''eof''"] lines show ?thesis by simp
qed

lemma last_error_None: "last_error es = None \<longleftrightarrow> es = []"
  by (simp add: last_error_def)

lemma last_error_Some: "last_error es = Some e \<Longrightarrow> e \<in> set es"
  by (auto simp: last_error_def split: if_splits)

lemma shuffles_nonempty: "shuffles xs ys \<noteq> {}"
  by (induction xs ys rule: shuffles.induct) auto

text \<open>However the goroutines interleave, \<open>process\<close> returns nil if and only if no stream failed
  and the destination reported no error; otherwise it returns one of the reported errors.\<close>

theorem process_reports_errors:
  assumes "run_streams classify newProcessor streams = (errs, events)"
  shows "process classify newProcessor sendEvents streams \<noteq> {} \<and>
    (None \<in> process classify newProcessor sendEvents streams \<longleftrightarrow> errs = [] \<and> sendEvents events = []) \<and>
    (\<forall>e. Some e \<in> process classify newProcessor sendEvents streams \<longrightarrow>
       e \<in> set errs \<union> set (sendEvents events))"
proof -
  let ?S = "shuffles (sendEvents events) errs"
  have eq: "process classify newProcessor sendEvents streams = last_error ` ?S"
    by (simp add: process_def assms)
  have "None \<in> last_error ` ?S \<longleftrightarrow> [] \<in> ?S"
    by (metis (no_types, lifting) image_iff last_error_None)
  moreover have "e \<in> set errs \<union> set (sendEvents events)" if "Some e \<in> last_error ` ?S" for e
    using that set_shuffles by (fastforce dest: last_error_Some [OF sym])
  ultimately show ?thesis
    using shuffles_nonempty [of "sendEvents events" errs] by (auto simp: eq)
qed

theorem process_reports_errors_witness:
  "None \<notin> process (\<lambda>c line. (\<lparr>Events = [line], LogType = Some ''raw''\<rparr>, c)) (\<lambda>_. ())
     (\<lambda>events. if length events > 1 then [''S3Upload''] else [])
     [\<lparr>ds_data = ''a'' @ [EventDelimiter] @ ''b'', ds_error = None\<rparr>]"
proof -
  let ?cl = "\<lambda>c line. (\<lparr>Events = [line], LogType = Some ''raw''\<rparr>, c)"
  let ?streams = "[\<lparr>ds_data = ''a'' @ [EventDelimiter] @ ''b'', ds_error = None\<rparr>]"
  have "run_streams ?cl (\<lambda>_. ()) ?streams = ([], [''a'' @ [EventDelimiter], ''b''])"
    by code_simp
  from process_reports_errors [OF this, of "\<lambda>events. if length events > 1 then [''S3Upload''] else []"]
  show ?thesis by simp
qed

text \<open>The streams are processed in order up to the first one that fails: the events forwarded are
  those of the streams before it followed by those it yielded before its error, and no later stream
  is read; with no failure the events of all streams are forwarded in order.\<close>

theorem run_streams_in_order:
  "(\<forall>d \<in> set ds. fst (run classify d (newProcessor d)) = None) \<Longrightarrow>
   run_streams classify newProcessor ds = ([], concat (map (\<lambda>d. fst (snd (run classify d (newProcessor d)))) ds)) \<and>
   (fst (run classify b (newProcessor b)) = Some e \<longrightarrow>
      run_streams classify newProcessor (ds @ b # rest) =
        ([e], concat (map (\<lambda>d. fst (snd (run classify d (newProcessor d)))) (ds @ [b]))))"
  by (induction ds) (auto split: prod.splits option.splits)

theorem run_streams_in_order_witness:
  "run_streams (\<lambda>c line. (\<lparr>Events = [line], LogType = Some ''raw''\<rparr>, c)) (\<lambda>_. ())
     [\<lparr>ds_data = ''a'', ds_error = None\<rparr>, \<lparr>ds_data = ''b'', ds_error = Some ''reset''\<rparr>,
      \<lparr>ds_data = ''c'', ds_error = None\<rparr>] = ([''failed to ReadString(): reset''], [''a''])"
proof -
  let ?cl = "\<lambda>c line. (\<lparr>Events = [line], LogType = Some ''raw''\<rparr>, c)"
  have ok: "\<forall>d \<in> set [\<lparr>ds_data = ''a'', ds_error = None\<rparr>]. fst (run ?cl d ((\<lambda>_. ()) d)) = None"
    by code_simp
  have "fst (run ?cl \<lparr>ds_data = ''b'', ds_error = Some ''reset''\<rparr> ()) = Some ''failed to ReadString(): reset''"
    "fst (snd (run ?cl \<lparr>ds_data = ''a'', ds_error = None\<rparr> ())) = [''a'']"
    "fst (snd (run ?cl \<lparr>ds_data = ''b'', ds_error = Some ''reset''\<rparr> ())) = []"
    by code_simp+
  with run_streams_in_order [OF ok, of "\<lparr>ds_data = ''b'', ds_error = Some ''reset''\<rparr>"
      "''failed to ReadString(): reset''" "[\<lparr>ds_data = ''c'', ds_error = None\<rparr>]"]
  show ?thesis by simp
qed

end
