(* ===== verification/S3_Destination.thy ===== *)
theory S3_Destination
  imports Panther_Prelude
begin

text \<open>
  \<open>log_processor/destinations/s3.go\<close>: accumulating events in one buffer per hour and log type, and
  writing buffers to S3 when they expire, grow too large, or the events end.

  Buffers are Go pointers held by a nested map (hour, then log type), by local variables and by the
  channel \<open>sendChan\<close>, so they live in an explicit store (a list; an address is an index), and the map
  holds addresses. A buffer's contents are the list of the marshalled events written to it; the gzip
  stream in memory cannot fail. \<open>read\<close> takes the contents and sets the writer to nil: from then on a
  write or a second \<open>read\<close> is a nil dereference, which ends the process (\<open>d_crashed\<close>).

  Inputs of a step are the event, whether the expiry ticker has fired (with the time read then) and
  the current time. \<open>marshal\<close>, the object key, the S3 upload and the SNS publication are parameters.
  \<open>sendChan\<close> is unbuffered with one reader, so buffers are sent one after the other in the order of
  the sends; the model sends each at the point where it is put on the channel.
\<close>

type_synonym addr = nat

record s3EventBuffer =
  buf_logType :: string
  buf_content :: "string list"
  buf_bytes :: int
  buf_events :: int
  buf_hour :: int
  buf_createTime :: int
  buf_open :: bool \<comment> \<open>the writer is not nil\<close>

record 'e panther_event =
  ev_time :: int \<comment> \<open>\<open>PantherEventTime\<close>, in nanoseconds\<close>
  ev_logType :: string
  ev_body :: 'e

record s3_upload =
  up_key :: string
  up_logType :: string
  up_hour :: int
  up_bytes :: int
  up_content :: "string list"

type_synonym buffer_set = "(int, (string, addr) amap) amap"

record s3_state =
  d_store :: "s3EventBuffer list"
  d_set :: buffer_set
  d_total :: uint64 \<comment> \<open>\<open>totalBufferedMemBytes\<close>\<close>
  d_uploads :: "s3_upload list" \<comment> \<open>objects written and notified\<close>
  d_errors :: "error list"
  d_failed :: bool
  d_crashed :: bool
  d_processed :: nat

text \<open>The collaborators of the destination: the key of the n-th object, the outcome of the n-th
  upload and of the n-th notification.\<close>

record s3_env =
  env_key :: "nat \<Rightarrow> string \<Rightarrow> int \<Rightarrow> string"
  env_upload :: "nat \<Rightarrow> s3_upload \<Rightarrow> error option"
  env_publish :: "nat \<Rightarrow> s3_upload \<Rightarrow> error option"
  env_maxBufferedMemBytes :: uint64
  env_maxDuration :: int

abbreviation hour_ns :: int where "hour_ns \<equiv> 3600000000000"
abbreviation maxS3BufferSizeBytes :: int where "maxS3BufferSizeBytes \<equiv> 52428800"

definition Truncate_hour :: "int \<Rightarrow> int" where
  "Truncate_hour t = t - t mod hour_ns"

text \<open>\<open>maxS3BufferMemUsageBytes\<close>: the memory left for buffers, a panic (\<open>None\<close>) below 5 MB.\<close>

definition maxS3BufferMemUsageBytes :: "int \<Rightarrow> int \<Rightarrow> uint64 option" where
  "maxS3BufferMemUsageBytes memUsedAtStartupMB lambdaSizeMB =
     (let largestAllInMemFileMB = 45; processingExpansionFactor = 4;
          memoryFootprint = largestAllInMemFileMB * processingExpansionFactor;
          minimumScratchMemMB = 5;
          maxBufferUsageMB = lambdaSizeMB - memUsedAtStartupMB - memoryFootprint - minimumScratchMemMB
      in if maxBufferUsageMB < 5 then None else Some (of_int maxBufferUsageMB * (1024 * 1024)))"

definition newS3EventBuffer :: "string \<Rightarrow> int \<Rightarrow> int \<Rightarrow> s3EventBuffer" where
  "newS3EventBuffer lt hour now =
     \<lparr>buf_logType = lt, buf_content = [], buf_bytes = 0, buf_events = 0, buf_hour = hour,
      buf_createTime = now, buf_open = True\<rparr>"

definition initial_state :: s3_state where
  "initial_state = \<lparr>d_store = [], d_set = [], d_total = 0, d_uploads = [], d_errors = [],
     d_failed = False, d_crashed = False, d_processed = 0\<rparr>"

section \<open>The buffer set\<close>

definition getBuffer :: "'e panther_event \<Rightarrow> int \<Rightarrow> s3_state \<Rightarrow> addr \<times> s3_state" where
  "getBuffer ev now s =
     (let hour = Truncate_hour (ev_time ev);
          logTypeToBuffer = (case map_of (d_set s) hour of None \<Rightarrow> [] | Some m \<Rightarrow> m)
      in case map_of logTypeToBuffer (ev_logType ev) of
           Some a \<Rightarrow> (a, s)
         | None \<Rightarrow>
             (let a = length (d_store s)
              in (a, s\<lparr>d_store := d_store s @ [newS3EventBuffer (ev_logType ev) hour now],
                       d_set := amap_put hour (amap_put (ev_logType ev) a logTypeToBuffer) (d_set s)\<rparr>)))"

text \<open>\<open>s3EventBuffer.addEvent\<close> and \<open>s3EventBufferSet.addEvent\<close>: the event and a new line.\<close>

definition addEvent :: "addr \<Rightarrow> string \<Rightarrow> s3_state \<Rightarrow> s3_state" where
  "addEvent a data s =
     (let b = d_store s ! a
      in if \<not> buf_open b then s\<lparr>d_crashed := True\<rparr>
         else (let nbytes = int (length data) + 1
               in s\<lparr>d_store := (d_store s)[a := b\<lparr>buf_content := buf_content b @ [data],
                       buf_bytes := buf_bytes b + nbytes, buf_events := buf_events b + 1\<rparr>],
                    d_total := d_total s + of_int nbytes\<rparr>))"

definition removeBuffer :: "addr \<Rightarrow> s3_state \<Rightarrow> s3_state" where
  "removeBuffer a s =
     (let b = d_store s ! a
      in case map_of (d_set s) (buf_hour b) of
           None \<Rightarrow> s
         | Some logTypeToBuffer \<Rightarrow>
             s\<lparr>d_total := d_total s - of_int (buf_bytes b),
               d_set := amap_put (buf_hour b) (amap_del (buf_logType b) logTypeToBuffer) (d_set s)\<rparr>)"

text \<open>The buffers in the order in which \<open>apply\<close> visits them.\<close>

definition set_addrs :: "buffer_set \<Rightarrow> addr list" where
  "set_addrs bs = concat (map (\<lambda>(_, m). map snd m) bs)"

definition largestBuffer :: "s3_state \<Rightarrow> addr option" where
  "largestBuffer s =
     snd (foldl (\<lambda>(maxBufferSize, largest) a.
            if buf_bytes (d_store s ! a) > maxBufferSize then (buf_bytes (d_store s ! a), Some a)
            else (maxBufferSize, largest)) (0, None) (set_addrs (d_set s)))"

section \<open>Sending\<close>

definition sendData :: "s3_env \<Rightarrow> addr \<Rightarrow> s3_state \<Rightarrow> s3_state" where
  "sendData env a s =
     (let b = d_store s ! a
      in if buf_events b = 0 then s
         else if \<not> buf_open b then s\<lparr>d_crashed := True\<rparr>
         else (let n = length (d_uploads s) + length (d_errors s);
                   s1 = s\<lparr>d_store := (d_store s)[a := b\<lparr>buf_open := False\<rparr>]\<rparr>;
                   up = \<lparr>up_key = env_key env n (buf_logType b) (buf_hour b), up_logType = buf_logType b,
                         up_hour = buf_hour b, up_bytes = buf_bytes b, up_content = buf_content b\<rparr>
               in case env_upload env n up of
                    Some e \<Rightarrow> s1\<lparr>d_errors := d_errors s1 @ [''S3Upload: '' @ e]\<rparr>
                  | None \<Rightarrow>
                      (case env_publish env n up of
                         Some e \<Rightarrow> s1\<lparr>d_errors := d_errors s1 @ [''failed to send notification to topic: '' @ e]\<rparr>
                       | None \<Rightarrow> s1\<lparr>d_uploads := d_uploads s1 @ [up]\<rparr>)))"

definition remove_and_send :: "s3_env \<Rightarrow> addr \<Rightarrow> s3_state \<Rightarrow> s3_state" where
  "remove_and_send env a s = sendData env a (removeBuffer a s)"

definition flushExpired :: "s3_env \<Rightarrow> int option \<Rightarrow> s3_state \<Rightarrow> s3_state" where
  "flushExpired env tick s =
     (case tick of
        None \<Rightarrow> s
      | Some now \<Rightarrow>
          foldl (\<lambda>s a. if \<not> d_crashed s \<and> now - buf_createTime (d_store s ! a) \<ge> env_maxDuration env
                       then remove_and_send env a s else s) s (set_addrs (d_set s)))"

text \<open>The two checks after an event was added to \<open>buffer\<close>. The second removes the largest buffer of
  the set and puts \<open>buffer\<close> on the channel.\<close>

definition check_buffer_size :: "s3_env \<Rightarrow> addr \<Rightarrow> s3_state \<Rightarrow> s3_state" where
  "check_buffer_size env buffer s =
     (if buf_bytes (d_store s ! buffer) \<ge> maxS3BufferSizeBytes then remove_and_send env buffer s else s)"

definition check_total_size :: "s3_env \<Rightarrow> addr \<Rightarrow> s3_state \<Rightarrow> s3_state" where
  "check_total_size env buffer s =
     (if d_total s \<ge> env_maxBufferedMemBytes env
      then (case largestBuffer s of
              None \<Rightarrow> s
            | Some largest \<Rightarrow> sendData env buffer (removeBuffer largest s))
      else s)"

type_synonym 'e s3_input = "'e panther_event \<times> int option \<times> int"

definition event_step :: "s3_env \<Rightarrow> ('e \<Rightarrow> error + string) \<Rightarrow> 'e s3_input \<Rightarrow> s3_state \<Rightarrow> s3_state" where
  "event_step env marshal inp s =
     (case inp of (ev, tick, now) \<Rightarrow>
        if d_crashed s \<or> d_failed s then s
        else (let s1 = flushExpired env tick s
              in if d_crashed s1 then s1
                 else (case marshal (ev_body ev) of
                   Inl e \<Rightarrow> s1\<lparr>d_failed := True,
                       d_errors := d_errors s1 @ [''failed to marshall log parser event for S3: '' @ e]\<rparr>
                 | Inr data \<Rightarrow>
                     (case getBuffer ev now s1 of (buffer, s2) \<Rightarrow>
                        (let s3 = addEvent buffer data s2
                         in if d_crashed s3 then s3
                            else (let s4 = check_total_size env buffer (check_buffer_size env buffer s3)
                                  in s4\<lparr>d_processed := d_processed s4 + 1\<rparr>))))))"

definition flush_all :: "s3_env \<Rightarrow> s3_state \<Rightarrow> s3_state" where
  "flush_all env s =
     foldl (\<lambda>s a. if \<not> d_crashed s then remove_and_send env a s else s) s (set_addrs (d_set s))"

definition SendEvents :: "s3_env \<Rightarrow> ('e \<Rightarrow> error + string) \<Rightarrow> 'e s3_input list \<Rightarrow> s3_state" where
  "SendEvents env marshal inputs =
     flush_all env (foldl (\<lambda>s inp. event_step env marshal inp s) initial_state inputs)"

section \<open>The invariant of the buffer set\<close>

definition content_bytes :: "string list \<Rightarrow> int" where
  "content_bytes ds = sum_list (map (\<lambda>d. int (length d) + 1) ds)"

definition buffer_ok :: "s3EventBuffer \<Rightarrow> bool" where
  "buffer_ok b \<longleftrightarrow> buf_open b \<and> buf_bytes b = content_bytes (buf_content b) \<and>
     buf_events b = int (length (buf_content b))"

definition set_ok :: "s3_state \<Rightarrow> bool" where
  "set_ok s \<longleftrightarrow>
     distinct (map fst (d_set s)) \<and> (\<forall>(_, m) \<in> set (d_set s). distinct (map fst m)) \<and>
     distinct (set_addrs (d_set s)) \<and>
     (\<forall>(h, m) \<in> set (d_set s). \<forall>(lt, a) \<in> set m. a < length (d_store s) \<and>
        buf_hour (d_store s ! a) = h \<and> buf_logType (d_store s ! a) = lt \<and> buffer_ok (d_store s ! a)) \<and>
     d_total s = (\<Sum>a\<leftarrow>set_addrs (d_set s). of_int (buf_bytes (d_store s ! a))) \<and>
     \<not> d_crashed s"

text \<open>What is in the buffers of the set, and what was written, each event with its hour and log
  type.\<close>

definition tag :: "int \<Rightarrow> string \<Rightarrow> string list \<Rightarrow> (int \<times> string \<times> string) multiset" where
  "tag h lt ds = mset (map (\<lambda>d. (h, lt, d)) ds)"

definition tag_buffer :: "s3EventBuffer \<Rightarrow> (int \<times> string \<times> string) multiset" where
  "tag_buffer b = tag (buf_hour b) (buf_logType b) (buf_content b)"

definition buffered :: "s3_state \<Rightarrow> (int \<times> string \<times> string) multiset" where
  "buffered s = (\<Sum>a\<in>#mset (set_addrs (d_set s)). tag_buffer (d_store s ! a))"

definition uploaded :: "s3_state \<Rightarrow> (int \<times> string \<times> string) multiset" where
  "uploaded s = sum_list (map (\<lambda>u. tag (up_hour u) (up_logType u) (up_content u)) (d_uploads s))"

lemma set_addrs_simps [simp]:
  "set_addrs [] = []" "set_addrs ((h, m) # bs) = map snd m @ set_addrs bs"
  by (simp_all add: set_addrs_def)

lemma in_set_addrs: "a \<in> set (set_addrs bs) \<longleftrightarrow> (\<exists>h m lt. (h, m) \<in> set bs \<and> (lt, a) \<in> set m)"
  by (force simp: set_addrs_def)

lemma set_addrs_put_None:
  "map_of bs h = None \<Longrightarrow> mset (set_addrs (amap_put h m bs)) = mset (set_addrs bs) + mset (map snd m)"
  by (induction h m bs rule: amap_put.induct) (auto split: if_splits)

lemma set_addrs_put_Some:
  "map_of bs h = Some m \<Longrightarrow>
   mset (set_addrs (amap_put h m' bs)) + mset (map snd m) = mset (set_addrs bs) + mset (map snd m')"
  by (induction h m' bs rule: amap_put.induct) (auto split: if_splits)

lemma snd_put_None: "map_of m lt = None \<Longrightarrow> mset (map snd (amap_put lt a m)) = add_mset a (mset (map snd m))"
  by (induction lt a m rule: amap_put.induct) (auto split: if_splits)

lemma amap_del_notin: "map_of m lt = None \<Longrightarrow> amap_del lt m = m"
  by (auto simp: amap_del_def filter_id_conv map_of_eq_None_iff image_iff)

lemma snd_del:
  "map_of m lt = Some a \<Longrightarrow> distinct (map fst m) \<Longrightarrow>
   mset (map snd m) = add_mset a (mset (map snd (amap_del lt m)))"
proof (induction m)
  case (Cons p m)
  show ?case
  proof (cases "fst p = lt")
    case True
    with Cons.prems have "map_of m lt = None" by (cases p) (auto simp: map_of_eq_None_iff)
    then have "amap_del lt (p # m) = m"
      using True amap_del_notin [of m lt] by (simp add: amap_del_def)
    with True Cons.prems show ?thesis by (cases p) simp
  next
    case False
    with Cons show ?thesis by (cases p) (auto simp: amap_del_def)
  qed
qed simp

lemma set_ok_lookup:
  assumes "set_ok s" "a \<in> set (set_addrs (d_set s))"
  obtains m where "map_of (d_set s) (buf_hour (d_store s ! a)) = Some m"
    "map_of m (buf_logType (d_store s ! a)) = Some a" "distinct (map fst m)"
    "a < length (d_store s)" "buffer_ok (d_store s ! a)"
proof -
  from assms(2) obtain h m lt where in_bs: "(h, m) \<in> set (d_set s)" and in_m: "(lt, a) \<in> set m"
    by (auto simp: in_set_addrs)
  from assms(1) in_bs in_m have props: "a < length (d_store s)" "buf_hour (d_store s ! a) = h"
    "buf_logType (d_store s ! a) = lt" "buffer_ok (d_store s ! a)"
    and d: "distinct (map fst (d_set s))" "distinct (map fst m)"
    unfolding set_ok_def by blast+
  with in_bs in_m that [of m] show ?thesis by simp
qed

text \<open>A set built by replacing the inner map of one hour.\<close>

lemma removeBuffer_ok:
  assumes "set_ok s" "a \<in> set (set_addrs (d_set s))"
  shows "mset (set_addrs (d_set s)) = add_mset a (mset (set_addrs (d_set (removeBuffer a s))))"
    and "set_ok (removeBuffer a s)"
    and "d_store (removeBuffer a s) = d_store s" "d_uploads (removeBuffer a s) = d_uploads s"
      "d_errors (removeBuffer a s) = d_errors s" "d_failed (removeBuffer a s) = d_failed s"
proof -
  let ?b = "d_store s ! a"
  from set_ok_lookup [OF assms] obtain m where m: "map_of (d_set s) (buf_hour ?b) = Some m"
    "map_of m (buf_logType ?b) = Some a" "distinct (map fst m)" by blast
  let ?set = "amap_put (buf_hour ?b) (amap_del (buf_logType ?b) m) (d_set s)"
  have rem: "removeBuffer a s = s\<lparr>d_total := d_total s - of_int (buf_bytes ?b), d_set := ?set\<rparr>"
    by (simp add: removeBuffer_def Let_def m)
  then show "d_store (removeBuffer a s) = d_store s" "d_uploads (removeBuffer a s) = d_uploads s"
      "d_errors (removeBuffer a s) = d_errors s" "d_failed (removeBuffer a s) = d_failed s"
    by simp_all
  have ms: "mset (set_addrs (d_set s)) = add_mset a (mset (set_addrs ?set))"
  proof -
    let ?rest = "mset (map snd (amap_del (buf_logType ?b) m))"
    have "mset (set_addrs ?set) + add_mset a ?rest = mset (set_addrs (d_set s)) + ?rest"
      using set_addrs_put_Some [OF m(1), of "amap_del (buf_logType ?b) m"] snd_del [OF m(2,3)] by simp
    then have "add_mset a (mset (set_addrs ?set)) + ?rest = mset (set_addrs (d_set s)) + ?rest" by simp
    then show ?thesis by (simp only: add_right_cancel)
  qed
  then show "mset (set_addrs (d_set s)) = add_mset a (mset (set_addrs (d_set (removeBuffer a s))))"
    by (simp add: rem)
  from ms assms(1) have dist: "distinct (a # set_addrs ?set)"
    unfolding set_ok_def by (metis mset.simps(2) mset_eq_imp_distinct_iff)
  have total: "(\<Sum>x\<leftarrow>set_addrs (d_set s). of_int (buf_bytes (d_store s ! x)) :: uint64) =
      of_int (buf_bytes ?b) + (\<Sum>x\<leftarrow>set_addrs ?set. of_int (buf_bytes (d_store s ! x)))"
    using ms by (metis (no_types, lifting) image_mset_add_mset sum_mset.insert sum_mset_sum_list mset_map)
  have members: "\<forall>(h, m') \<in> set ?set. distinct (map fst m') \<and> (\<exists>m0. (h, m0) \<in> set (d_set s) \<and> set m' \<subseteq> set m0)"
  proof (clarify)
    fix h m' assume "(h, m') \<in> set ?set"
    then consider "h = buf_hour ?b" "m' = amap_del (buf_logType ?b) m" | "(h, m') \<in> set (d_set s)"
      by (auto dest: amap_put_in)
    then show "distinct (map fst m') \<and> (\<exists>m0. (h, m0) \<in> set (d_set s) \<and> set m' \<subseteq> set m0)"
    proof cases
      case 1
      then show ?thesis using m map_of_SomeD [OF m(1)]
        by (auto simp: distinct_amap_del set_amap_del)
    next
      case 2
      then show ?thesis using assms(1) by (auto simp: set_ok_def)
    qed
  qed
  have ok: "(\<forall>(h, m') \<in> set ?set. \<forall>(lt, x) \<in> set m'. x < length (d_store s) \<and>
      buf_hour (d_store s ! x) = h \<and> buf_logType (d_store s ! x) = lt \<and> buffer_ok (d_store s ! x))"
    using members assms(1) unfolding set_ok_def by fast
  show "set_ok (removeBuffer a s)"
    using assms(1) dist total ok members distinct_amap_put [of "d_set s"]
    by (auto simp: rem set_ok_def)
qed

lemma set_ok_addrD:
  "set_ok s \<Longrightarrow> a \<in> set (set_addrs (d_set s)) \<Longrightarrow> a < length (d_store s) \<and> buffer_ok (d_store s ! a)"
  by (blast elim: set_ok_lookup)

lemma addrs_split:
  assumes "set_ok s" "a \<in> set (set_addrs (d_set s))"
  obtains M where "mset (set_addrs (d_set s)) = add_mset a M" "a \<notin># M"
proof -
  from assms(2) obtain ys zs where split: "set_addrs (d_set s) = ys @ a # zs" by (metis split_list)
  with assms(1) have "a \<notin> set (ys @ zs)" by (auto simp: set_ok_def)
  then show ?thesis using that [of "mset (ys @ zs)"] split by simp
qed

lemma total_as_mset:
  "(\<Sum>a\<leftarrow>set_addrs (d_set s). of_int (buf_bytes (d_store s ! a)) :: uint64) =
   (\<Sum>a\<in>#mset (set_addrs (d_set s)). of_int (buf_bytes (d_store s ! a)))"
  by (simp add: sum_mset_sum_list [symmetric])

lemma getBuffer_ok:
  assumes "set_ok s" "getBuffer ev now s = (a, s')"
  shows "set_ok s'" "a \<in> set (set_addrs (d_set s'))" "buffered s' = buffered s"
    "buf_hour (d_store s' ! a) = Truncate_hour (ev_time ev)" "buf_logType (d_store s' ! a) = ev_logType ev"
    "d_uploads s' = d_uploads s" "d_errors s' = d_errors s" "d_failed s' = d_failed s"
proof -
  let ?h = "Truncate_hour (ev_time ev)" and ?lt = "ev_logType ev"
  let ?m = "case map_of (d_set s) ?h of None \<Rightarrow> [] | Some m \<Rightarrow> m"
  have inner: "map_of (d_set s) ?h = Some m \<Longrightarrow> (?h, m) \<in> set (d_set s)" for m by (rule map_of_SomeD)
  have "set_ok s' \<and> a \<in> set (set_addrs (d_set s')) \<and> buffered s' = buffered s \<and>
    buf_hour (d_store s' ! a) = ?h \<and> buf_logType (d_store s' ! a) = ?lt \<and>
    d_uploads s' = d_uploads s \<and> d_errors s' = d_errors s \<and> d_failed s' = d_failed s"
  proof (cases "map_of ?m ?lt")
    case (Some a')
    then obtain m where m: "map_of (d_set s) ?h = Some m" "(?lt, a') \<in> set m"
      by (auto split: option.splits dest: map_of_SomeD)
    moreover have "a = a'" "s' = s" using assms(2) Some by (simp_all add: getBuffer_def Let_def)
    moreover have "buf_hour (d_store s ! a') = ?h" "buf_logType (d_store s ! a') = ?lt"
      using assms(1) inner [OF m(1)] m(2) unfolding set_ok_def by blast+
    ultimately show ?thesis using assms(1) inner by (auto simp: in_set_addrs)
  next
    case None
    let ?b = "newS3EventBuffer ?lt ?h now"
    let ?set = "amap_put ?h (amap_put ?lt (length (d_store s)) ?m) (d_set s)"
    have s': "a = length (d_store s)" "s' = s\<lparr>d_store := d_store s @ [?b], d_set := ?set\<rparr>"
      using assms(2) None by (auto simp: getBuffer_def Let_def)
    have ms: "mset (set_addrs ?set) = add_mset (length (d_store s)) (mset (set_addrs (d_set s)))"
    proof (cases "map_of (d_set s) ?h")
      case None
      then show ?thesis by (simp add: set_addrs_put_None)
    next
      case (Some m)
      with None have "map_of m ?lt = None" by simp
      then have "mset (map snd (amap_put ?lt (length (d_store s)) m)) =
          add_mset (length (d_store s)) (mset (map snd m))" by (rule snd_put_None)
      with set_addrs_put_Some [OF Some, of "amap_put ?lt (length (d_store s)) m"] Some show ?thesis
        by (metis (no_types, lifting) add_right_cancel option.simps(5) union_mset_add_mset_left
            union_mset_add_mset_right)
    qed
    have old: "x < length (d_store s)" if "x \<in># mset (set_addrs (d_set s))" for x
      using set_ok_addrD [OF assms(1)] that by simp
    have "distinct (set_addrs ?set)"
    proof -
      have "distinct (length (d_store s) # set_addrs (d_set s))"
        using old assms(1) by (auto simp: set_ok_def)
      then show ?thesis by (metis ms mset.simps(2) mset_eq_imp_distinct_iff)
    qed
    moreover have "distinct (map fst ?m)"
      using assms(1) inner by (auto simp: set_ok_def split: option.splits)
    moreover have "\<forall>(h, m) \<in> set ?set. distinct (map fst m)"
      using assms(1) calculation(2)
      by (auto simp: set_ok_def distinct_amap_put dest!: amap_put_in)
    moreover have "\<forall>(h, m) \<in> set ?set. \<forall>(lt, x) \<in> set m. x < length (d_store s @ [?b]) \<and>
        buf_hour ((d_store s @ [?b]) ! x) = h \<and> buf_logType ((d_store s @ [?b]) ! x) = lt \<and>
        buffer_ok ((d_store s @ [?b]) ! x)"
    proof (clarify)
      fix h m lt x assume in_set: "(h, m) \<in> set ?set" "(lt, x) \<in> set m"
      have new: "h = ?h \<and> lt = ?lt \<and> x = length (d_store s) \<or>
          (\<exists>m0. (h, m0) \<in> set (d_set s) \<and> (lt, x) \<in> set m0)"
        using in_set inner by (auto dest!: amap_put_in split: option.splits)
      have old_ok: "x < length (d_store s) \<and> buf_hour (d_store s ! x) = h \<and>
          buf_logType (d_store s ! x) = lt \<and> buffer_ok (d_store s ! x)"
        if "(h, m0) \<in> set (d_set s)" "(lt, x) \<in> set m0" for m0
        using that assms(1) unfolding set_ok_def by blast
      from new old_ok show "x < length (d_store s @ [?b]) \<and>
        buf_hour ((d_store s @ [?b]) ! x) = h \<and> buf_logType ((d_store s @ [?b]) ! x) = lt \<and>
        buffer_ok ((d_store s @ [?b]) ! x)"
        by (auto simp: nth_append newS3EventBuffer_def buffer_ok_def content_bytes_def)
    qed
    moreover have "d_total s = (\<Sum>x\<in>#mset (set_addrs ?set). of_int (buf_bytes ((d_store s @ [?b]) ! x)))"
    proof -
      have "d_total s = (\<Sum>x\<in>#mset (set_addrs (d_set s)). of_int (buf_bytes (d_store s ! x)))"
        using assms(1) total_as_mset [of s] by (simp add: set_ok_def)
      also have "\<dots> = (\<Sum>x\<in>#mset (set_addrs (d_set s)). of_int (buf_bytes ((d_store s @ [?b]) ! x)))"
        using old by (intro arg_cong [of _ _ sum_mset] image_mset_cong) (simp add: nth_append)
      finally show ?thesis by (simp add: ms newS3EventBuffer_def)
    qed
    moreover have "buffered s' = buffered s"
    proof -
      have "(\<Sum>x\<in>#mset (set_addrs (d_set s)). tag_buffer ((d_store s @ [?b]) ! x)) = buffered s"
        unfolding buffered_def
        using old by (intro arg_cong [of _ _ sum_mset] image_mset_cong) (simp add: nth_append)
      then show ?thesis
        by (simp add: buffered_def s' ms tag_buffer_def tag_def newS3EventBuffer_def)
    qed
    moreover have "a \<in> set (set_addrs (d_set s'))"
    proof -
      have "a \<in># mset (set_addrs ?set)" by (simp add: ms s'(1))
      then show ?thesis by (simp add: s'(2))
    qed
    ultimately show ?thesis
      using assms(1) distinct_amap_put [of "d_set s"] total_as_mset [of s']
      by (auto simp: set_ok_def s' newS3EventBuffer_def)
  qed
  then show "set_ok s'" "a \<in> set (set_addrs (d_set s'))" "buffered s' = buffered s"
    "buf_hour (d_store s' ! a) = ?h" "buf_logType (d_store s' ! a) = ?lt"
    "d_uploads s' = d_uploads s" "d_errors s' = d_errors s" "d_failed s' = d_failed s" by simp_all
qed

text \<open>Changing the store at one address of the set, or at an address outside it.\<close>

lemma addEvent_ok:
  assumes "set_ok s" "a \<in> set (set_addrs (d_set s))"
  shows "set_ok (addEvent a data s)"
    and "buffered (addEvent a data s) = buffered s +
      {# (buf_hour (d_store s ! a), buf_logType (d_store s ! a), data) #}"
    and "d_set (addEvent a data s) = d_set s" "d_uploads (addEvent a data s) = d_uploads s"
      "d_errors (addEvent a data s) = d_errors s" "d_failed (addEvent a data s) = d_failed s"
proof -
  let ?b = "d_store s ! a"
  let ?b' = "?b\<lparr>buf_content := buf_content ?b @ [data], buf_bytes := buf_bytes ?b + (int (length data) + 1),
      buf_events := buf_events ?b + 1\<rparr>"
  let ?store = "(d_store s)[a := ?b']"
  have b: "a < length (d_store s)" "buffer_ok ?b" using set_ok_addrD [OF assms] by simp_all
  have add: "addEvent a data s = s\<lparr>d_store := ?store, d_total := d_total s + of_int (int (length data) + 1)\<rparr>"
    using b(2) by (simp add: addEvent_def Let_def buffer_ok_def)
  then show "d_set (addEvent a data s) = d_set s" "d_uploads (addEvent a data s) = d_uploads s"
      "d_errors (addEvent a data s) = d_errors s" "d_failed (addEvent a data s) = d_failed s" by simp_all
  obtain M where M: "mset (set_addrs (d_set s)) = add_mset a M" "a \<notin># M" using addrs_split [OF assms] .
  have other: "image_mset (\<lambda>x. f (?store ! x)) M = image_mset (\<lambda>x. f (d_store s ! x)) M" for f :: "s3EventBuffer \<Rightarrow> 'a"
    using M(2) by (intro image_mset_cong) (metis nth_list_update_neq)
  show "buffered (addEvent a data s) = buffered s + {# (buf_hour ?b, buf_logType ?b, data) #}"
    using b(1) other [of tag_buffer] by (simp add: add buffered_def M tag_buffer_def tag_def)
  have "d_total s = of_int (buf_bytes ?b) + (\<Sum>x\<in>#M. of_int (buf_bytes (d_store s ! x)))"
    using assms(1) total_as_mset [of s] M(1) by (simp add: set_ok_def)
  then have total: "d_total s + of_int (int (length data) + 1) =
      (\<Sum>x\<in>#mset (set_addrs (d_set s)). of_int (buf_bytes (?store ! x)))"
    using other [of "\<lambda>b. of_int (buf_bytes b) :: uint64"] b(1) by (simp add: M(1))
  have ok: "buffer_ok ?b'" using b(2) by (simp add: buffer_ok_def content_bytes_def)
  have members: "\<forall>(h, m) \<in> set (d_set s). \<forall>(lt, x) \<in> set m. x < length ?store \<and>
        buf_hour (?store ! x) = h \<and> buf_logType (?store ! x) = lt \<and> buffer_ok (?store ! x)"
  proof (clarify)
    fix h m lt x assume "(h, m) \<in> set (d_set s)" "(lt, x) \<in> set m"
    then have "x < length (d_store s) \<and> buf_hour (d_store s ! x) = h \<and>
        buf_logType (d_store s ! x) = lt \<and> buffer_ok (d_store s ! x)"
      using assms(1) unfolding set_ok_def by blast
    with ok show "x < length ?store \<and>
        buf_hour (?store ! x) = h \<and> buf_logType (?store ! x) = lt \<and> buffer_ok (?store ! x)"
      by (cases "x = a") (simp_all add: nth_list_update)
  qed
  show "set_ok (addEvent a data s)"
    using assms(1) total members total_as_mset [of "addEvent a data s"]
    unfolding set_ok_def add by (simp only: s3_state.simps) simp
qed

text \<open>One operation after the other: the set stays in order, nothing appears in it that was not
  there or added, and unless an error was reported, what leaves it has been uploaded.\<close>

definition conserves :: "(int \<times> string \<times> string) multiset \<Rightarrow> s3_state \<Rightarrow> s3_state \<Rightarrow> bool" where
  "conserves X s s' \<longleftrightarrow> set_ok s' \<and> buffered s' \<subseteq># buffered s + X \<and> d_failed s' = d_failed s \<and>
     (d_errors s' = [] \<longrightarrow> d_errors s = [] \<and>
        buffered s' + uploaded s' = buffered s + uploaded s + X)"

lemma conserves_refl: "set_ok s \<Longrightarrow> conserves {#} s s"
  by (simp add: conserves_def)

lemma conserves_trans: "conserves X s s1 \<Longrightarrow> conserves Y s1 s2 \<Longrightarrow> conserves (X + Y) s s2"
proof -
  assume one: "conserves X s s1" and two: "conserves Y s1 s2"
  have "buffered s2 \<subseteq># buffered s + X + Y"
    using one two unfolding conserves_def
    by (meson subset_mset.add_right_mono subset_mset.order_trans)
  moreover have "d_errors s2 = [] \<longrightarrow> d_errors s = [] \<and>
      buffered s2 + uploaded s2 = buffered s + uploaded s + (X + Y)"
    using one two unfolding conserves_def by (metis add.assoc)
  ultimately show ?thesis using one two by (simp add: conserves_def add.assoc)
qed

lemma remove_and_send_conserves:
  assumes "set_ok s" "a \<in> set (set_addrs (d_set s))"
  shows "conserves {#} s (remove_and_send env a s)"
    and "mset (set_addrs (d_set s)) = add_mset a (mset (set_addrs (d_set (remove_and_send env a s))))"
proof -
  let ?r = "removeBuffer a s" and ?b = "d_store s ! a"
  note rem = removeBuffer_ok [OF assms]
  have b: "a < length (d_store s)" "buffer_ok ?b" using set_ok_addrD [OF assms] by simp_all
  have buf: "buffered s = buffered ?r + tag_buffer ?b"
    by (simp add: buffered_def rem(1,3) add.commute)
  have out: "a \<notin># mset (set_addrs (d_set ?r))"
    using addrs_split [OF assms] rem(1) by (metis add_mset_add_mset_same_iff)
  define s' where "s' = remove_and_send env a s"
  have set': "d_set s' = d_set ?r" and total': "d_total s' = d_total ?r" and failed': "d_failed s' = d_failed s"
    and store': "\<And>x. x \<noteq> a \<Longrightarrow> d_store s' ! x = d_store ?r ! x" "length (d_store s') = length (d_store ?r)"
    and crash': "\<not> d_crashed s'"
    using rem(2,3,6) b(2)
    by (auto simp: s'_def remove_and_send_def sendData_def Let_def buffer_ok_def set_ok_def
        split: option.splits)
  show "mset (set_addrs (d_set s)) = add_mset a (mset (set_addrs (d_set (remove_and_send env a s))))"
    using rem(1) set' by (simp add: s'_def)
  have same: "image_mset (\<lambda>x. f (d_store s' ! x)) (mset (set_addrs (d_set ?r))) =
      image_mset (\<lambda>x. f (d_store ?r ! x)) (mset (set_addrs (d_set ?r)))" for f :: "s3EventBuffer \<Rightarrow> 'a"
    using out store'(1) by (intro image_mset_cong) metis
  have buf': "buffered s' = buffered ?r" using same [of tag_buffer] by (simp add: buffered_def set')
  have "set_ok s'"
  proof -
    have "d_total s' = (\<Sum>x\<in>#mset (set_addrs (d_set s')). of_int (buf_bytes (d_store s' ! x)))"
      using rem(2) total_as_mset [of ?r] same [of "\<lambda>b. of_int (buf_bytes b) :: uint64"]
      by (simp add: set' total' set_ok_def)
    moreover have "x \<noteq> a" if "(h, m) \<in> set (d_set ?r)" "(lt, x) \<in> set m" for h m lt x
      using out that in_set_addrs [of x "d_set ?r"] by auto
    ultimately show ?thesis
      using rem(2) store' crash' total_as_mset [of s'] unfolding set_ok_def set' by fastforce
  qed
  moreover have "d_errors s' = [] \<longrightarrow> d_errors s = [] \<and> uploaded s' = uploaded s + tag_buffer ?b"
    using rem(3-5) b(2)
    by (auto simp: s'_def remove_and_send_def sendData_def Let_def buffer_ok_def uploaded_def
        tag_buffer_def tag_def split: option.splits)
  ultimately show "conserves {#} s (remove_and_send env a s)"
    using buf buf' failed' by (auto simp: conserves_def s'_def [symmetric] ac_simps)
qed

lemma remove_all_conserves:
  assumes "set_ok s" "distinct as" "set as \<subseteq> set (set_addrs (d_set s))"
  shows "conserves {#} s (foldl (\<lambda>s a. if P s a then remove_and_send env a s else s) s as)"
  using assms
proof (induction as arbitrary: s)
  case Nil
  then show ?case by (simp add: conserves_refl)
next
  case (Cons a as)
  show ?case
  proof (cases "P s a")
    case False
    with Cons show ?thesis by simp
  next
    case True
    note step = remove_and_send_conserves [OF Cons.prems(1), of a env]
    have a: "a \<in> set (set_addrs (d_set s))" using Cons.prems(3) by simp
    let ?s1 = "remove_and_send env a s"
    have "set as \<subseteq> set (set_addrs (d_set ?s1))"
      using Cons.prems(2,3) arg_cong [OF step(2) [OF a], of set_mset] by auto
    with Cons.IH [of ?s1] Cons.prems(2) step(1) [OF a] have "conserves {#} ?s1
        (foldl (\<lambda>s a. if P s a then remove_and_send env a s else s) ?s1 as)"
      by (simp add: conserves_def)
    with step(1) [OF a] True show ?thesis using conserves_trans by fastforce
  qed
qed

lemma flushExpired_conserves: "set_ok s \<Longrightarrow> conserves {#} s (flushExpired env tick s)"
proof (cases tick)
  case (Some now)
  assume "set_ok s"
  then show ?thesis
    using remove_all_conserves [of s "set_addrs (d_set s)"
        "\<lambda>s a. \<not> d_crashed s \<and> now - buf_createTime (d_store s ! a) \<ge> env_maxDuration env" env]
    by (simp add: flushExpired_def Some set_ok_def)
qed (simp add: flushExpired_def conserves_refl)

lemma flush_all_empties:
  assumes "set_ok s"
  shows "conserves {#} s (flush_all env s)" and "buffered (flush_all env s) = {#}"
proof -
  have cons: "conserves {#} s (flush_all env s)"
    using remove_all_conserves [of s "set_addrs (d_set s)" "\<lambda>s a. \<not> d_crashed s" env] assms
    by (simp add: flush_all_def set_ok_def)
  show "conserves {#} s (flush_all env s)" by (rule cons)
  have "set_addrs (d_set (foldl (\<lambda>s a. if \<not> d_crashed s then remove_and_send env a s else s) s as)) = []"
    if "set_ok s" "mset (set_addrs (d_set s)) = mset as" for as s
    using that
  proof (induction as arbitrary: s)
    case (Cons a as)
    have a: "a \<in> set (set_addrs (d_set s))" using Cons.prems(2) by (metis list.set_intros(1) set_mset_mset)
    note step = remove_and_send_conserves [OF Cons.prems(1) a, of env]
    have "mset (set_addrs (d_set (remove_and_send env a s))) = mset as"
      using step(2) Cons.prems(2) by simp
    with Cons.IH [of "remove_and_send env a s"] step(1) Cons.prems(1) show ?case
      by (simp add: conserves_def set_ok_def)
  qed simp
  from this [OF assms refl] show "buffered (flush_all env s) = {#}"
    by (simp add: buffered_def flush_all_def)
qed

section \<open>The loop over the events\<close>

definition weight :: "(int \<times> string \<times> string) multiset \<Rightarrow> int" where
  "weight M = (\<Sum>(_, _, d)\<in>#M. int (length d) + 1)"

lemma weight_simps [simp]: "weight {#} = 0" "weight (M + N) = weight M + weight N"
  "weight {#(h, lt, d)#} = int (length d) + 1"
  by (simp_all add: weight_def)

lemma weight_add_mset [simp]: "weight (add_mset (h, lt, d) M) = int (length d) + 1 + weight M"
  by (simp add: weight_def)

lemma weight_nonneg: "0 \<le> weight M"
  by (induction M) (auto simp: weight_def)

lemma weight_mono: "M \<subseteq># N \<Longrightarrow> weight M \<le> weight N"
  using weight_nonneg by (auto simp: mset_subset_eq_exists_conv)

lemma conserves_weight: "conserves X s s' \<Longrightarrow> weight (buffered s') \<le> weight (buffered s) + weight X"
  using weight_mono [of "buffered s'" "buffered s + X"] by (simp add: conserves_def)

lemma weight_tag: "weight (tag h lt ds) = content_bytes ds"
  by (induction ds) (simp_all add: tag_def content_bytes_def)

text \<open>The managed total is the number of buffered bytes.\<close>

lemma total_weight: "set_ok s \<Longrightarrow> d_total s = of_int (weight (buffered s))"
proof -
  assume ok: "set_ok s"
  have "(\<Sum>a\<in>#M. of_int (buf_bytes (d_store s ! a)) :: uint64) =
      of_int (weight (\<Sum>a\<in>#M. tag_buffer (d_store s ! a)))"
    if "\<forall>a \<in># M. a \<in> set (set_addrs (d_set s))" for M
    using that
  proof (induction M)
    case (add a M)
    then have "buffer_ok (d_store s ! a)" using set_ok_addrD [OF ok] by simp
    with add show ?case by (simp add: tag_buffer_def weight_tag buffer_ok_def)
  qed simp
  from this [of "mset (set_addrs (d_set s))"] ok total_as_mset [of s] show ?thesis
    by (simp add: set_ok_def buffered_def)
qed

lemma total_below:
  assumes "set_ok s" "weight (buffered s) < uint (bound :: uint64)"
  shows "d_total s < bound"
proof -
  have "weight (buffered s) < 2 ^ 64" using assms(2) uint_lt2p [of bound] by simp
  then have "uint (d_total s) = weight (buffered s)"
    using total_weight [OF assms(1)] weight_nonneg [of "buffered s"]
    by (simp add: uint_word_of_int_eq take_bit_int_eq_self)
  with assms(2) show ?thesis by (simp add: word_less_def)
qed

text \<open>An event as it should arrive: in the object of its hour and log type.\<close>

definition expected :: "('e \<Rightarrow> error + string) \<Rightarrow> 'e s3_input \<Rightarrow> int \<times> string \<times> string" where
  "expected marshal inp = (case inp of (ev, _, _) \<Rightarrow>
     (Truncate_hour (ev_time ev), ev_logType ev, (case marshal (ev_body ev) of Inr d \<Rightarrow> d | Inl _ \<Rightarrow> [])))"

lemma check_buffer_size_conserves:
  "set_ok s \<Longrightarrow> a \<in> set (set_addrs (d_set s)) \<Longrightarrow> conserves {#} s (check_buffer_size env a s)"
  by (simp add: check_buffer_size_def remove_and_send_conserves conserves_refl)

lemma event_step_conserves:
  assumes "set_ok s" "\<not> d_failed s" "marshal (ev_body ev) = Inr data"
    and small: "weight (buffered s) + int (length data) + 1 < uint (env_maxBufferedMemBytes env)"
  shows "conserves {# expected marshal (ev, tick, now) #} s (event_step env marshal (ev, tick, now) s)"
proof -
  let ?X = "{# expected marshal (ev, tick, now) #}"
  have X: "?X = {# (Truncate_hour (ev_time ev), ev_logType ev, data) #}"
    using assms(3) by (simp add: expected_def)
  define s1 where "s1 = flushExpired env tick s"
  have c1: "conserves {#} s s1" unfolding s1_def by (rule flushExpired_conserves [OF assms(1)])
  obtain a s2 where g: "getBuffer ev now s1 = (a, s2)" by (cases "getBuffer ev now s1")
  have ok1: "set_ok s1" using c1 by (simp add: conserves_def)
  note get = getBuffer_ok [OF ok1 g]
  define s3 where "s3 = addEvent a data s2"
  note add = addEvent_ok [OF get(1,2), of data, folded s3_def]
  have c3: "conserves ?X s1 s3"
    using add get by (simp add: conserves_def X uploaded_def)
  define s4 where "s4 = check_buffer_size env a s3"
  have c4: "conserves {#} s3 s4"
    unfolding s4_def using add(1,3) get(2) by (simp add: check_buffer_size_conserves)
  have c: "conserves ?X s s4" using conserves_trans [OF conserves_trans [OF c1 c3] c4] by simp
  then have "weight (buffered s4) \<le> weight (buffered s) + weight ?X"
    by (rule conserves_weight)
  then have "d_total s4 < env_maxBufferedMemBytes env"
    using small c total_below [of s4] by (simp add: X conserves_def)
  then have "check_total_size env a s4 = s4" by (simp add: check_total_size_def not_le)
  moreover have "\<not> d_crashed s" "\<not> d_crashed s1" "\<not> d_crashed s3"
    using assms(1) ok1 add(1) by (simp_all add: set_ok_def)
  ultimately have "event_step env marshal (ev, tick, now) s = s4\<lparr>d_processed := d_processed s4 + 1\<rparr>"
    using assms(2,3) g
    by (simp add: event_step_def Let_def s1_def [symmetric] s3_def [symmetric] s4_def [symmetric])
  moreover have "conserves ?X s (s4\<lparr>d_processed := n\<rparr>)" for n
    using c by (simp add: conserves_def set_ok_def buffered_def uploaded_def)
  ultimately show ?thesis by simp
qed

lemma event_step_failed: "d_failed s \<Longrightarrow> event_step env marshal inp s = s"
  by (simp add: event_step_def split: prod.split)

lemma events_failed: "d_failed s \<Longrightarrow> foldl (\<lambda>s inp. event_step env marshal inp s) s inputs = s"
  by (induction inputs) (simp_all add: event_step_failed)

lemma event_step_marshal_error:
  assumes "set_ok s" "\<not> d_failed s" "marshal (ev_body ev) = Inl e"
  shows "set_ok (event_step env marshal (ev, tick, now) s) \<and> d_failed (event_step env marshal (ev, tick, now) s) \<and>
    d_errors (event_step env marshal (ev, tick, now) s) \<noteq> []"
  using flushExpired_conserves [OF assms(1), of env tick] assms
  by (auto simp: event_step_def Let_def conserves_def set_ok_def)

lemma events_conserve:
  "set_ok s \<Longrightarrow> \<not> d_failed s \<Longrightarrow>
   weight (buffered s) + weight (mset (map (expected marshal) inputs)) < uint (env_maxBufferedMemBytes env) \<Longrightarrow>
   s' = foldl (\<lambda>s inp. event_step env marshal inp s) s inputs \<Longrightarrow>
   set_ok s' \<and> (d_errors s' = [] \<longrightarrow> d_errors s = [] \<and>
     buffered s' + uploaded s' = buffered s + uploaded s + mset (map (expected marshal) inputs))"
proof (induction inputs arbitrary: s)
  case (Cons inp inputs)
  obtain ev tick now where inp: "inp = (ev, tick, now)" by (cases inp)
  let ?s1 = "event_step env marshal inp s"
  show ?case
  proof (cases "marshal (ev_body ev)")
    case (Inl e)
    then show ?thesis
      using event_step_marshal_error [of s marshal ev e env tick now] Cons.prems
      by (simp add: inp events_failed)
  next
    case (Inr data)
    have w: "weight {# expected marshal inp #} = int (length data) + 1"
      using Inr by (simp add: expected_def inp)
    have total: "weight (mset (map (expected marshal) (inp # inputs))) =
        int (length data) + 1 + weight (mset (map (expected marshal) inputs))"
      using Inr by (simp add: expected_def inp)
    have c: "conserves {# expected marshal inp #} s ?s1"
      using Cons.prems(3) total weight_nonneg [of "mset (map (expected marshal) inputs)"]
      event_step_conserves [of s marshal ev data env tick now] Cons.prems(1,2) Inr
      by (simp add: inp)
    have "weight (buffered ?s1) \<le> weight (buffered s) + (int (length data) + 1)"
      using conserves_weight [OF c] unfolding w .
    with Cons.prems(3) total have bound: "weight (buffered ?s1) + weight (mset (map (expected marshal) inputs))
        < uint (env_maxBufferedMemBytes env)" by linarith
    have "set_ok ?s1" "\<not> d_failed ?s1" using c Cons.prems(2) by (simp_all add: conserves_def)
    from Cons.IH [OF this bound] Cons.prems(4) c show ?thesis
      by (auto simp: conserves_def ac_simps)
  qed
qed simp

lemma set_ok_initial: "set_ok initial_state"
  by (simp add: initial_state_def set_ok_def)

section \<open>Reaching the memory threshold\<close>

lemma removeBuffer_frame: "d_store (removeBuffer a s) = d_store s" "d_crashed (removeBuffer a s) = d_crashed s"
  by (simp_all add: removeBuffer_def Let_def split: option.splits)

lemma sendData_frame:
  "x \<noteq> a \<Longrightarrow> d_store (sendData env x s) ! a = d_store s ! a" "d_crashed s \<Longrightarrow> d_crashed (sendData env x s)"
  by (simp_all add: sendData_def Let_def split: option.splits)

text \<open>A buffer of the set whose contents were taken already: flushing it is a nil dereference.\<close>

lemma flush_closed_crashes:
  assumes "a \<in> set as" "\<not> buf_open (d_store s ! a)" "buf_events (d_store s ! a) \<noteq> 0"
  shows "d_crashed (foldl (\<lambda>s a. if \<not> d_crashed s then remove_and_send env a s else s) s as)"
proof -
  have stays: "d_crashed s \<Longrightarrow> d_crashed (foldl (\<lambda>s a. if \<not> d_crashed s then remove_and_send env a s else s) s as)" for s as
    by (induction as arbitrary: s) simp_all
  show ?thesis using assms
  proof (induction as arbitrary: s)
    case (Cons x as)
    show ?case
    proof (cases "d_crashed s \<or> x = a")
      case True
      with Cons.prems(2,3) have "d_crashed s \<or> d_crashed (remove_and_send env x s)"
        by (auto simp: remove_and_send_def sendData_def removeBuffer_frame)
      then show ?thesis by (auto intro: stays)
    next
      case False
      then have "d_store (remove_and_send env x s) ! a = d_store s ! a"
        by (simp add: remove_and_send_def sendData_frame removeBuffer_frame)
      with Cons.IH [of "remove_and_send env x s"] Cons.prems False show ?thesis by simp
    qed
  qed simp
qed

lemma largestBuffer_fold:
  assumes "snd (foldl (\<lambda>(m, largest) a. if f a > m then (f a, Some a) else (m, largest)) (m0, l0) as) = Some a" "0 \<le> (m0 :: int)"
  shows "l0 = Some a \<or> a \<in> set as \<and> 0 < f a"
  using assms by (induction as arbitrary: m0 l0) (fastforce split: if_splits)+

lemma largestBuffer_in: "largestBuffer s = Some a \<Longrightarrow> a \<in> set (set_addrs (d_set s)) \<and> 0 < buf_bytes (d_store s ! a)"
  unfolding largestBuffer_def using largestBuffer_fold [of "\<lambda>a. buf_bytes (d_store s ! a)" 0 None] by fastforce

lemma flush_all_processed: "d_crashed (flush_all env (s\<lparr>d_processed := n\<rparr>)) = d_crashed (flush_all env s)"
proof -
  have step: "remove_and_send env a (s\<lparr>d_processed := n\<rparr>) = (remove_and_send env a s)\<lparr>d_processed := n\<rparr>" for a s
    by (simp add: remove_and_send_def removeBuffer_def sendData_def Let_def split: option.splits)
  have "foldl (\<lambda>s a. if \<not> d_crashed s then remove_and_send env a s else s) (s\<lparr>d_processed := n\<rparr>) as =
      (foldl (\<lambda>s a. if \<not> d_crashed s then remove_and_send env a s else s) s as)\<lparr>d_processed := n\<rparr>" for as
    by (induction as arbitrary: s) (simp_all add: step)
  then show ?thesis by (simp add: flush_all_def)
qed

lemma sendData_accepted:
  assumes "set_ok s" "a \<in> set (set_addrs (d_set s))" "buf_content (d_store s ! a) \<noteq> []"
    and "\<And>n up. env_upload env n up = None" "\<And>n up. env_publish env n up = None"
  shows "uploaded (sendData env a s) = uploaded s + tag_buffer (d_store s ! a)" "buffered (sendData env a s) = buffered s"
    "d_set (sendData env a s) = d_set s" "d_errors (sendData env a s) = d_errors s"
    "\<not> buf_open (d_store (sendData env a s) ! a)" "buf_events (d_store (sendData env a s) ! a) \<noteq> 0"
proof -
  let ?b = "d_store s ! a" and ?n = "length (d_uploads s) + length (d_errors s)"
  have b: "a < length (d_store s)" "buf_open ?b" "buf_events ?b \<noteq> 0"
    using set_ok_addrD [OF assms(1,2)] assms(3) by (simp_all add: buffer_ok_def)
  have send: "sendData env a s = s\<lparr>d_store := (d_store s)[a := ?b\<lparr>buf_open := False\<rparr>], d_uploads := d_uploads s @
      [\<lparr>up_key = env_key env ?n (buf_logType ?b) (buf_hour ?b), up_logType = buf_logType ?b, up_hour = buf_hour ?b,
        up_bytes = buf_bytes ?b, up_content = buf_content ?b\<rparr>]\<rparr>"
    using b assms(4,5) by (simp add: sendData_def Let_def)
  have "tag_buffer ((d_store s)[a := ?b\<lparr>buf_open := False\<rparr>] ! x) = tag_buffer (d_store s ! x)" for x
    using b(1) by (cases "x = a") (simp_all add: tag_buffer_def)
  then show "buffered (sendData env a s) = buffered s" by (simp add: send buffered_def)
  show "uploaded (sendData env a s) = uploaded s + tag_buffer ?b" by (simp add: send uploaded_def tag_buffer_def)
  show "d_set (sendData env a s) = d_set s" "d_errors (sendData env a s) = d_errors s"
    "\<not> buf_open (d_store (sendData env a s) ! a)" "buf_events (d_store (sendData env a s) ! a) \<noteq> 0"
    using b by (simp_all add: send)
qed

lemma check_total_size_swaps:
  assumes "set_ok s" "buffer \<in> set (set_addrs (d_set s))" "buf_content (d_store s ! buffer) \<noteq> []"
    and "env_maxBufferedMemBytes env \<le> d_total s" "largestBuffer s = Some largest" "largest \<noteq> buffer"
    and "\<And>n up. env_upload env n up = None" "\<And>n up. env_publish env n up = None"
    and "s' = check_total_size env buffer s"
  shows "d_errors s' = d_errors s" "uploaded s' = uploaded s + tag_buffer (d_store s ! buffer)"
    "buffered s = buffered s' + tag_buffer (d_store s ! largest)" "tag_buffer (d_store s ! largest) \<noteq> {#}"
    "d_crashed (flush_all env s')"
proof -
  have largest: "largest \<in> set (set_addrs (d_set s))" "0 < buf_bytes (d_store s ! largest)"
    using largestBuffer_in [OF assms(5)] by simp_all
  let ?s1 = "removeBuffer largest s"
  note rem = removeBuffer_ok [OF assms(1) largest(1)]
  have s': "s' = sendData env buffer ?s1" using assms(4,5,9) by (simp add: check_total_size_def)
  have "buffer \<in># mset (set_addrs (d_set s))" using assms(2) by simp
  then have buffer: "buffer \<in> set (set_addrs (d_set ?s1))" unfolding rem(1) using assms(6) by simp
  note sent = sendData_accepted [OF rem(2) buffer, of env, unfolded rem(3), OF assms(3,7,8)]
  show "d_errors s' = d_errors s" "uploaded s' = uploaded s + tag_buffer (d_store s ! buffer)"
    using sent rem by (simp_all add: s' uploaded_def)
  show "buffered s = buffered s' + tag_buffer (d_store s ! largest)"
    unfolding s' sent(2) by (simp add: buffered_def rem add.commute)
  have "buf_content (d_store s ! largest) \<noteq> []"
    using set_ok_addrD [OF assms(1) largest(1)] largest(2) by (auto simp: buffer_ok_def content_bytes_def)
  then show "tag_buffer (d_store s ! largest) \<noteq> {#}" by (simp add: tag_buffer_def tag_def)
  show "d_crashed (flush_all env s')"
    unfolding flush_all_def s' using flush_closed_crashes [of buffer] buffer sent(3,5,6) by simp
qed

section \<open>Properties\<close>

text \<open>C4. As long as the marshalled events and their new lines stay below the memory threshold of the
  destination, a run of \<open>SendEvents\<close> never crashes, whatever the ticks of the expiry timer, and if it
  reports no error then the objects written to S3 hold exactly the received events, each once, in an
  object of its hour and log type.\<close>

theorem SendEvents_delivers:
  assumes "(\<Sum>(_, _, d)\<leftarrow>map (expected marshal) inputs. int (length d) + 1) < uint (env_maxBufferedMemBytes env)"
  shows "\<not> d_crashed (SendEvents env marshal inputs) \<and>
    (d_errors (SendEvents env marshal inputs) = [] \<longrightarrow>
      uploaded (SendEvents env marshal inputs) = mset (map (expected marshal) inputs))"
proof -
  let ?s = "foldl (\<lambda>s inp. event_step env marshal inp s) initial_state inputs"
  have init: "buffered initial_state = {#}" "uploaded initial_state = {#}" "\<not> d_failed initial_state"
    by (simp_all add: initial_state_def buffered_def uploaded_def)
  have "weight (mset (map (expected marshal) inputs)) < uint (env_maxBufferedMemBytes env)"
    using assms unfolding weight_def by (simp add: sum_mset_sum_list flip: mset_map)
  then have run: "set_ok ?s" "d_errors ?s = [] \<Longrightarrow> buffered ?s + uploaded ?s = mset (map (expected marshal) inputs)"
    using events_conserve [OF set_ok_initial init(3), of marshal inputs env ?s] init by simp_all
  have flush: "conserves {#} ?s (SendEvents env marshal inputs)" "buffered (SendEvents env marshal inputs) = {#}"
    unfolding SendEvents_def by (rule flush_all_empties [OF run(1)])+
  then show ?thesis using run(2) by (auto simp: conserves_def set_ok_def)
qed

definition example_env :: "uint64 \<Rightarrow> s3_env" where
  "example_env bound = \<lparr>env_key = (\<lambda>n lt h. lt @ Itoa (int n)), env_upload = (\<lambda>_ _. None),
     env_publish = (\<lambda>_ _. None), env_maxBufferedMemBytes = bound, env_maxDuration = 60\<rparr>"

definition example_event :: "int \<Rightarrow> string \<Rightarrow> string \<Rightarrow> string panther_event" where
  "example_event t lt d = \<lparr>ev_time = t, ev_logType = lt, ev_body = d\<rparr>"

definition example_inputs :: "string s3_input list" where
  "example_inputs = [(example_event 5 ''A'' ''aaaaaaaaaa'', None, 0),
     (example_event 7 ''B'' ''bbbbbbbb'', None, 0)]"

lemmas s3_run_simps = SendEvents_def flush_all_def event_step_def check_total_size_def check_buffer_size_def
  flushExpired_def remove_and_send_def sendData_def largestBuffer_def removeBuffer_def addEvent_def
  getBuffer_def newS3EventBuffer_def initial_state_def Truncate_hour_def Let_def example_env_def
  example_event_def example_inputs_def amap_del_def

theorem SendEvents_delivers_witness:
  "\<not> d_crashed (SendEvents (example_env 100) Inr example_inputs) \<and>
   uploaded (SendEvents (example_env 100) Inr example_inputs) =
     {# (0, ''A'', ''aaaaaaaaaa''), (0, ''B'', ''bbbbbbbb'') #}"
proof -
  have "d_errors (SendEvents (example_env 100) Inr example_inputs) = []"
    by (simp add: s3_run_simps)
  moreover have "mset (map (expected Inr) example_inputs) = {# (0, ''A'', ''aaaaaaaaaa''), (0, ''B'', ''bbbbbbbb'') #}"
    by (simp add: expected_def example_inputs_def example_event_def Truncate_hour_def)
  ultimately show ?thesis
    using SendEvents_delivers [of Inr example_inputs "example_env 100"]
    by (simp add: expected_def example_inputs_def example_event_def example_env_def Truncate_hour_def)
qed

text \<open>C39. An event that takes the buffers to the memory threshold while another buffer than its own is the largest, in any
  state of the set that is in order: the largest buffer leaves the set without being sent, and the buffer of the event is sent
  while it stays in the set. No error is reported, although S3 and SNS accept everything: counting what was received, the events of the
  largest buffer are neither in the set nor in an object, and those of the event's buffer are in both. If the events end there,
  flushing the buffer again dereferences its nil writer.\<close>

theorem SendEvents_loses_largest:
  assumes "set_ok s" "\<not> d_failed s" "marshal (ev_body ev) = Inr data"
    and "getBuffer ev now s = (buffer, s1)" "s2 = addEvent buffer data s1" "buf_bytes (d_store s2 ! buffer) < maxS3BufferSizeBytes"
    and "env_maxBufferedMemBytes env \<le> d_total s2" "largestBuffer s2 = Some largest" "largest \<noteq> buffer"
    and "\<And>n up. env_upload env n up = None" "\<And>n up. env_publish env n up = None"
    and "s' = event_step env marshal (ev, None, now) s"
  shows "d_errors s' = d_errors s \<and> uploaded s' = uploaded s + tag_buffer (d_store s2 ! buffer) \<and>
    buffered s + {# (Truncate_hour (ev_time ev), ev_logType ev, data) #} = buffered s' + tag_buffer (d_store s2 ! largest) \<and>
    tag_buffer (d_store s2 ! largest) \<noteq> {#} \<and> d_crashed (flush_all env s')"
proof -
  note get = getBuffer_ok [OF assms(1,4)]
  note add = addEvent_ok [OF get(1,2), of data, folded assms(5)]
  have open_b: "buffer < length (d_store s1)" "buffer_ok (d_store s1 ! buffer)" using set_ok_addrD [OF get(1,2)] by simp_all
  then have content: "buf_content (d_store s2 ! buffer) \<noteq> []"
    by (simp add: assms(5) addEvent_def buffer_ok_def Let_def)
  have "buffer \<in> set (set_addrs (d_set s2))" using get(2) add(3) by simp
  note swap = check_total_size_swaps [OF add(1) this content assms(7-11) refl]
  have "\<not> d_crashed s" "\<not> d_crashed s2" using assms(1) add(1) by (simp_all add: set_ok_def)
  then have step: "s' = (check_total_size env buffer s2)\<lparr>d_processed := d_processed (check_total_size env buffer s2) + 1\<rparr>"
    using assms(2-6,12) by (simp add: event_step_def flushExpired_def check_buffer_size_def Let_def)
  have "d_crashed (flush_all env (s\<lparr>d_processed := n\<rparr>)) = d_crashed (flush_all env s)" for n s
    by (rule flush_all_processed)
  then show ?thesis using swap add get unfolding step by (simp add: uploaded_def buffered_def)
qed

text \<open>The event of log type A is larger than the one of log type B, which takes the buffers to twenty bytes.\<close>

theorem SendEvents_loses_largest_witness:
  "uploaded (event_step (example_env 20) Inr (example_inputs ! 1) (event_step (example_env 20) Inr (example_inputs ! 0) initial_state)) =
     {# (0, ''B'', ''bbbbbbbb'') #} \<and>
   d_errors (SendEvents (example_env 20) Inr example_inputs) = [] \<and> d_crashed (SendEvents (example_env 20) Inr example_inputs)"
proof -
  let ?env = "example_env 20" and ?ev = "example_event 7 ''B'' ''bbbbbbbb''"
  let ?s = "event_step ?env Inr (example_inputs ! 0) initial_state"
  have "conserves {# expected Inr (example_inputs ! 0) #} initial_state ?s"
    using event_step_conserves [OF set_ok_initial, of Inr "example_event 5 ''A'' ''aaaaaaaaaa''" "''aaaaaaaaaa''" ?env None 0]
    by (simp add: example_inputs_def example_event_def example_env_def initial_state_def buffered_def)
  then have "set_ok ?s" by (simp add: conserves_def)
  moreover have "\<not> d_failed ?s" "Inr (ev_body ?ev) = Inr ''bbbbbbbb''" by (simp_all add: s3_run_simps)
  moreover obtain buffer s1 where g: "getBuffer ?ev 0 ?s = (buffer, s1)" by (cases "getBuffer ?ev 0 ?s")
  moreover have "buf_bytes (d_store (addEvent buffer ''bbbbbbbb'' s1) ! buffer) < maxS3BufferSizeBytes"
      "env_maxBufferedMemBytes ?env \<le> d_total (addEvent buffer ''bbbbbbbb'' s1)"
      "largestBuffer (addEvent buffer ''bbbbbbbb'' s1) = Some 0" "0 \<noteq> buffer"
    using g by (auto simp: s3_run_simps)
  ultimately have lost: "d_errors s' = d_errors ?s \<and> uploaded s' = uploaded ?s + tag_buffer (d_store (addEvent buffer ''bbbbbbbb'' s1) ! buffer) \<and>
      d_crashed (flush_all ?env s')" if "s' = event_step ?env Inr (?ev, None, 0) ?s" for s'
    using SendEvents_loses_largest [of ?s Inr ?ev "''bbbbbbbb''" 0 buffer s1 _ ?env 0 s'] that by (simp add: example_env_def)
  have "SendEvents ?env Inr example_inputs = flush_all ?env (event_step ?env Inr (?ev, None, 0) ?s)"
    by (simp add: SendEvents_def example_inputs_def)
  moreover have "d_errors (SendEvents ?env Inr example_inputs) = []" by (simp add: s3_run_simps)
  moreover have "uploaded ?s + tag_buffer (d_store (addEvent buffer ''bbbbbbbb'' s1) ! buffer) = {# (0, ''B'', ''bbbbbbbb'') #}"
    using g by (auto simp: s3_run_simps uploaded_def tag_buffer_def tag_def)
  moreover have "example_inputs ! 1 = (?ev, None, 0)" by (simp add: example_inputs_def)
  ultimately show ?thesis using lost [OF refl] by simp
qed

text \<open>The memory threshold of the buffers is computed without wrap-around for every Lambda size
  below 2^43 MB: when it does not panic, it is the number of bytes left of the Lambda's memory after what was
  in use at start-up and the 185 MB kept for processing one file, and at least 5 MB.\<close>

theorem maxS3BufferMemUsageBytes_exact:
  assumes "0 \<le> used" "lambda < 2 ^ 43" "maxS3BufferMemUsageBytes used lambda = Some limit"
  shows "uint limit = (lambda - used - 185) * 1048576 \<and> 5 * 1048576 \<le> uint limit \<and>
    uint limit \<le> lambda * 1048576"
proof -
  have lim: "limit = word_of_int ((lambda - used - 185) * 1048576)" "lambda - used - 185 \<ge> 5"
    using assms(3) by (auto simp: maxS3BufferMemUsageBytes_def Let_def split: if_splits)
  have "0 \<le> (lambda - used - 185) * 1048576" "(lambda - used - 185) * 1048576 < 2 ^ 64"
    using lim(2) assms(1,2) by simp_all
  from take_bit_int_eq_self [OF this] have "uint limit = (lambda - used - 185) * 1048576"
    unfolding lim(1) uint_word_of_int_eq by simp
  with lim(2) assms(1) show ?thesis by simp
qed

theorem maxS3BufferMemUsageBytes_exact_witness:
  "maxS3BufferMemUsageBytes 70 1024 = Some 806354944 \<and>
   uint (806354944 :: uint64) = (1024 - 70 - 185) * 1048576 \<and> 5 * 1048576 \<le> uint (806354944 :: uint64)"
  using maxS3BufferMemUsageBytes_exact [of 70 1024 806354944]
  by (simp add: maxS3BufferMemUsageBytes_def)

end
