(* ===== verification/Go_Strings.thy ===== *)
theory Go_Strings
  imports Panther_Prelude
begin

text \<open>
  The parts of Go's \<open>strings\<close> and \<open>regexp\<close> packages that the components use, Go's \<open>switch\<close> on a string, and
  their shared lemmas.

  A regular expression is matched the way \<open>regexp\<close> documents it: leftmost, and among the matches that start
  there the one a backtracking search finds first. \<open>re_matches\<close> lists the matches at the front of a text in that
  order, each as the rest of the text and the groups it captured.
\<close>

definition StringValue :: "string option \<Rightarrow> string" where
  "StringValue s = (case s of None \<Rightarrow> [] | Some t \<Rightarrow> t)"

text \<open>\<open>utf8.RuneCountInString\<close>: texts are lists of bytes; a byte that begins no well-formed encoding counts as one rune.\<close>

definition continuation_byte :: "nat \<Rightarrow> bool" where
  "continuation_byte b \<longleftrightarrow> 128 \<le> b \<and> b < 192"

definition rune_width :: "nat list \<Rightarrow> nat" where
  "rune_width bs =
     (case bs of
        b0 # b1 # rest \<Rightarrow>
          (if 194 \<le> b0 \<and> b0 < 224 \<and> continuation_byte b1 then 2
           else (case rest of
                   [] \<Rightarrow> 1
                 | b2 # rest' \<Rightarrow>
                     (if 224 \<le> b0 \<and> b0 < 240 \<and> continuation_byte b1 \<and> continuation_byte b2 \<and> (b0 = 224 \<longrightarrow> 160 \<le> b1) \<and> (b0 = 237 \<longrightarrow> b1 < 160)
                      then 3
                      else (case rest' of
                              [] \<Rightarrow> 1
                            | b3 # _ \<Rightarrow>
                                (if 240 \<le> b0 \<and> b0 < 245 \<and> continuation_byte b1 \<and> continuation_byte b2 \<and> continuation_byte b3 \<and>
                                    (b0 = 240 \<longrightarrow> 144 \<le> b1) \<and> (b0 = 244 \<longrightarrow> b1 < 144)
                                 then 4 else 1)))))
      | _ \<Rightarrow> 1)"

lemma rune_width_pos: "0 < rune_width bs"
  by (simp add: rune_width_def split: list.splits)

function rune_count :: "nat list \<Rightarrow> nat" where
  "rune_count [] = 0"
| "rune_count (b # bs) = Suc (rune_count (drop (rune_width (b # bs)) (b # bs)))"
  by pat_completeness auto
termination
  by (relation "measure length") (simp_all add: rune_width_pos)

definition RuneCountInString :: "string \<Rightarrow> nat" where
  "RuneCountInString s = rune_count (map of_char s)"

lemma rune_count_le: "rune_count bs \<le> length bs"
proof (induction bs rule: rune_count.induct)
  case (2 b bs)
  then show ?case using rune_width_pos [of "b # bs"] by simp
qed simp

lemma RuneCountInString_le: "RuneCountInString s \<le> length s"
  using rune_count_le [of "map of_char s"] by (simp add: RuneCountInString_def)

fun strings_Join :: "string \<Rightarrow> string list \<Rightarrow> string" where
  "strings_Join sep [] = []"
| "strings_Join sep [x] = x"
| "strings_Join sep (x # xs) = x @ sep @ strings_Join sep xs"

text \<open>\<open>strings.Split\<close> with a separator of one byte.\<close>

fun split_on :: "char \<Rightarrow> string \<Rightarrow> string list" where
  "split_on c [] = [[]]"
| "split_on c (x # xs) =
     (if x = c then [] # split_on c xs
      else (case split_on c xs of [] \<Rightarrow> [[x]] | w # ws \<Rightarrow> (x # w) # ws))"

definition HasPrefix :: "string \<Rightarrow> string \<Rightarrow> bool" where
  "HasPrefix s p \<longleftrightarrow> take (length p) s = p"

definition HasSuffix :: "string \<Rightarrow> string \<Rightarrow> bool" where
  "HasSuffix s p \<longleftrightarrow> length p \<le> length s \<and> drop (length s - length p) s = p"

text \<open>\<open>strings.Replace(s, old, "", 1)\<close> for a non-empty \<open>old\<close>.\<close>

fun remove_first :: "string \<Rightarrow> string \<Rightarrow> string" where
  "remove_first p [] = []"
| "remove_first p (x # xs) = (if HasPrefix (x # xs) p then drop (length p) (x # xs) else x # remove_first p xs)"

section \<open>switch\<close>

text \<open>The first case that lists the value decides; \<open>d\<close> is the default.\<close>

fun switch :: "string \<Rightarrow> (string list \<times> 'a) list \<Rightarrow> 'a \<Rightarrow> 'a" where
  "switch e [] d = d"
| "switch e ((names, a) # cases) d = (if e \<in> set names then a else switch e cases d)"

lemma switch_rule:
  assumes "list_all (\<lambda>(names, a). P a) cases" "P d"
  shows "P (switch e cases d)"
  using assms by (induction e cases d rule: switch.induct) auto

lemma switch_default: "list_all (\<lambda>(names, a). e \<notin> set names) cases \<Longrightarrow> switch e cases d = d"
  by (induction e cases d rule: switch.induct) auto

lemma HasPrefix_append [simp]: "HasPrefix (p @ s) p"
  by (simp add: HasPrefix_def)

lemma HasPrefix_iff: "HasPrefix s p \<longleftrightarrow> (\<exists>t. s = p @ t)"
  by (auto simp: HasPrefix_def) (metis append_take_drop_id)

lemma split_on_nonempty: "split_on c s \<noteq> []"
  by (induction s) (auto split: list.splits)

lemma split_on_Join: "strings_Join [c] (split_on c s) = s"
proof (induction s)
  case (Cons x xs)
  obtain w ws where w: "split_on c xs = w # ws" using split_on_nonempty [of c xs] by (cases "split_on c xs") auto
  with Cons show ?case by (cases ws) auto
qed simp

lemma split_on_no_sep: "w \<in> set (split_on c s) \<Longrightarrow> c \<notin> set w"
  by (induction s arbitrary: w) (auto split: if_splits list.splits)

lemma split_on_append: "c \<notin> set a \<Longrightarrow> split_on c (a @ c # b) = a # split_on c b"
  by (induction a) auto

lemma split_on_none: "c \<notin> set a \<Longrightarrow> split_on c a = [a]"
  by (induction a) auto

lemma HasSuffix_append [simp]: "HasSuffix (s @ p) p"
  by (simp add: HasSuffix_def)

section \<open>Regular expressions\<close>

datatype re =
    Lit string                      \<comment> \<open>a literal text\<close>
  | Cls "char \<Rightarrow> bool"        \<comment> \<open>one character of a class\<close>
  | Plus "char \<Rightarrow> bool"       \<comment> \<open>one or more of a class, as many as possible\<close>
  | Star "char \<Rightarrow> bool"       \<comment> \<open>any number of a class, as many as possible\<close>
  | Cat re re
  | Alt re re
  | Opt re                          \<comment> \<open>\<open>r?\<close>\<close>
  | Group nat re

type_synonym re_match = "string \<times> (nat \<times> string) list"

text \<open>\<open>k\<close>, \<open>k - 1\<close>, down to \<open>lo\<close> characters are taken.\<close>

definition takes :: "nat \<Rightarrow> nat \<Rightarrow> string \<Rightarrow> re_match list" where
  "takes lo k s = map (\<lambda>n. (drop n s, [])) (rev [lo..<Suc k])"

primrec re_matches :: "re \<Rightarrow> string \<Rightarrow> re_match list" where
  "re_matches (Lit t) s = (if HasPrefix s t then [(drop (length t) s, [])] else [])"
| "re_matches (Cls P) s = (case s of c # cs \<Rightarrow> if P c then [(cs, [])] else [] | [] \<Rightarrow> [])"
| "re_matches (Plus P) s = takes 1 (length (takeWhile P s)) s"
| "re_matches (Star P) s = takes 0 (length (takeWhile P s)) s"
| "re_matches (Cat r1 r2) s =
     concat (map (\<lambda>(rest, caps). map (\<lambda>(rest2, caps2). (rest2, caps @ caps2)) (re_matches r2 rest)) (re_matches r1 s))"
| "re_matches (Alt r1 r2) s = re_matches r1 s @ re_matches r2 s"
| "re_matches (Opt r) s = re_matches r s @ [(s, [])]"
| "re_matches (Group i r) s =
     map (\<lambda>(rest, caps). (rest, (i, take (length s - length rest) s) # caps)) (re_matches r s)"

fun re_search :: "re \<Rightarrow> string \<Rightarrow> re_match option" where
  "re_search r [] = (case re_matches r [] of m # _ \<Rightarrow> Some m | [] \<Rightarrow> None)"
| "re_search r (c # cs) = (case re_matches r (c # cs) of m # _ \<Rightarrow> Some m | [] \<Rightarrow> re_search r cs)"

text \<open>\<open>FindStringSubmatch(s)[i]\<close>: the text of a group, empty if the match does not use it; \<open>None\<close> is the
  index panic on the nil result of a text without a match.\<close>

definition FindStringSubmatch :: "re \<Rightarrow> string \<Rightarrow> nat \<Rightarrow> string option" where
  "FindStringSubmatch r s i =
     map_option (\<lambda>(_, caps). case map_of caps i of None \<Rightarrow> [] | Some t \<Rightarrow> t) (re_search r s)"

fun Repeat :: "nat \<Rightarrow> re \<Rightarrow> re" where
  "Repeat 0 r = Lit []"
| "Repeat (Suc n) r = Cat r (Repeat n r)"

fun Cats :: "re list \<Rightarrow> re" where
  "Cats [] = Lit []"
| "Cats [r] = r"
| "Cats (r # rs) = Cat r (Cats rs)"

lemma re_search_None:
  assumes "\<forall>k \<le> length s. re_matches r (drop k s) = []"
  shows "re_search r s = None"
  using assms
proof (induction s)
  case (Cons c cs)
  have "re_matches r (c # cs) = []" using Cons.prems [rule_format, of 0] by simp
  moreover have "\<forall>k \<le> length cs. re_matches r (drop k cs) = []"
    using Cons.prems by (metis Suc_le_mono drop_Suc_Cons length_Cons)
  ultimately show ?case using Cons.IH by simp
qed simp

lemma re_search_at:
  "re_search r s = Some m \<Longrightarrow> \<exists>k \<le> length s. m \<in> set (re_matches r (drop k s))"
proof (induction s)
  case (Cons c cs)
  show ?case
  proof (cases "re_matches r (c # cs)")
    case Nil
    with Cons obtain k where "k \<le> length cs" "m \<in> set (re_matches r (drop k cs))" by auto
    then show ?thesis by (intro exI [of _ "Suc k"]) simp
  next
    case (Cons m' ms)
    then show ?thesis using Cons.prems by (intro exI [of _ 0]) simp
  qed
qed (auto split: list.splits)

end
