(* ===== verification/Cloudtrail_Base.thy ===== *)
theory Cloudtrail_Base
  imports Go_Strings
begin

text \<open>
  What the classifiers of \<open>compliance/aws_event_processor/processor\<close> share: the change that an event asks for
  (\<open>resourceChange\<close>), the metadata of an event (\<open>CloudTrailMetadata\<close>), ARNs, and the resource types of
  \<open>snapshot_poller/models/aws\<close>.

  The \<open>gjson\<close> library and the \<open>arn\<close> package of the AWS SDK are the parameters \<open>ct_api\<close>: \<open>'j\<close> is the type of a
  JSON value as gjson hands it out. A record field that a Go literal leaves out has its zero value, which is what
  \<open>resource_change\<close> and \<open>service_scan\<close> give it.
\<close>

record resourceChange =
  rc_AwsAccountID :: string
  rc_Delay :: int
  rc_Delete :: bool
  rc_EventName :: string
  rc_EventTime :: string
  rc_IntegrationID :: string
  rc_Region :: string
  rc_ResourceID :: string
  rc_ResourceType :: string

record CloudTrailMetadata =
  md_region :: string
  md_accountID :: string
  md_eventSource :: string
  md_eventName :: string

record ARN =
  arn_Partition :: string
  arn_Service :: string
  arn_Region :: string
  arn_AccountID :: string
  arn_Resource :: string

record 'j ct_api =
  gj_Get :: "'j \<Rightarrow> string \<Rightarrow> 'j"
  gj_Exists :: "'j \<Rightarrow> bool"
  gj_Str :: "'j \<Rightarrow> string"
  gj_Array :: "'j \<Rightarrow> 'j list"
  gj_Bool :: "'j \<Rightarrow> bool"
  gj_Parse :: "string \<Rightarrow> 'j"
  arn_Parse :: "string \<Rightarrow> error + ARN"
  arn_String :: "ARN \<Rightarrow> string"

text \<open>\<open>detail.Get(path).Str\<close>\<close>

definition get_str :: "'j ct_api \<Rightarrow> 'j \<Rightarrow> string \<Rightarrow> string" where
  "get_str api d path = gj_Str api (gj_Get api d path)"

definition get_array :: "'j ct_api \<Rightarrow> 'j \<Rightarrow> string \<Rightarrow> 'j list" where
  "get_array api d path = gj_Array api (gj_Get api d path)"

definition aws_arn :: "string \<Rightarrow> string \<Rightarrow> string \<Rightarrow> string \<Rightarrow> ARN" where
  "aws_arn service region account resource =
     \<lparr>arn_Partition = ''aws'', arn_Service = service, arn_Region = region, arn_AccountID = account, arn_Resource = resource\<rparr>"

text \<open>A change of one resource, and a scan of a service in a region (or, without a region, in the account).\<close>

definition resource_change :: "string \<Rightarrow> string \<Rightarrow> string \<Rightarrow> string \<Rightarrow> bool \<Rightarrow> resourceChange" where
  "resource_change account event resourceID resourceType del =
     \<lparr>rc_AwsAccountID = account, rc_Delay = 0, rc_Delete = del, rc_EventName = event, rc_EventTime = [],
      rc_IntegrationID = [], rc_Region = [], rc_ResourceID = resourceID, rc_ResourceType = resourceType\<rparr>"

definition service_scan :: "string \<Rightarrow> string \<Rightarrow> string \<Rightarrow> string \<Rightarrow> resourceChange" where
  "service_scan account event region resourceType =
     \<lparr>rc_AwsAccountID = account, rc_Delay = 0, rc_Delete = False, rc_EventName = event, rc_EventTime = [],
      rc_IntegrationID = [], rc_Region = region, rc_ResourceID = [], rc_ResourceType = resourceType\<rparr>"

section \<open>Resource types\<close>

definition AcmCertificateSchema :: string where "AcmCertificateSchema = ''AWS.ACM.Certificate''"
definition CloudFormationStackSchema :: string where "CloudFormationStackSchema = ''AWS.CloudFormation.Stack''"
definition CloudTrailSchema :: string where "CloudTrailSchema = ''AWS.CloudTrail''"
definition CloudWatchLogGroupSchema :: string where "CloudWatchLogGroupSchema = ''AWS.CloudWatch.LogGroup''"
definition ConfigServiceSchema :: string where "ConfigServiceSchema = ''AWS.Config.Recorder''"
definition DynamoDBTableSchema :: string where "DynamoDBTableSchema = ''AWS.DynamoDB.Table''"
definition Ec2AmiSchema :: string where "Ec2AmiSchema = ''AWS.EC2.AMI''"
definition Ec2InstanceSchema :: string where "Ec2InstanceSchema = ''AWS.EC2.Instance''"
definition Ec2NetworkAclSchema :: string where "Ec2NetworkAclSchema = ''AWS.EC2.NetworkACL''"
definition Ec2SecurityGroupSchema :: string where "Ec2SecurityGroupSchema = ''AWS.EC2.SecurityGroup''"
definition Ec2VolumeSchema :: string where "Ec2VolumeSchema = ''AWS.EC2.Volume''"
definition Ec2VpcSchema :: string where "Ec2VpcSchema = ''AWS.EC2.VPC''"
definition EcsClusterSchema :: string where "EcsClusterSchema = ''AWS.ECS.Cluster''"
definition Elbv2LoadBalancerSchema :: string where "Elbv2LoadBalancerSchema = ''AWS.ELBV2.ApplicationLoadBalancer''"
definition GuardDutySchema :: string where "GuardDutySchema = ''AWS.GuardDuty.Detector''"
definition IAMGroupSchema :: string where "IAMGroupSchema = ''AWS.IAM.Group''"
definition IAMPolicySchema :: string where "IAMPolicySchema = ''AWS.IAM.Policy''"
definition IAMRoleSchema :: string where "IAMRoleSchema = ''AWS.IAM.Role''"
definition IAMRootUserSchema :: string where "IAMRootUserSchema = ''AWS.IAM.RootUser''"
definition IAMUserSchema :: string where "IAMUserSchema = ''AWS.IAM.User''"
definition KmsKeySchema :: string where "KmsKeySchema = ''AWS.KMS.Key''"
definition LambdaFunctionSchema :: string where "LambdaFunctionSchema = ''AWS.Lambda.Function''"
definition PasswordPolicySchema :: string where "PasswordPolicySchema = ''AWS.PasswordPolicy''"
definition RDSInstanceSchema :: string where "RDSInstanceSchema = ''AWS.RDS.Instance''"
definition RedshiftClusterSchema :: string where "RedshiftClusterSchema = ''AWS.Redshift.Cluster''"
definition S3BucketSchema :: string where "S3BucketSchema = ''AWS.S3.Bucket''"
definition WafWebAclSchema :: string where "WafWebAclSchema = ''AWS.WAF.WebACL''"
definition WafRegionalWebAclSchema :: string where "WafRegionalWebAclSchema = ''AWS.WAF.Regional.WebACL''"
definition GlobalRegion :: string where "GlobalRegion = ''global''"

definition resource_types :: "string list" where
  "resource_types =
     [AcmCertificateSchema, CloudFormationStackSchema, CloudTrailSchema, CloudWatchLogGroupSchema, ConfigServiceSchema,
      DynamoDBTableSchema, Ec2AmiSchema, Ec2InstanceSchema, Ec2NetworkAclSchema, Ec2SecurityGroupSchema, Ec2VolumeSchema,
      Ec2VpcSchema, EcsClusterSchema, Elbv2LoadBalancerSchema, GuardDutySchema, IAMGroupSchema, IAMPolicySchema,
      IAMRoleSchema, IAMRootUserSchema, IAMUserSchema, KmsKeySchema, LambdaFunctionSchema, PasswordPolicySchema,
      RDSInstanceSchema, RedshiftClusterSchema, S3BucketSchema, WafWebAclSchema, WafRegionalWebAclSchema]"

section \<open>Well-formed changes\<close>

text \<open>A change is of the event, for a resource type that is scanned, not yet stamped with a time or an
  integration, delayed by nothing or two minutes, and never both for a resource and for a region, which
  \<open>submitChanges\<close> calls undefined.\<close>

definition change_ok :: "CloudTrailMetadata \<Rightarrow> resourceChange \<Rightarrow> bool" where
  "change_ok md c \<longleftrightarrow> rc_EventName c = md_eventName md \<and> rc_ResourceType c \<in> set resource_types \<and>
     rc_EventTime c = [] \<and> rc_IntegrationID c = [] \<and> (rc_Delay c = 0 \<or> rc_Delay c = 120) \<and>
     (rc_Region c = [] \<or> rc_ResourceID c = [] \<and> \<not> rc_Delete c)"

definition own_account :: "CloudTrailMetadata \<Rightarrow> resourceChange \<Rightarrow> bool" where
  "own_account md c \<longleftrightarrow> rc_AwsAccountID c = md_accountID md"

lemma resource_type_in [simp]:
  "AcmCertificateSchema \<in> set resource_types" "CloudFormationStackSchema \<in> set resource_types"
  "CloudTrailSchema \<in> set resource_types" "CloudWatchLogGroupSchema \<in> set resource_types"
  "ConfigServiceSchema \<in> set resource_types" "DynamoDBTableSchema \<in> set resource_types"
  "Ec2AmiSchema \<in> set resource_types" "Ec2InstanceSchema \<in> set resource_types"
  "Ec2NetworkAclSchema \<in> set resource_types" "Ec2SecurityGroupSchema \<in> set resource_types"
  "Ec2VolumeSchema \<in> set resource_types" "Ec2VpcSchema \<in> set resource_types"
  "EcsClusterSchema \<in> set resource_types" "Elbv2LoadBalancerSchema \<in> set resource_types"
  "GuardDutySchema \<in> set resource_types" "IAMGroupSchema \<in> set resource_types"
  "IAMPolicySchema \<in> set resource_types" "IAMRoleSchema \<in> set resource_types"
  "IAMRootUserSchema \<in> set resource_types" "IAMUserSchema \<in> set resource_types"
  "KmsKeySchema \<in> set resource_types" "LambdaFunctionSchema \<in> set resource_types"
  "PasswordPolicySchema \<in> set resource_types" "RDSInstanceSchema \<in> set resource_types"
  "RedshiftClusterSchema \<in> set resource_types" "S3BucketSchema \<in> set resource_types"
  "WafWebAclSchema \<in> set resource_types" "WafRegionalWebAclSchema \<in> set resource_types"
  by (simp_all add: resource_types_def)

lemma change_ok_simps [simp]:
  "change_ok md (resource_change account event rid ty del) \<longleftrightarrow> event = md_eventName md \<and> ty \<in> set resource_types"
  "change_ok md (resource_change account event rid ty del\<lparr>rc_Delay := 120\<rparr>) \<longleftrightarrow>
     event = md_eventName md \<and> ty \<in> set resource_types"
  "change_ok md (service_scan account event region ty) \<longleftrightarrow> event = md_eventName md \<and> ty \<in> set resource_types"
  by (auto simp: change_ok_def resource_change_def service_scan_def)

lemma own_account_simps [simp]:
  "own_account md (resource_change account event rid ty del) \<longleftrightarrow> account = md_accountID md"
  "own_account md (resource_change account event rid ty del\<lparr>rc_Delay := 120\<rparr>) \<longleftrightarrow> account = md_accountID md"
  "own_account md (service_scan account event region ty) \<longleftrightarrow> account = md_accountID md"
  by (simp_all add: own_account_def resource_change_def service_scan_def)

end
