(* ===== verification/Cloudtrail_Classifiers.thy ===== *)
theory Cloudtrail_Classifiers
  imports Cloudtrail_Base
begin

text \<open>
  The classifiers of \<open>compliance/aws_event_processor/processor\<close>, one per AWS service and file, except EC2 and IAM:
  each reads an event and lists the resources that have to be scanned or deleted. Two of them index into split
  text or a regular expression's match without a check; their result \<open>None\<close> is the panic.
\<close>

definition zero_arn :: ARN where
  "zero_arn = \<lparr>arn_Partition = [], arn_Service = [], arn_Region = [], arn_AccountID = [], arn_Resource = []\<rparr>"

text \<open>The first result of \<open>arn.Parse\<close> where the code goes on after an error.\<close>

definition arn_or_zero :: "error + ARN \<Rightarrow> ARN" where
  "arn_or_zero r = (case r of Inl _ \<Rightarrow> zero_arn | Inr a \<Rightarrow> a)"

section \<open>ACM, CloudFormation, CloudTrail, CloudWatch logs, Config\<close>

definition classifyACM :: "'j ct_api \<Rightarrow> 'j \<Rightarrow> CloudTrailMetadata \<Rightarrow> resourceChange list" where
  "classifyACM api detail md =
     (let e = md_eventName md;
          changes = (\<lambda>certARN. [resource_change (md_accountID md) e certARN AcmCertificateSchema (e = ''DeleteCertificate'')])
      in switch e
        [([''AddTagsToCertificate'', ''DeleteCertificate'', ''RemoveTags'', ''RenewCertificate'', ''UpdateCertificateOptions'',
           ''RemoveTagsFromCertificate''], changes (get_str api detail ''requestParameters.certificateArn'')),
         ([''ImportCertificate'', ''RequestCertificate''], changes (get_str api detail ''responseElements.certificateArn''))]
        [])"

definition classifyCloudFormation :: "'j ct_api \<Rightarrow> 'j \<Rightarrow> CloudTrailMetadata \<Rightarrow> resourceChange list" where
  "classifyCloudFormation api detail md =
     (let e = md_eventName md; account = md_accountID md;
          changes = (\<lambda>stackARN. [resource_change account e (arn_String api stackARN) CloudFormationStackSchema
                                   (e = ''DeleteStack'')\<lparr>rc_Delay := 120\<rparr>])
      in switch e
        [([''CancelUpdateStack'', ''CreateChangeSet'', ''ContinueUpdateRollback'', ''DeleteStack'', ''SetStackPolicy'',
           ''UpdateStack'', ''ExecuteChangeSet''],
          let stackName = get_str api detail ''requestParameters.stackName''
          in if stackName = [] then []
             else (case arn_Parse api stackName of
                     Inr fullARN \<Rightarrow> changes fullARN
                   | Inl _ \<Rightarrow> changes (aws_arn ''cloudformation'' (md_region md) account (''stack/'' @ stackName)))),
         ([''CreateStack''],
          case arn_Parse api (get_str api detail ''responseElements.stackId'') of
            Inl _ \<Rightarrow> [] | Inr stackARN \<Rightarrow> changes stackARN),
         ([''UpdateTerminationProtection''], [service_scan account e (md_region md) CloudFormationStackSchema]),
         ([''CreateStackInstances'', ''DeleteStackInstances''], [service_scan account e [] CloudFormationStackSchema])]
        [])"

text \<open>A trail given by its name or its ARN.\<close>

definition trail_arn :: "'j ct_api \<Rightarrow> 'j \<Rightarrow> CloudTrailMetadata \<Rightarrow> ARN" where
  "trail_arn api detail md =
     (let name = get_str api detail ''requestParameters.name''
      in case arn_Parse api name of
           Inr trailARN \<Rightarrow> trailARN
         | Inl _ \<Rightarrow> aws_arn ''cloudtrail'' (md_region md) (md_accountID md) (''trail/'' @ name))"

definition classifyCloudTrail :: "'j ct_api \<Rightarrow> 'j \<Rightarrow> CloudTrailMetadata \<Rightarrow> resourceChange list" where
  "classifyCloudTrail api detail md =
     (let e = md_eventName md; account = md_accountID md;
          changes = (\<lambda>trailARN. if account \<noteq> arn_AccountID trailARN then []
                       else [resource_change account e (arn_String api trailARN) CloudTrailSchema False])
      in switch e
        [([''AddTags'', ''RemoveTags''],
          case arn_Parse api (get_str api detail ''requestParameters.resourceId'') of
            Inl _ \<Rightarrow> [] | Inr trailARN \<Rightarrow> changes trailARN),
         ([''StartLogging'', ''StopLogging'', ''UpdateTrail''], changes (trail_arn api detail md)),
         ([''CreateTrail'', ''PutEventSelectors''], [service_scan account e [] CloudTrailSchema]),
         ([''DeleteTrail''],
          [resource_change account e (arn_String api (trail_arn api detail md)) CloudTrailSchema True,
           service_scan account e [] CloudTrailSchema])]
        [])"

definition classifyCloudWatchLogGroup :: "'j ct_api \<Rightarrow> 'j \<Rightarrow> CloudTrailMetadata \<Rightarrow> resourceChange list" where
  "classifyCloudWatchLogGroup api detail md =
     (let e = md_eventName md
      in switch e
        [([''AssociateKmsKey'', ''CreateLogGroup'', ''DeleteLogGroup'', ''DeleteLogStream'', ''DeleteMetricFilter'',
           ''DeleteRetentionPolicy'', ''DeleteSubscriptionFilter'', ''DisassociateKmsKey'', ''PutMetricFilter'',
           ''PutRetentionPolicy'', ''PutSubscriptionFilter'', ''TagLogGroup'', ''UntagLogGroup''],
          [resource_change (md_accountID md) e
             (arn_String api (aws_arn ''logs'' (md_region md) (md_accountID md)
                (''log-group:'' @ get_str api detail ''requestParameters.logGroupName'')))
             CloudWatchLogGroupSchema (e = ''DeleteLogGroup'')])]
        [])"

definition classifyConfig :: "'j \<Rightarrow> CloudTrailMetadata \<Rightarrow> resourceChange list" where
  "classifyConfig detail md =
     (let e = md_eventName md; account = md_accountID md;
          recorder = strings_Join '':'' [account, md_region md, ConfigServiceSchema]
      in switch e
        [([''StartConfigRulesEvaluation'', ''StartConfigurationRecorder'', ''StopConfigurationRecorder''],
          [resource_change account e recorder ConfigServiceSchema False]),
         ([''PutConfigurationRecorder''], [service_scan account e [] ConfigServiceSchema]),
         ([''DeleteConfigurationRecorder''],
          [resource_change account e recorder ConfigServiceSchema True, service_scan account e [] ConfigServiceSchema])]
        [])"

section \<open>DynamoDB, ECS, ELB\<close>

definition classifyDynamoDB :: "'j ct_api \<Rightarrow> 'j \<Rightarrow> CloudTrailMetadata \<Rightarrow> resourceChange list" where
  "classifyDynamoDB api detail md =
     (let e = md_eventName md; account = md_accountID md;
          table_arn = (\<lambda>region name. aws_arn ''dynamodb'' region account (''table/'' @ name));
          changes = (\<lambda>a. [resource_change account e (arn_String api a) DynamoDBTableSchema (e = ''DeleteTable'')]);
          globalTable = (\<lambda>region. resource_change account e
             (arn_String api (table_arn region (get_str api detail ''requestParameters.globalTableName''))) DynamoDBTableSchema False)
      in switch e
        [([''CreateBackup'', ''CreateTable'', ''DeleteTable'', ''UpdateContinuousBackups'', ''UpdateTable'', ''UpdateTimeToLive''],
          changes (table_arn (md_region md) (get_str api detail ''requestParameters.tableName''))),
         ([''CreateGlobalTable''],
          map (\<lambda>repl. globalTable (get_str api repl ''regionName'')) (get_array api detail ''requestParameters.replicationGroup'')),
         ([''UpdateGlobalTable''],
          concat (map (\<lambda>update. map globalTable (filter (\<lambda>region. region \<noteq> [])
              [get_str api update ''create.regionName'', get_str api update ''delete.regionName'']))
            (get_array api detail ''requestParameters.replicaUpdates''))),
         ([''UpdateGlobalTableSettings''],
          map (\<lambda>replica. globalTable (get_str api replica ''regionName'')) (get_array api detail ''responseElements.replicaSettings'')),
         ([''RestoreTableFromBackup'', ''RestoreTableToPointInTime''],
          changes (table_arn (md_region md) (get_str api detail ''requestParameters.targetTableName''))),
         ([''TagResource'', ''UntagResource''],
          case arn_Parse api (get_str api detail ''requestParameters.resourceArn'') of
            Inl _ \<Rightarrow> [] | Inr tableARN \<Rightarrow> changes tableARN)]
        [])"

definition classifyECS :: "'j ct_api \<Rightarrow> 'j \<Rightarrow> CloudTrailMetadata \<Rightarrow> resourceChange list" where
  "classifyECS api detail md =
     (let e = md_eventName md; account = md_accountID md;
          cluster = get_str api detail ''requestParameters.cluster'';
          changes = (\<lambda>clusterARN.
            if clusterARN = [] then []
            else [resource_change account e
                    (case arn_Parse api clusterARN of
                       Inr _ \<Rightarrow> clusterARN
                     | Inl _ \<Rightarrow> arn_String api (aws_arn ''ecs'' (md_region md) account (''cluster/'' @ clusterARN)))
                    EcsClusterSchema (e = ''DeleteCluster'')])
      in switch e
        [([''CreateTaskSet'', ''DeleteCluster'', ''DeleteTaskSet'', ''UpdateServicePrimaryTaskSet'', ''UpdateTaskSet''],
          changes cluster),
         ([''CreateService'', ''DeleteAttributes'', ''DeleteService'', ''DeregisterContainerInstance'', ''PutAttributes'',
           ''RegisterContainerInstance'', ''RunTask'', ''StartTask'', ''StopTask'', ''SubmitAttachmentStateChanges'',
           ''SubmitContainerStateChange'', ''SubmitTaskStateChange'', ''UpdateContainerInstancesState'', ''UpdateService''],
          changes (if cluster = [] then ''default'' else cluster)),
         ([''CreateCluster''], changes (get_str api detail ''responseElements.cluster.clusterArn'')),
         ([''TagResource'', ''UntagResource''],
          let clusterARN = get_str api detail ''requestParameters.resourceArn''
          in case arn_Parse api clusterARN of
               Inl _ \<Rightarrow> []
             | Inr parsed \<Rightarrow> (if HasPrefix (arn_Resource parsed) ''cluster'' then changes clusterARN
                             else [service_scan account e (md_region md) EcsClusterSchema]))]
        [])"

text \<open>The load balancer of a listener or a rule; the indices panic on a text with fewer parts.\<close>

definition lb_resource :: "string \<Rightarrow> string option" where
  "lb_resource componentARN =
     (case split_on (CHR ''/'') componentARN of
        _ # a # b # c # _ \<Rightarrow> Some (strings_Join ''/'' [''loadbalancer'', a, b, c])
      | _ \<Rightarrow> None)"

definition lb_change :: "'j ct_api \<Rightarrow> CloudTrailMetadata \<Rightarrow> ARN \<Rightarrow> bool \<Rightarrow> resourceChange" where
  "lb_change api md a del =
     resource_change (md_accountID md) (md_eventName md) (arn_String api a) Elbv2LoadBalancerSchema del"

fun elb_tag_changes :: "'j ct_api \<Rightarrow> CloudTrailMetadata \<Rightarrow> 'j list \<Rightarrow> resourceChange list" where
  "elb_tag_changes api md [] = []"
| "elb_tag_changes api md (resource # resources) =
     (case arn_Parse api (gj_Str api resource) of
        Inl _ \<Rightarrow> []
      | Inr resourceARN \<Rightarrow>
          (if HasPrefix (arn_Resource resourceARN) ''targetgroup/'' then elb_tag_changes api md resources
           else lb_change api md resourceARN False # elb_tag_changes api md resources))"

fun elb_create_changes :: "'j ct_api \<Rightarrow> CloudTrailMetadata \<Rightarrow> 'j list \<Rightarrow> resourceChange list" where
  "elb_create_changes api md [] = []"
| "elb_create_changes api md (lb # lbs) =
     (case arn_Parse api (get_str api lb ''loadBalancerArn'') of
        Inl _ \<Rightarrow> []
      | Inr lbARN \<Rightarrow> lb_change api md lbARN False # elb_create_changes api md lbs)"

fun elb_rule_changes :: "'j ct_api \<Rightarrow> CloudTrailMetadata \<Rightarrow> 'j list \<Rightarrow> resourceChange list option" where
  "elb_rule_changes api md [] = Some []"
| "elb_rule_changes api md (rule # rules) =
     (case lb_resource (get_str api rule ''ruleArn'') of
        None \<Rightarrow> None
      | Some r \<Rightarrow>
          map_option ((#) (lb_change api md (aws_arn ''elasticloadbalancing'' (md_region md) (md_accountID md) r) False))
            (elb_rule_changes api md rules))"

definition classifyELBV2 :: "'j ct_api \<Rightarrow> 'j \<Rightarrow> CloudTrailMetadata \<Rightarrow> resourceChange list option" where
  "classifyELBV2 api detail md =
     (let e = md_eventName md;
          changes = (\<lambda>a. [lb_change api md a (e = ''DeleteLoadBalancer'')]);
          component = (\<lambda>componentARN. map_option
             (\<lambda>r. changes (aws_arn ''elasticloadbalancing'' (md_region md) (md_accountID md) r)) (lb_resource componentARN))
      in switch e
        [([''AddListenerCertificates'', ''CreateRule'', ''DeleteListener'', ''ModifyListener'', ''RemoveListenerCertificates''],
          component (get_str api detail ''requestParameters.listenerArn'')),
         ([''DeleteRule'', ''ModifyRule''], component (get_str api detail ''requestParameters.ruleArn'')),
         ([''AddTags'', ''RemoveTags''], Some (elb_tag_changes api md (get_array api detail ''requestParameters.resourceArns''))),
         ([''CreateListener'', ''DeleteLoadBalancer'', ''ModifyLoadBalancerAttributes'', ''SetIpAddressType'',
           ''SetSecurityGroups'', ''SetSubnets''],
          Some (changes (arn_or_zero (arn_Parse api (get_str api detail ''requestParameters.loadBalancerArn''))))),
         ([''CreateLoadBalancer''], Some (elb_create_changes api md (get_array api detail ''responseElements.loadBalancers''))),
         ([''SetRulePriorities''], elb_rule_changes api md (get_array api detail ''requestParameters.rulePriorities''))]
        (Some []))"

section \<open>GuardDuty, KMS, Lambda\<close>

definition classifyGuardDuty :: "'j \<Rightarrow> CloudTrailMetadata \<Rightarrow> resourceChange list" where
  "classifyGuardDuty detail md =
     (let e = md_eventName md; account = md_accountID md;
          detector = strings_Join '':'' [account, md_region md, GuardDutySchema]
      in switch e
        [([''TagResource'', ''UntagResource'', ''UpdateDetector''], [resource_change account e detector GuardDutySchema False]),
         ([''AcceptInvitation'', ''CreateDetector'', ''CreateMembers'', ''CreatePublishingDestination'', ''DeleteMembers'',
           ''DisassociateFromMasterAccount'', ''DisassociateMembers'', ''StartMonitoringMembers'', ''StopMonitoringMembers''],
          [service_scan account e [] GuardDutySchema]),
         ([''DeleteDetector''],
          [resource_change account e detector GuardDutySchema True, service_scan account e [] GuardDutySchema])]
        [])"

fun first_key_arn :: "'j ct_api \<Rightarrow> 'j list \<Rightarrow> string" where
  "first_key_arn api [] = []"
| "first_key_arn api (resource # resources) =
     (case arn_Parse api (get_str api resource ''arn'') of
        Inl _ \<Rightarrow> first_key_arn api resources
      | Inr resourceARN \<Rightarrow>
          (if HasPrefix (arn_Resource resourceARN) ''key/'' then arn_String api resourceARN
           else first_key_arn api resources))"

definition getKeyARN :: "'j ct_api \<Rightarrow> 'j \<Rightarrow> string" where
  "getKeyARN api detail = first_key_arn api (get_array api detail ''resources'')"

definition classifyKMS :: "'j ct_api \<Rightarrow> 'j \<Rightarrow> CloudTrailMetadata \<Rightarrow> resourceChange list" where
  "classifyKMS api detail md =
     (let e = md_eventName md; keyARN = getKeyARN api detail
      in switch e
        [([''CancelKeyDeletion'', ''CreateAlias'', ''CreateGrant'', ''CreateKey'', ''DeleteKey'', ''DeleteAlias'', ''DisableKey'',
           ''DisableKeyRotation'', ''EnableKey'', ''EnableKeyRotation'', ''PutKeyPolicy'', ''ScheduleKeyDeletion'',
           ''TagResource'', ''UntagResource'', ''UpdateAlias'', ''UpdateKeyDescription''],
          if keyARN = [] then []
          else [resource_change (md_accountID md) e keyARN KmsKeySchema (e = ''DeleteKey'')])]
        [])"

definition is_lower :: "char \<Rightarrow> bool" where
  "is_lower c \<longleftrightarrow> 97 \<le> (of_char c :: nat) \<and> (of_char c :: nat) \<le> 122"

definition is_upper :: "char \<Rightarrow> bool" where
  "is_upper c \<longleftrightarrow> 65 \<le> (of_char c :: nat) \<and> (of_char c :: nat) \<le> 90"

definition name_char :: "char \<Rightarrow> bool" where
  "name_char c \<longleftrightarrow> is_lower c \<or> is_upper c \<or> is_digit c \<or> c = CHR ''-'' \<or> c = CHR ''_''"

definition lambdaNameRegex :: re where
  "lambdaNameRegex = Cats
     [Opt (Group 1 (Cats [Lit ''arn:'',
        Opt (Group 2 (Cat (Lit ''aws'') (Star (\<lambda>c. is_lower c \<or> is_upper c \<or> c = CHR ''-'')))), Lit '':lambda:''])),
      Opt (Group 3 (Cats [Repeat 2 (Cls is_lower), Opt (Group 4 (Lit ''-gov'')), Lit ''-'', Plus is_lower, Lit ''-'',
        Cls is_digit, Lit '':''])),
      Opt (Group 5 (Cat (Repeat 12 (Cls is_digit)) (Lit '':''))),
      Opt (Group 6 (Lit ''function:'')),
      Group 7 (Plus name_char),
      Opt (Group 8 (Cat (Lit '':'') (Group 9 (Alt (Lit ''$LATEST'') (Plus name_char)))))]"

text \<open>The versions in the order that \<open>init\<close> gives them.\<close>

definition lambdaVersions :: "string list" where
  "lambdaVersions = [''20181031'', ''20170331v2'', ''20170331'', ''20150331v2'', ''20150331'']"

fun strip_version :: "string list \<Rightarrow> string \<Rightarrow> string" where
  "strip_version [] eventName = eventName"
| "strip_version (version # versions) eventName =
     (let strippedEventName = remove_first version eventName
      in if length strippedEventName < length eventName then strippedEventName else strip_version versions eventName)"

definition getLambdaBaseEventName :: "string \<Rightarrow> string" where
  "getLambdaBaseEventName eventName = strip_version lambdaVersions eventName"

definition classifyLambda :: "'j ct_api \<Rightarrow> 'j \<Rightarrow> CloudTrailMetadata \<Rightarrow> resourceChange list option" where
  "classifyLambda api detail md =
     (let e = getLambdaBaseEventName (md_eventName md);
          changes = (\<lambda>a. [resource_change (md_accountID md) (md_eventName md) (arn_String api a) LambdaFunctionSchema
                            (e = ''DeleteFunction'')]);
          function = (\<lambda>functionName. map_option
             (\<lambda>name. changes (aws_arn ''lambda'' (md_region md) (md_accountID md) (''function:'' @ name)))
             (FindStringSubmatch lambdaNameRegex functionName 7))
      in switch e
        [([''AddPermission'', ''CreateAlias'', ''CreateEventSourceMapping'', ''CreateFunction'', ''DeleteAlias'',
           ''DeleteFunction'', ''DeleteFunctionConcurrency'', ''PublishVersion'', ''PublishLayerVersion'',
           ''PutFunctionConcurrency'', ''RemovePermission'', ''UpdateAlias'', ''UpdateEventSourceMapping'',
           ''UpdateFunctionCode'', ''UpdateFunctionConfiguration''],
          function (get_str api detail ''requestParameters.functionName'')),
         ([''DeleteEventSourceMapping''], function (get_str api detail ''responseElements.functionArn'')),
         ([''TagResource'', ''UntagResource''],
          case arn_Parse api (get_str api detail ''requestParameters.resource'') of
            Inl _ \<Rightarrow> Some [] | Inr lambdaARN \<Rightarrow> Some (changes lambdaARN))]
        (Some []))"

section \<open>RDS, Redshift, S3, WAF\<close>

definition classifyRDS :: "'j ct_api \<Rightarrow> 'j \<Rightarrow> CloudTrailMetadata \<Rightarrow> resourceChange list" where
  "classifyRDS api detail md =
     (let e = md_eventName md; account = md_accountID md;
          rds_arn = (\<lambda>name. aws_arn ''rds'' (md_region md) account (''db:'' @ name));
          changes = (\<lambda>a. [resource_change account e (arn_String api a) RDSInstanceSchema (e = ''DeleteDBInstance'')]);
          instance_change = (\<lambda>path. resource_change account e
             (arn_String api (rds_arn []) @ get_str api detail path) RDSInstanceSchema False)
      in if HasSuffix e ''DBCluster'' \<or> HasSuffix e ''ParameterGroup'' \<or> HasSuffix e ''Subscription'' \<or>
            HasSuffix e ''OptionGroup'' \<or> HasSuffix e ''GlobalCluster'' \<or> HasSuffix e ''ClusterSnapshot''
         then []
         else switch e
        [([''AddRoleToDBInstance'', ''CreateDBInstance'', ''CreateDBSnapshot'', ''DeleteDBInstance'', ''ModifyDBInstance'',
           ''PromoteReadReplica'', ''RebootDBInstance'', ''RemoveRoleFromDBInstance'', ''RestoreDBInstanceFromDBSnapshot'',
           ''RestoreDBInstanceFromS3'', ''StartDBInstance'', ''StopDBInstance''],
          changes (rds_arn (get_str api detail ''requestParameters.dBInstanceIdentifier''))),
         ([''AddTagsToResource'', ''RemoveTagsFromResource''],
          let resourceARN = arn_or_zero (arn_Parse api (get_str api detail ''requestParameters.resourceName''))
          in if HasPrefix (arn_Resource resourceARN) ''db:'' then changes resourceARN else []),
         ([''ApplyPendingMaintenanceAction''],
          case arn_Parse api (get_str api detail ''requestParameters.resourceIdentifier'') of
            Inl _ \<Rightarrow> []
          | Inr resourceARN \<Rightarrow> (if HasPrefix (arn_Resource resourceARN) ''db:'' then changes resourceARN else [])),
         ([''CopyDBSnapshot'', ''DeleteDBSnapshot'', ''ModifyDBSnapshot''],
          changes (rds_arn (get_str api detail ''responseElements.dBSnapshot.dBInstanceIdentifier''))),
         ([''CreateDBInstanceReadReplica''],
          [instance_change ''requestParameters.dBInstanceIdentifier'',
           instance_change ''requestParameters.sourcedBInstanceIdentifier'']),
         ([''CreateDBSubnetGroup'', ''ModifyDBSubnetGroup''],
          [resource_change account e
             (arn_String api (aws_arn ''ec2'' (md_region md) account
                (''vpc/'' @ get_str api detail ''responseElements.dBSubnetGroup.vpcId''))) Ec2VpcSchema False]),
         ([''DeleteDBInstanceAutomatedBackup''],
          changes (rds_arn (get_str api detail ''responseElements.dBInstanceAutomatedBackup.dBInstanceIdentifier''))),
         ([''ModifyDBSnapshotAttribute''], [service_scan account e (md_region md) RDSInstanceSchema]),
         ([''RestoreDBInstanceToPointInTime''],
          [instance_change ''requestParameters.targetdBInstanceIdentifier'',
           instance_change ''requestParameters.sourcedBInstanceIdentifier''])]
        [])"

definition classifyRedshift :: "'j ct_api \<Rightarrow> 'j \<Rightarrow> CloudTrailMetadata \<Rightarrow> resourceChange list" where
  "classifyRedshift api detail md =
     (let e = md_eventName md; account = md_accountID md;
          cluster_arn = (\<lambda>name. aws_arn ''redshift'' (md_region md) account (''cluster:'' @ name));
          changes = (\<lambda>a. [resource_change account e (arn_String api a) RedshiftClusterSchema (e = ''DeleteCluster'')]);
          cluster_change = (\<lambda>name. resource_change account e (arn_String api (cluster_arn []) @ name) RedshiftClusterSchema False)
      in switch e
        [([''AuthorizeSnapshotAccess'', ''CopyClusterSnapshot'', ''DeleteClusterSnapshot'', ''ModifyClusterSnapshot'',
           ''RevokeSnapshotAccess''],
          changes (cluster_arn (get_str api detail ''responseElements.snapshot.clusterIdentifier''))),
         ([''AuthorizeClusterSecurityGroupIngress'', ''BatchDeleteClusterSnapshots'', ''BatchModifyClusterSnapshots'',
           ''CreateSnapshotCopyGrant''],
          [service_scan account e (md_region md) RedshiftClusterSchema]),
         ([''CancelResize'', ''CreateCluster'', ''CreateClusterSnapshot'', ''DeleteCluster'', ''DisableLogging'',
           ''DisableSnapshotCopy'', ''EnableLogging'', ''EnableSnapshotCopy'', ''ModifyCluster'', ''ModifyClusterDbRevision'',
           ''ModifyClusterIamRoles'', ''ModifyClusterMaintenance'', ''ModifyClusterSnapshotSchedule'',
           ''ModifySnapshotCopyRetentionPeriod'', ''RebootCluster'', ''ResizeCluster'', ''RestoreFromClusterSnapshot'',
           ''ClusterIdentifier'', ''RotateEncryptionKey''],
          changes (cluster_arn (get_str api detail ''requestParameters.clusterIdentifier''))),
         ([''CreateClusterSubnetGroup''],
          [resource_change account e
             (arn_String api (aws_arn ''ec2'' (md_region md) account
                (''vpc/'' @ get_str api detail ''responseElements.clusterSubnetGroup.vpcId''))) Ec2VpcSchema False]),
         ([''CreateEventSubscription'', ''ModifyEventSubscription''],
          let resourceType = get_str api detail ''requestParameters.sourceType'';
              resourceIDs = get_array api detail ''requestParameters.sourceIds''
          in if resourceType \<noteq> ''cluster'' \<and> resourceType \<noteq> [] then []
             else if resourceType = [] \<or> resourceIDs = [] then [service_scan account e [] RedshiftClusterSchema]
             else map (\<lambda>resourceID. cluster_change (gj_Str api resourceID)) resourceIDs),
         ([''CreateSnapshotSchedule'', ''ModifySnapshotSchedule''],
          map (\<lambda>cluster. cluster_change (get_str api cluster ''clusterIdentifier''))
            (get_array api detail ''responseElements.associatedClusters'')),
         ([''CreateTags'', ''DeleteTags''],
          case arn_Parse api (get_str api detail ''requestParameters.resourceName'') of
            Inl _ \<Rightarrow> []
          | Inr resourceARN \<Rightarrow> (if HasPrefix (arn_Resource resourceARN) ''cluster:'' then changes resourceARN else []))]
        [])"

definition classifyS3 :: "'j ct_api \<Rightarrow> 'j \<Rightarrow> CloudTrailMetadata \<Rightarrow> resourceChange list" where
  "classifyS3 api detail md =
     (let bucketName = get_str api detail ''requestParameters.bucketName''
      in if bucketName = [] then []
         else [resource_change (md_accountID md) (md_eventName md) (arn_String api (aws_arn ''s3'' [] [] bucketName))
                 S3BucketSchema (md_eventName md = ''DeleteBucket'')])"

definition waf_update :: "string \<Rightarrow> bool" where
  "waf_update e \<longleftrightarrow> HasPrefix e ''Update'' \<and> e \<noteq> ''UpdateWebACL''"

definition waf_ignored :: "string \<Rightarrow> bool" where
  "waf_ignored e \<longleftrightarrow> HasSuffix e ''Set'' \<or> HasSuffix e ''Rule'' \<or> HasSuffix e ''RuleGroup''"

text \<open>The last step of both WAF classifiers: the ARN has to parse.\<close>

definition waf_change :: "'j ct_api \<Rightarrow> CloudTrailMetadata \<Rightarrow> string \<Rightarrow> resourceChange list" where
  "waf_change api md wafARN =
     (case arn_Parse api wafARN of
        Inl _ \<Rightarrow> []
      | Inr parsedARN \<Rightarrow> [resource_change (md_accountID md) (md_eventName md) (arn_String api parsedARN) WafWebAclSchema
                            (md_eventName md = ''DeleteWebACL'')])"

definition classifyWAF :: "'j ct_api \<Rightarrow> 'j \<Rightarrow> CloudTrailMetadata \<Rightarrow> resourceChange list" where
  "classifyWAF api detail md =
     (let e = md_eventName md; account = md_accountID md
      in if waf_update e then [service_scan account e GlobalRegion WafWebAclSchema]
         else if waf_ignored e then []
         else switch e
        [([''CreateWebACL''], waf_change api md (get_str api detail ''responseElements.webACL.webACLArn'')),
         ([''DeleteLoggingConfiguration''], waf_change api md (get_str api detail ''requestParameters.resourceArn'')),
         ([''DeleteWebACL'', ''UpdateWebACL''],
          waf_change api md (strings_Join '':''
            [''arn'', ''aws'', ''waf'', [], account, ''webacl/'' @ get_str api detail ''requestParameters.webACLId''])),
         ([''PutLoggingConfiguration''], waf_change api md (get_str api detail ''requestParameters.loggingConfiguration.resourceArn''))]
        [])"

definition classifyWAFRegional :: "'j ct_api \<Rightarrow> 'j \<Rightarrow> CloudTrailMetadata \<Rightarrow> resourceChange list" where
  "classifyWAFRegional api detail md =
     (let e = md_eventName md; account = md_accountID md;
          resourceARN = arn_or_zero (arn_Parse api (get_str api detail ''requestParameters.resourceArn''));
          lb = (if HasPrefix (arn_Resource resourceARN) ''loadbalancer/''
                then [resource_change account e (arn_String api resourceARN) Elbv2LoadBalancerSchema False] else [])
      in if waf_update e then [service_scan account e GlobalRegion WafWebAclSchema]
         else if waf_ignored e then []
         else switch e
        [([''CreateWebACL''], waf_change api md (get_str api detail ''responseElements.webACL.webACLArn'')),
         ([''DeleteLoggingConfiguration''], waf_change api md (get_str api detail ''requestParameters.resourceArn'')),
         ([''DeleteWebACL'', ''UpdateWebACL''],
          waf_change api md (strings_Join '':''
            [''arn'', ''aws'', ''waf-regional'', md_region md, account,
             ''webacl/'' @ get_str api detail ''requestParameters.webACLId''])),
         ([''PutLoggingConfiguration''], waf_change api md (get_str api detail ''requestParameters.loggingConfiguration.resourceArn'')),
         ([''AssociateWebACL''],
          lb @ [resource_change account e
            (arn_String api (aws_arn ''waf-regional'' (md_region md) account
               (''webacl/'' @ get_str api detail ''requestParameters.webAclId''))) WafRegionalWebAclSchema False]),
         ([''DisassociateWebACL''], lb @ [service_scan account e (md_region md) WafRegionalWebAclSchema])]
        [])"

section \<open>Well-formedness\<close>

text \<open>Every change of these services is well-formed and for the account of the event.\<close>

definition good_change :: "CloudTrailMetadata \<Rightarrow> resourceChange \<Rightarrow> bool" where
  "good_change md c \<longleftrightarrow> change_ok md c \<and> own_account md c"

abbreviation good_changes :: "CloudTrailMetadata \<Rightarrow> resourceChange list \<Rightarrow> bool" where
  "good_changes md cs \<equiv> list_all (good_change md) cs"

lemma good_change_simps [simp]:
  "good_change md (resource_change account event rid ty del) \<longleftrightarrow>
     event = md_eventName md \<and> ty \<in> set resource_types \<and> account = md_accountID md"
  "good_change md (resource_change account event rid ty del\<lparr>rc_Delay := 120\<rparr>) \<longleftrightarrow>
     event = md_eventName md \<and> ty \<in> set resource_types \<and> account = md_accountID md"
  "good_change md (service_scan account event region ty) \<longleftrightarrow>
     event = md_eventName md \<and> ty \<in> set resource_types \<and> account = md_accountID md"
  by (auto simp: good_change_def)

lemmas switch_good = switch_rule [where P = "good_changes md" for md]

lemma classifyACM_good: "good_changes md (classifyACM api detail md)"
  unfolding classifyACM_def Let_def by (rule switch_good) simp_all

lemma classifyCloudFormation_good: "good_changes md (classifyCloudFormation api detail md)"
  unfolding classifyCloudFormation_def Let_def by (rule switch_good) (simp_all split: sum.splits)

lemma classifyCloudTrail_good: "good_changes md (classifyCloudTrail api detail md)"
  unfolding classifyCloudTrail_def Let_def by (rule switch_good) (simp_all split: sum.splits)

lemma classifyCloudWatchLogGroup_good: "good_changes md (classifyCloudWatchLogGroup api detail md)"
  unfolding classifyCloudWatchLogGroup_def Let_def by (rule switch_good) simp_all

lemma classifyConfig_good: "good_changes md (classifyConfig detail md)"
  unfolding classifyConfig_def Let_def by (rule switch_good) simp_all

lemma classifyDynamoDB_good: "good_changes md (classifyDynamoDB api detail md)"
  unfolding classifyDynamoDB_def Let_def
  by (rule switch_good) (auto simp: list_all_iff split: sum.splits)

lemma classifyECS_good: "good_changes md (classifyECS api detail md)"
  unfolding classifyECS_def Let_def by (rule switch_good) (simp_all split: sum.splits)

lemma lb_change_good [simp]: "good_change md (lb_change api md a del)"
  by (simp add: lb_change_def)

lemma elb_tag_changes_good: "good_changes md (elb_tag_changes api md rs)"
  by (induction api md rs rule: elb_tag_changes.induct) (auto split: sum.splits)

lemma elb_create_changes_good: "good_changes md (elb_create_changes api md rs)"
  by (induction api md rs rule: elb_create_changes.induct) (auto split: sum.splits)

lemma elb_rule_changes_good: "pred_option (good_changes md) (elb_rule_changes api md rs)"
  by (induction api md rs rule: elb_rule_changes.induct) (auto simp: pred_option_def split: option.splits)

lemma classifyELBV2_good: "pred_option (good_changes md) (classifyELBV2 api detail md)"
  unfolding classifyELBV2_def Let_def
  by (rule switch_rule [where P = "pred_option (good_changes md)"])
     (simp_all add: elb_tag_changes_good elb_create_changes_good elb_rule_changes_good option.pred_map o_def
        option.pred_True)

lemma classifyGuardDuty_good: "good_changes md (classifyGuardDuty detail md)"
  unfolding classifyGuardDuty_def Let_def by (rule switch_good) simp_all

lemma classifyKMS_good: "good_changes md (classifyKMS api detail md)"
  unfolding classifyKMS_def Let_def by (rule switch_good) simp_all

lemma classifyLambda_good: "pred_option (good_changes md) (classifyLambda api detail md)"
  unfolding classifyLambda_def Let_def
  by (rule switch_rule [where P = "pred_option (good_changes md)"])
     (simp_all add: option.pred_map o_def option.pred_True split: sum.splits)

lemma classifyRDS_good: "good_changes md (classifyRDS api detail md)"
proof -
  have "good_changes md (switch e cases [])" if "list_all (\<lambda>(names, cs). good_changes md cs) cases" for e cases
    using that by (rule switch_good) simp
  then show ?thesis unfolding classifyRDS_def Let_def by (simp split: sum.splits del: switch.simps)
qed

lemma classifyRedshift_good: "good_changes md (classifyRedshift api detail md)"
  unfolding classifyRedshift_def Let_def
  by (rule switch_good) (auto simp: list_all_iff split: sum.splits)

lemma classifyS3_good: "good_changes md (classifyS3 api detail md)"
  by (simp add: classifyS3_def Let_def)

lemma waf_change_good [simp]: "good_changes md (waf_change api md a)"
  by (simp add: waf_change_def split: sum.splits)

lemma classifyWAF_good: "good_changes md (classifyWAF api detail md)"
proof -
  have "good_changes md (switch e cases [])" if "list_all (\<lambda>(names, cs). good_changes md cs) cases" for e cases
    using that by (rule switch_good) simp
  then show ?thesis unfolding classifyWAF_def Let_def by (simp del: switch.simps)
qed

lemma classifyWAFRegional_good: "good_changes md (classifyWAFRegional api detail md)"
proof -
  have "good_changes md (switch e cases [])" if "list_all (\<lambda>(names, cs). good_changes md cs) cases" for e cases
    using that by (rule switch_good) simp
  then show ?thesis unfolding classifyWAFRegional_def Let_def by (simp del: switch.simps)
qed

lemmas classifiers_good =
  classifyACM_good classifyCloudFormation_good classifyCloudTrail_good classifyCloudWatchLogGroup_good
  classifyConfig_good classifyDynamoDB_good classifyECS_good classifyELBV2_good classifyGuardDuty_good classifyKMS_good
  classifyLambda_good classifyRDS_good classifyRedshift_good classifyS3_good classifyWAF_good classifyWAFRegional_good

end
