(* ===== verification/Cloudtrail_EC2_IAM.thy ===== *)
theory Cloudtrail_EC2_IAM
  imports Cloudtrail_Classifiers
begin

text \<open>
  The classifiers for EC2 (\<open>ec2.go\<close>) and IAM (\<open>iam.go\<close>), which name resources of other accounts in some cases.
\<close>

section \<open>EC2\<close>

text \<open>The resource type and the resource part of an ARN for an id in \<open>CreateTags\<close> and \<open>DeleteTags\<close>.\<close>

definition tagged_resource :: "string \<Rightarrow> (string \<times> string) option" where
  "tagged_resource rid =
     (if HasPrefix rid ''image-'' then Some (Ec2AmiSchema, ''image/'' @ rid)
      else if HasPrefix rid ''instance-'' \<or> HasPrefix rid ''i-'' then Some (Ec2InstanceSchema, ''instance/'' @ rid)
      else if HasPrefix rid ''acl-'' then Some (Ec2NetworkAclSchema, ''network-acl/'' @ rid)
      else if HasPrefix rid ''sg-'' then Some (Ec2SecurityGroupSchema, ''security-group/'' @ rid)
      else if HasPrefix rid ''volume-'' then Some (Ec2VolumeSchema, ''volume/'' @ rid)
      else if HasPrefix rid ''vpc-'' then Some (Ec2VpcSchema, ''vpc/'' @ rid)
      else None)"

text \<open>The default case tries five ids in turn.\<close>

definition ec2_guess :: "'j ct_api \<Rightarrow> 'j \<Rightarrow> (string \<times> string) option" where
  "ec2_guess api detail =
     (if get_str api detail ''*.instanceId'' \<noteq> [] then Some (Ec2InstanceSchema, ''instance/'' @ get_str api detail ''*.instanceId'')
      else if get_str api detail ''*.networkAclId'' \<noteq> []
        then Some (Ec2NetworkAclSchema, ''network-acl/'' @ get_str api detail ''*.networkAclId'')
      else if get_str api detail ''*.groupId'' \<noteq> []
        then Some (Ec2SecurityGroupSchema, ''security-group/'' @ get_str api detail ''*.groupId'')
      else if get_str api detail ''*.volumeId'' \<noteq> [] then Some (Ec2VolumeSchema, ''volume/'' @ get_str api detail ''*.volumeId'')
      else if get_str api detail ''*.vpcId'' \<noteq> [] then Some (Ec2VpcSchema, ''vpc/'' @ get_str api detail ''*.vpcId'')
      else None)"

text \<open>One side of a VPC peering connection.\<close>

definition peering_change :: "'j ct_api \<Rightarrow> 'j \<Rightarrow> resourceChange" where
  "peering_change api info =
     resource_change (get_str api info ''ownerId'') ''AcceptVpcPeeringConnection''
       (strings_Join '':'' [''arn:aws:ec2'', get_str api info ''region'', get_str api info ''ownerId'',
          ''vpc/'' @ get_str api info ''vpcId'']) Ec2VpcSchema False"

text \<open>The forms of changes: one resource by its ARN, one by the empty ARN with the resource appended, the instances of a
  list, and a scan.\<close>

definition ec2_one :: "'j ct_api \<Rightarrow> CloudTrailMetadata \<Rightarrow> string \<Rightarrow> string \<Rightarrow> bool \<Rightarrow> resourceChange list" where
  "ec2_one api md ty r del =
     [resource_change (md_accountID md) (md_eventName md) (arn_String api (aws_arn ''ec2'' (md_region md) (md_accountID md) r)) ty del]"

definition ec2_part :: "'j ct_api \<Rightarrow> CloudTrailMetadata \<Rightarrow> string \<Rightarrow> string \<Rightarrow> bool \<Rightarrow> resourceChange" where
  "ec2_part api md ty r del =
     resource_change (md_accountID md) (md_eventName md)
       (arn_String api (aws_arn ''ec2'' (md_region md) (md_accountID md) []) @ r) ty del"

definition ec2_instances :: "'j ct_api \<Rightarrow> 'j \<Rightarrow> CloudTrailMetadata \<Rightarrow> string \<Rightarrow> bool \<Rightarrow> resourceChange list" where
  "ec2_instances api detail md path del =
     map (\<lambda>i. ec2_part api md Ec2InstanceSchema (''instance/'' @ get_str api i ''instanceId'') del) (get_array api detail path)"

definition ec2_scan :: "CloudTrailMetadata \<Rightarrow> string \<Rightarrow> string \<Rightarrow> resourceChange list" where
  "ec2_scan md region ty = [service_scan (md_accountID md) (md_eventName md) region ty]"

text \<open>The cases of the switch, in their order.\<close>

definition ec2_cases_1 :: "'j ct_api \<Rightarrow> 'j \<Rightarrow> CloudTrailMetadata \<Rightarrow> (string list \<times> resourceChange list) list" where
  "ec2_cases_1 api detail md =
        [([''AssociateAddress'', ''ModifyInstanceAttribute'', ''AttachNetworkInterface'',
           ''ModifyInstanceCapacityReservationAttributes'', ''ModifyInstanceCreditSpecificationResponse'', ''ResetInstanceAttribute''],
          ec2_one api md Ec2InstanceSchema (''instance/'' @ get_str api detail ''requestParameters.instanceId'') False),
         ([''CreateNetworkAclEntry'', ''DeleteNetworkAclEntry'', ''ReplaceNetworkAclAssociation'', ''ReplaceNetworkAclEntry''],
          ec2_one api md Ec2NetworkAclSchema (''network-acl/'' @ get_str api detail ''requestParameters.networkAclId'') False),
         ([''AuthorizeSecurityGroupEgress'', ''AuthorizeSecurityGroupIngress'', ''RevokeSecurityGroupEgress'',
           ''RevokeSecurityGroupIngress''],
          ec2_one api md Ec2SecurityGroupSchema (''security-group/'' @ get_str api detail ''requestParameters.groupId'') False),
         ([''CreateRouteTable'', ''AttachInternetGateway'', ''CreateSubnet'', ''AssociateDhcpOptions'', ''ModifyVpcAttribute'',
           ''ModifyVpcTenancy''],
          ec2_one api md Ec2VpcSchema (''vpc/'' @ get_str api detail ''requestParameters.vpcId'') False),
         ([''CreateSnapshot'', ''ModifyVolume'', ''ModifyVolumeAttribute''],
          ec2_one api md Ec2VolumeSchema (''volume/'' @ get_str api detail ''requestParameters.volumeId'') False),
         ([''ModifyImageAttribute'', ''ResetImageAttribute''],
          ec2_one api md Ec2AmiSchema (''image/'' @ get_str api detail ''requestParameters.imageId'') False),
         ([''AttachVolume''],
          [ec2_part api md Ec2InstanceSchema (''instance/'' @ get_str api detail ''requestParameters.instanceId'') False,
           ec2_part api md Ec2VolumeSchema (''volume/'' @ get_str api detail ''requestParameters.volumeId'') False]),
         ([''ModifyInstanceCreditSpecification''],
          ec2_instances api detail md ''responseElements.ModifyInstanceCreditSpecificationResponse.items'' False),
         ([''DeleteSecurityGroup''], ec2_one api md Ec2SecurityGroupSchema (''security-group/'' @ get_str api detail ''requestParameters.groupId'') True),
         ([''DeleteNetworkAcl''], ec2_one api md Ec2NetworkAclSchema (''network-acl/'' @ get_str api detail ''requestParameters.networkAclId'') True),
         ([''DeleteVolume''], ec2_one api md Ec2VolumeSchema (''volume/'' @ get_str api detail ''requestParameters.volumeId'') True),
         ([''TerminateInstances''], ec2_instances api detail md ''requestParameters.instancesSet.items'' True),
         ([''CreateFlowLogs''],
          ec2_one api md Ec2VpcSchema (''vpc/'' @ get_str api detail ''requestParameters.CreateFlowLogsRequest.ResourceId.content'') False),
         ([''CreateNetworkAcl''],
          [ec2_part api md Ec2VpcSchema (''vpc/'' @ get_str api detail ''responseElements.networkAcl.vpcId'') False,
           ec2_part api md Ec2NetworkAclSchema (''network-acl/'' @ get_str api detail ''responseElements.networkAcl.networkAclId'') False]),
         ([''AssociateIamInstanceProfile''],
          ec2_one api md Ec2InstanceSchema (''instance/'' @ get_str api detail ''requestParameters.AssociateIamInstanceProfileRequest.InstanceId'') False),
         ([''AcceptVpcPeeringConnection''],
          [peering_change api (gj_Get api detail ''responseElements.vpcPeeringConnection.requesterVpcInfo''),
           peering_change api (gj_Get api detail ''responseElements.vpcPeeringConnection.accepterVpcInfo'')])]"

definition ec2_cases_2 :: "'j ct_api \<Rightarrow> 'j \<Rightarrow> CloudTrailMetadata \<Rightarrow> (string list \<times> resourceChange list) list" where
  "ec2_cases_2 api detail md =
        [([''AssociateVpcCidrBlock''],
          ec2_one api md Ec2VpcSchema (''vpc/'' @ get_str api detail ''requestParameters.AssociateVpcCidrBlockRequest.VpcId'') False),
         ([''DisassociateVpcCidrBlock''],
          ec2_one api md Ec2VpcSchema (''vpc/'' @ get_str api detail ''responseElements.DisassociateVpcCidrBlockResponse.vpcId'') False),
         ([''CreateSecurityGroup''],
          [ec2_part api md Ec2VpcSchema (''vpc/'' @ get_str api detail ''requestParameters.vpcId'') False,
           ec2_part api md Ec2SecurityGroupSchema (''security-group/'' @ get_str api detail ''responseElements.groupId'') False]),
         ([''CreateTags'', ''DeleteTags''],
          List.map_filter (\<lambda>resource. map_option (\<lambda>(ty, r). ec2_part api md ty r False)
              (tagged_resource (get_str api resource ''resourceId'')))
            (get_array api detail ''requestParameters.resourcesSet.items'')),
         ([''CreateVolume''], ec2_one api md Ec2VolumeSchema (''volume/'' @ get_str api detail ''responseElements.volumeId'') False),
         ([''CreateVpc''],
          [resource_change (get_str api detail ''responseElements.vpc.ownerId'') (md_eventName md)
             (arn_String api (aws_arn ''ec2'' (md_region md) (get_str api detail ''responseElements.vpc.ownerId'')
                (''vpc/'' @ get_str api detail ''responseElements.vpc.vpcId''))) Ec2VpcSchema False]),
         ([''CreateDefaultSubnet''], ec2_one api md Ec2VpcSchema (''vpc/'' @ get_str api detail ''responseElements.subnet.vpcId'') False),
         ([''CreateDefaultVpc''], ec2_one api md Ec2VpcSchema (''vpc/'' @ get_str api detail ''responseElements.vpc.vpcId'') False),
         ([''DetachVolume''],
          [ec2_part api md Ec2InstanceSchema (''instance/'' @ get_str api detail ''requestParameters.instanceId'') False,
           ec2_part api md Ec2VolumeSchema (''volume/'' @ get_str api detail ''requestParameters.volumeId'') False]),
         ([''ImportImage''], ec2_one api md Ec2AmiSchema (''image/'' @ get_str api detail ''responseElements.imageId'') False),
         ([''ImportInstance''], ec2_one api md Ec2InstanceSchema (''instance/'' @ get_str api detail ''responseElements.conversionTask.instanceId'') False),
         ([''ImportVolume''], ec2_one api md Ec2VolumeSchema (''volume/'' @ get_str api detail ''responseElements.conversionTask.volume.id'') False),
         ([''MonitorInstances'', ''UnmonitorInstances'', ''StartInstances'', ''StopInstances''],
          ec2_instances api detail md ''requestParameters.instancesSet.items'' False),
         ([''RunInstances'', ''RunScheduledInstances''],
          map (\<lambda>i. resource_change (get_str api detail ''responseElements.ownerId'') (md_eventName md)
                (strings_Join '':'' [''arn:aws:ec2'', md_region md, get_str api detail ''responseElements.ownerId'',
                   ''instance/'' @ get_str api i ''instanceId'']) Ec2InstanceSchema False)
            (get_array api detail ''responseElements.instancesSet.items''))]"

definition ec2_cases_3 :: "'j ct_api \<Rightarrow> 'j \<Rightarrow> CloudTrailMetadata \<Rightarrow> (string list \<times> resourceChange list) list" where
  "ec2_cases_3 api detail md =
        [([''UpdateSecurityGroupRuleDescriptionsEgress'', ''UpdateSecurityGroupRuleDescriptionsIngress''],
          if get_str api detail ''requestParameters.groupId'' \<noteq> []
          then ec2_one api md Ec2SecurityGroupSchema (''security-group/'' @ get_str api detail ''requestParameters.groupId'') False
          else ec2_scan md (md_region md) Ec2SecurityGroupSchema),
         ([''DisassociateRouteTable'', ''AssociateRouteTable'', ''DeleteRouteTable'', ''ReplaceRoute'', ''CreateRoute'', ''DeleteRoute'',
           ''AssociateSubnetCidrBlock'', ''DeleteSubnet'', ''DisassociateSubnetCidrBlock'', ''ModifySubnetAttribute'',
           ''ModifyVpcPeeringConnectionOptions'', ''DeleteFlowLogs'', ''CreateNetworkInterface'', ''ReplaceRouteTableAssociation''],
          ec2_scan md (md_region md) Ec2VpcSchema),
         ([''DeleteSnapshot'', ''ModifySnapshotAttribute''], ec2_scan md (md_region md) Ec2VolumeSchema),
         ([''DetachNetworkInterface''], ec2_scan md (md_region md) Ec2InstanceSchema),
         ([''ReplaceIamInstanceProfileAssociation''],
          ec2_one api md Ec2InstanceSchema (''instance/'' @ get_str api detail ''responseElements.iamInstanceProfileAssociation.instanceId'') False),
         ([''DisassociateAddress''],
          if get_str api detail ''requestParameters.associationId'' \<noteq> [] then ec2_scan md (md_region md) Ec2VpcSchema else []),
         ([''DeleteVpcPeeringConnection''], ec2_scan md [] Ec2VpcSchema)]"

definition classifyEC2 :: "'j ct_api \<Rightarrow> 'j \<Rightarrow> CloudTrailMetadata \<Rightarrow> resourceChange list" where
  "classifyEC2 api detail md =
     switch (md_eventName md) (ec2_cases_1 api detail md @ ec2_cases_2 api detail md @ ec2_cases_3 api detail md)
       (case ec2_guess api detail of None \<Rightarrow> [] | Some (ty, r) \<Rightarrow> ec2_one api md ty r False)"

section \<open>IAM\<close>

definition rootUserName :: string where
  "rootUserName = ''AWS ROOT USER''"

text \<open>The resource part and the type for a user name.\<close>

definition iam_user :: "string \<Rightarrow> string \<times> string" where
  "iam_user userName =
     (if userName = rootUserName then (''root'', IAMRootUserSchema) else (''user/'' @ userName, IAMUserSchema))"

definition iam_cases_1 :: "'j ct_api \<Rightarrow> 'j \<Rightarrow> CloudTrailMetadata \<Rightarrow> (string list \<times> resourceChange list) list" where
  "iam_cases_1 api detail md =
     (let e = md_eventName md; account = md_accountID md; get = get_str api detail;
          base = aws_arn ''iam'' [] account;
          changes = (\<lambda>a ty del. [resource_change (arn_AccountID a) e (arn_String api a) ty del]);
          parsed = (\<lambda>path ty del. case arn_Parse api (get path) of Inl _ \<Rightarrow> [] | Inr a \<Rightarrow> changes a ty del);
          part = (\<lambda>r ty. resource_change account e (arn_String api (base []) @ r) ty False);
          policy = resource_change account e (get ''requestParameters.policyArn'') IAMPolicySchema False
      in
        [([''AddRoleToInstanceProfile'', ''DeleteRolePermissionsBoundary'', ''DeleteRolePolicy''],
          changes (base (''role/'' @ get ''requestParameters.roleName'')) IAMRoleSchema False),
         ([''AddUserToGroup'', ''RemoveUserFromGroup''],
          [part (''group/'' @ get ''requestParameters.groupName'') IAMGroupSchema,
           (case iam_user (get ''requestParameters.userName'') of (r, ty) \<Rightarrow> part r ty)]),
         ([''AttachGroupPolicy'', ''DetachGroupPolicy''],
          [policy, part (''group/'' @ get ''requestParameters.groupName'') IAMGroupSchema]),
         ([''AttachRolePolicy'', ''DetachRolePolicy''],
          [policy, part (''role/'' @ get ''requestParameters.roleName'') IAMRoleSchema]),
         ([''AttachUserPolicy'', ''DetachUserPolicy''],
          [policy, (case iam_user (get ''requestParameters.userName'') of (r, ty) \<Rightarrow> part r ty)]),
         ([''CreateAccessKey'', ''CreateLoginProfile'', ''CreateServiceSpecificCredential'', ''CreateUser'', ''DeactivateMFADevice'',
           ''DeleteLoginProfile'', ''DeleteSSHPublicKey'', ''DeleteServiceSpecificCredential'', ''DeleteSigningCertificate'',
           ''DeleteUserPermissionsBoundary'', ''DeleteUserPolicy'', ''EnableMFADevice'', ''PutUserPermissionsBoundary'',
           ''PutUserPolicy'', ''TagUser'', ''UntagUser'', ''UpdateAccessKey'', ''UpdateLoginProfile'', ''UpdateSSHPublicKey'',
           ''UpdateServiceSpecificCredential'', ''UpdateSigningCertificate'', ''UploadSSHPublicKey'', ''UploadSigningCertificate'',
           ''DeleteAccessKey''],
          let userName = get ''requestParameters.userName''
          in if userName \<noteq> [] then (case iam_user userName of (r, ty) \<Rightarrow> changes (base r) ty False)
             else (case arn_Parse api (get ''userIdentity.arn'') of
                     Inl _ \<Rightarrow> []
                   | Inr a \<Rightarrow> changes a (if arn_Resource a = ''root'' then IAMRootUserSchema else IAMUserSchema) False))])"

definition iam_cases_2 :: "'j ct_api \<Rightarrow> 'j \<Rightarrow> CloudTrailMetadata \<Rightarrow> (string list \<times> resourceChange list) list" where
  "iam_cases_2 api detail md =
     (let e = md_eventName md; account = md_accountID md; get = get_str api detail;
          base = aws_arn ''iam'' [] account;
          changes = (\<lambda>a ty del. [resource_change (arn_AccountID a) e (arn_String api a) ty del]);
          parsed = (\<lambda>path ty del. case arn_Parse api (get path) of Inl _ \<Rightarrow> [] | Inr a \<Rightarrow> changes a ty del);
          part = (\<lambda>r ty. resource_change account e (arn_String api (base []) @ r) ty False);
          policy = resource_change account e (get ''requestParameters.policyArn'') IAMPolicySchema False
      in
        [([''CreateGroup''], parsed ''responseElements.group.arn'' IAMGroupSchema False),
         ([''CreatePolicy''], parsed ''responseElements.policy.arn'' IAMPolicySchema False),
         ([''CreatePolicyVersion'', ''DeletePolicyVersion'', ''SetDefaultPolicyVersion''],
          parsed ''requestParameters.policyArn'' IAMPolicySchema False),
         ([''CreateRole'', ''CreateServiceLinkedRole''], parsed ''responseElements.role.arn'' IAMRoleSchema False),
         ([''DeleteAccountPasswordPolicy'', ''UpdateAccountPasswordPolicy''],
          [resource_change account e (account @ ''::'' @ PasswordPolicySchema) PasswordPolicySchema False]),
         ([''DeleteGroup''], changes (base (''group/'' @ get ''requestParameters.groupName'')) IAMGroupSchema True),
         ([''DeleteGroupPolicy'', ''PutGroupPolicy''],
          changes (base (''group/'' @ get ''requestParameters.groupName'')) IAMGroupSchema False),
         ([''DeletePolicy''], parsed ''requestParameters.policyArn'' IAMPolicySchema True),
         ([''DeleteRole'', ''DeleteServiceLinkedRole''],
          changes (base (''role/'' @ get ''requestParameters.roleName'')) IAMRoleSchema True),
         ([''DeleteUser''], changes (base (''user/'' @ get ''requestParameters.userName'')) IAMUserSchema True),
         ([''PutRolePermissionsBoundary'', ''PutRolePolicy'', ''RemoveRoleFromInstanceProfile'', ''TagRole'', ''UntagRole'',
           ''UpdateAssumeRolePolicy'', ''UpdateRole'', ''UpdateRoleDescription''],
          changes (base (''role/'' @ get ''requestParameters.roleName'')) IAMRoleSchema False),
         ([''UpdateGroup''],
          let newName = get ''requestParameters.newGroupName''
          in changes (base (''group/'' @ (if newName \<noteq> [] then newName else get ''requestParameters.groupName''))) IAMGroupSchema False),
         ([''UpdateUser''],
          let newName = get ''requestParameters.newUserName''
          in if newName \<noteq> [] then changes (base (''user/'' @ newName)) IAMUserSchema False
             else (case iam_user (get ''requestParameters.userName'') of (r, ty) \<Rightarrow> changes (base r) ty False))])"

definition classifyIAM :: "'j ct_api \<Rightarrow> 'j \<Rightarrow> CloudTrailMetadata \<Rightarrow> resourceChange list" where
  "classifyIAM api detail md = switch (md_eventName md) (iam_cases_1 api detail md @ iam_cases_2 api detail md) []"

section \<open>Well-formedness\<close>

lemma tagged_resource_type: "tagged_resource rid = Some (ty, r) \<Longrightarrow> ty \<in> set resource_types"
  by (auto simp: tagged_resource_def split: if_splits)

lemma ec2_guess_type: "ec2_guess api detail = Some (ty, r) \<Longrightarrow> ty \<in> set resource_types"
  by (auto simp: ec2_guess_def split: if_splits)

lemma iam_user_type: "iam_user name = (r, ty) \<Longrightarrow> ty \<in> set resource_types"
  by (auto simp: iam_user_def split: if_splits)

lemma map_filter_all:
  "(\<And>x y. f x = Some y \<Longrightarrow> P y) \<Longrightarrow> list_all P (List.map_filter f xs)"
  by (auto simp: list_all_iff List.map_filter_def)

lemma switch_case_rule:
  assumes "list_all (\<lambda>(names, a). e \<in> set names \<longrightarrow> P a) cases" "P d"
  shows "P (switch e cases d)"
  using assms by (induction e cases d rule: switch.induct) auto

lemma ec2_forms_ok [simp]:
  "list_all (change_ok md) (ec2_one api md ty r del) \<longleftrightarrow> ty \<in> set resource_types"
  "change_ok md (ec2_part api md ty r del) \<longleftrightarrow> ty \<in> set resource_types"
  "list_all (change_ok md) (ec2_instances api detail md path del)"
  "list_all (change_ok md) (ec2_scan md region ty) \<longleftrightarrow> ty \<in> set resource_types"
  by (simp_all add: ec2_one_def ec2_part_def ec2_instances_def ec2_scan_def list_all_iff)

lemma tag_changes_ok:
  "list_all (change_ok md) (List.map_filter (\<lambda>resource. map_option (\<lambda>(ty, r). ec2_part api md ty r False)
      (tagged_resource (g resource))) rs)"
  by (rule map_filter_all) (auto dest: tagged_resource_type)

lemma ec2_cases_ok:
  "list_all (\<lambda>(names, cs). md_eventName md \<in> set names \<longrightarrow> list_all (change_ok md) cs) (ec2_cases_1 api detail md)"
  "list_all (\<lambda>(names, cs). list_all (change_ok md) cs) (ec2_cases_2 api detail md)"
  "list_all (\<lambda>(names, cs). list_all (change_ok md) cs) (ec2_cases_3 api detail md)"
  by (simp_all add: ec2_cases_1_def ec2_cases_2_def ec2_cases_3_def tag_changes_ok peering_change_def
      list.pred_map list.pred_True o_def)

lemma classifyEC2_ok: "list_all (change_ok md) (classifyEC2 api detail md)"
  unfolding classifyEC2_def
proof (rule switch_case_rule, goal_cases)
  case 1
  show ?case using ec2_cases_ok [of md api detail] by (auto simp: list_all_iff)
next
  case 2
  show ?case by (auto split: option.splits dest: ec2_guess_type)
qed

lemma iam_cases_ok:
  "list_all (\<lambda>(names, cs). list_all (change_ok md) cs) (iam_cases_1 api detail md)"
  "list_all (\<lambda>(names, cs). list_all (change_ok md) cs) (iam_cases_2 api detail md)"
  unfolding iam_cases_1_def iam_cases_2_def Let_def
  by (auto split: sum.splits prod.splits dest: iam_user_type)

lemma classifyIAM_ok: "list_all (change_ok md) (classifyIAM api detail md)"
  unfolding classifyIAM_def
  by (rule switch_rule [where P = "list_all (change_ok md)"]) (simp_all add: iam_cases_ok)

end
