(* ===== verification/Event_Processor.thy ===== *)
theory Event_Processor
  imports Cloudtrail_EC2_IAM Log_Processor Awsbatch_SQS "HOL-Library.List_Lexorder" "HOL-Library.Char_ord" "HOL-Library.Sublist"
begin

text \<open>
  \<open>compliance/aws_event_processor/processor\<close>: which CloudTrail events matter (\<open>process.go\<close>), the cache of
  accounts and of accounts seen through CloudWatch Events (\<open>accounts.go\<close>), confirming SNS subscriptions
  (\<open>sns_confirmation.go\<close>), and the Lambda's handler that reads a batch, keeps the newest change of each
  resource and submits deletions and scans (\<open>handler.go\<close>).

  The package variables are the record \<open>ep_state\<close>. It also keeps what the program does to the outside: the
  changes logged as required scans, the deletion requests, the runs of \<open>SendMessageBatch\<close> and the confirmed
  topics. Clocks are read through \<open>ep_ticks\<close>: the n-th reading is \<open>ev_now env n\<close>, in nanoseconds. Services and
  libraries are the fields of \<open>ev_env\<close>; \<open>ev_range\<close> and \<open>ev_range_delays\<close> are the orders in which Go visits the two
  maps of \<open>submitChanges\<close>. \<open>None\<close> is a panic.
\<close>

record SourceIntegration =
  si_AWSAccountID :: string
  si_IntegrationID :: string

record ScanEntry =
  se_AWSAccountID :: string
  se_IntegrationID :: string
  se_Region :: "string option"
  se_ResourceID :: "string option"
  se_ResourceType :: string
  se_ScanAllResources :: bool

record ep_state =
  ep_accounts :: "(string, SourceIntegration) amap"
  ep_accountsLastUpdated :: int
  ep_cweAccounts :: "(string, int) amap"
  ep_ticks :: nat
  ep_log :: "resourceChange list"
  ep_deletes :: "string list list"
  ep_queued :: "(sqs_result \<times> sendMessageBatchRequest) list"
  ep_confirmed :: "string list"

type_synonym change_map = "(string, resourceChange) amap"

record 'j ev_env =
  ev_api :: "'j ct_api"
  ev_GetJSON :: "string \<Rightarrow> string \<Rightarrow> 'j"                          \<comment> \<open>\<open>gjson.Get(json, path)\<close>\<close>
  ev_now :: "nat \<Rightarrow> int"
  ev_ListIntegrations :: "error + SourceIntegration list"
  ev_UnmarshalNotification :: "string \<Rightarrow> error + (string \<times> string) list"  \<comment> \<open>bucket and key of each record\<close>
  ev_GetObject :: "string \<Rightarrow> string \<Rightarrow> error + string"
  ev_gunzip :: "string \<Rightarrow> error + DataStream"
  ev_snsClient :: "string \<Rightarrow> error option"
  ev_ConfirmSubscription :: "string \<Rightarrow> string \<Rightarrow> error option"
  ev_range :: "change_map \<Rightarrow> change_map"
  ev_range_delays :: "(int, ScanEntry list) amap \<Rightarrow> (int, ScanEntry list) amap"
  ev_DeleteResources :: "string list \<Rightarrow> error option"
  ev_MarshalScan :: "ScanEntry list \<Rightarrow> error + string"
  ev_backoff :: "sendMessageBatchRequest retry"
  ev_sqs :: sqs_client

section \<open>process.go\<close>

definition classifiers :: "'j ct_api \<Rightarrow> (string, 'j \<Rightarrow> CloudTrailMetadata \<Rightarrow> resourceChange list option) amap" where
  "classifiers api =
     [(''acm.amazonaws.com'', \<lambda>d md. Some (classifyACM api d md)),
      (''cloudformation.amazonaws.com'', \<lambda>d md. Some (classifyCloudFormation api d md)),
      (''cloudtrail.amazonaws.com'', \<lambda>d md. Some (classifyCloudTrail api d md)),
      (''config.amazonaws.com'', \<lambda>d md. Some (classifyConfig d md)),
      (''dynamodb.amazonaws.com'', \<lambda>d md. Some (classifyDynamoDB api d md)),
      (''ec2.amazonaws.com'', \<lambda>d md. Some (classifyEC2 api d md)),
      (''ecs.amazonaws.com'', \<lambda>d md. Some (classifyECS api d md)),
      (''elasticloadbalancing.amazonaws.com'', \<lambda>d md. classifyELBV2 api d md),
      (''guardduty.amazonaws.com'', \<lambda>d md. Some (classifyGuardDuty d md)),
      (''iam.amazonaws.com'', \<lambda>d md. Some (classifyIAM api d md)),
      (''kms.amazonaws.com'', \<lambda>d md. Some (classifyKMS api d md)),
      (''lambda.amazonaws.com'', \<lambda>d md. classifyLambda api d md),
      (''logs.amazonaws.com'', \<lambda>d md. Some (classifyCloudWatchLogGroup api d md)),
      (''rds.amazonaws.com'', \<lambda>d md. Some (classifyRDS api d md)),
      (''redshift.amazonaws.com'', \<lambda>d md. Some (classifyRedshift api d md)),
      (''s3.amazonaws.com'', \<lambda>d md. Some (classifyS3 api d md)),
      (''waf.amazonaws.com'', \<lambda>d md. Some (classifyWAF api d md)),
      (''waf-regional.amazonaws.com'', \<lambda>d md. Some (classifyWAFRegional api d md))]"

definition ignoredEvents :: "string list" where
  "ignoredEvents =
     [''ExportCertificate'', ''ResendValidationEmail'', ''StartSchemaCreation'', ''DeleteChangeSet'',
      ''DetectStackDrift'', ''DetectStackResourceDrift'', ''DetectStackSetDrift'', ''CreateStackSet'',
      ''EstimateTemplateCost'', ''ValidateTemplate'', ''LookupEvents'', ''CancelExportTask'', ''CreateExportTask'',
      ''PutDestination'', ''PutDestinationPolicy'', ''PutLogEvents'', ''PutResourcePolicy'', ''StartQuery'',
      ''StopQuery'', ''TestMetricFilter'', ''CreateLogStream'', ''FilterLogEvents'', ''ConfirmForgotPassword'',
      ''ConfirmDevice'', ''ForgotPassword'', ''UpdateUserAttributes'', ''BatchGetResourceConfig'',
      ''SelectResourceConfig'', ''PutAggregationAuthorization'', ''PutConfigurationAggregator'',
      ''PutDeliveryChannel'', ''PutEvaluations'', ''PutRemediationConfigurations'', ''PutRetentionConfiguration'',
      ''StartRemediationExecution'', ''TagResource'', ''UntagResource'', ''DeleteDeliveryChannel'',
      ''DeleteEvaluationResults'', ''DeletePendingAggregationRequest'', ''DeleteRemediationConfiguration'',
      ''DeleteRetentionConfiguration'', ''DeliverConfigSnapshot'', ''DeleteAggregationAuthorization'',
      ''DeleteConfigRule'', ''DeleteConfigurationAggregator'', ''PutConfigRule'', ''BatchGetItem'',
      ''ConditionCheckItem'', ''DeleteBackup'', ''DeleteItem'', ''PutItem'', ''Query'', ''Scan'', ''UpdateItem'',
      ''BatchWriteItem'', ''DeleteNetworkInterface'', ''CreateInternetGateway'', ''DeleteInternetGateway'',
      ''DeleteAccountSetting'', ''DeregisterTaskDefinition'', ''PutAccountSetting'', ''PutAccountSettingDefault'',
      ''RegisterTaskDefinition'', ''UpdateContainerAgent'', ''DeleteTargetGroup'', ''CreateTargetGroup'',
      ''ModifyTargetGroup'', ''ModifyTargetGroupAttributes'', ''RegisterTargets'', ''DeregisterTargets'',
      ''ArchiveFindings'', ''CreateIPSet'', ''CreatePublishingDestination'', ''CreateSampleFindings'',
      ''CreateThreatIntelSet'', ''DeclineInvitations'', ''DeleteFilter'', ''DeleteIPSet'', ''DeleteInvitations'',
      ''DeleteThreatIntelSet'', ''InviteMembers'', ''UnarchiveFindings'', ''UpdateFilter'',
      ''UpdateFindingsFeedback'', ''UpdateIPSet'', ''UpdateThreatIntelSet'', ''CreateFilter'', ''ChangePassword'',
      ''ResetServiceSpecificCredential'', ''GenerateCredentialReport'', ''CreateVirtualMFADevice'',
      ''DeleteVirtualMFADevice'', ''CreateInstanceProfile'', ''CreateGrant'', ''Decrypt'', ''Encrypt'',
      ''GenerateDataKey'', ''GenerateDataKeyWithoutPlaintext'', ''ReEncrypt'', ''RetireGrant'',
      ''AddLayerVersionPermission'', ''InvokeAsync'', ''InvokeFunction'', ''CreateDBClusterEndpoint'',
      ''DeleteDBClusterEndpoint'', ''CreateDBSecurityGroup'', ''DeleteDBSecurityGroup'',
      ''AuthorizeDBSecurityGroupIngress'', ''DeleteDBSubnetGroup'', ''DownloadDBLogFilePortion'',
      ''ModifyCurrentDBClusterCapacity'', ''ModifyDBClusterEndpoint'', ''ModifyDBClusterSnapshotAttribute'',
      ''RestoreDBClusterFromS3'', ''RestoreDBClusterFromSnapshot'', ''RestoreDBClusterToPointInTime'',
      ''RevokeDBSecurityGroupIngress'', ''StartActivityStream'', ''StopActivityStream'',
      ''AcceptReservedNodeExchange'', ''CreateClusterSecurityGroup'', ''CreateHsmClientCertificate'',
      ''CreateHsmConfiguration'', ''DeleteClusterParameterGroup'', ''DeleteClusterSecurityGroup'',
      ''DeleteClusterSubnetGroup'', ''DeleteEventSubscription'', ''DeleteHsmClientCertificate'',
      ''DeleteHsmConfiguration'', ''DeleteSnapshotCopyGrant'', ''DeleteSnapshotSchedule'',
      ''ModifyClusterParameterGroup'', ''ModifyClusterSubnetGroup'', ''ResetClusterParameterGroup'',
      ''RevokeClusterSecurityGroupIngress'', ''CreateClusterParameterGroup'', ''UploadPart'',
      ''CreateMultipartUpload'', ''CompleteMultipartUpload'', ''HeadBucket'', ''PutObject'',
      ''DeletePermissionPolicy'', ''PutPermissionPolicy'', ''SetUserMFAPreference'', ''InitiateAuth'',
      ''RespondToAuthChallenge'', ''AssumeRole'']"

definition ignoredPrefixes :: "string list" where
  "ignoredPrefixes = [''Get'', ''Describe'', ''List'']"

definition hasIgnoredPrefix :: "string \<Rightarrow> bool" where
  "hasIgnoredPrefix eventName \<longleftrightarrow> (\<exists>prefix \<in> set ignoredPrefixes. HasPrefix eventName prefix)"

definition isIgnoredEvent :: "string \<Rightarrow> bool" where
  "isIgnoredEvent eventName \<longleftrightarrow> eventName \<in> set ignoredEvents \<or> hasIgnoredPrefix eventName"

text \<open>\<open>Inl\<close> is the error, \<open>Inr None\<close> the result \<open>nil, nil\<close> for an ignored event.\<close>

definition preprocessCloudTrailLog :: "'j ct_api \<Rightarrow> 'j \<Rightarrow> error + CloudTrailMetadata option" where
  "preprocessCloudTrailLog api detail =
     (let eventName = gj_Get api detail ''eventName'';
          eventSource = gj_Get api detail ''eventSource'';
          accountID = gj_Get api detail ''userIdentity.accountId'';
          region = gj_Get api detail ''awsRegion''
      in if \<not> gj_Exists api eventName
         then Inl (''unable to extract CloudTrail eventName field for eventSource '' @ [CHR 0x27] @
                   get_str api detail ''evenSource'' @ [CHR 0x27])
         else if isIgnoredEvent (gj_Str api eventName) then Inr None
         else if \<not> gj_Exists api eventSource
         then Inl (''unable to extract CloudTrail eventSource field for eventName '' @ gj_Str api eventName)
         else if \<not> gj_Exists api accountID
         then Inl (''unable to extract CloudTrail accountId field for '' @ gj_Str api eventSource @ '' event '' @ gj_Str api eventName)
         else if \<not> gj_Exists api region
         then Inl (''unable to extract CloudTrail awsRegion field for '' @ gj_Str api eventSource @ '' event '' @
                   gj_Str api eventName @ '' from account '' @ gj_Str api accountID)
         else Inr (Some \<lparr>md_region = gj_Str api region, md_accountID = gj_Str api accountID,
                         md_eventSource = gj_Str api eventSource, md_eventName = gj_Str api eventName\<rparr>))"

definition change_key :: "resourceChange \<Rightarrow> string" where
  "change_key c = rc_ResourceID c @ rc_ResourceType c @ rc_Region c"

text \<open>One round of the loop over the new changes: the newest change of a key stays.\<close>

definition add_change :: "change_map \<Rightarrow> resourceChange \<Rightarrow> change_map" where
  "add_change changes change =
     (case map_of changes (change_key change) of
        None \<Rightarrow> amap_put (change_key change) change changes
      | Some entry \<Rightarrow> (if rc_EventTime change > rc_EventTime entry then amap_put (change_key change) change changes else changes))"

definition stamp :: "'j ct_api \<Rightarrow> 'j \<Rightarrow> SourceIntegration \<Rightarrow> resourceChange \<Rightarrow> resourceChange" where
  "stamp api detail integration c =
     c\<lparr>rc_EventTime := get_str api detail ''eventTime'', rc_IntegrationID := si_IntegrationID integration\<rparr>"

text \<open>The error result is always nil and left out.\<close>

definition processCloudTrailLog :: "'j ct_api \<Rightarrow> 'j \<Rightarrow> CloudTrailMetadata \<Rightarrow> ep_state \<Rightarrow> change_map
    \<Rightarrow> (ep_state \<times> change_map) option" where
  "processCloudTrailLog api detail md s changes =
     (case map_of (ep_accounts s) (md_accountID md) of
        None \<Rightarrow> Some (s, changes)
      | Some integration \<Rightarrow>
          (case map_of (classifiers api) (md_eventSource md) of
             None \<Rightarrow> Some (s, changes)
           | Some classifier \<Rightarrow>
               (if get_str api detail ''errorCode'' \<noteq> [] then Some (s, changes)
                else (case classifier detail md of
                        None \<Rightarrow> None
                      | Some newChanges \<Rightarrow>
                          (let stamped = map (stamp api detail integration) newChanges
                           in Some (s\<lparr>ep_log := ep_log s @ stamped\<rparr>, foldl add_change changes stamped))))))"

section \<open>accounts.go\<close>

definition cweAccountTimeout :: int where "cweAccountTimeout = 15 * Minute"
definition refreshInterval :: int where "refreshInterval = 2 * Minute"

text \<open>\<open>time.Now\<close>\<close>

definition tick :: "'j ev_env \<Rightarrow> ep_state \<Rightarrow> int \<times> ep_state" where
  "tick env s = (ev_now env (ep_ticks s), s\<lparr>ep_ticks := Suc (ep_ticks s)\<rparr>)"

definition checkCWECache :: "'j ev_env \<Rightarrow> string \<Rightarrow> ep_state \<Rightarrow> bool \<times> ep_state" where
  "checkCWECache env key s =
     (case map_of (ep_cweAccounts s) key of
        None \<Rightarrow> (False, s)
      | Some timestamp \<Rightarrow>
          (case tick env s of (t, s1) \<Rightarrow>
             (if time_Sub t timestamp > cweAccountTimeout
              then (False, s1\<lparr>ep_cweAccounts := amap_del key (ep_cweAccounts s1)\<rparr>) else (True, s1))))"

definition populate_accounts :: "'j ev_env \<Rightarrow> ep_state \<Rightarrow> error option \<times> ep_state" where
  "populate_accounts env s =
     (case ev_ListIntegrations env of
        Inl err \<Rightarrow> (Some err, s)
      | Inr output \<Rightarrow>
          (case tick env (s\<lparr>ep_accounts := foldl (\<lambda>m i. amap_put (si_AWSAccountID i) i m) (ep_accounts s) output\<rparr>) of
             (t, s1) \<Rightarrow> (None, s1\<lparr>ep_accountsLastUpdated := t\<rparr>)))"

definition refreshAccounts :: "'j ev_env \<Rightarrow> ep_state \<Rightarrow> error option \<times> ep_state" where
  "refreshAccounts env s =
     (if ep_accounts s \<noteq> []
      then (case tick env s of (t, s1) \<Rightarrow>
              (if ep_accountsLastUpdated s + refreshInterval > t then (None, s1) else populate_accounts env s1))
      else populate_accounts env s)"

section \<open>sns_confirmation.go\<close>

definition handleSnsConfirmation :: "'j ev_env \<Rightarrow> ARN \<Rightarrow> string \<Rightarrow> ep_state \<Rightarrow> error option \<times> ep_state" where
  "handleSnsConfirmation env topicArn token s =
     (let topic = arn_String (ev_api env) topicArn
      in if map_of (ep_accounts s) (arn_AccountID topicArn) = None then (None, s)
         else if token = [] then (None, s)
         else (case ev_snsClient env (arn_Region topicArn) of
                 Some err \<Rightarrow> (Some err, s)
               | None \<Rightarrow>
                   (case ev_ConfirmSubscription env token topic of
                      Some err \<Rightarrow> (Some err, s)
                    | None \<Rightarrow> (None, s\<lparr>ep_confirmed := ep_confirmed s @ [topic]\<rparr>))))"

section \<open>handler.go\<close>

definition generateSourceKey :: "CloudTrailMetadata \<Rightarrow> string" where
  "generateSourceKey md = md_accountID md @ ''/'' @ md_region md"

definition handleCloudTrail :: "'j ev_env \<Rightarrow> 'j \<Rightarrow> ep_state \<Rightarrow> change_map \<Rightarrow> (error option \<times> ep_state \<times> change_map) option" where
  "handleCloudTrail env cloudtrail s changes =
     (case preprocessCloudTrailLog (ev_api env) cloudtrail of
        Inl err \<Rightarrow> Some (Some err, s, changes)
      | Inr None \<Rightarrow> Some (None, s, changes)
      | Inr (Some md) \<Rightarrow>
          (case tick env s of (t, s1) \<Rightarrow>
             map_option (Pair None) (processCloudTrailLog (ev_api env) cloudtrail md
               (s1\<lparr>ep_cweAccounts := amap_put (generateSourceKey md) t (ep_cweAccounts s1)\<rparr>) changes)))"

text \<open>The body of the loop over the lines of an object; an error ends it.\<close>

definition s3_line :: "'j ev_env \<Rightarrow> string \<Rightarrow> ep_state \<Rightarrow> change_map \<Rightarrow> (error option \<times> ep_state \<times> change_map) option" where
  "s3_line env line s changes =
     (let detail = gj_Parse (ev_api env) line
      in case preprocessCloudTrailLog (ev_api env) detail of
           Inl err \<Rightarrow> Some (Some err, s, changes)
         | Inr None \<Rightarrow> Some (None, s, changes)
         | Inr (Some md) \<Rightarrow>
             (case checkCWECache env (generateSourceKey md) s of
                (True, s1) \<Rightarrow> Some (None, s1, changes)
              | (False, s1) \<Rightarrow> map_option (Pair None) (processCloudTrailLog (ev_api env) detail md s1 changes)))"

text \<open>What is read after the last delimiter is dropped with the error that ends the stream.\<close>

function s3_loop :: "'j ev_env \<Rightarrow> string \<Rightarrow> error option \<Rightarrow> ep_state \<Rightarrow> change_map
    \<Rightarrow> (error option \<times> ep_state \<times> change_map) option" where
  "s3_loop env text read_error s changes =
     (case ReadString text of
        (line, None) \<Rightarrow> Some (map_option (\<lambda>e. Wrap e ''unexpected error reading line from s3'') read_error, s, changes)
      | (line, Some rest) \<Rightarrow>
          (case s3_line env line s changes of
             None \<Rightarrow> None
           | Some (Some err, s1, changes1) \<Rightarrow> Some (Some err, s1, changes1)
           | Some (None, s1, changes1) \<Rightarrow> s3_loop env rest read_error s1 changes1))"
  by pat_completeness auto
termination
  by (relation "measure (\<lambda>(_, text, _). length text)") (auto dest: ReadString_shorter [OF sym])

declare s3_loop.simps [simp del]

definition handleS3Download :: "'j ev_env \<Rightarrow> string \<times> string \<Rightarrow> ep_state \<Rightarrow> change_map
    \<Rightarrow> (error option \<times> ep_state \<times> change_map) option" where
  "handleS3Download env object s changes =
     (case object of (bucket, key) \<Rightarrow>
        (case ev_GetObject env bucket key of
           Inl err \<Rightarrow> Some (Some (Wrap err ''error reading CloudTrail from S3''), s, changes)
         | Inr body \<Rightarrow>
             (case ev_gunzip env body of
                Inl err \<Rightarrow> Some (Some (Wrap err ''error creating gzip reader for S3 output''), s, changes)
              | Inr stream \<Rightarrow> s3_loop env (ds_data stream) (ds_error stream) s changes)))"

fun download_all :: "'j ev_env \<Rightarrow> (string \<times> string) list \<Rightarrow> ep_state \<Rightarrow> change_map
    \<Rightarrow> (error option \<times> ep_state \<times> change_map) option" where
  "download_all env [] s changes = Some (None, s, changes)"
| "download_all env (object # objects) s changes =
     (case handleS3Download env object s changes of
        None \<Rightarrow> None
      | Some (Some err, s1, changes1) \<Rightarrow> Some (Some err, s1, changes1)
      | Some (None, s1, changes1) \<Rightarrow> download_all env objects s1 changes1)"

text \<open>The first component of a result is \<open>ok\<close> or the error.\<close>

definition handleLogProcessorCloudTrail :: "'j ev_env \<Rightarrow> string \<Rightarrow> ep_state \<Rightarrow> change_map
    \<Rightarrow> ((error + bool) \<times> ep_state \<times> change_map) option" where
  "handleLogProcessorCloudTrail env messageBody s changes =
     (case ev_UnmarshalNotification env messageBody of
        Inl err \<Rightarrow> Some (Inl (Wrap err ''failed to unmarshal record''), s, changes)
      | Inr records \<Rightarrow>
          (if records = [] then Some (Inr False, s, changes)
           else (case download_all env records s changes of
                   None \<Rightarrow> None
                 | Some (Some err, s1, changes1) \<Rightarrow> Some (Inl err, s1, changes1)
                 | Some (None, s1, changes1) \<Rightarrow> Some (Inr True, s1, changes1))))"

definition scan_entry :: "resourceChange \<Rightarrow> ScanEntry" where
  "scan_entry c =
     \<lparr>se_AWSAccountID = rc_AwsAccountID c, se_IntegrationID = rc_IntegrationID c,
      se_Region = (if rc_Region c \<noteq> [] then Some (rc_Region c) else None),
      se_ResourceID = (if rc_ResourceID c \<noteq> [] then Some (rc_ResourceID c) else None),
      se_ResourceType = rc_ResourceType c, se_ScanAllResources = False\<rparr>"

text \<open>The loop over the changes: the ids to delete, and the entries to scan by their delay.\<close>

fun split_change :: "string list \<times> (int, ScanEntry list) amap \<Rightarrow> resourceChange \<Rightarrow> string list \<times> (int, ScanEntry list) amap" where
  "split_change (dels, requestsByDelay) c =
     (if rc_Delete c then (dels @ [rc_ResourceID c], requestsByDelay)
      else (dels, amap_put (rc_Delay c)
              ((case map_of requestsByDelay (rc_Delay c) of None \<Rightarrow> [] | Some es \<Rightarrow> es) @ [scan_entry c]) requestsByDelay))"

fun delay_entries :: "'j ev_env \<Rightarrow> (int, ScanEntry list) amap \<Rightarrow> error + sqs_entry list" where
  "delay_entries env [] = Inr []"
| "delay_entries env ((delay, request) # requests) =
     (case ev_MarshalScan env request of
        Inl err \<Rightarrow> Inl (Wrap err ''resource queueing failed: json marshal'')
      | Inr body \<Rightarrow>
          (case delay_entries env requests of
             Inl err \<Rightarrow> Inl err
           | Inr entries \<Rightarrow> Inr (\<lparr>Id = Itoa delay, MessageBody = Some body, DelaySeconds = Some delay\<rparr> # entries)))"

definition queue_scans :: "'j ev_env \<Rightarrow> (int, ScanEntry list) amap \<Rightarrow> ep_state \<Rightarrow> (error option \<times> ep_state) option" where
  "queue_scans env requestsByDelay s =
     (if requestsByDelay = [] then Some (None, s)
      else (case delay_entries env (ev_range_delays env requestsByDelay) of
              Inl err \<Rightarrow> Some (Some err, s)
            | Inr entries \<Rightarrow>
                (let run = SendMessageBatch (ev_backoff env) (ev_sqs env) entries;
                     s1 = s\<lparr>ep_queued := ep_queued s @ [run]\<rparr>
                 in case fst run of
                      SqsPanic \<Rightarrow> None
                    | SqsReturned _ err \<Rightarrow> Some (map_option sqs_error_text err, s1))))"

definition submitChanges :: "'j ev_env \<Rightarrow> change_map \<Rightarrow> ep_state \<Rightarrow> (error option \<times> ep_state) option" where
  "submitChanges env changes s =
     (case foldl split_change ([], []) (map snd (ev_range env changes)) of
        (dels, requestsByDelay) \<Rightarrow>
          (if dels = [] then queue_scans env requestsByDelay s
           else (let s1 = s\<lparr>ep_deletes := ep_deletes s @ [dels]\<rparr>
                 in case ev_DeleteResources env dels of
                      Some err \<Rightarrow> Some (Some (Wrap err ''resource deletion failed''), s1)
                    | None \<Rightarrow> queue_scans env requestsByDelay s1)))"

record sqs_record =
  sr_id :: "string option option"   \<comment> \<open>the message attribute \<open>id\<close>: found, and its string value\<close>
  sr_Body :: string

text \<open>A record that is not from the log processor; the outer result is an error that ends the invocation.\<close>

definition other_record :: "'j ev_env \<Rightarrow> string \<Rightarrow> ep_state \<Rightarrow> change_map \<Rightarrow> (error option \<times> ep_state \<times> change_map) option" where
  "other_record env body s changes =
     (let detail = ev_GetJSON env body ''detail''; api = ev_api env; ty = gj_Str api (ev_GetJSON env body ''Type'')
      in if gj_Exists api detail then map_option (\<lambda>(err, r). (None, r)) (handleCloudTrail env detail s changes)
         else if ty = ''Notification''
         then (let detail2 = ev_GetJSON env (gj_Str api (ev_GetJSON env body ''Message'')) ''detail''
               in if \<not> gj_Exists api detail2 then Some (None, s, changes)
                  else map_option (\<lambda>(err, r). (None, r)) (handleCloudTrail env detail2 s changes))
         else if ty = ''SubscriptionConfirmation''
         then (let topicArn = arn_or_zero (arn_Parse api (gj_Str api (ev_GetJSON env body ''TopicArn'')));
                   token = gj_Str api (ev_GetJSON env body ''Token'')
               in case handleSnsConfirmation env topicArn token s of (err, s1) \<Rightarrow> Some (err, s1, changes))
         else Some (None, s, changes))"

definition handle_record :: "'j ev_env \<Rightarrow> sqs_record \<Rightarrow> ep_state \<Rightarrow> change_map \<Rightarrow> (error option \<times> ep_state \<times> change_map) option" where
  "handle_record env rec s changes =
     (if sr_id rec = Some (Some ''AWS.CloudTrail'')
      then (case handleLogProcessorCloudTrail env (sr_Body rec) s changes of
              None \<Rightarrow> None
            | Some (Inl err, s1, changes1) \<Rightarrow> Some (Some err, s1, changes1)
            | Some (Inr True, s1, changes1) \<Rightarrow> Some (None, s1, changes1)
            | Some (Inr False, s1, changes1) \<Rightarrow> other_record env (sr_Body rec) s1 changes1)
      else other_record env (sr_Body rec) s changes)"

fun handle_records :: "'j ev_env \<Rightarrow> sqs_record list \<Rightarrow> ep_state \<Rightarrow> change_map \<Rightarrow> (error option \<times> ep_state \<times> change_map) option" where
  "handle_records env [] s changes = Some (None, s, changes)"
| "handle_records env (rec # recs) s changes =
     (case handle_record env rec s changes of
        None \<Rightarrow> None
      | Some (Some err, s1, changes1) \<Rightarrow> Some (Some err, s1, changes1)
      | Some (None, s1, changes1) \<Rightarrow> handle_records env recs s1 changes1)"

definition Handle_events :: "'j ev_env \<Rightarrow> sqs_record list \<Rightarrow> ep_state \<Rightarrow> (error option \<times> ep_state) option" where
  "Handle_events env batch s =
     (case refreshAccounts env s of
        (Some err, s1) \<Rightarrow> Some (Some err, s1)
      | (None, s1) \<Rightarrow>
          (case handle_records env batch s1 [] of
             None \<Rightarrow> None
           | Some (Some err, s2, changes) \<Rightarrow> Some (Some err, s2)
           | Some (None, s2, changes) \<Rightarrow> submitChanges env changes s2))"

section \<open>The newest change of each resource\<close>

definition newest_in :: "resourceChange list \<Rightarrow> string \<Rightarrow> resourceChange \<Rightarrow> bool" where
  "newest_in cs k c \<longleftrightarrow> (\<exists>xs ys. filter (\<lambda>x. change_key x = k) cs = xs @ c # ys \<and>
     (\<forall>x \<in> set xs. rc_EventTime x < rc_EventTime c) \<and> (\<forall>y \<in> set ys. rc_EventTime y \<le> rc_EventTime c))"

definition holds_newest :: "resourceChange list \<Rightarrow> change_map \<Rightarrow> bool" where
  "holds_newest cs changes \<longleftrightarrow> distinct (map fst changes) \<and>
     (\<forall>k. case map_of changes k of None \<Rightarrow> k \<notin> change_key ` set cs | Some c \<Rightarrow> newest_in cs k c)"

lemma newest_in_key: "newest_in cs k c \<Longrightarrow> c \<in> set cs \<and> change_key c = k"
proof -
  assume "newest_in cs k c"
  then obtain xs ys where "filter (\<lambda>x. change_key x = k) cs = xs @ c # ys" by (auto simp: newest_in_def)
  then have "c \<in> set (filter (\<lambda>x. change_key x = k) cs)" by simp
  then show ?thesis by simp
qed

lemma newest_in_other: "change_key c \<noteq> k \<Longrightarrow> newest_in (cs @ [c]) k x \<longleftrightarrow> newest_in cs k x"
  by (simp add: newest_in_def)

lemma newest_in_first: "change_key c \<notin> change_key ` set cs \<Longrightarrow> newest_in (cs @ [c]) (change_key c) c"
  unfolding newest_in_def by (intro exI [of _ "[]"]) (auto simp: filter_empty_conv image_iff)

lemma newest_in_newer:
  assumes "newest_in cs (change_key c) x" "rc_EventTime x < rc_EventTime c"
  shows "newest_in (cs @ [c]) (change_key c) c"
proof -
  obtain xs ys where f: "filter (\<lambda>z. change_key z = change_key c) cs = xs @ x # ys"
    "\<forall>z \<in> set xs. rc_EventTime z < rc_EventTime x" "\<forall>z \<in> set ys. rc_EventTime z \<le> rc_EventTime x"
    using assms(1) by (auto simp: newest_in_def)
  then have "\<forall>z \<in> set (xs @ x # ys). rc_EventTime z < rc_EventTime c"
    using assms(2) by (auto dest: order.strict_trans le_less_trans)
  with f show ?thesis unfolding newest_in_def
    by (intro exI [of _ "xs @ x # ys"] exI [of _ "[]"]) simp
qed

lemma newest_in_older:
  assumes "newest_in cs (change_key c) x" "\<not> rc_EventTime x < rc_EventTime c"
  shows "newest_in (cs @ [c]) (change_key c) x"
proof -
  obtain xs ys where "filter (\<lambda>z. change_key z = change_key c) cs = xs @ x # ys"
    "\<forall>z \<in> set xs. rc_EventTime z < rc_EventTime x" "\<forall>z \<in> set ys. rc_EventTime z \<le> rc_EventTime x"
    using assms(1) by (auto simp: newest_in_def)
  then show ?thesis unfolding newest_in_def
    by (intro exI [of _ xs] exI [of _ "ys @ [c]"]) (use assms(2) in auto)
qed

lemma add_change_newest:
  assumes "holds_newest cs changes"
  shows "holds_newest (cs @ [c]) (add_change changes c)"
proof -
  have d: "distinct (map fst changes)" and
    n: "\<And>k. case map_of changes k of None \<Rightarrow> k \<notin> change_key ` set cs | Some c \<Rightarrow> newest_in cs k c"
    using assms by (auto simp: holds_newest_def)
  have "case map_of (add_change changes c) k of None \<Rightarrow> k \<notin> change_key ` set (cs @ [c]) | Some x \<Rightarrow> newest_in (cs @ [c]) k x" for k
  proof (cases "k = change_key c")
    case True
    with n [of k] show ?thesis
      by (auto simp: add_change_def amap_simps newest_in_first newest_in_newer newest_in_older split: option.splits)
  next
    case False
    then have "map_of (add_change changes c) k = map_of changes k"
      by (auto simp: add_change_def amap_simps split: option.splits)
    with False n [of k] show ?thesis by (auto simp: newest_in_other split: option.splits)
  qed
  moreover have "distinct (map fst (add_change changes c))"
    using d by (auto simp: add_change_def amap_simps split: option.splits)
  ultimately show ?thesis by (simp add: holds_newest_def)
qed

lemma add_changes_newest: "holds_newest (rev rs) (foldl add_change [] (rev rs))"
proof (induction rs)
  case Nil
  show ?case by (simp add: holds_newest_def)
qed (use add_change_newest in simp)

lemma changes_newest: "holds_newest cs (foldl add_change [] cs)"
  using add_changes_newest [of "rev cs"] by simp

section \<open>Classified changes\<close>

text \<open>All classifiers at once.\<close>

definition classifier_ok :: "string \<Rightarrow> ('j \<Rightarrow> CloudTrailMetadata \<Rightarrow> resourceChange list option) \<Rightarrow> bool" where
  "classifier_ok source f \<longleftrightarrow> (\<forall>detail md. pred_option (\<lambda>cs. list_all (change_ok md) cs \<and>
     (source \<noteq> ''ec2.amazonaws.com'' \<and> source \<noteq> ''iam.amazonaws.com'' \<longrightarrow> list_all (own_account md) cs)) (f detail md))"

lemma good_classifier_ok: "(\<And>detail md. pred_option (good_changes md) (f detail md)) \<Longrightarrow> classifier_ok source f"
  by (auto simp: classifier_ok_def pred_option_def list_all_iff good_change_def)

lemma ec2_iam_classifier_ok:
  "classifier_ok ''ec2.amazonaws.com'' (\<lambda>d md. Some (classifyEC2 api d md))"
  "classifier_ok ''iam.amazonaws.com'' (\<lambda>d md. Some (classifyIAM api d md))"
  by (simp_all add: classifier_ok_def classifyEC2_ok classifyIAM_ok)

lemma classifiers_all: "list_all (\<lambda>(source, f). classifier_ok source f) (classifiers api)"
  unfolding classifiers_def list.pred_inject prod.case
  by (intro conjI TrueI) (simp_all add: good_classifier_ok classifiers_good ec2_iam_classifier_ok)

text \<open>What the classifiers promise of a change after it was stamped.\<close>

definition well_typed :: "resourceChange \<Rightarrow> bool" where
  "well_typed c \<longleftrightarrow> rc_ResourceType c \<in> set resource_types \<and> (rc_Region c = [] \<or> rc_ResourceID c = [])"

lemma classifiers_well_typed:
  assumes "map_of (classifiers api) source = Some classifier" "classifier detail md = Some cs"
  shows "list_all well_typed (map (stamp api' detail' integration) cs)"
proof -
  have "classifier_ok source classifier"
    using map_of_SomeD [OF assms(1)] classifiers_all [of api] by (auto simp: list_all_iff)
  then have "pred_option (list_all (change_ok md)) (classifier detail md)"
    unfolding classifier_ok_def by (auto simp: pred_option_def)
  then have "list_all (change_ok md) cs" by (simp add: assms(2))
  then show ?thesis by (auto simp: list_all_iff change_ok_def well_typed_def stamp_def)
qed

section \<open>What the handlers do to the changes\<close>

definition extends :: "ep_state \<times> change_map \<Rightarrow> ep_state \<times> change_map \<Rightarrow> bool" where
  "extends before after \<longleftrightarrow> (case (before, after) of ((s, changes), (s', changes')) \<Rightarrow>
     (\<exists>new. ep_log s' = ep_log s @ new \<and> changes' = foldl add_change changes new \<and> list_all well_typed new) \<and>
     ep_deletes s' = ep_deletes s \<and> ep_queued s' = ep_queued s)"

lemma extends_same: "ep_log s' = ep_log s \<Longrightarrow> ep_deletes s' = ep_deletes s \<Longrightarrow> ep_queued s' = ep_queued s \<Longrightarrow>
    extends (s, changes) (s', changes)"
  by (simp add: extends_def)

lemma extends_refl: "extends a a"
  by (cases a) (simp add: extends_same)

lemma extends_trans: "extends a b \<Longrightarrow> extends b c \<Longrightarrow> extends a c"
  by (force simp: extends_def split: prod.splits)

lemma process_extends: "processCloudTrailLog api detail md s changes = Some r \<Longrightarrow> extends (s, changes) r"
  by (auto simp: processCloudTrailLog_def extends_def Let_def split: option.splits if_splits dest: classifiers_well_typed)

lemma checkCWECache_frame:
  "checkCWECache env key s = (b, s') \<Longrightarrow>
   ep_log s' = ep_log s \<and> ep_deletes s' = ep_deletes s \<and> ep_queued s' = ep_queued s \<and> ep_accounts s' = ep_accounts s"
  by (auto simp: checkCWECache_def tick_def split: option.splits if_splits)

lemma handleCloudTrail_extends:
  assumes "handleCloudTrail env detail s changes = Some (err, r)"
  shows "extends (s, changes) r"
proof -
  show ?thesis
  proof (cases "preprocessCloudTrailLog (ev_api env) detail")
    case (Inr m)
    show ?thesis
    proof (cases m)
      case (Some md)
      let ?s = "s\<lparr>ep_ticks := Suc (ep_ticks s), ep_cweAccounts := amap_put (generateSourceKey md) (ev_now env (ep_ticks s)) (ep_cweAccounts s)\<rparr>"
      have "processCloudTrailLog (ev_api env) detail md ?s changes = Some r"
        using assms Inr Some by (auto simp: handleCloudTrail_def tick_def)
      from process_extends [OF this] have "extends (?s, changes) r" .
      moreover have "extends (s, changes) (?s, changes)" by (rule extends_same) simp_all
      ultimately show ?thesis by (rule extends_trans [rotated])
    qed (use assms Inr in \<open>auto simp: handleCloudTrail_def extends_same\<close>)
  qed (use assms in \<open>auto simp: handleCloudTrail_def extends_same\<close>)
qed

lemma s3_line_extends:
  assumes "s3_line env line s changes = Some (err, r)"
  shows "extends (s, changes) r"
proof (cases "preprocessCloudTrailLog (ev_api env) (gj_Parse (ev_api env) line)")
  case (Inr m)
  show ?thesis
  proof (cases m)
    case (Some md)
    obtain b s1 where c: "checkCWECache env (generateSourceKey md) s = (b, s1)"
      by (cases "checkCWECache env (generateSourceKey md) s")
    from checkCWECache_frame [OF c] have same: "extends (s, changes) (s1, changes)" by (simp add: extends_same)
    show ?thesis
    proof (cases b)
      case True
      with assms Inr Some c same show ?thesis by (simp add: s3_line_def)
    next
      case False
      with assms Inr Some c have "processCloudTrailLog (ev_api env) (gj_Parse (ev_api env) line) md s1 changes = Some r"
        by (auto simp: s3_line_def)
      from process_extends [OF this] same show ?thesis by (rule extends_trans [rotated])
    qed
  qed (use assms Inr in \<open>auto simp: s3_line_def extends_same\<close>)
qed (use assms in \<open>auto simp: s3_line_def extends_same\<close>)

lemma s3_loop_extends: "s3_loop env text e s changes = Some (err, r) \<Longrightarrow> extends (s, changes) r"
proof (induction env "text" e s changes rule: s3_loop.induct)
  case (1 env "text" e s changes)
  obtain line rest where rd: "ReadString text = (line, rest)" by (cases "ReadString text")
  show ?case
  proof (cases rest)
    case None
    with 1(2) rd show ?thesis by (auto simp: s3_loop.simps [of env "text"] extends_same)
  next
    case (Some rest')
    obtain err1 s1 changes1 where l: "s3_line env line s changes = Some (err1, s1, changes1)"
      using 1(2) rd Some by (auto simp: s3_loop.simps [of env "text"] split: option.splits)
    note line = s3_line_extends [OF l]
    show ?thesis
    proof (cases err1)
      case None
      have "s3_loop env rest' e s1 changes1 = Some (err, r)"
        using 1(2) rd Some l None by (simp add: s3_loop.simps [of env "text"])
      from 1(1) [OF rd [symmetric] Some l refl None refl, OF this] line show ?thesis
        by (blast intro: extends_trans)
    next
      case (Some e1)
      then show ?thesis using 1(2) rd \<open>rest = Some rest'\<close> l line by (simp add: s3_loop.simps [of env "text"])
    qed
  qed
qed

lemma handleS3Download_extends: "handleS3Download env object s changes = Some (err, r) \<Longrightarrow> extends (s, changes) r"
  by (auto simp: handleS3Download_def extends_refl s3_loop_extends split: prod.splits sum.splits)

lemma download_all_extends: "download_all env objects s changes = Some (err, r) \<Longrightarrow> extends (s, changes) r"
proof (induction env objects s changes rule: download_all.induct)
  case (2 env object objects s changes)
  obtain err1 s1 changes1 where d: "handleS3Download env object s changes = Some (err1, s1, changes1)"
    using 2(2) by (auto split: option.splits)
  with 2 show ?case by (cases err1) (auto dest: handleS3Download_extends intro: extends_trans)
qed (auto simp: extends_refl)

lemma handleLogProcessorCloudTrail_extends:
  "handleLogProcessorCloudTrail env body s changes = Some (res, r) \<Longrightarrow> extends (s, changes) r"
  by (auto simp: handleLogProcessorCloudTrail_def extends_same dest: download_all_extends
      split: sum.splits if_splits option.splits)

lemma handleSnsConfirmation_frame:
  "handleSnsConfirmation env topic token s = (err, s') \<Longrightarrow> extends (s, changes) (s', changes)"
  by (auto simp: handleSnsConfirmation_def Let_def extends_def split: if_splits option.splits)

lemma other_record_extends: "other_record env body s changes = Some (err, r) \<Longrightarrow> extends (s, changes) r"
  by (auto simp: other_record_def Let_def extends_same dest: handleCloudTrail_extends handleSnsConfirmation_frame
      split: if_splits prod.splits)

lemma handle_record_extends: "handle_record env rec s changes = Some (err, r) \<Longrightarrow> extends (s, changes) r"
  by (auto simp: handle_record_def dest!: handleLogProcessorCloudTrail_extends other_record_extends
      intro: extends_trans split: if_splits option.splits sum.splits bool.splits)

lemma handle_records_extends: "handle_records env recs s changes = Some (err, r) \<Longrightarrow> extends (s, changes) r"
proof (induction env recs s changes rule: handle_records.induct)
  case (2 env rec recs s changes)
  obtain err1 s1 changes1 where d: "handle_record env rec s changes = Some (err1, s1, changes1)"
    using 2(2) by (auto split: option.splits)
  with 2 show ?case by (cases err1) (auto dest: handle_record_extends intro: extends_trans)
qed (auto simp: extends_refl)

section \<open>What is submitted\<close>

text \<open>The scans of one delay.\<close>

definition scans_at :: "int \<Rightarrow> resourceChange list \<Rightarrow> ScanEntry list" where
  "scans_at d cs = map scan_entry (filter (\<lambda>c. \<not> rc_Delete c \<and> rc_Delay c = d) cs)"

lemma split_changes_spec:
  assumes "foldl split_change ([], []) cs = (dels, requests)"
  shows "dels = map rc_ResourceID (filter rc_Delete cs) \<and> distinct (map fst requests) \<and>
    (\<forall>d. map_of requests d = (if scans_at d cs = [] then None else Some (scans_at d cs)))"
  using assms
proof (induction cs arbitrary: dels requests rule: rev_induct)
  case (snoc c cs)
  obtain dels1 requests1 where f: "foldl split_change ([], []) cs = (dels1, requests1)"
    by (cases "foldl split_change ([], []) cs")
  note IH = snoc.IH [OF f]
  show ?case
  proof (cases "rc_Delete c")
    case True
    with snoc.prems f have "dels = dels1 @ [rc_ResourceID c]" "requests = requests1" by simp_all
    with True IH show ?thesis by (simp add: scans_at_def)
  next
    case False
    let ?old = "case map_of requests1 (rc_Delay c) of None \<Rightarrow> [] | Some es \<Rightarrow> es"
    have r: "dels = dels1" "requests = amap_put (rc_Delay c) (?old @ [scan_entry c]) requests1"
      using snoc.prems f False by simp_all
    have "?old = scans_at (rc_Delay c) cs" using IH by simp
    then have "map_of requests d = (if scans_at d (cs @ [c]) = [] then None else Some (scans_at d (cs @ [c])))" for d
      using IH False by (cases "d = rc_Delay c") (simp_all add: r amap_simps scans_at_def)
    moreover have "distinct (map fst requests)" using IH by (simp add: r amap_simps)
    ultimately show ?thesis using IH False r by simp
  qed
qed (simp add: scans_at_def)

text \<open>The keys of the requests are the delays of the scans.\<close>

lemma split_changes_delays:
  assumes "foldl split_change ([], []) cs = (dels, requests)"
  shows "set (map fst requests) = rc_Delay ` {c \<in> set cs. \<not> rc_Delete c}"
proof -
  have "d \<in> set (map fst requests) \<longleftrightarrow> scans_at d cs \<noteq> []" for d
    using split_changes_spec [OF assms] by (metis list.set_map map_of_eq_None_iff option.simps(3))
  then have "d \<in> set (map fst requests) \<longleftrightarrow> d \<in> rc_Delay ` {c \<in> set cs. \<not> rc_Delete c}" for d
    by (auto simp: scans_at_def filter_empty_conv image_iff)
  then show ?thesis by blast
qed

text \<open>The message for the scans of a delay.\<close>

definition delay_message :: "'j ev_env \<Rightarrow> resourceChange list \<Rightarrow> int \<Rightarrow> sqs_entry" where
  "delay_message env cs d =
     \<lparr>Id = Itoa d, MessageBody = Some (projr (ev_MarshalScan env (scans_at d cs))), DelaySeconds = Some d\<rparr>"

lemma delay_entries_ok:
  assumes "\<forall>es. \<exists>b. ev_MarshalScan env es = Inr b"
  shows "delay_entries env requests = Inr (map (\<lambda>(d, es). \<lparr>Id = Itoa d,
      MessageBody = Some (projr (ev_MarshalScan env es)), DelaySeconds = Some d\<rparr>) requests)"
proof (induction requests)
  case (Cons a requests)
  obtain d es where a: "a = (d, es)" by (cases a)
  obtain b where "ev_MarshalScan env es = Inr b" using assms by blast
  with Cons a show ?case by simp
qed simp

text \<open>What the program relies on: Go visits every entry of a map once, the encoder encodes scan requests, and the
  contracts of the retry and of SQS.\<close>

definition ep_services :: "'j ev_env \<Rightarrow> bool" where
  "ep_services env \<longleftrightarrow> (\<forall>m. mset (ev_range env m) = mset m) \<and> (\<forall>m. mset (ev_range_delays env m) = mset m) \<and>
     (\<forall>es. \<exists>b. ev_MarshalScan env es = Inr b) \<and> backoff_retry (ev_backoff env) \<and> sqs_client_ok (ev_sqs env)"

text \<open>One acknowledged message for each delay of the scans among the changes, with all of its scans.\<close>

definition scans_queued :: "'j ev_env \<Rightarrow> resourceChange list \<Rightarrow> ep_state \<Rightarrow> ep_state \<Rightarrow> bool" where
  "scans_queued env cs s s' \<longleftrightarrow>
     (if \<exists>c \<in> set cs. \<not> rc_Delete c
      then \<exists>ds request. ep_queued s' = ep_queued s @ [(SqsReturned [] None, request)] \<and> distinct ds \<and>
        set ds = rc_Delay ` {c \<in> set cs. \<not> rc_Delete c} \<and> sqs_acked request = mset (map (delay_message env cs) ds)
      else ep_queued s' = ep_queued s)"

lemma scans_queued_deletes [simp]: "scans_queued env cs (s\<lparr>ep_deletes := x\<rparr>) s' = scans_queued env cs s s'"
  by (simp add: scans_queued_def)

lemma queue_scans_ok:
  assumes "ep_services env" "foldl split_change ([], []) cs = (dels, requests)"
    and "queue_scans env requests s = Some (None, s')"
  shows "ep_log s' = ep_log s \<and> ep_deletes s' = ep_deletes s \<and>
    scans_queued env cs s s'"
proof (cases "requests = []")
  case True
  with assms(3) split_changes_delays [OF assms(2)] show ?thesis by (auto simp: queue_scans_def scans_queued_def)
next
  case False
  let ?rs = "ev_range_delays env requests"
  let ?es = "map (\<lambda>(d, es). \<lparr>Id = Itoa d, MessageBody = Some (projr (ev_MarshalScan env es)), DelaySeconds = Some d\<rparr>) ?rs"
  have perm: "mset ?rs = mset requests" using assms(1) by (simp add: ep_services_def)
  have es: "delay_entries env ?rs = Inr ?es"
    using assms(1) by (intro delay_entries_ok) (simp add: ep_services_def)
  obtain result request where run: "SendMessageBatch (ev_backoff env) (ev_sqs env) ?es = (result, request)"
    by (cases "SendMessageBatch (ev_backoff env) (ev_sqs env) ?es")
  then obtain xs where result: "result = SqsReturned xs None" and s': "s' = s\<lparr>ep_queued := ep_queued s @ [(result, request)]\<rparr>"
    using assms(3) es False by (auto simp: queue_scans_def Let_def split: sqs_result.splits)
  have acked: "xs = []" "sqs_acked request = mset ?es"
    using SendMessageBatch_no_error run result assms(1) by (auto simp: ep_services_def)
  note spec = split_changes_spec [OF assms(2)]
  have keys: "set (map fst ?rs) = rc_Delay ` {c \<in> set cs. \<not> rc_Delete c}"
    using split_changes_delays [OF assms(2)] arg_cong [OF perm, of set_mset] by simp
  have dist: "distinct (map fst ?rs)"
    using spec perm by (metis mset_eq_imp_distinct_iff mset_map)
  have "es = scans_at d cs" if "(d, es) \<in> set ?rs" for d es
  proof -
    have "(d, es) \<in> set requests" using that perm by (metis mset_eq_setD)
    then have "map_of requests d = Some es" using spec by (metis map_of_is_SomeI)
    moreover have "map_of requests d = (if scans_at d cs = [] then None else Some (scans_at d cs))" using spec by blast
    ultimately show ?thesis by (simp split: if_splits)
  qed
  then have "?es = map (delay_message env cs) (map fst ?rs)" by (auto simp: delay_message_def)
  moreover have "\<exists>c \<in> set cs. \<not> rc_Delete c"
    using split_changes_delays [OF assms(2)] False by (cases requests) auto
  moreover have "\<exists>ds. distinct ds \<and> set ds = rc_Delay ` {c \<in> set cs. \<not> rc_Delete c} \<and>
      sqs_acked request = mset (map (delay_message env cs) ds)"
    using acked(2) keys dist calculation(1) by metis
  ultimately show ?thesis using s' acked(1) result by (simp add: scans_queued_def)
qed

text \<open>The changes as \<open>submitChanges\<close> visits them, given those the events asked for.\<close>

definition kept_changes :: "resourceChange list \<Rightarrow> resourceChange list \<Rightarrow> bool" where
  "kept_changes new kept \<longleftrightarrow> distinct (map change_key kept) \<and> change_key ` set kept = change_key ` set new \<and>
     (\<forall>c \<in> set kept. newest_in new (change_key c) c)"

lemma kept_changes_range:
  assumes "mset changes' = mset (foldl add_change [] new)"
  shows "kept_changes new (map snd changes')"
proof -
  let ?m = "foldl add_change [] new"
  have n: "distinct (map fst ?m)" "\<And>k. case map_of ?m k of None \<Rightarrow> k \<notin> change_key ` set new | Some c \<Rightarrow> newest_in new k c"
    using changes_newest [of new] by (auto simp: holds_newest_def)
  have entry: "newest_in new k c \<and> change_key c = k" if "(k, c) \<in> set changes'" for k c
  proof -
    have "(k, c) \<in> set ?m" using that assms by (metis mset_eq_setD)
    then have "map_of ?m k = Some c" using n(1) by simp
    then show ?thesis using n(2) [of k] newest_in_key by fastforce
  qed
  then have keys: "map change_key (map snd changes') = map fst changes'" by auto
  moreover have "distinct (map fst changes')"
    using n(1) assms by (metis mset_eq_imp_distinct_iff mset_map)
  moreover have "fst ` set changes' = change_key ` set new"
  proof -
    have "fst ` set changes' = fst ` set ?m" using assms by (metis mset_eq_setD)
    also have "\<dots> = dom (map_of ?m)" by (simp add: dom_map_of_conv_image_fst)
    also have "\<dots> = change_key ` set new"
    proof (intro set_eqI iffI)
      fix k assume "k \<in> dom (map_of ?m)"
      then show "k \<in> change_key ` set new" using n(2) [of k] newest_in_key by (fastforce split: option.splits)
    next
      fix k assume "k \<in> change_key ` set new"
      then show "k \<in> dom (map_of ?m)" using n(2) [of k] by (auto split: option.splits)
    qed
    finally show ?thesis .
  qed
  moreover have "change_key ` set (map snd changes') = fst ` set changes'"
    using arg_cong [OF keys, of set] by (simp only: set_map)
  ultimately have "distinct (map change_key (map snd changes'))" "change_key ` set (map snd changes') = change_key ` set new"
    by (simp_all only: keys)
  then show ?thesis unfolding kept_changes_def using entry by auto
qed

text \<open>What the changes are about: a resource or a scan, of an account. This is the specification of \<open>change_key\<close>, which joins three
  of the four parts to one text.\<close>

definition identity :: "resourceChange \<Rightarrow> string \<times> string \<times> string \<times> string" where
  "identity c = (rc_AwsAccountID c, rc_Region c, rc_ResourceType c, rc_ResourceID c)"

text \<open>The first of the newest changes of each resource or scan, and nothing else.\<close>

definition newest_changes :: "resourceChange list \<Rightarrow> resourceChange list \<Rightarrow> bool" where
  "newest_changes new kept \<longleftrightarrow> distinct (map identity kept) \<and> identity ` set kept = identity ` set new \<and>
     (\<forall>c \<in> set kept. \<exists>xs ys. filter (\<lambda>x. identity x = identity c) new = xs @ c # ys \<and>
        (\<forall>x \<in> set xs. rc_EventTime x < rc_EventTime c) \<and> (\<forall>y \<in> set ys. rc_EventTime y \<le> rc_EventTime c))"

text \<open>The regions of scans: the word \<open>global\<close>, or a name like \<open>us-east-1\<close>.\<close>

definition region_name :: "string \<Rightarrow> bool" where
  "region_name r \<longleftrightarrow> r = [] \<or> r = GlobalRegion \<or> CHR ''-'' \<in> set r \<and> CHR ''.'' \<notin> set r"

definition one_account :: "resourceChange list \<Rightarrow> bool" where
  "one_account cs \<longleftrightarrow> (\<forall>c \<in> set cs. \<forall>d \<in> set cs. rc_ResourceID c = rc_ResourceID d \<longrightarrow> rc_ResourceType c = rc_ResourceType d \<longrightarrow>
     rc_Region c = rc_Region d \<longrightarrow> rc_AwsAccountID c = rc_AwsAccountID d)"

text \<open>No resource type begins or ends with another one, or ends like a region.\<close>

definition types_apart :: "string list \<Rightarrow> bool" where
  "types_apart tys \<longleftrightarrow> list_all (\<lambda>t. CHR ''-'' \<notin> set t \<and> CHR ''.'' \<in> set t \<and> \<not> suffix GlobalRegion t \<and>
     list_all (\<lambda>u. (prefix t u \<longrightarrow> t = u) \<and> (suffix t u \<longrightarrow> t = u)) tys) tys"

lemma resource_types_apart: "types_apart resource_types"
  by code_simp

lemma resource_types_apartD:
  assumes "t \<in> set resource_types"
  shows "CHR ''-'' \<notin> set t" "CHR ''.'' \<in> set t" "\<not> suffix GlobalRegion t"
    and "u \<in> set resource_types \<Longrightarrow> prefix t u \<Longrightarrow> t = u" "u \<in> set resource_types \<Longrightarrow> suffix t u \<Longrightarrow> t = u"
  using assms resource_types_apart by (auto simp: types_apart_def list_all_iff)

lemma suffix_or: "xs @ ys = us @ vs \<Longrightarrow> suffix ys vs \<or> suffix vs ys"
  by (auto simp: append_eq_append_conv2 suffix_def)

lemma prefix_or: "xs @ ys = us @ vs \<Longrightarrow> prefix xs us \<or> prefix us xs"
  by (auto simp: append_eq_append_conv2 prefix_def)

text \<open>A change of a resource and a scan of a region have different keys.\<close>

lemma resource_scan_apart:
  assumes "rid @ t = u @ r" "t \<in> set resource_types" "r \<noteq> []" "region_name r"
  shows False
proof -
  note t = resource_types_apartD [OF assms(2)]
  have "\<not> suffix t r"
  proof
    assume "suffix t r"
    then have "set t \<subseteq> set r" by (rule set_mono_suffix)
    with t(2) assms(3,4) show False by (auto simp: region_name_def GlobalRegion_def)
  qed
  with suffix_or [OF assms(1)] have s: "suffix r t" by blast
  then have "set r \<subseteq> set t" by (rule set_mono_suffix)
  with s t(1,3) assms(3,4) show False by (auto simp: region_name_def)
qed

lemma change_key_identity:
  assumes "well_typed c" "well_typed d" "region_name (rc_Region c)" "region_name (rc_Region d)" "change_key c = change_key d"
  shows "rc_ResourceID c = rc_ResourceID d \<and> rc_ResourceType c = rc_ResourceType d \<and> rc_Region c = rc_Region d"
proof -
  have ty: "rc_ResourceType c \<in> set resource_types" "rc_ResourceType d \<in> set resource_types"
    using assms(1,2) by (simp_all add: well_typed_def)
  consider (resources) "rc_Region c = []" "rc_Region d = []" | (scans) "rc_ResourceID c = []" "rc_ResourceID d = []"
    | (left) "rc_Region c = []" "rc_ResourceID d = []" "rc_Region d \<noteq> []" | (right) "rc_ResourceID c = []" "rc_Region d = []" "rc_Region c \<noteq> []"
    using assms(1,2) by (auto simp: well_typed_def)
  then show ?thesis
  proof cases
    case resources
    then have eq: "rc_ResourceID c @ rc_ResourceType c = rc_ResourceID d @ rc_ResourceType d"
      using assms(5) by (simp add: change_key_def)
    have "rc_ResourceType c = rc_ResourceType d"
      using suffix_or [OF eq] resource_types_apartD(5) [OF ty] resource_types_apartD(5) [OF ty(2,1)] by auto
    with eq resources show ?thesis by simp
  next
    case scans
    then have eq: "rc_ResourceType c @ rc_Region c = rc_ResourceType d @ rc_Region d"
      using assms(5) by (simp add: change_key_def)
    have "rc_ResourceType c = rc_ResourceType d"
      using prefix_or [OF eq] resource_types_apartD(4) [OF ty] resource_types_apartD(4) [OF ty(2,1)] by auto
    with eq scans show ?thesis by simp
  next
    case left
    then show ?thesis using assms(5) resource_scan_apart [OF _ ty(1) left(3) assms(4)] by (simp add: change_key_def)
  next
    case right
    then show ?thesis using assms(5) [symmetric] resource_scan_apart [OF _ ty(2) right(3) assms(3)] by (simp add: change_key_def)
  qed
qed

lemma kept_newest:
  assumes "kept_changes new kept" "list_all well_typed new" "one_account new" "\<forall>c \<in> set new. region_name (rc_Region c)"
  shows "newest_changes new kept"
proof -
  have iff: "change_key c = change_key d \<longleftrightarrow> identity c = identity d" if "c \<in> set new" "d \<in> set new" for c d
  proof
    assume "change_key c = change_key d"
    with that assms(2,4) have "rc_ResourceID c = rc_ResourceID d \<and> rc_ResourceType c = rc_ResourceType d \<and> rc_Region c = rc_Region d"
      by (intro change_key_identity) (simp_all add: list_all_iff)
    moreover from this assms(3) that have "rc_AwsAccountID c = rc_AwsAccountID d" unfolding one_account_def by blast
    ultimately show "identity c = identity d" by (simp add: identity_def)
  qed (simp add: identity_def change_key_def)
  have sub: "set kept \<subseteq> set new" using assms(1) newest_in_key by (auto simp: kept_changes_def)
  have key: "identity c \<in> identity ` set kept" if "c \<in> set new" for c
  proof -
    have "change_key c \<in> change_key ` set kept" using assms(1) that by (simp add: kept_changes_def)
    then obtain d where "d \<in> set kept" "change_key c = change_key d" by blast
    with iff [OF that] sub show ?thesis by (metis image_eqI subsetD)
  qed
  have "distinct (map identity kept)"
  proof -
    have "inj_on change_key (set kept)" "distinct kept" using assms(1) by (simp_all add: kept_changes_def distinct_map)
    with sub iff show ?thesis unfolding distinct_map inj_on_def by (metis subsetD)
  qed
  moreover have "identity ` set kept = identity ` set new" using key sub by (auto intro: image_eqI)
  moreover have "filter (\<lambda>x. identity x = identity c) new = filter (\<lambda>x. change_key x = change_key c) new" if "c \<in> set kept" for c
    using that sub iff by (intro filter_cong) auto
  ultimately show ?thesis using assms(1) by (simp add: kept_changes_def newest_changes_def newest_in_def)
qed

definition submitted :: "'j ev_env \<Rightarrow> resourceChange list \<Rightarrow> ep_state \<Rightarrow> ep_state \<Rightarrow> bool" where
  "submitted env kept s s' \<longleftrightarrow>
     ep_deletes s' = ep_deletes s @ (if filter rc_Delete kept = [] then [] else [map rc_ResourceID (filter rc_Delete kept)]) \<and>
     scans_queued env kept s s'"

lemma submitChanges_ok:
  assumes "ep_services env" "submitChanges env (foldl add_change [] new) s = Some (None, s')"
  shows "\<exists>kept. kept_changes new kept \<and> ep_log s' = ep_log s \<and>
    ep_deletes s' = ep_deletes s @ (if filter rc_Delete kept = [] then [] else [map rc_ResourceID (filter rc_Delete kept)]) \<and>
    scans_queued env kept s s'"
proof -
  define kept where "kept = map snd (ev_range env (foldl add_change [] new))"
  have kept: "kept_changes new kept"
    using assms(1) unfolding kept_def by (intro kept_changes_range) (simp add: ep_services_def)
  obtain dels requests where f: "foldl split_change ([], []) kept = (dels, requests)"
    by (cases "foldl split_change ([], []) kept")
  have dels: "dels = map rc_ResourceID (filter rc_Delete kept)" using split_changes_spec [OF f] by blast
  show ?thesis
  proof (cases "dels = []")
    case True
    with assms(2) f have q: "queue_scans env requests s = Some (None, s')" by (simp add: submitChanges_def kept_def)
    have "filter rc_Delete kept = []" using True dels by simp
    with queue_scans_ok [OF assms(1) f q] kept show ?thesis by (intro exI [of _ kept]) simp
  next
    case False
    with assms(2) f have q: "queue_scans env requests (s\<lparr>ep_deletes := ep_deletes s @ [dels]\<rparr>) = Some (None, s')"
      by (simp add: submitChanges_def kept_def Let_def split: option.splits)
    have "filter rc_Delete kept \<noteq> []" using False dels by auto
    with queue_scans_ok [OF assms(1) f q] kept dels show ?thesis by (intro exI [of _ kept]) simp
  qed
qed

section \<open>A concrete processor\<close>

text \<open>JSON values that map paths to texts, two registered accounts, and services that accept everything.\<close>

type_synonym flat_json = "(string \<times> string) list"

definition sample_ct_api :: "flat_json ct_api" where
  "sample_ct_api =
     \<lparr>gj_Get = (\<lambda>d path. case map_of d path of None \<Rightarrow> [] | Some v \<Rightarrow> [([], v)]), gj_Exists = (\<lambda>d. d \<noteq> []),
      gj_Str = (\<lambda>d. case d of [] \<Rightarrow> [] | (_, v) # _ \<Rightarrow> v), gj_Array = (\<lambda>_. []), gj_Bool = (\<lambda>_. False), gj_Parse = (\<lambda>_. []),
      arn_Parse = (\<lambda>_. Inl ''arn: invalid prefix''),
      arn_String = (\<lambda>a. strings_Join '':'' [''arn'', arn_Partition a, arn_Service a, arn_Region a, arn_AccountID a, arn_Resource a])\<rparr>"

definition sample_detail :: "string \<Rightarrow> string \<Rightarrow> flat_json \<Rightarrow> flat_json" where
  "sample_detail source event params =
     [(''eventName'', event), (''eventSource'', source), (''userIdentity.accountId'', ''111''), (''awsRegion'', ''us-east-1''),
      (''eventTime'', ''2020-01-01T00:00:00Z'')] @ params"

definition sample_ev_env :: "flat_json ev_env" where
  "sample_ev_env =
     \<lparr>ev_api = sample_ct_api,
      ev_GetJSON = (\<lambda>body path. if path \<noteq> ''detail'' then []
         else if body = ''bucket'' then sample_detail ''s3.amazonaws.com'' ''PutBucketAcl'' [(''requestParameters.bucketName'', ''logs'')]
         else if body = ''layer'' then sample_detail ''lambda.amazonaws.com'' ''PublishLayerVersion20181031'' []
         else []),
      ev_now = int, ev_ListIntegrations = Inr [\<lparr>si_AWSAccountID = ''111'', si_IntegrationID = ''i1''\<rparr>],
      ev_UnmarshalNotification = (\<lambda>_. Inr []), ev_GetObject = (\<lambda>_ _. Inl ''none''), ev_gunzip = (\<lambda>_. Inl ''none''),
      ev_snsClient = (\<lambda>_. None), ev_ConfirmSubscription = (\<lambda>_ _. None), ev_range = rev, ev_range_delays = rev,
      ev_DeleteResources = (\<lambda>_. None), ev_MarshalScan = (\<lambda>es. Inr (concat (map (\<lambda>e. StringValue (se_ResourceID e)) es))),
      ev_backoff = retry_attempts 1, ev_sqs = sqs_flaky_client\<rparr>"

definition sample_ep_state :: ep_state where
  "sample_ep_state =
     \<lparr>ep_accounts = [], ep_accountsLastUpdated = 0, ep_cweAccounts = [], ep_ticks = 0, ep_log = [], ep_deletes = [],
      ep_queued = [], ep_confirmed = []\<rparr>"

abbreviation raw_record :: "string \<Rightarrow> sqs_record" where
  "raw_record body \<equiv> \<lparr>sr_id = None, sr_Body = body\<rparr>"

lemma sample_ep_services: "ep_services sample_ev_env"
  by (simp add: ep_services_def sample_ev_env_def backoff_retry_attempts sqs_flaky_client_ok)

definition sample_change :: resourceChange where
  "sample_change = \<lparr>rc_AwsAccountID = ''111'', rc_Delay = 0, rc_Delete = False, rc_EventName = ''PutBucketAcl'',
     rc_EventTime = ''2020-01-01T00:00:00Z'', rc_IntegrationID = ''i1'', rc_Region = [], rc_ResourceID = ''arn:aws:s3:::logs'',
     rc_ResourceType = ''AWS.S3.Bucket''\<rparr>"

lemma sample_records:
  "handle_records sample_ev_env [raw_record ''bucket''] (snd (refreshAccounts sample_ev_env sample_ep_state)) [] =
     Some (None, (snd (refreshAccounts sample_ev_env sample_ep_state))\<lparr>ep_ticks := 2, ep_cweAccounts := [(''111/us-east-1'', 1)],
        ep_log := [sample_change]\<rparr>, [(''arn:aws:s3:::logsAWS.S3.Bucket'', sample_change)])"
  by code_simp

lemma sample_add: "foldl add_change [] [sample_change] = [(''arn:aws:s3:::logsAWS.S3.Bucket'', sample_change)]"
  by code_simp

lemma sample_submit:
  "map_option fst (submitChanges sample_ev_env [(''arn:aws:s3:::logsAWS.S3.Bucket'', sample_change)] s) = Some None"
  by (simp add: submitChanges_def queue_scans_def sample_ev_env_def sample_change_def scan_entry_def StringValue_def sqs_run_simps)

section \<open>Properties\<close>

text \<open>C14. Whatever an event contains, the changes that its classifier lists are well-formed: they carry the name of
  the event and a resource type that is scanned, their delay is none or two minutes, and no change names
  both a resource and a region, which the scan queue leaves undefined. For all services but EC2 and IAM
  they are for the account that the event is from.\<close>

theorem classifiers_wellformed:
  assumes "map_of (classifiers api) source = Some classifier" "classifier detail md = Some cs"
  shows "list_all (change_ok md) cs \<and>
    (source \<noteq> ''ec2.amazonaws.com'' \<and> source \<noteq> ''iam.amazonaws.com'' \<longrightarrow> list_all (own_account md) cs)"
proof -
  have "classifier_ok source classifier"
    using map_of_SomeD [OF assms(1)] classifiers_all [of api] by (auto simp: list_all_iff)
  then have "pred_option (\<lambda>cs. list_all (change_ok md) cs \<and>
      (source \<noteq> ''ec2.amazonaws.com'' \<and> source \<noteq> ''iam.amazonaws.com'' \<longrightarrow> list_all (own_account md) cs)) (classifier detail md)"
    unfolding classifier_ok_def by blast
  from this [unfolded assms(2) option.pred_inject] show ?thesis .
qed

theorem classifiers_wellformed_witness:
  "list_all (change_ok \<lparr>md_region = ''us-east-1'', md_accountID = ''111'', md_eventSource = ''s3.amazonaws.com'', md_eventName = ''DeleteBucket''\<rparr>)
     (classifyS3 sample_ct_api (sample_detail ''s3.amazonaws.com'' ''DeleteBucket'' [(''requestParameters.bucketName'', ''logs'')])
        \<lparr>md_region = ''us-east-1'', md_accountID = ''111'', md_eventSource = ''s3.amazonaws.com'', md_eventName = ''DeleteBucket''\<rparr>)"
proof -
  have "map_of (classifiers sample_ct_api) ''s3.amazonaws.com'' = Some (\<lambda>d md. Some (classifyS3 sample_ct_api d md))"
    by (simp add: classifiers_def)
  from classifiers_wellformed [OF this refl] show ?thesis by blast
qed

lemma Handle_submits_kept:
  assumes "ep_services env" "Handle_events env batch s = Some (None, s')" "ep_log s' = ep_log s @ new"
  shows "list_all well_typed new \<and> (\<exists>kept. kept_changes new kept \<and> submitted env kept s s')"
proof -
  obtain s1 s2 changes where a: "refreshAccounts env s = (None, s1)"
    and h: "handle_records env batch s1 [] = Some (None, s2, changes)"
    and sub: "submitChanges env changes s2 = Some (None, s')"
    using assms(2) by (auto simp: Handle_events_def split: prod.splits option.splits)
  have frame: "ep_log s1 = ep_log s" "ep_deletes s1 = ep_deletes s" "ep_queued s1 = ep_queued s"
    using a by (auto simp: refreshAccounts_def populate_accounts_def tick_def split: if_splits sum.splits)
  obtain cs where cs: "ep_log s2 = ep_log s1 @ cs" "changes = foldl add_change [] cs" "list_all well_typed cs"
    "ep_deletes s2 = ep_deletes s1" "ep_queued s2 = ep_queued s1"
    using handle_records_extends [OF h] by (auto simp: extends_def)
  obtain kept where kept: "kept_changes cs kept" "ep_log s' = ep_log s2" "submitted env kept s2 s'"
    using submitChanges_ok [OF assms(1) sub [unfolded cs(2)]] by (auto simp: submitted_def)
  have "new = cs" using assms(3) kept(2) cs(1) frame(1) by simp
  moreover have "submitted env kept s s'" using kept(3) unfolding submitted_def scans_queued_def cs(4,5) frame .
  ultimately show ?thesis using kept(1) cs(3) by blast
qed

text \<open>C13. An invocation that returns without an error has submitted, for every resource and every scan of an account and region that the
  events of its batch asked for, exactly the newest change (by the text of its event time; the first of them, when several have the same time): the
  resources to delete in one request, the scans in one message for each delay, each message acknowledged by
  the queue exactly once. This holds for every order in which Go visits its maps, provided that no two accounts ask for the same
  resource or scan, which the code would confuse, and that the regions are region names.\<close>

theorem Handle_submits_newest:
  assumes "ep_services env" "Handle_events env batch s = Some (None, s')" "ep_log s' = ep_log s @ new"
    and "one_account new" "\<forall>c \<in> set new. region_name (rc_Region c)"
  shows "\<exists>kept. newest_changes new kept \<and> submitted env kept s s'"
  using Handle_submits_kept [OF assms(1-3)] kept_newest assms(4,5) by blast

theorem Handle_submits_newest_witness:
  "\<exists>s' kept. Handle_events sample_ev_env [raw_record ''bucket''] sample_ep_state = Some (None, s') \<and>
     ep_log s' = [sample_change] \<and> newest_changes [sample_change] kept \<and> submitted sample_ev_env kept sample_ep_state s'"
proof -
  have "fst (refreshAccounts sample_ev_env sample_ep_state) = None" by code_simp
  then obtain s1 where ref: "refreshAccounts sample_ev_env sample_ep_state = (None, s1)"
    by (cases "refreshAccounts sample_ev_env sample_ep_state") auto
  obtain s' where run: "Handle_events sample_ev_env [raw_record ''bucket''] sample_ep_state = Some (None, s')"
    and sub: "submitChanges sample_ev_env (foldl add_change [] [sample_change]) (s1\<lparr>ep_ticks := 2, ep_cweAccounts := [(''111/us-east-1'', 1)],
      ep_log := [sample_change]\<rparr>) = Some (None, s')"
    using sample_records sample_submit by (auto simp: Handle_events_def ref sample_add simp del: handle_records.simps foldl_Cons)
  from submitChanges_ok [OF sample_ep_services sub] have log: "ep_log s' = [sample_change]" by auto
  have "ep_log s' = ep_log sample_ep_state @ [sample_change]" using log by (simp add: sample_ep_state_def)
  moreover have "one_account [sample_change]" "\<forall>c \<in> set [sample_change]. region_name (rc_Region c)"
    by (simp_all add: one_account_def region_name_def sample_change_def)
  ultimately show ?thesis using Handle_submits_newest [OF sample_ep_services run] run log by blast
qed

text \<open>C34. The code identifies what changed without the account. Two accounts that ask for a scan of the same service and region in one batch, or for a scan
  of a whole service, have the same key: whatever is submitted, one of the two is not among it, although the invocation returns
  no error.\<close>

theorem scans_of_accounts_collide:
  assumes "ep_services env" "Handle_events env batch s = Some (None, s')" "ep_log s' = ep_log s @ new"
    and "c \<in> set new" "d \<in> set new" "rc_AwsAccountID c \<noteq> rc_AwsAccountID d"
    and "rc_ResourceID c = rc_ResourceID d" "rc_ResourceType c = rc_ResourceType d" "rc_Region c = rc_Region d"
  shows "\<exists>kept. set kept \<subseteq> set new \<and> submitted env kept s s' \<and> (identity c \<notin> identity ` set kept \<or> identity d \<notin> identity ` set kept)"
proof -
  obtain kept where kept: "kept_changes new kept" "submitted env kept s s'" using Handle_submits_kept [OF assms(1-3)] by blast
  have "identity c \<notin> identity ` set kept \<or> identity d \<notin> identity ` set kept"
  proof (rule ccontr)
    assume "\<not> ?thesis"
    then obtain x y where xy: "x \<in> set kept" "y \<in> set kept" "identity x = identity c" "identity y = identity d" by (auto simp: image_iff)
    then have "change_key x = change_key y" using assms(7-9) by (simp add: identity_def change_key_def)
    moreover have "inj_on change_key (set kept)" using kept(1) by (simp add: kept_changes_def distinct_map)
    ultimately have "x = y" using xy by (auto dest: inj_onD)
    with xy assms(6) show False by (simp add: identity_def)
  qed
  moreover have "set kept \<subseteq> set new" using kept(1) newest_in_key by (auto simp: kept_changes_def)
  ultimately show ?thesis using kept(2) by blast
qed

text \<open>A detector is created in two accounts.\<close>

definition sample_gd_env :: "flat_json ev_env" where
  "sample_gd_env = sample_ev_env\<lparr>
     ev_GetJSON := (\<lambda>body path. if path \<noteq> ''detail'' then []
        else (''userIdentity.accountId'', body) # sample_detail ''guardduty.amazonaws.com'' ''CreateDetector'' []),
     ev_ListIntegrations := Inr [\<lparr>si_AWSAccountID = ''111'', si_IntegrationID = ''i1''\<rparr>, \<lparr>si_AWSAccountID = ''222'', si_IntegrationID = ''i2''\<rparr>]\<rparr>"

definition sample_gd_change :: "string \<Rightarrow> string \<Rightarrow> resourceChange" where
  "sample_gd_change account integration = \<lparr>rc_AwsAccountID = account, rc_Delay = 0, rc_Delete = False, rc_EventName = ''CreateDetector'',
     rc_EventTime = ''2020-01-01T00:00:00Z'', rc_IntegrationID = integration, rc_Region = [], rc_ResourceID = [], rc_ResourceType = ''AWS.GuardDuty.Detector''\<rparr>"

lemma sample_gd_records:
  "handle_records sample_gd_env [raw_record ''111'', raw_record ''222''] (snd (refreshAccounts sample_gd_env sample_ep_state)) [] =
     Some (None, (snd (refreshAccounts sample_gd_env sample_ep_state))\<lparr>ep_ticks := 3,
        ep_cweAccounts := [(''111/us-east-1'', 1), (''222/us-east-1'', 2)],
        ep_log := [sample_gd_change ''111'' ''i1'', sample_gd_change ''222'' ''i2'']\<rparr>,
       [(''AWS.GuardDuty.Detector'', sample_gd_change ''111'' ''i1'')])"
  by code_simp

lemma sample_gd_submit:
  "\<exists>s'. submitChanges sample_gd_env [(''AWS.GuardDuty.Detector'', sample_gd_change ''111'' ''i1'')] s = Some (None, s') \<and> ep_log s' = ep_log s"
  by (simp add: submitChanges_def queue_scans_def sample_gd_env_def sample_ev_env_def sample_gd_change_def scan_entry_def StringValue_def sqs_run_simps)

theorem scans_of_accounts_collide_witness:
  "\<exists>s' kept. Handle_events sample_gd_env [raw_record ''111'', raw_record ''222''] sample_ep_state = Some (None, s') \<and>
     submitted sample_gd_env kept sample_ep_state s' \<and>
     (identity (sample_gd_change ''111'' ''i1'') \<notin> identity ` set kept \<or> identity (sample_gd_change ''222'' ''i2'') \<notin> identity ` set kept)"
proof -
  have "fst (refreshAccounts sample_gd_env sample_ep_state) = None" by code_simp
  then obtain s1 where ref: "refreshAccounts sample_gd_env sample_ep_state = (None, s1)"
    by (cases "refreshAccounts sample_gd_env sample_ep_state") auto
  let ?s2 = "s1\<lparr>ep_ticks := 3, ep_cweAccounts := [(''111/us-east-1'', 1), (''222/us-east-1'', 2)],
      ep_log := [sample_gd_change ''111'' ''i1'', sample_gd_change ''222'' ''i2'']\<rparr>"
  obtain s' where sub: "submitChanges sample_gd_env [(''AWS.GuardDuty.Detector'', sample_gd_change ''111'' ''i1'')] ?s2 = Some (None, s')"
    and log: "ep_log s' = ep_log ?s2" using sample_gd_submit by blast
  have run: "Handle_events sample_gd_env [raw_record ''111'', raw_record ''222''] sample_ep_state = Some (None, s')"
    using sample_gd_records sub by (simp add: Handle_events_def ref del: handle_records.simps)
  have services: "ep_services sample_gd_env" using sample_ep_services by (simp add: ep_services_def sample_gd_env_def)
  have "ep_log s' = ep_log sample_ep_state @ [sample_gd_change ''111'' ''i1'', sample_gd_change ''222'' ''i2'']"
    using log by (simp add: sample_ep_state_def)
  from scans_of_accounts_collide [OF services run this, of "sample_gd_change ''111'' ''i1''" "sample_gd_change ''222'' ''i2''"] run
  show ?thesis by (auto simp: sample_gd_change_def)
qed

section \<open>Events and their copies in S3\<close>

lemma cwe_timeout: "time_Sub t u > cweAccountTimeout \<longleftrightarrow> t - u > 15 * 60 * 1000000000"
  by (auto simp: time_Sub_def cweAccountTimeout_def)

text \<open>A line that need not be looked at: an ignored event, or one of an account and region that was seen through CloudWatch Events at most fifteen
  minutes before the readings \<open>T\<close> of the clock.\<close>

definition deferred_line :: "'j ev_env \<Rightarrow> (string, int) amap \<Rightarrow> int set \<Rightarrow> string \<Rightarrow> bool" where
  "deferred_line env seen T line \<longleftrightarrow>
     (case preprocessCloudTrailLog (ev_api env) (gj_Parse (ev_api env) line) of
        Inl _ \<Rightarrow> False
      | Inr None \<Rightarrow> True
      | Inr (Some md) \<Rightarrow> (\<exists>t. map_of seen (generateSourceKey md) = Some t \<and> (\<forall>now \<in> T. now - t \<le> 15 * 60 * 1000000000)))"

lemma s3_line_deferred:
  assumes "deferred_line env (ep_cweAccounts s) T line" "ev_now env (ep_ticks s) \<in> T"
  shows "\<exists>k \<le> 1. s3_line env line s changes = Some (None, s\<lparr>ep_ticks := ep_ticks s + k\<rparr>, changes)"
proof (cases "preprocessCloudTrailLog (ev_api env) (gj_Parse (ev_api env) line)")
  case (Inr m)
  show ?thesis
  proof (cases m)
    case None
    with Inr show ?thesis by (intro exI [of _ 0]) (simp add: s3_line_def)
  next
    case (Some md)
    with Inr assms obtain t where "map_of (ep_cweAccounts s) (generateSourceKey md) = Some t" "\<not> ev_now env (ep_ticks s) - t > 15 * 60 * 1000000000"
      by (auto simp: deferred_line_def)
    with Inr Some show ?thesis by (intro exI [of _ 1]) (simp add: s3_line_def checkCWECache_def tick_def cwe_timeout)
  qed
qed (use assms in \<open>simp add: deferred_line_def\<close>)

lemma s3_loop_deferred:
  assumes "list_all (deferred_line env (ep_cweAccounts s) T) (butlast (stream_lines text))"
    and "\<And>n. ep_ticks s \<le> n \<Longrightarrow> n < ep_ticks s + length (stream_lines text) \<Longrightarrow> ev_now env n \<in> T"
  shows "\<exists>k. s3_loop env text e s changes =
    Some (map_option (\<lambda>e. Wrap e ''unexpected error reading line from s3'') e, s\<lparr>ep_ticks := ep_ticks s + k\<rparr>, changes)"
  using assms
proof (induction "text" arbitrary: s rule: stream_lines.induct)
  case (1 s0)
  obtain line rest where rd: "ReadString s0 = (line, rest)" by (cases "ReadString s0")
  show ?case
  proof (cases rest)
    case None
    with rd show ?thesis by (intro exI [of _ 0]) (simp add: s3_loop.simps [of env s0])
  next
    case (Some rest')
    have lines: "stream_lines s0 = line # stream_lines rest'" using rd Some by (simp add: stream_lines.simps [of s0])
    obtain k where k: "k \<le> 1" "s3_line env line s changes = Some (None, s\<lparr>ep_ticks := ep_ticks s + k\<rparr>, changes)"
      using s3_line_deferred [of env s T line changes] 1(2,3) by (auto simp: lines)
    let ?s = "s\<lparr>ep_ticks := ep_ticks s + k\<rparr>"
    have "list_all (deferred_line env (ep_cweAccounts ?s) T) (butlast (stream_lines rest'))" using 1(2) by (simp add: lines)
    moreover have "ev_now env n \<in> T" if "ep_ticks ?s \<le> n" "n < ep_ticks ?s + length (stream_lines rest')" for n
      using that k(1) by (intro 1(3)) (simp_all add: lines)
    ultimately obtain k' where "s3_loop env rest' e ?s changes =
        Some (map_option (\<lambda>e. Wrap e ''unexpected error reading line from s3'') e, ?s\<lparr>ep_ticks := ep_ticks ?s + k'\<rparr>, changes)"
      using 1(1) [OF rd [symmetric] Some, of ?s] by blast
    then show ?thesis using rd Some k(2) by (intro exI [of _ "k + k'"]) (simp add: s3_loop.simps [of env s0] add.assoc)
  qed
qed

text \<open>C33. An object in S3 whose lines are copies of events of accounts and regions seen through CloudWatch Events: if every complete line is of an
  ignored event or of an account and region seen at most fifteen minutes before any reading of the clock during the download, then
  reading the object asks for no change, and only reads the clock. A line of an account and region seen more than fifteen minutes before is
  processed like one that was never seen, and its entry is cleared.\<close>

theorem s3_defers_to_events:
  assumes "ev_GetObject env bucket key = Inr body" "ev_gunzip env body = Inr stream" "ds_error stream = None"
    and "list_all (deferred_line env (ep_cweAccounts s) T) (butlast (stream_lines (ds_data stream)))"
    and "\<And>n. ep_ticks s \<le> n \<Longrightarrow> n < ep_ticks s + length (stream_lines (ds_data stream)) \<Longrightarrow> ev_now env n \<in> T"
  shows "(\<exists>k. handleS3Download env (bucket, key) s changes = Some (None, s\<lparr>ep_ticks := k\<rparr>, changes)) \<and>
    (\<forall>line md t. preprocessCloudTrailLog (ev_api env) (gj_Parse (ev_api env) line) = Inr (Some md) \<longrightarrow>
       map_of (ep_cweAccounts s) (generateSourceKey md) = Some t \<longrightarrow> ev_now env (ep_ticks s) - t > 15 * 60 * 1000000000 \<longrightarrow>
       (let forgotten = s\<lparr>ep_ticks := Suc (ep_ticks s), ep_cweAccounts := amap_del (generateSourceKey md) (ep_cweAccounts s)\<rparr>
        in s3_line env line s changes = s3_line env line forgotten changes))"
proof -
  have "\<exists>k. handleS3Download env (bucket, key) s changes = Some (None, s\<lparr>ep_ticks := k\<rparr>, changes)"
    using s3_loop_deferred [OF assms(4,5), of None changes] assms(1-3) by (auto simp: handleS3Download_def)
  then show ?thesis
    by (auto simp: s3_line_def checkCWECache_def tick_def cwe_timeout Let_def map_of_amap_del)
qed

definition sample_s3_env :: "flat_json ev_env" where
  "sample_s3_env = sample_ev_env\<lparr>ev_api := sample_ct_api\<lparr>gj_Parse := \<lambda>_. sample_detail ''s3.amazonaws.com'' ''PutBucketAcl'' []\<rparr>,
     ev_GetObject := \<lambda>_ _. Inr ''zip'', ev_gunzip := \<lambda>_. Inr \<lparr>ds_data = ''line'' @ [EventDelimiter], ds_error = None\<rparr>\<rparr>"

text \<open>The account and region of the one line of the object were seen at the first reading of the clock.\<close>

theorem s3_defers_to_events_witness:
  "\<exists>k. handleS3Download sample_s3_env (''bucket'', ''key'') (sample_ep_state\<lparr>ep_ticks := 1, ep_cweAccounts := [(''111/us-east-1'', 0)]\<rparr>) [] =
     Some (None, sample_ep_state\<lparr>ep_cweAccounts := [(''111/us-east-1'', 0)], ep_ticks := k\<rparr>, [])"
proof -
  let ?s = "sample_ep_state\<lparr>ep_ticks := 1, ep_cweAccounts := [(''111/us-east-1'', 0)]\<rparr>"
  let ?stream = "\<lparr>ds_data = ''line'' @ [EventDelimiter], ds_error = None\<rparr>"
  have lines: "stream_lines (ds_data ?stream) = [''line'' @ [EventDelimiter], []]" by code_simp
  have "preprocessCloudTrailLog (ev_api sample_s3_env) (gj_Parse (ev_api sample_s3_env) line) = Inr (Some
      \<lparr>md_region = ''us-east-1'', md_accountID = ''111'', md_eventSource = ''s3.amazonaws.com'', md_eventName = ''PutBucketAcl''\<rparr>)" for line
  proof -
    have "gj_Parse (ev_api sample_s3_env) line = sample_detail ''s3.amazonaws.com'' ''PutBucketAcl'' []" by (simp add: sample_s3_env_def)
    moreover have "preprocessCloudTrailLog (ev_api sample_s3_env) (sample_detail ''s3.amazonaws.com'' ''PutBucketAcl'' []) = Inr (Some
      \<lparr>md_region = ''us-east-1'', md_accountID = ''111'', md_eventSource = ''s3.amazonaws.com'', md_eventName = ''PutBucketAcl''\<rparr>)" by code_simp
    ultimately show ?thesis by simp
  qed
  then have "list_all (deferred_line sample_s3_env (ep_cweAccounts ?s) {0..2}) (butlast (stream_lines (ds_data ?stream)))"
    unfolding lines by (simp add: deferred_line_def generateSourceKey_def)
  moreover have "ev_GetObject sample_s3_env ''bucket'' ''key'' = Inr ''zip''" "ev_gunzip sample_s3_env ''zip'' = Inr ?stream" "ds_error ?stream = None"
    by (simp_all add: sample_s3_env_def)
  moreover have "ev_now sample_s3_env n \<in> {0..2}" if "ep_ticks ?s \<le> n" "n < ep_ticks ?s + length (stream_lines (ds_data ?stream))" for n
    using that unfolding lines by (simp add: sample_s3_env_def sample_ev_env_def)
  ultimately have "\<exists>k. handleS3Download sample_s3_env (''bucket'', ''key'') ?s [] = Some (None, ?s\<lparr>ep_ticks := k\<rparr>, [])"
    using s3_defers_to_events by blast
  then show ?thesis by simp
qed

text \<open>Tagging events are dropped for all services, although the classifiers of KMS, Lambda, DynamoDB,
  GuardDuty and ECS have cases for them: the list of ignored events has \<open>TagResource\<close> and \<open>UntagResource\<close>
  under the heading of one service, but applies to every event.\<close>

theorem tag_events_dropped:
  assumes "gj_Exists (ev_api env) (gj_Get (ev_api env) detail ''eventName'')"
    and "md_eventName md = get_str (ev_api env) detail ''eventName''"
    and "md_eventName md = ''TagResource'' \<or> md_eventName md = ''UntagResource''"
    and "arn_Parse (ev_api env) (get_str (ev_api env) detail ''requestParameters.resource'') = Inr a"
    and "arn_Parse (ev_api env) (get_str (ev_api env) detail ''requestParameters.resourceArn'') = Inr b"
  shows "handleCloudTrail env detail s changes = Some (None, s, changes) \<and>
    classifyGuardDuty detail md \<noteq> [] \<and> classifyLambda (ev_api env) detail md \<noteq> Some [] \<and>
    classifyDynamoDB (ev_api env) detail md \<noteq> []"
proof -
  have "''TagResource'' \<in> set ignoredEvents" "''UntagResource'' \<in> set ignoredEvents"
    by (simp_all add: ignoredEvents_def)
  then have "isIgnoredEvent (get_str (ev_api env) detail ''eventName'')"
    using assms(2,3) by (auto simp: isIgnoredEvent_def)
  then have "handleCloudTrail env detail s changes = Some (None, s, changes)"
    using assms(1) by (simp add: handleCloudTrail_def preprocessCloudTrailLog_def get_str_def)
  moreover have "getLambdaBaseEventName ''TagResource'' = ''TagResource''" "getLambdaBaseEventName ''UntagResource'' = ''UntagResource''"
    by code_simp+
  ultimately show ?thesis using assms(3,4,5)
    by (auto simp: classifyGuardDuty_def classifyLambda_def classifyDynamoDB_def Let_def)
qed

theorem tag_events_dropped_witness:
  "handleCloudTrail (sample_ev_env\<lparr>ev_api := sample_ct_api\<lparr>arn_Parse := \<lambda>_. Inr zero_arn\<rparr>\<rparr>)
     (sample_detail ''dynamodb.amazonaws.com'' ''TagResource'' []) sample_ep_state [] = Some (None, sample_ep_state, [])"
proof -
  let ?env = "sample_ev_env\<lparr>ev_api := sample_ct_api\<lparr>arn_Parse := \<lambda>_. Inr zero_arn\<rparr>\<rparr>"
  let ?d = "sample_detail ''dynamodb.amazonaws.com'' ''TagResource'' []"
  let ?md = "\<lparr>md_region = ''us-east-1'', md_accountID = ''111'', md_eventSource = ''dynamodb.amazonaws.com'', md_eventName = ''TagResource''\<rparr>"
  have "gj_Exists (ev_api ?env) (gj_Get (ev_api ?env) ?d ''eventName'')"
    "md_eventName ?md = get_str (ev_api ?env) ?d ''eventName''"
    by (simp_all add: sample_ct_api_def sample_detail_def get_str_def)
  from tag_events_dropped [OF this] show ?thesis by simp
qed

text \<open>One CloudTrail event that Lambda writes for a new layer version stops the whole batch: it has no function
  name, so that the submatch the classifier indexes does not exist and the handler panics. The queue
  then hands over the same batch again.\<close>

theorem layer_version_panics:
  assumes "preprocessCloudTrailLog (ev_api env) detail = Inr (Some md)"
    and "md_eventSource md = ''lambda.amazonaws.com''" "md_eventName md = ''PublishLayerVersion20181031''"
    and "map_of (ep_accounts s) (md_accountID md) = Some integration"
    and "get_str (ev_api env) detail ''errorCode'' = []"
    and "get_str (ev_api env) detail ''requestParameters.functionName'' = []"
    and "sr_id rec = None" "ev_GetJSON env (sr_Body rec) ''detail'' = detail" "gj_Exists (ev_api env) detail"
  shows "handle_records env (rec # recs) s changes = None"
proof -
  have e: "getLambdaBaseEventName ''PublishLayerVersion20181031'' = ''PublishLayerVersion''" by code_simp
  have "FindStringSubmatch lambdaNameRegex [] 7 = None" by code_simp
  then have "classifyLambda (ev_api env) detail md = None"
    using assms(3,6) by (simp add: classifyLambda_def e)
  moreover have "map_of (classifiers (ev_api env)) (md_eventSource md) = Some (\<lambda>d md. classifyLambda (ev_api env) d md)"
    using assms(2) by (simp add: classifiers_def)
  ultimately have "handleCloudTrail env detail s changes = None"
    using assms(1,4,5) by (simp add: handleCloudTrail_def tick_def processCloudTrailLog_def)
  then show ?thesis using assms(7,8,9) by (simp add: handle_record_def other_record_def Let_def)
qed

theorem layer_version_panics_witness:
  "handle_records sample_ev_env [raw_record ''layer'', raw_record ''bucket'']
     (sample_ep_state\<lparr>ep_accounts := [(''111'', \<lparr>si_AWSAccountID = ''111'', si_IntegrationID = ''i1''\<rparr>)]\<rparr>) [] = None"
proof -
  let ?md = "\<lparr>md_region = ''us-east-1'', md_accountID = ''111'', md_eventSource = ''lambda.amazonaws.com'',
     md_eventName = ''PublishLayerVersion20181031''\<rparr>"
  let ?d = "sample_detail ''lambda.amazonaws.com'' ''PublishLayerVersion20181031'' []"
  have p: "preprocessCloudTrailLog (ev_api sample_ev_env) ?d = Inr (Some ?md)" by code_simp
  show ?thesis
    by (rule layer_version_panics [OF p]) (simp_all add: sample_ev_env_def sample_ct_api_def sample_detail_def get_str_def)
qed

section \<open>Findings\<close>

text \<open>Accounts whose integration was removed stay registered.\<close>

lemma refreshAccounts_keeps:
  assumes "refreshAccounts env s = (err, s')" "map_of (ep_accounts s) a \<noteq> None"
  shows "map_of (ep_accounts s') a \<noteq> None"
proof -
  have keeps: "map_of (foldl (\<lambda>m i. amap_put (si_AWSAccountID i) i m) m is) a \<noteq> None" if "map_of m a \<noteq> None" for m "is"
    using that by (induction "is" arbitrary: m) (simp_all add: amap_simps)
  moreover have "ep_accounts s' = ep_accounts s \<or>
      (\<exists>is. ep_accounts s' = foldl (\<lambda>m i. amap_put (si_AWSAccountID i) i m) (ep_accounts s) is)"
    using assms(1) by (auto simp: refreshAccounts_def populate_accounts_def tick_def split: if_splits sum.splits)
  ultimately show ?thesis using assms(2) by (elim disjE exE) simp_all
qed

text \<open>The change of the other side of a peering connection is not thrown out: it is submitted for the other account
  with the integration of this one.\<close>

lemma peering_foreign_account:
  assumes "map_of (ep_accounts s) (md_accountID md) = Some integration" "md_eventSource md = ''ec2.amazonaws.com''"
    and "md_eventName md = ''AcceptVpcPeeringConnection''" "get_str api detail ''errorCode'' = []"
  shows "\<exists>s' changes'. processCloudTrailLog api detail md s changes = Some (s', changes') \<and>
    (\<exists>c \<in> set (ep_log s'). rc_AwsAccountID c =
       get_str api (gj_Get api detail ''responseElements.vpcPeeringConnection.requesterVpcInfo'') ''ownerId'' \<and>
       rc_IntegrationID c = si_IntegrationID integration)"
  using assms
  by (simp add: processCloudTrailLog_def classifiers_def classifyEC2_def ec2_cases_1_def Let_def stamp_def peering_change_def resource_change_def)

end
