(* ===== verification/Md5.thy ===== *)
theory Md5
  imports Panther_Prelude
begin

text \<open>
  The parts of Go's \<open>crypto/md5\<close> and \<open>encoding/hex\<close> that the program uses: \<open>md5.Sum\<close> (RFC 1321) on
  a string of bytes, and \<open>hex.EncodeToString\<close>. Alert ids are hex strings of MD5 sums.
\<close>

unbundle bit_operations_syntax

type_synonym uint32 = "32 word"

record md5_state =
  md_a :: uint32
  md_b :: uint32
  md_c :: uint32
  md_d :: uint32

definition md5_init :: md5_state where
  "md5_init = \<lparr>md_a = 0x67452301, md_b = 0xefcdab89, md_c = 0x98badcfe, md_d = 0x10325476\<rparr>"

definition md5_K :: "uint32 list" where
  "md5_K =
    [0xd76aa478, 0xe8c7b756, 0x242070db, 0xc1bdceee, 0xf57c0faf, 0x4787c62a, 0xa8304613, 0xfd469501,
     0x698098d8, 0x8b44f7af, 0xffff5bb1, 0x895cd7be, 0x6b901122, 0xfd987193, 0xa679438e, 0x49b40821,
     0xf61e2562, 0xc040b340, 0x265e5a51, 0xe9b6c7aa, 0xd62f105d, 0x02441453, 0xd8a1e681, 0xe7d3fbc8,
     0x21e1cde6, 0xc33707d6, 0xf4d50d87, 0x455a14ed, 0xa9e3e905, 0xfcefa3f8, 0x676f02d9, 0x8d2a4c8a,
     0xfffa3942, 0x8771f681, 0x6d9d6122, 0xfde5380c, 0xa4beea44, 0x4bdecfa9, 0xf6bb4b60, 0xbebfbc70,
     0x289b7ec6, 0xeaa127fa, 0xd4ef3085, 0x04881d05, 0xd9d4d039, 0xe6db99e5, 0x1fa27cf8, 0xc4ac5665,
     0xf4292244, 0x432aff97, 0xab9423a7, 0xfc93a039, 0x655b59c3, 0x8f0ccc92, 0xffeff47d, 0x85845dd1,
     0x6fa87e4f, 0xfe2ce6e0, 0xa3014314, 0x4e0811a1, 0xf7537e82, 0xbd3af235, 0x2ad7d2bb, 0xeb86d391]"

definition md5_shift :: "nat \<Rightarrow> nat" where
  "md5_shift i = (if i < 16 then [7, 12, 17, 22] else if i < 32 then [5, 9, 14, 20]
     else if i < 48 then [4, 11, 16, 23] else [6, 10, 15, 21]) ! (i mod 4)"

text \<open>The round function and the index of the message word of step \<open>i\<close>.\<close>

definition md5_mix :: "nat \<Rightarrow> uint32 \<Rightarrow> uint32 \<Rightarrow> uint32 \<Rightarrow> uint32" where
  "md5_mix i b c d =
     (if i < 16 then (b AND c) OR (NOT b AND d)
      else if i < 32 then (d AND b) OR (NOT d AND c)
      else if i < 48 then b XOR c XOR d
      else c XOR (b OR NOT d))"

definition md5_index :: "nat \<Rightarrow> nat" where
  "md5_index i =
     (if i < 16 then i else if i < 32 then (5 * i + 1) mod 16
      else if i < 48 then (3 * i + 5) mod 16 else (7 * i) mod 16)"

definition rotate_left :: "nat \<Rightarrow> uint32 \<Rightarrow> uint32" where
  "rotate_left n w = push_bit n w OR drop_bit (32 - n) w"

definition md5_step :: "uint32 list \<Rightarrow> md5_state \<Rightarrow> nat \<Rightarrow> md5_state" where
  "md5_step M s i =
     (let f = md5_mix i (md_b s) (md_c s) (md_d s) + md_a s + md5_K ! i + M ! md5_index i
      in \<lparr>md_a = md_d s, md_b = md_b s + rotate_left (md5_shift i) f, md_c = md_b s, md_d = md_c s\<rparr>)"

definition md5_block :: "md5_state \<Rightarrow> uint32 list \<Rightarrow> md5_state" where
  "md5_block s M =
     (let t = foldl (md5_step M) s [0..<64]
      in \<lparr>md_a = md_a s + md_a t, md_b = md_b s + md_b t, md_c = md_c s + md_c t,
          md_d = md_d s + md_d t\<rparr>)"

fun little_endian :: "nat \<Rightarrow> int \<Rightarrow> int list" where
  "little_endian 0 n = []"
| "little_endian (Suc k) n = n mod 256 # little_endian k (n div 256)"

definition md5_pad :: "int list \<Rightarrow> int list" where
  "md5_pad bs = bs @ [128] @ replicate ((119 - length bs mod 64) mod 64) 0 @ little_endian 8 (8 * int (length bs))"

fun words_of_bytes :: "int list \<Rightarrow> uint32 list" where
  "words_of_bytes (a # b # c # d # rest) =
     of_int (a + 256 * (b + 256 * (c + 256 * d))) # words_of_bytes rest"
| "words_of_bytes _ = []"

fun chunks :: "nat \<Rightarrow> 'a list \<Rightarrow> 'a list list" where
  "chunks k [] = []"
| "chunks k (x # xs) = (x # take (k - 1) xs) # chunks k (drop (k - 1) xs)"

definition md5_Sum :: "string \<Rightarrow> int list" where
  "md5_Sum s =
     (let t = foldl md5_block md5_init (chunks 16 (words_of_bytes (md5_pad (map of_char s))))
      in concat (map (\<lambda>w. little_endian 4 (uint w)) [md_a t, md_b t, md_c t, md_d t]))"

definition hex_digit :: "int \<Rightarrow> char" where
  "hex_digit n = (if n < 10 then char_of (48 + n) else char_of (87 + n))"

definition EncodeToString :: "int list \<Rightarrow> string" where
  "EncodeToString bs = concat (map (\<lambda>b. [hex_digit (b div 16), hex_digit (b mod 16)]) bs)"

lemma length_little_endian [simp]: "length (little_endian k n) = k"
  by (induction k n rule: little_endian.induct) simp_all

lemma length_md5_Sum: "length (md5_Sum s) = 16"
  by (simp add: md5_Sum_def Let_def)

lemma length_hex_md5 [simp]: "length (EncodeToString (md5_Sum s)) = 32"
  by (simp add: EncodeToString_def length_concat o_def sum_list_triv length_md5_Sum)

text \<open>Test vectors of RFC 1321.\<close>

lemma md5_empty: "EncodeToString (md5_Sum []) = ''d41d8cd98f00b204e9800998ecf8427e''"
  by code_simp

lemma md5_abc: "EncodeToString (md5_Sum ''abc'') = ''900150983cd24fb0d6963f7d28e17f72''"
  by code_simp

end
