(* ===== verification/Alert_Forwarder.thy ===== *)
theory Alert_Forwarder
  imports Md5
begin

text \<open>
  \<open>log_analysis/alert_forwarder\<close>: reading the change records of the alert deduplication table
  (\<open>forwarder/models.go\<close>), deciding whether an event opens an alert or updates one, storing the alert
  and notifying the delivery queue (\<open>forwarder/forwarder.go\<close>), and the loop over the records of one
  Lambda invocation (\<open>main/lambda.go\<close>).

  The services (the analysis API, DynamoDB, SQS) and the libraries that encode values for them are the
  fields of \<open>fw_env\<close>; the services share a world of type \<open>'w\<close>, observed through the alert table and the
  list of queued messages. \<open>'v\<close> is DynamoDB's type of attribute values. The lookup of a rule is a function of its id and
  version: an answer of the analysis API that changes between two attempts is not modelled.
\<close>

text \<open>A call that may panic. A panic value that is a Go \<open>error\<close> is \<open>PanicError\<close>.\<close>

datatype panic_value = PanicError error | PanicOther string

datatype 'r go_call = Returns 'r | Fails error | Panics panic_value

record AlertDedupEvent =
  RuleID :: string
  RuleVersion :: string
  DeduplicationString :: string
  CreationTime :: int
  UpdateTime :: int
  EventCount :: int
  LogTypes :: "string list"
  GeneratedTitle :: "string option"
  AlertCount :: int

record Rule =
  rule_ID :: string
  rule_DisplayName :: string
  rule_Description :: string
  rule_Runbook :: string
  rule_Severity :: string
  rule_Tags :: "string list"

text \<open>The row of the alerts table.\<close>

record Alert =
  alert_ID :: string
  alert_TimePartition :: string
  alert_Severity :: string
  alert_RuleDisplayName :: "string option"
  alert_Title :: string
  alert_DedupEvent :: AlertDedupEvent

text \<open>The message for the alert delivery (\<open>alert_delivery/models\<close>).\<close>

record DeliveryAlert =
  CreatedAt :: int
  OutputIDs :: "string list"
  PolicyDescription :: "string option"
  PolicyID :: string
  PolicyName :: "string option"
  PolicyVersionID :: "string option"
  Runbook :: "string option"
  Severity :: string
  Tags :: "string list"
  AlertID :: "string option"
  AlertType :: "string option"
  Title :: "string option"

abbreviation RuleType :: string where "RuleType \<equiv> ''RULE''"
abbreviation PolicyType :: string where "PolicyType \<equiv> ''POLICY''"
abbreviation defaultTimePartition :: string where "defaultTimePartition \<equiv> ''defaultPartition''"

type_synonym 'v item = "string \<rightharpoonup> 'v"

record ('w, 'v) fw_env =
  env_GetRule :: "string \<Rightarrow> string \<Rightarrow> error + Rule"
  env_MarshalMap :: "Alert \<Rightarrow> error + 'v item"
  env_S :: "string \<Rightarrow> 'v"
  env_Int64 :: "int \<Rightarrow> 'v"
  env_StringSlice :: "string list \<Rightarrow> 'v"
  env_Time :: "int \<Rightarrow> 'v"
  env_Build :: "(string \<times> 'v) list \<Rightarrow> error option"
  env_PutItem :: "'v item \<Rightarrow> 'w \<Rightarrow> error option \<times> 'w"
  env_UpdateItem :: "'v \<Rightarrow> (string \<times> 'v) list \<Rightarrow> 'w \<Rightarrow> error option \<times> 'w"
  env_MarshalAlert :: "DeliveryAlert \<Rightarrow> error + string"
  env_SendMessage :: "string \<Rightarrow> 'w \<Rightarrow> error option \<times> 'w"

section \<open>forwarder.go\<close>

definition getRuleDisplayName :: "Rule \<Rightarrow> string option" where
  "getRuleDisplayName rule = (if rule_DisplayName rule \<noteq> [] then Some (rule_DisplayName rule) else None)"

definition getAlertTitle :: "Rule \<Rightarrow> AlertDedupEvent \<Rightarrow> string" where
  "getAlertTitle rule alertDedup =
     (case GeneratedTitle alertDedup of
        Some t \<Rightarrow> t
      | None \<Rightarrow> (case getRuleDisplayName rule of Some n \<Rightarrow> n | None \<Rightarrow> rule_ID rule))"

definition alert_key :: "AlertDedupEvent \<Rightarrow> string" where
  "alert_key event = RuleID event @ '':'' @ Itoa (AlertCount event) @ '':'' @ DeduplicationString event"

definition generateAlertID :: "AlertDedupEvent \<Rightarrow> string" where
  "generateAlertID event = EncodeToString (md5_Sum (alert_key event))"

definition getRuleInfo :: "('w, 'v) fw_env \<Rightarrow> AlertDedupEvent \<Rightarrow> error + Rule" where
  "getRuleInfo env event =
     (case env_GetRule env (RuleID event) (RuleVersion event) of
        Inl err \<Rightarrow> Inl (Wrap err (''failed to fetch information for ruleID ['' @ RuleID event @
            ''], version ['' @ RuleVersion event @ '']''))
      | Inr rule \<Rightarrow> Inr rule)"

definition storeNewAlert :: "('w, 'v) fw_env \<Rightarrow> Rule \<Rightarrow> AlertDedupEvent \<Rightarrow> 'w \<Rightarrow> error option \<times> 'w" where
  "storeNewAlert env rule alertDedup w =
     (let alert = \<lparr>alert_ID = generateAlertID alertDedup, alert_TimePartition = defaultTimePartition,
            alert_Severity = rule_Severity rule, alert_RuleDisplayName = getRuleDisplayName rule,
            alert_Title = getAlertTitle rule alertDedup, alert_DedupEvent = alertDedup\<rparr>
      in case env_MarshalMap env alert of
           Inl err \<Rightarrow> (Some (Wrap err ''failed to marshal alert''), w)
         | Inr marshaledAlert \<Rightarrow>
             (case env_PutItem env marshaledAlert w of
                (Some err, w') \<Rightarrow> (Some (Wrap err ''failed to update store alert''), w')
              | (None, w') \<Rightarrow> (None, w')))"

definition alert_notification :: "Rule \<Rightarrow> AlertDedupEvent \<Rightarrow> DeliveryAlert" where
  "alert_notification rule alertDedup =
     \<lparr>CreatedAt = CreationTime alertDedup, OutputIDs = [], PolicyDescription = Some (rule_Description rule),
      PolicyID = RuleID alertDedup, PolicyName = getRuleDisplayName rule,
      PolicyVersionID = Some (RuleVersion alertDedup), Runbook = Some (rule_Runbook rule),
      Severity = rule_Severity rule, Tags = rule_Tags rule, AlertID = Some (generateAlertID alertDedup),
      AlertType = Some RuleType, Title = Some (getAlertTitle rule alertDedup)\<rparr>"

definition sendAlertNotification :: "('w, 'v) fw_env \<Rightarrow> Rule \<Rightarrow> AlertDedupEvent \<Rightarrow> 'w \<Rightarrow> error option \<times> 'w" where
  "sendAlertNotification env rule alertDedup w =
     (case env_MarshalAlert env (alert_notification rule alertDedup) of
        Inl err \<Rightarrow> (Some (Wrap err ''failed to marshal alert notification''), w)
      | Inr msgBody \<Rightarrow>
          (case env_SendMessage env msgBody w of
             (Some err, w') \<Rightarrow> (Some (Wrap err ''failed to send notification''), w')
           | (None, w') \<Rightarrow> (None, w')))"

definition handleNewAlert :: "('w, 'v) fw_env \<Rightarrow> AlertDedupEvent \<Rightarrow> 'w \<Rightarrow> error option \<times> 'w" where
  "handleNewAlert env event w =
     (case getRuleInfo env event of
        Inl err \<Rightarrow> (Some (Wrap err ''failed to get rule information''), w)
      | Inr ruleInfo \<Rightarrow>
          (case storeNewAlert env ruleInfo event w of
             (Some err, w') \<Rightarrow> (Some (Wrap err ''failed to store new alert in DDB''), w')
           | (None, w') \<Rightarrow> sendAlertNotification env ruleInfo event w'))"

definition update_sets :: "('w, 'v) fw_env \<Rightarrow> AlertDedupEvent \<Rightarrow> (string \<times> 'v) list" where
  "update_sets env event =
     [(''eventCount'', env_Int64 env (EventCount event)),
      (''logTypes'', env_StringSlice env (LogTypes event)),
      (''updateTime'', env_Time env (UpdateTime event))]"

definition updateExistingAlert :: "('w, 'v) fw_env \<Rightarrow> AlertDedupEvent \<Rightarrow> 'w \<Rightarrow> error option \<times> 'w" where
  "updateExistingAlert env event w =
     (case env_Build env (update_sets env event) of
        Some err \<Rightarrow> (Some (Wrap err ''failed to build update expression''), w)
      | None \<Rightarrow>
          (case env_UpdateItem env (env_S env (generateAlertID event)) (update_sets env event) w of
             (Some err, w') \<Rightarrow> (Some (Wrap err ''failed to update alert''), w')
           | (None, w') \<Rightarrow> (None, w')))"

definition needToCreateNewAlert :: "AlertDedupEvent option \<Rightarrow> AlertDedupEvent \<Rightarrow> bool" where
  "needToCreateNewAlert old new =
     (case old of None \<Rightarrow> True | Some o' \<Rightarrow> AlertCount o' \<noteq> AlertCount new)"

definition Handle :: "('w, 'v) fw_env \<Rightarrow> AlertDedupEvent option \<Rightarrow> AlertDedupEvent \<Rightarrow> 'w \<Rightarrow> error option \<times> 'w" where
  "Handle env old new w =
     (if needToCreateNewAlert old new then handleNewAlert env new w else updateExistingAlert env new w)"

section \<open>models.go\<close>

text \<open>The accessors of \<open>events.DynamoDBAttributeValue\<close>: they panic on a value of another type.\<close>

record 'a attr_api =
  as_String :: "'a \<Rightarrow> string go_call"
  as_Integer :: "'a \<Rightarrow> int go_call"
  as_StringSet :: "'a \<Rightarrow> string list go_call"

fun bind_call :: "'a go_call \<Rightarrow> ('a \<Rightarrow> 'b go_call) \<Rightarrow> 'b go_call" where
  "bind_call (Returns x) f = f x"
| "bind_call (Fails e) f = Fails e"
| "bind_call (Panics p) f = Panics p"

definition single_quoted :: "string \<Rightarrow> string" where
  "single_quoted s = CHR 0x27 # s @ [CHR 0x27]"

definition getAttribute :: "string \<Rightarrow> (string \<rightharpoonup> 'a) \<Rightarrow> 'a go_call" where
  "getAttribute key inputMap =
     (case inputMap key of
        None \<Rightarrow> Fails (''could not find '' @ single_quoted key @ '' attribute'')
      | Some v \<Rightarrow> Returns v)"

definition getIntegerAttribute :: "'a attr_api \<Rightarrow> string \<Rightarrow> (string \<rightharpoonup> 'a) \<Rightarrow> int go_call" where
  "getIntegerAttribute api key input =
     bind_call (getAttribute key input) (\<lambda>value.
       case as_Integer api value of
         Fails err \<Rightarrow> Fails (Wrap err (''failed to convert attribute '' @ single_quoted key @ '' to integer''))
       | r \<Rightarrow> r)"

definition getOptionalAttribute :: "string \<Rightarrow> (string \<rightharpoonup> 'a) \<Rightarrow> 'a option" where
  "getOptionalAttribute key inputMap = inputMap key"

definition dedup_event_of :: "'a attr_api \<Rightarrow> (string \<rightharpoonup> 'a) \<Rightarrow> AlertDedupEvent go_call" where
  "dedup_event_of api input =
     bind_call (getAttribute ''ruleId'' input) (\<lambda>ruleID.
     bind_call (getAttribute ''ruleVersion'' input) (\<lambda>ruleVersion.
     bind_call (getAttribute ''dedup'' input) (\<lambda>deduplicationString.
     bind_call (getIntegerAttribute api ''alertCount'' input) (\<lambda>alertCount.
     bind_call (getIntegerAttribute api ''alertCreationTime'' input) (\<lambda>alertCreationEpoch.
     bind_call (getIntegerAttribute api ''alertUpdateTime'' input) (\<lambda>alertUpdateEpoch.
     bind_call (getIntegerAttribute api ''eventCount'' input) (\<lambda>eventCount.
     bind_call (getAttribute ''logTypes'' input) (\<lambda>logTypes.
     bind_call (as_String api ruleID) (\<lambda>rid.
     bind_call (as_String api ruleVersion) (\<lambda>rv.
     bind_call (as_String api deduplicationString) (\<lambda>dd.
     bind_call (as_StringSet api logTypes) (\<lambda>lts.
       let result = \<lparr>RuleID = rid, RuleVersion = rv, DeduplicationString = dd,
             CreationTime = alertCreationEpoch, UpdateTime = alertUpdateEpoch, EventCount = eventCount,
             LogTypes = lts, GeneratedTitle = None, AlertCount = alertCount\<rparr>
       in case getOptionalAttribute ''title'' input of
            None \<Rightarrow> Returns result
          | Some generatedTitle \<Rightarrow>
              bind_call (as_String api generatedTitle) (\<lambda>t.
                Returns (result\<lparr>GeneratedTitle := Some t\<rparr>))))))))))))))"

text \<open>The deferred \<open>recover\<close>: a panic with an \<open>error\<close> value becomes that error. For any other value the
  failed type assertion has set \<open>err\<close> to nil, and \<open>errors.Wrap\<close> of nil is nil.\<close>

definition FromDynamodDBAttribute :: "'a attr_api \<Rightarrow> (string \<rightharpoonup> 'a) option \<Rightarrow> error + AlertDedupEvent option" where
  "FromDynamodDBAttribute api input =
     (case input of
        None \<Rightarrow> Inr None
      | Some m \<Rightarrow>
          (case dedup_event_of api m of
             Returns ev \<Rightarrow> Inr (Some ev)
           | Fails err \<Rightarrow> Inl err
           | Panics (PanicError err) \<Rightarrow> Inl err
           | Panics (PanicOther _) \<Rightarrow> Inr None))"

section \<open>lambda.go\<close>

type_synonym 'a change_record = "(string \<rightharpoonup> 'a) option \<times> (string \<rightharpoonup> 'a) option"

fun reporterHandler :: "('w, 'v) fw_env \<Rightarrow> 'a attr_api \<Rightarrow> 'a change_record list \<Rightarrow> 'w \<Rightarrow> error option \<times> 'w" where
  "reporterHandler env api [] w = (None, w)"
| "reporterHandler env api ((oldImage, newImage) # records) w =
     (case FromDynamodDBAttribute api oldImage of
        Inl _ \<Rightarrow> reporterHandler env api records w
      | Inr old \<Rightarrow>
          (case FromDynamodDBAttribute api newImage of
             Inl _ \<Rightarrow> reporterHandler env api records w
           | Inr None \<Rightarrow> reporterHandler env api records w
           | Inr (Some new) \<Rightarrow>
               (case Handle env old new w of
                  (Some err, w') \<Rightarrow>
                    (Some (Wrap err ''encountered issue while handling deduplication event''), w')
                | (None, w') \<Rightarrow> reporterHandler env api records w')))"

section \<open>What the services promise\<close>

text \<open>A write of an item replaces it; an update sets the named attributes of the item with the given
  key and keeps the others, creating the item with its key if there is none; a message that was
  accepted is in the queue. A call that reports an error may or may not have had its effect.\<close>

datatype 'v table_op = Put "'v item" | Update 'v "(string \<times> 'v) list"

definition item_key :: "'v item \<Rightarrow> 'v" where
  "item_key it = the (it ''id'')"

fun op_key :: "'v table_op \<Rightarrow> 'v" where
  "op_key (Put it) = item_key it"
| "op_key (Update k sets) = k"

definition item_or_new :: "'v \<Rightarrow> 'v item option \<Rightarrow> 'v item" where
  "item_or_new k it = (case it of Some m \<Rightarrow> m | None \<Rightarrow> [''id'' \<mapsto> k])"

lemma item_or_new_Some [simp]: "item_or_new k (Some m) = m"
  by (simp add: item_or_new_def)

fun apply_op :: "('v \<rightharpoonup> 'v item) \<Rightarrow> 'v table_op \<Rightarrow> ('v \<rightharpoonup> 'v item)" where
  "apply_op T (Put it) = T(item_key it \<mapsto> it)"
| "apply_op T (Update k sets) = T(k \<mapsto> item_or_new k (T k) ++ map_of sets)"

abbreviation apply_ops :: "('v \<rightharpoonup> 'v item) \<Rightarrow> 'v table_op list \<Rightarrow> ('v \<rightharpoonup> 'v item)" where
  "apply_ops \<equiv> foldl apply_op"

definition did_op :: "('w \<Rightarrow> ('v \<rightharpoonup> 'v item)) \<Rightarrow> ('w \<Rightarrow> string list) \<Rightarrow> 'v table_op
    \<Rightarrow> 'w \<Rightarrow> error option \<times> 'w \<Rightarrow> bool" where
  "did_op table queue oper w r \<longleftrightarrow>
     queue (snd r) = queue w \<and>
     (table (snd r) = apply_op (table w) oper \<or> fst r \<noteq> None \<and> table (snd r) = table w)"

definition did_send :: "('w \<Rightarrow> ('v \<rightharpoonup> 'v item)) \<Rightarrow> ('w \<Rightarrow> string list) \<Rightarrow> string
    \<Rightarrow> 'w \<Rightarrow> error option \<times> 'w \<Rightarrow> bool" where
  "did_send table queue msg w r \<longleftrightarrow>
     table (snd r) = table w \<and>
     (queue (snd r) = queue w @ [msg] \<or> fst r \<noteq> None \<and> queue (snd r) = queue w)"

definition aws_services :: "('w, 'v) fw_env \<Rightarrow> ('w \<Rightarrow> ('v \<rightharpoonup> 'v item)) \<Rightarrow> ('w \<Rightarrow> string list) \<Rightarrow> bool" where
  "aws_services env table queue \<longleftrightarrow>
     (\<forall>alert it. env_MarshalMap env alert = Inr it \<longrightarrow> it ''id'' = Some (env_S env (alert_ID alert))) \<and>
     (\<forall>it w. did_op table queue (Put it) w (env_PutItem env it w)) \<and>
     (\<forall>k sets w. did_op table queue (Update k sets) w (env_UpdateItem env k sets w)) \<and>
     (\<forall>msg w. did_send table queue msg w (env_SendMessage env msg w))"

section \<open>The effects of a record\<close>

text \<open>The table operation and the message of a handled event, as far as the encoders and the analysis
  API give them.\<close>

definition stored_alert :: "Rule \<Rightarrow> AlertDedupEvent \<Rightarrow> Alert" where
  "stored_alert rule ev = \<lparr>alert_ID = generateAlertID ev, alert_TimePartition = defaultTimePartition,
     alert_Severity = rule_Severity rule, alert_RuleDisplayName = getRuleDisplayName rule,
     alert_Title = getAlertTitle rule ev, alert_DedupEvent = ev\<rparr>"

definition event_ops :: "('w, 'v) fw_env \<Rightarrow> AlertDedupEvent option \<Rightarrow> AlertDedupEvent \<Rightarrow> 'v table_op list" where
  "event_ops env old new =
     (if needToCreateNewAlert old new
      then (case env_GetRule env (RuleID new) (RuleVersion new) of
              Inl _ \<Rightarrow> []
            | Inr rule \<Rightarrow> (case env_MarshalMap env (stored_alert rule new) of Inl _ \<Rightarrow> [] | Inr it \<Rightarrow> [Put it]))
      else [Update (env_S env (generateAlertID new)) (update_sets env new)])"

definition event_msgs :: "('w, 'v) fw_env \<Rightarrow> AlertDedupEvent option \<Rightarrow> AlertDedupEvent \<Rightarrow> string list" where
  "event_msgs env old new =
     (if needToCreateNewAlert old new
      then (case env_GetRule env (RuleID new) (RuleVersion new) of
              Inl _ \<Rightarrow> []
            | Inr rule \<Rightarrow> (case env_MarshalAlert env (alert_notification rule new) of Inl _ \<Rightarrow> [] | Inr m \<Rightarrow> [m]))
      else [])"

definition record_event :: "'a attr_api \<Rightarrow> 'a change_record \<Rightarrow> (AlertDedupEvent option \<times> AlertDedupEvent) option" where
  "record_event api rec =
     (case FromDynamodDBAttribute api (fst rec) of
        Inl _ \<Rightarrow> None
      | Inr old \<Rightarrow> (case FromDynamodDBAttribute api (snd rec) of
                      Inl _ \<Rightarrow> None | Inr None \<Rightarrow> None | Inr (Some new) \<Rightarrow> Some (old, new)))"

definition batch_ops :: "('w, 'v) fw_env \<Rightarrow> 'a attr_api \<Rightarrow> 'a change_record list \<Rightarrow> 'v table_op list" where
  "batch_ops env api records = concat (map (\<lambda>(old, new). event_ops env old new) (List.map_filter (record_event api) records))"

definition batch_msgs :: "('w, 'v) fw_env \<Rightarrow> 'a attr_api \<Rightarrow> 'a change_record list \<Rightarrow> string list" where
  "batch_msgs env api records = concat (map (\<lambda>(old, new). event_msgs env old new) (List.map_filter (record_event api) records))"

lemma batch_simps:
  "batch_ops env api [] = []" "batch_msgs env api [] = []"
  "batch_ops env api (r # rs) = (case record_event api r of None \<Rightarrow> [] | Some (old, new) \<Rightarrow> event_ops env old new)
     @ batch_ops env api rs"
  "batch_msgs env api (r # rs) = (case record_event api r of None \<Rightarrow> [] | Some (old, new) \<Rightarrow> event_msgs env old new)
     @ batch_msgs env api rs"
  by (simp_all add: batch_ops_def batch_msgs_def map_filter_simps split: option.splits)

lemma reporterHandler_Cons:
  "reporterHandler env api (r # rs) w =
     (case record_event api r of
        None \<Rightarrow> reporterHandler env api rs w
      | Some (old, new) \<Rightarrow>
          (case Handle env old new w of
             (Some err, w') \<Rightarrow> (Some (Wrap err ''encountered issue while handling deduplication event''), w')
           | (None, w') \<Rightarrow> reporterHandler env api rs w'))"
  by (cases r) (auto simp: record_event_def split: sum.splits option.splits)

lemma handleNewAlert_effects:
  assumes "aws_services env table queue" "handleNewAlert env new w = (r, w')"
    and need: "needToCreateNewAlert old new"
  shows "r = None \<Longrightarrow> table w' = apply_ops (table w) (event_ops env old new) \<and>
      queue w' = queue w @ event_msgs env old new"
    and "r \<noteq> None \<Longrightarrow> (table w' = table w \<or> table w' = apply_ops (table w) (event_ops env old new)) \<and>
      (queue w' = queue w \<or> queue w' = queue w @ event_msgs env old new)"
    and "queue w' \<noteq> queue w \<Longrightarrow> table w' = apply_ops (table w) (event_ops env old new) \<and> event_ops env old new \<noteq> []"
proof -
  have put: "did_op table queue (Put it) w (env_PutItem env it w)" for it w
    using assms(1) by (auto simp: aws_services_def)
  have send: "did_send table queue msg w (env_SendMessage env msg w)" for msg w
    using assms(1) by (auto simp: aws_services_def)
  have goal: "(r = None \<longrightarrow> table w' = apply_ops (table w) (event_ops env old new) \<and>
      queue w' = queue w @ event_msgs env old new) \<and>
    (r \<noteq> None \<longrightarrow> (table w' = table w \<or> table w' = apply_ops (table w) (event_ops env old new)) \<and>
      (queue w' = queue w \<or> queue w' = queue w @ event_msgs env old new)) \<and>
    (queue w' \<noteq> queue w \<longrightarrow> table w' = apply_ops (table w) (event_ops env old new) \<and> event_ops env old new \<noteq> [])"
  proof (cases "env_GetRule env (RuleID new) (RuleVersion new)")
    case (Inl err)
    with assms(2) show ?thesis
      by (auto simp: handleNewAlert_def getRuleInfo_def)
  next
    case rule: (Inr rule)
    show ?thesis
    proof (cases "env_MarshalMap env (stored_alert rule new)")
      case (Inl err)
      with rule assms(2) show ?thesis
        by (auto simp: handleNewAlert_def getRuleInfo_def storeNewAlert_def stored_alert_def Let_def)
    next
      case (Inr it)
      obtain r1 w1 where p: "env_PutItem env it w = (r1, w1)" by (cases "env_PutItem env it w")
      have ops: "event_ops env old new = [Put it]" using need rule Inr by (simp add: event_ops_def)
      note step = rule Inr p assms(2) put [of it w] ops
      show ?thesis
      proof (cases r1)
        case (Some err)
        with step show ?thesis
          by (auto simp: handleNewAlert_def getRuleInfo_def storeNewAlert_def stored_alert_def Let_def did_op_def)
      next
        case None
        with step have w1: "table w1 = apply_ops (table w) (event_ops env old new)" "queue w1 = queue w"
          and s: "sendAlertNotification env rule new w1 = (r, w')"
          by (auto simp: handleNewAlert_def getRuleInfo_def storeNewAlert_def stored_alert_def Let_def did_op_def)
        have "event_msgs env old new =
            (case env_MarshalAlert env (alert_notification rule new) of Inl _ \<Rightarrow> [] | Inr m \<Rightarrow> [m])"
          using need rule by (simp add: event_msgs_def)
        with w1 s ops send [of _ w1] show ?thesis
          by (auto simp: sendAlertNotification_def did_send_def split: sum.splits prod.splits option.splits)
            (metis fst_conv snd_conv option.distinct(1))+
      qed
    qed
  qed
  then show "r = None \<Longrightarrow> table w' = apply_ops (table w) (event_ops env old new) \<and>
      queue w' = queue w @ event_msgs env old new"
    and "r \<noteq> None \<Longrightarrow> (table w' = table w \<or> table w' = apply_ops (table w) (event_ops env old new)) \<and>
      (queue w' = queue w \<or> queue w' = queue w @ event_msgs env old new)"
    and "queue w' \<noteq> queue w \<Longrightarrow> table w' = apply_ops (table w) (event_ops env old new) \<and> event_ops env old new \<noteq> []"
    by auto
qed

lemma updateExistingAlert_effects:
  assumes "aws_services env table queue" "updateExistingAlert env new w = (r, w')"
    and "\<not> needToCreateNewAlert old new"
  shows "queue w' = queue w" "event_msgs env old new = []"
    and "r = None \<Longrightarrow> table w' = apply_ops (table w) (event_ops env old new)"
    and "table w' = table w \<or> table w' = apply_ops (table w) (event_ops env old new)"
proof -
  have upd: "did_op table queue (Update k sets) w (env_UpdateItem env k sets w)" for k sets w
    using assms(1) by (auto simp: aws_services_def)
  show "event_msgs env old new = []" using assms(3) by (simp add: event_msgs_def)
  have "event_ops env old new = [Update (env_S env (generateAlertID new)) (update_sets env new)]"
    using assms(3) by (simp add: event_ops_def)
  with assms(2) upd [of "env_S env (generateAlertID new)" "update_sets env new" w]
  have "queue w' = queue w \<and> (table w' = apply_ops (table w) (event_ops env old new) \<or> r \<noteq> None \<and> table w' = table w)"
    by (auto simp: updateExistingAlert_def did_op_def split: option.splits prod.splits)
  then show "queue w' = queue w" "r = None \<Longrightarrow> table w' = apply_ops (table w) (event_ops env old new)"
    "table w' = table w \<or> table w' = apply_ops (table w) (event_ops env old new)"
    by auto
qed

lemma Handle_effects:
  assumes "aws_services env table queue" "Handle env old new w = (r, w')"
  shows "r = None \<Longrightarrow> table w' = apply_ops (table w) (event_ops env old new) \<and>
      queue w' = queue w @ event_msgs env old new"
    and "r \<noteq> None \<Longrightarrow> (table w' = table w \<or> table w' = apply_ops (table w) (event_ops env old new)) \<and>
      (queue w' = queue w \<or> queue w' = queue w @ event_msgs env old new)"
    and "queue w' \<noteq> queue w \<Longrightarrow> table w' = apply_ops (table w) (event_ops env old new) \<and> event_ops env old new \<noteq> []"
proof -
  show "r = None \<Longrightarrow> table w' = apply_ops (table w) (event_ops env old new) \<and>
      queue w' = queue w @ event_msgs env old new"
    and "r \<noteq> None \<Longrightarrow> (table w' = table w \<or> table w' = apply_ops (table w) (event_ops env old new)) \<and>
      (queue w' = queue w \<or> queue w' = queue w @ event_msgs env old new)"
    and "queue w' \<noteq> queue w \<Longrightarrow> table w' = apply_ops (table w) (event_ops env old new) \<and> event_ops env old new \<noteq> []"
    using assms(2) handleNewAlert_effects [OF assms(1), of new w r w' old]
      updateExistingAlert_effects [OF assms(1), of new w r w' old]
    by (auto simp: Handle_def split: if_splits)
qed

lemma stored_item_key:
  assumes "aws_services env table queue" "env_MarshalMap env (stored_alert rule ev) = Inr it"
  shows "item_key it = env_S env (generateAlertID ev)"
proof -
  have "it ''id'' = Some (env_S env (alert_ID (stored_alert rule ev)))"
    using assms unfolding aws_services_def by blast
  then show ?thesis by (simp add: item_key_def stored_alert_def)
qed

lemma reporterHandler_effects:
  assumes services: "aws_services env table queue"
  shows "reporterHandler env api records w = (r, w') \<Longrightarrow>
    (r = None \<longrightarrow> table w' = apply_ops (table w) (batch_ops env api records) \<and>
       queue w' = queue w @ batch_msgs env api records) \<and>
    (\<exists>n. table w' = apply_ops (table w) (take n (batch_ops env api records))) \<and>
    (\<exists>n. queue w' = queue w @ take n (batch_msgs env api records))"
proof (induction records arbitrary: w)
  case Nil
  then show ?case by (simp add: batch_simps)
next
  case (Cons rec records)
  let ?ops = "batch_ops env api records" and ?msgs = "batch_msgs env api records"
  show ?case
  proof (cases "record_event api rec")
    case None
    with Cons show ?thesis by (simp add: reporterHandler_Cons batch_simps)
  next
    case (Some ev)
    obtain old new where ev: "ev = (old, new)" by (cases ev)
    obtain r1 w1 where h: "Handle env old new w = (r1, w1)" by (cases "Handle env old new w")
    let ?o = "event_ops env old new" and ?m = "event_msgs env old new"
    have batch: "batch_ops env api (rec # records) = ?o @ ?ops" "batch_msgs env api (rec # records) = ?m @ ?msgs"
      using Some ev by (simp_all add: batch_simps)
    show ?thesis
    proof (cases r1)
      case (Some err)
      note eff = Handle_effects(2) [OF services h]
      have "r = Some (Wrap err ''encountered issue while handling deduplication event'') \<and> w' = w1"
        using Cons.prems \<open>record_event api rec = Some ev\<close> ev h Some by (simp add: reporterHandler_Cons)
      moreover have "\<exists>n. table w1 = apply_ops (table w) (take n (?o @ ?ops))"
      proof -
        have "table w1 = apply_ops (table w) (take 0 (?o @ ?ops)) \<or>
            table w1 = apply_ops (table w) (take (length ?o) (?o @ ?ops))" using eff Some by simp
        then show ?thesis by blast
      qed
      moreover have "\<exists>n. queue w1 = queue w @ take n (?m @ ?msgs)"
      proof -
        have "queue w1 = queue w @ take 0 (?m @ ?msgs) \<or>
            queue w1 = queue w @ take (length ?m) (?m @ ?msgs)" using eff Some by simp
        then show ?thesis by blast
      qed
      ultimately show ?thesis by (simp add: batch)
    next
      case None
      note eff = Handle_effects(1) [OF services h None]
      have "reporterHandler env api records w1 = (r, w')"
        using Cons.prems Some ev h None by (simp add: reporterHandler_Cons)
      note IH = Cons.IH [OF this]
      from IH obtain n k where "table w' = apply_ops (table w1) (take n ?ops)" "queue w' = queue w1 @ take k ?msgs"
        by blast
      then have "table w' = apply_ops (table w) (take (length ?o + n) (?o @ ?ops))"
        "queue w' = queue w @ take (length ?m + k) (?m @ ?msgs)"
        using eff by simp_all
      moreover have "r = None \<longrightarrow> table w' = apply_ops (table w) (?o @ ?ops) \<and> queue w' = queue w @ ?m @ ?msgs"
        using IH eff by simp
      ultimately show ?thesis unfolding batch by blast
    qed
  qed
qed

section \<open>Repeating a batch\<close>

definition updated_attrs :: "string list" where
  "updated_attrs = [''eventCount'', ''logTypes'', ''updateTime'']"

text \<open>Two tables that the operations make equal: at every key they are equal already, or an item is
  written there, or both have an item up to the attributes that updates set.\<close>

definition up_to_sets :: "'v \<Rightarrow> 'v item option \<Rightarrow> 'v item option \<Rightarrow> bool" where
  "up_to_sets k a b \<longleftrightarrow>
     (\<forall>name. name \<notin> set updated_attrs \<longrightarrow>
        item_or_new k a name = item_or_new k b name)"

definition sets_three :: "'v table_op \<Rightarrow> bool" where
  "sets_three oper \<longleftrightarrow> (\<forall>k sets. oper = Update k sets \<longrightarrow>
     map fst sets = updated_attrs)"

definition converging :: "'v table_op list \<Rightarrow> ('v \<rightharpoonup> 'v item) \<Rightarrow> ('v \<rightharpoonup> 'v item) \<Rightarrow> bool" where
  "converging ops T T' \<longleftrightarrow>
     (\<forall>k. T k = T' k \<or> (\<exists>it. Put it \<in> set ops \<and> item_key it = k) \<or>
          (\<exists>sets. Update k sets \<in> set ops) \<and> up_to_sets k (T k) (T' k))"

lemma map_of_sets_three:
  "map fst sets = updated_attrs \<Longrightarrow>
   map_of sets name = None \<longleftrightarrow> name \<notin> set updated_attrs"
  using map_of_eq_None_iff [of sets name] by (metis set_map)

lemma update_equalises:
  assumes "up_to_sets k a b" "map fst sets = updated_attrs"
  shows "item_or_new k a ++ map_of sets = item_or_new k b ++ map_of sets"
proof
  fix name
  show "(item_or_new k a ++ map_of sets) name = (item_or_new k b ++ map_of sets) name"
    using assms map_of_sets_three [OF assms(2), of name]
    by (auto simp: up_to_sets_def map_add_def split: option.splits)
qed

lemma apply_op_other: "k \<noteq> op_key oper \<Longrightarrow> apply_op T oper k = T k"
  by (cases oper) simp_all

lemma converging_step:
  assumes "converging (oper # ops) T T'" "sets_three oper"
  shows "converging ops (apply_op T oper) (apply_op T' oper)"
  unfolding converging_def
proof
  fix k
  let ?conv = "apply_op T oper k = apply_op T' oper k \<or> (\<exists>it. Put it \<in> set ops \<and> item_key it = k) \<or>
    (\<exists>sets. Update k sets \<in> set ops) \<and> up_to_sets k (apply_op T oper k) (apply_op T' oper k)"
  show ?conv
  proof (cases "k = op_key oper")
    case False
    have "oper \<noteq> Put it" if "item_key it = k" for it using False that by auto
    moreover have "oper \<noteq> Update k sets" for sets using False by auto
    ultimately show ?thesis
      using assms(1) False unfolding converging_def by (auto simp: apply_op_other)
  next
    case True
    show ?thesis
    proof (cases oper)
      case (Update k' sets)
      with True assms(1) have "T k = T' k \<or> (\<exists>it. Put it \<in> set ops \<and> item_key it = k) \<or> up_to_sets k (T k) (T' k)"
        unfolding converging_def by auto
      with True Update assms(2) update_equalises [of k "T k" "T' k" sets] show ?thesis
        by (auto simp: sets_three_def)
    qed (use True in simp)
  qed
qed

lemma converging_equal:
  "converging ops T T' \<Longrightarrow> \<forall>oper \<in> set ops. sets_three oper \<Longrightarrow> apply_ops T ops = apply_ops T' ops"
proof (induction ops arbitrary: T T')
  case Nil
  then show ?case by (auto simp: converging_def)
next
  case (Cons oper ops)
  then show ?case using converging_step [of oper ops T T'] by simp
qed

lemma up_to_sets_refl: "up_to_sets k a a"
  by (simp add: up_to_sets_def)

lemma converging_refl: "converging ops T T"
  by (simp add: converging_def)

lemma converging_extra:
  assumes "converging ops T T'" "oper \<in> set ops" "\<forall>oper \<in> set ops. sets_three oper"
  shows "converging ops T (apply_op T' oper)"
  unfolding converging_def
proof
  fix k
  show "T k = apply_op T' oper k \<or> (\<exists>it. Put it \<in> set ops \<and> item_key it = k) \<or>
      (\<exists>sets. Update k sets \<in> set ops) \<and> up_to_sets k (T k) (apply_op T' oper k)"
  proof (cases "k = op_key oper")
    case False
    with assms(1) show ?thesis unfolding converging_def by (simp add: apply_op_other)
  next
    case True
    show ?thesis
    proof (cases oper)
      case (Put it)
      with True assms(2) show ?thesis by auto
    next
      case (Update k' sets)
      then have three: "map fst sets = updated_attrs"
        using assms(2,3) by (auto simp: sets_three_def)
      have "up_to_sets k (T k) (T' k) \<Longrightarrow> up_to_sets k (T k) (Some (item_or_new k (T' k) ++ map_of sets))"
        by (simp add: up_to_sets_def map_add_def map_of_sets_three [OF three, THEN iffD2])
      moreover have "up_to_sets k (T k) (T' k) \<or> (\<exists>it. Put it \<in> set ops \<and> item_key it = k)"
        using assms(1) up_to_sets_refl unfolding converging_def by metis
      ultimately show ?thesis using True Update assms(2) by auto
    qed
  qed
qed

lemma converging_extras:
  assumes "converging ops T T'" "set ops' \<subseteq> set ops" "\<forall>oper \<in> set ops. sets_three oper"
  shows "converging ops T (apply_ops T' ops')"
  using assms by (induction ops' arbitrary: T') (auto intro: converging_extra)

lemma batch_sets_three: "\<forall>oper \<in> set (batch_ops env api records). sets_three oper"
proof -
  have "sets_three oper" if "oper \<in> set (event_ops env old new)" for oper old new
    using that by (auto simp: event_ops_def sets_three_def update_sets_def updated_attrs_def split: if_splits sum.splits)
  then show ?thesis by (auto simp: batch_ops_def)
qed

text \<open>Any number of failed runs of a batch: Lambda repeats the batch until a run succeeds.\<close>

inductive attempts :: "('w, 'v) fw_env \<Rightarrow> 'a attr_api \<Rightarrow> 'a change_record list \<Rightarrow> 'w \<Rightarrow> 'w \<Rightarrow> bool"
  for env api records w where
  none: "attempts env api records w w"
| failed: "attempts env api records w w1 \<Longrightarrow> reporterHandler env api records w1 = (Some err, w2) \<Longrightarrow>
    attempts env api records w w2"

lemma attempts_effects:
  assumes services: "aws_services env table queue" and "attempts env api records w w1"
  shows "converging (batch_ops env api records) (table w) (table w1) \<and>
    (\<exists>q. queue w1 = queue w @ q \<and> set q \<subseteq> set (batch_msgs env api records))"
  using assms(2)
proof induction
  case none
  then show ?case by (simp add: converging_refl)
next
  case (failed w1 err w2)
  from reporterHandler_effects [OF services failed.hyps(2)] obtain n k where
    t: "table w2 = apply_ops (table w1) (take n (batch_ops env api records))" and
    q: "queue w2 = queue w1 @ take k (batch_msgs env api records)" by blast
  from failed.IH obtain q' where "queue w1 = queue w @ q'" "set q' \<subseteq> set (batch_msgs env api records)"
    by blast
  with q have "queue w2 = queue w @ (q' @ take k (batch_msgs env api records)) \<and>
      set (q' @ take k (batch_msgs env api records)) \<subseteq> set (batch_msgs env api records)"
    by (auto dest: in_set_takeD)
  moreover have "converging (batch_ops env api records) (table w) (table w2)"
    unfolding t using failed.IH batch_sets_three
    by (intro converging_extras) (auto dest: in_set_takeD)
  ultimately show ?case by blast
qed

section \<open>Concrete services\<close>

text \<open>A table and a queue in memory, whose first \<open>SendMessage\<close> fails, and a change record.\<close>

datatype sample_value = SV string | NV int | LV "string list"

record sample_world =
  sw_table :: "sample_value \<rightharpoonup> sample_value item"
  sw_queue :: "string list"
  sw_calls :: nat

definition sample_rule :: Rule where
  "sample_rule = \<lparr>rule_ID = ''r1'', rule_DisplayName = ''Root login'', rule_Description = [], rule_Runbook = [],
     rule_Severity = ''HIGH'', rule_Tags = []\<rparr>"

definition sample_fw_env :: "(sample_world, sample_value) fw_env" where
  "sample_fw_env = \<lparr>env_GetRule = (\<lambda>_ _. Inr sample_rule),
     env_MarshalMap = (\<lambda>a. Inr [''id'' \<mapsto> SV (alert_ID a), ''title'' \<mapsto> SV (alert_Title a)]),
     env_S = SV, env_Int64 = NV, env_StringSlice = LV, env_Time = NV, env_Build = (\<lambda>_. None),
     env_PutItem = (\<lambda>it w. (None, w\<lparr>sw_table := (sw_table w)(item_key it \<mapsto> it)\<rparr>)),
     env_UpdateItem = (\<lambda>k sets w. (None,
        w\<lparr>sw_table := (sw_table w)(k \<mapsto> item_or_new k (sw_table w k) ++ map_of sets)\<rparr>)),
     env_MarshalAlert = (\<lambda>a. Inr (PolicyID a)),
     env_SendMessage = (\<lambda>m w. if sw_calls w = 0 then (Some ''throttled'', w\<lparr>sw_calls := 1\<rparr>)
        else (None, w\<lparr>sw_queue := sw_queue w @ [m]\<rparr>))\<rparr>"

definition sample_api :: "sample_value attr_api" where
  "sample_api = \<lparr>as_String = (\<lambda>v. case v of SV s \<Rightarrow> Returns s | _ \<Rightarrow> Panics (PanicError ''type'')),
     as_Integer = (\<lambda>v. case v of NV n \<Rightarrow> Returns n | _ \<Rightarrow> Panics (PanicError ''type'')),
     as_StringSet = (\<lambda>v. case v of LV l \<Rightarrow> Returns l | _ \<Rightarrow> Panics (PanicError ''type''))\<rparr>"

definition sample_event :: "int \<Rightarrow> int \<Rightarrow> AlertDedupEvent" where
  "sample_event alertCount events = \<lparr>RuleID = ''r1'', RuleVersion = ''v'', DeduplicationString = ''user'',
     CreationTime = 100, UpdateTime = 100 + events, EventCount = events, LogTypes = [''AWS.CloudTrail''],
     GeneratedTitle = None, AlertCount = alertCount\<rparr>"

definition sample_image :: "AlertDedupEvent \<Rightarrow> string \<rightharpoonup> sample_value" where
  "sample_image ev = [''ruleId'' \<mapsto> SV (RuleID ev), ''ruleVersion'' \<mapsto> SV (RuleVersion ev),
     ''dedup'' \<mapsto> SV (DeduplicationString ev), ''alertCount'' \<mapsto> NV (AlertCount ev),
     ''alertCreationTime'' \<mapsto> NV (CreationTime ev), ''alertUpdateTime'' \<mapsto> NV (UpdateTime ev),
     ''eventCount'' \<mapsto> NV (EventCount ev), ''logTypes'' \<mapsto> LV (LogTypes ev)]"

definition sample_start :: sample_world where
  "sample_start = \<lparr>sw_table = (\<lambda>_. None), sw_queue = [], sw_calls = 0\<rparr>"

lemma sample_services: "aws_services sample_fw_env sw_table sw_queue"
  by (simp add: aws_services_def sample_fw_env_def did_op_def did_send_def)

lemma sample_image_parsed:
  "FromDynamodDBAttribute sample_api (Some (sample_image (sample_event c n))) = Inr (Some (sample_event c n))"
  by (simp add: FromDynamodDBAttribute_def dedup_event_of_def getAttribute_def getIntegerAttribute_def
      getOptionalAttribute_def sample_image_def sample_api_def sample_event_def)

lemmas forwarder_run_simps = Handle_def handleNewAlert_def getRuleInfo_def storeNewAlert_def
  sendAlertNotification_def updateExistingAlert_def needToCreateNewAlert_def sample_fw_env_def

section \<open>Properties\<close>

text \<open>C2. However often a batch of change records fails part way and is repeated, with calls that had
  their effect although they reported an error included, once a run succeeds the alerts table is what a
  single successful run would have made of it; every notification of the batch has been queued after
  the failed attempts, in the order of the records, and nothing but notifications of the batch has been
  queued before that.\<close>

theorem forwarder_retry_safe:
  assumes "aws_services env table queue" "attempts env api records w w1"
    and "reporterHandler env api records w1 = (None, w2)"
  shows "table w2 = apply_ops (table w) (batch_ops env api records) \<and>
    (\<exists>q. queue w2 = queue w @ q @ batch_msgs env api records \<and> set q \<subseteq> set (batch_msgs env api records))"
proof -
  note last = reporterHandler_effects [OF assms(1,3)]
  note before = attempts_effects [OF assms(1,2)]
  have "apply_ops (table w) (batch_ops env api records) = apply_ops (table w1) (batch_ops env api records)"
    using before batch_sets_three by (intro converging_equal) auto
  with last before show ?thesis by auto
qed

theorem forwarder_retry_safe_witness:
  "\<exists>w1 w2. attempts sample_fw_env sample_api [(None, Some (sample_image (sample_event 1 1)))] sample_start w1 \<and>
     w1 \<noteq> sample_start \<and>
     reporterHandler sample_fw_env sample_api [(None, Some (sample_image (sample_event 1 1)))] w1 = (None, w2) \<and>
     sw_table w2 = apply_ops (\<lambda>_. None)
       (batch_ops sample_fw_env sample_api [(None, Some (sample_image (sample_event 1 1)))])"
proof -
  let ?recs = "[(None, Some (sample_image (sample_event 1 1)))]"
  let ?it = "[''id'' \<mapsto> SV (generateAlertID (sample_event 1 1)), ''title'' \<mapsto> SV ''Root login'']"
  define w1 :: sample_world where "w1 = \<lparr>sw_table = [item_key ?it \<mapsto> ?it], sw_queue = [], sw_calls = 1\<rparr>"
  have old: "FromDynamodDBAttribute sample_api None = Inr None" by (simp add: FromDynamodDBAttribute_def)
  have title: "getAlertTitle sample_rule (sample_event 1 1) = ''Root login''"
    by (simp add: getAlertTitle_def getRuleDisplayName_def sample_rule_def sample_event_def)
  have "\<exists>err. reporterHandler sample_fw_env sample_api ?recs sample_start = (Some err, w1)"
    by (simp add: old sample_image_parsed title forwarder_run_simps sample_start_def w1_def)
  then have att: "attempts sample_fw_env sample_api ?recs sample_start w1"
    by (auto intro: attempts.intros)
  have "\<exists>w2. reporterHandler sample_fw_env sample_api ?recs w1 = (None, w2)"
    by (simp add: old sample_image_parsed title forwarder_run_simps w1_def)
  then obtain w2 where run: "reporterHandler sample_fw_env sample_api ?recs w1 = (None, w2)" ..
  have "w1 \<noteq> sample_start" by (simp add: w1_def sample_start_def)
  with forwarder_retry_safe [OF sample_services att run] att run show ?thesis
    by (auto simp: sample_start_def)
qed

text \<open>A notification is only queued for an alert that is stored: if handling an event queues
  something, whether or not it then reports an error, the table holds an alert under the id that the
  notification carries, and nothing else of the table has changed.\<close>

theorem no_notification_without_alert:
  assumes "aws_services env table queue" "Handle env old new w = (r, w')" "queue w' \<noteq> queue w"
  shows "\<exists>rule it msg. env_GetRule env (RuleID new) (RuleVersion new) = Inr rule \<and>
    env_MarshalMap env (stored_alert rule new) = Inr it \<and>
    table w' = (table w)(env_S env (generateAlertID new) \<mapsto> it) \<and>
    env_MarshalAlert env (alert_notification rule new) = Inr msg \<and> queue w' = queue w @ [msg]"
proof -
  note eff = Handle_effects [OF assms(1,2)]
  have t: "table w' = apply_ops (table w) (event_ops env old new)" "event_ops env old new \<noteq> []"
    using eff(3) assms(3) by auto
  have q: "queue w' = queue w @ event_msgs env old new" using eff(1,2) assms(3) by (cases r) auto
  then have msgs: "event_msgs env old new \<noteq> []" using assms(3) by simp
  then obtain rule msg where rule: "needToCreateNewAlert old new"
    "env_GetRule env (RuleID new) (RuleVersion new) = Inr rule"
    "env_MarshalAlert env (alert_notification rule new) = Inr msg" "event_msgs env old new = [msg]"
    by (auto simp: event_msgs_def split: if_splits sum.splits)
  with t(2) obtain it where it: "env_MarshalMap env (stored_alert rule new) = Inr it"
    "event_ops env old new = [Put it]"
    by (auto simp: event_ops_def split: sum.splits)
  have "item_key it = env_S env (generateAlertID new)"
    using stored_item_key [OF assms(1) it(1)] .
  with t(1) q rule it show ?thesis by auto
qed

theorem no_notification_without_alert_witness:
  "\<exists>w'. Handle sample_fw_env None (sample_event 1 1) (sample_start\<lparr>sw_calls := 1\<rparr>) = (None, w') \<and>
     sw_table w' (SV (generateAlertID (sample_event 1 1))) \<noteq> None"
proof -
  let ?w = "sample_start\<lparr>sw_calls := 1\<rparr>"
  obtain w' where run: "Handle sample_fw_env None (sample_event 1 1) ?w = (None, w')" and q: "sw_queue w' \<noteq> sw_queue ?w"
    by (simp add: forwarder_run_simps sample_start_def)
  from no_notification_without_alert [OF sample_services run q] have
    "sw_table w' (SV (generateAlertID (sample_event 1 1))) \<noteq> None"
    by (auto simp: sample_fw_env_def)
  with run show ?thesis by blast
qed

text \<open>The changes of one row of the deduplication table, each record with the image before it.\<close>

fun handle_changes :: "('w, 'v) fw_env \<Rightarrow> AlertDedupEvent option \<Rightarrow> AlertDedupEvent list \<Rightarrow> 'w \<Rightarrow> error option \<times> 'w" where
  "handle_changes env old [] w = (None, w)"
| "handle_changes env old (ev # evs) w =
     (case Handle env old ev w of
        (Some err, w') \<Rightarrow> (Some err, w')
      | (None, w') \<Rightarrow> handle_changes env (Some ev) evs w')"

definition same_alert :: "AlertDedupEvent \<Rightarrow> AlertDedupEvent \<Rightarrow> bool" where
  "same_alert a b \<longleftrightarrow> RuleID a = RuleID b \<and> AlertCount a = AlertCount b \<and>
     DeduplicationString a = DeduplicationString b"

lemma same_alert_id: "same_alert a b \<Longrightarrow> generateAlertID a = generateAlertID b"
  by (simp add: same_alert_def generateAlertID_def alert_key_def)

lemma handle_updates:
  assumes services: "aws_services env table queue"
  shows "list_all (same_alert ev) evs \<Longrightarrow> handle_changes env (Some ev) evs w = (None, w') \<Longrightarrow>
    table w (env_S env (generateAlertID ev)) = Some (it ++ map_of (update_sets env ev)) \<Longrightarrow>
    queue w' = queue w \<and> table w' = (table w)(env_S env (generateAlertID ev) \<mapsto>
      it ++ map_of (update_sets env (last (ev # evs))))"
proof (induction evs arbitrary: ev w)
  case Nil
  then show ?case by (auto simp: fun_eq_iff)
next
  case (Cons e evs)
  have same: "same_alert ev e" and rest: "list_all (same_alert e) evs"
    using Cons.prems(1) by (auto simp: same_alert_def list_all_iff)
  obtain w1 where h: "Handle env (Some ev) e w = (None, w1)" and hc: "handle_changes env (Some e) evs w1 = (None, w')"
    using Cons.prems(2) by (auto split: prod.splits option.splits)
  have no_new: "\<not> needToCreateNewAlert (Some ev) e"
    using same by (simp add: needToCreateNewAlert_def same_alert_def)
  let ?k = "env_S env (generateAlertID e)"
  have "(it ++ map_of (update_sets env ev)) ++ map_of (update_sets env e) = it ++ map_of (update_sets env e)"
    by (auto simp: update_sets_def fun_eq_iff map_add_def)
  then have w1: "queue w1 = queue w" "table w1 = (table w)(?k \<mapsto> it ++ map_of (update_sets env e))"
    using Handle_effects(1) [OF services h] no_new Cons.prems(3) same_alert_id [OF same]
    by (simp_all add: event_ops_def event_msgs_def)
  with Cons.IH [OF rest hc] same_alert_id [OF same] show ?case by (simp add: fun_eq_iff)
qed

text \<open>C9. The life of an alert: an event that opens an alert (there was no row before, or the alert
  counter has moved on), followed by any number of events of the same alert, leaves in the table one
  item for it: the alert as it was created (with its severity, title and creation time), in which only
  the event count, the log types and the update time are those of the last event. No other item is
  touched, and exactly one notification is queued.\<close>

theorem alert_lifecycle:
  assumes "aws_services env table queue" "needToCreateNewAlert old ev" "list_all (same_alert ev) evs" "evs \<noteq> []"
    and "handle_changes env old (ev # evs) w = (None, w')"
  shows "\<exists>rule it msg. env_GetRule env (RuleID ev) (RuleVersion ev) = Inr rule \<and>
    env_MarshalMap env (stored_alert rule ev) = Inr it \<and>
    env_MarshalAlert env (alert_notification rule ev) = Inr msg \<and>
    table w' = (table w)(env_S env (generateAlertID ev) \<mapsto> it ++ map_of (update_sets env (last evs))) \<and>
    queue w' = queue w @ [msg]"
proof -
  obtain e es where evs: "evs = e # es" using assms(4) by (cases evs) auto
  obtain w1 where h: "Handle env old ev w = (None, w1)" and hc: "handle_changes env (Some ev) evs w1 = (None, w')"
    using assms(5) by (auto split: prod.splits option.splits)
  obtain rule where rule: "env_GetRule env (RuleID ev) (RuleVersion ev) = Inr rule"
    using h assms(2) by (auto simp: Handle_def handleNewAlert_def getRuleInfo_def split: sum.splits)
  obtain it where it: "env_MarshalMap env (stored_alert rule ev) = Inr it"
    using h assms(2) rule
    by (cases "env_MarshalMap env (stored_alert rule ev)")
       (auto simp: Handle_def handleNewAlert_def getRuleInfo_def storeNewAlert_def stored_alert_def)
  obtain msg where msg: "env_MarshalAlert env (alert_notification rule ev) = Inr msg"
    using h assms(2) rule
    by (cases "env_MarshalAlert env (alert_notification rule ev)")
       (auto simp: Handle_def handleNewAlert_def getRuleInfo_def sendAlertNotification_def
          split: prod.splits option.splits)
  let ?k = "env_S env (generateAlertID ev)"
  have "item_key it = ?k"
    using stored_item_key [OF assms(1) it] .
  then have w1: "table w1 = (table w)(?k \<mapsto> it)" "queue w1 = queue w @ [msg]"
    using Handle_effects(1) [OF assms(1) h] assms(2) rule it msg by (simp_all add: event_ops_def event_msgs_def)
  have same: "same_alert ev e" "list_all (same_alert e) es"
    using assms(3) evs by (auto simp: same_alert_def list_all_iff)
  obtain w2 where h2: "Handle env (Some ev) e w1 = (None, w2)" and hc2: "handle_changes env (Some e) es w2 = (None, w')"
    using hc evs by (auto split: prod.splits option.splits)
  have "\<not> needToCreateNewAlert (Some ev) e"
    using same(1) by (simp add: needToCreateNewAlert_def same_alert_def)
  then have w2: "table w2 = (table w)(?k \<mapsto> it ++ map_of (update_sets env e))" "queue w2 = queue w @ [msg]"
    using Handle_effects(1) [OF assms(1) h2] w1 same_alert_id [OF same(1)]
    by (simp_all add: event_ops_def event_msgs_def)
  with handle_updates [OF assms(1) same(2) hc2, of it] same_alert_id [OF same(1)]
  have "table w' = (table w)(?k \<mapsto> it ++ map_of (update_sets env (last evs)))" "queue w' = queue w @ [msg]"
    by (simp_all add: evs)
  with rule it msg show ?thesis by blast
qed

theorem alert_lifecycle_witness:
  "\<exists>w' it. handle_changes sample_fw_env (Some (sample_event 1 7)) [sample_event 2 1, sample_event 2 5]
       (sample_start\<lparr>sw_calls := 1\<rparr>) = (None, w') \<and>
     sw_table w' (SV (generateAlertID (sample_event 2 1))) = Some it \<and>
     it ''eventCount'' = Some (NV 5) \<and> length (sw_queue w') = 1"
proof -
  let ?w = "sample_start\<lparr>sw_calls := 1\<rparr>"
  have need: "needToCreateNewAlert (Some (sample_event 1 7)) (sample_event 2 1)"
    and same: "list_all (same_alert (sample_event 2 1)) [sample_event 2 5]"
    by (simp_all add: needToCreateNewAlert_def sample_event_def same_alert_def)
  have "AlertCount (sample_event 2 5) = AlertCount (sample_event 2 1)" by (simp add: sample_event_def)
  then obtain w' where run: "handle_changes sample_fw_env (Some (sample_event 1 7)) [sample_event 2 1, sample_event 2 5] ?w
      = (None, w')"
    using need by (simp add: forwarder_run_simps sample_start_def)
  from alert_lifecycle [OF sample_services need same _ run] obtain it where
    "sw_table w' = (sw_table ?w)(SV (generateAlertID (sample_event 2 1)) \<mapsto>
        it ++ map_of (update_sets sample_fw_env (sample_event 2 5)))" "length (sw_queue w') = 1"
    by (auto simp: sample_fw_env_def sample_start_def)
  then have "sw_table w' (SV (generateAlertID (sample_event 2 1))) =
        Some (it ++ map_of (update_sets sample_fw_env (sample_event 2 5))) \<and>
      (it ++ map_of (update_sets sample_fw_env (sample_event 2 5))) ''eventCount'' = Some (NV 5) \<and>
      length (sw_queue w') = 1"
    by (simp add: update_sets_def sample_fw_env_def sample_event_def map_add_def)
  with run show ?thesis
    by (intro exI [of _ w'] exI [of _ "it ++ map_of (update_sets sample_fw_env (sample_event 2 5))"]) simp
qed

text \<open>The key that is hashed does not determine the alert: a rule id may contain the separator, so
  two different rules with different counters and deduplication strings can share one alert id, and
  the alert of one overwrites the alert of the other.\<close>

theorem alert_id_collision:
  "\<exists>a b. RuleID a \<noteq> RuleID b \<and> AlertCount a \<noteq> AlertCount b \<and>
     DeduplicationString a \<noteq> DeduplicationString b \<and> generateAlertID a = generateAlertID b"
proof -
  let ?ev = "\<lambda>r n d. \<lparr>RuleID = r, RuleVersion = [], DeduplicationString = d, CreationTime = 0, UpdateTime = 0,
    EventCount = 0, LogTypes = [], GeneratedTitle = None, AlertCount = n\<rparr>"
  have "Itoa 1 = ''1''" "Itoa 2 = ''2''" by code_simp+
  then have "alert_key (?ev ''r:1'' 2 ''x'') = alert_key (?ev ''r'' 1 ''2:x'')"
    by (simp add: alert_key_def)
  then have "generateAlertID (?ev ''r:1'' 2 ''x'') = generateAlertID (?ev ''r'' 1 ''2:x'')"
    by (simp add: generateAlertID_def)
  then show ?thesis
    by (intro exI [of _ "?ev ''r:1'' 2 ''x''"] exI [of _ "?ev ''r'' 1 ''2:x''"]) simp
qed

lemma append_colon_inject:
  "CHR '':'' \<notin> set a \<Longrightarrow> CHR '':'' \<notin> set b \<Longrightarrow> a @ CHR '':'' # c = b @ CHR '':'' # d \<Longrightarrow> a = b \<and> c = d"
  by (induction a arbitrary: b) (auto simp: Cons_eq_append_conv append_eq_Cons_conv)

text \<open>For rule ids without a colon the hashed key determines the rule, the counter and the
  deduplication string, whatever the last contains: two such events have the same key exactly when
  they belong to the same alert.\<close>

theorem alert_key_injective:
  assumes "CHR '':'' \<notin> set (RuleID a)" "CHR '':'' \<notin> set (RuleID b)"
  shows "alert_key a = alert_key b \<longleftrightarrow> same_alert a b"
proof
  assume "alert_key a = alert_key b"
  then have "RuleID a = RuleID b \<and> Itoa (AlertCount a) @ '':'' @ DeduplicationString a =
      Itoa (AlertCount b) @ '':'' @ DeduplicationString b"
    using append_colon_inject [OF assms] by (simp add: alert_key_def)
  moreover from this have "Itoa (AlertCount a) = Itoa (AlertCount b) \<and> DeduplicationString a = DeduplicationString b"
    by (intro append_colon_inject) (simp_all add: Itoa_no_colon)
  ultimately show "same_alert a b" by (simp add: same_alert_def)
next
  assume "same_alert a b"
  then show "alert_key a = alert_key b" by (simp add: same_alert_def alert_key_def)
qed

theorem alert_key_injective_witness:
  "alert_key (sample_event 1 1) \<noteq> alert_key (sample_event 2 1) \<and> alert_key (sample_event 1 1) = alert_key (sample_event 1 9)"
  using alert_key_injective [of "sample_event 1 1" "sample_event 2 1"]
    alert_key_injective [of "sample_event 1 1" "sample_event 1 9"]
  by (simp add: sample_event_def same_alert_def)

lemma bind_call_Returns: "bind_call c f = Returns y \<longleftrightarrow> (\<exists>x. c = Returns x \<and> f x = Returns y)"
  by (cases c) simp_all

lemma bind_call_PanicOther: "bind_call c f = Panics (PanicOther p) \<longleftrightarrow>
    c = Panics (PanicOther p) \<or> (\<exists>x. c = Returns x \<and> f x = Panics (PanicOther p))"
  by (cases c) simp_all

text \<open>Reading an image: when the accessors panic only with errors, as those of the Lambda event
  library do, no panic escapes and none is lost. An image gives an event only if each of its eight
  required attributes is present and has its type, and then the fields are their values; every other
  image is an error, and only a missing image gives no event and no error.\<close>

theorem FromDynamodDBAttribute_correct:
  assumes "\<forall>v p. as_String api v \<noteq> Panics (PanicOther p) \<and> as_Integer api v \<noteq> Panics (PanicOther p) \<and>
      as_StringSet api v \<noteq> Panics (PanicOther p)"
    and "FromDynamodDBAttribute api img = Inr r"
  shows "(r = None \<longleftrightarrow> img = None) \<and>
    (\<forall>ev. r = Some ev \<longrightarrow> (\<exists>m. img = Some m \<and>
       (\<exists>v. m ''ruleId'' = Some v \<and> as_String api v = Returns (RuleID ev)) \<and>
       (\<exists>v. m ''ruleVersion'' = Some v \<and> as_String api v = Returns (RuleVersion ev)) \<and>
       (\<exists>v. m ''dedup'' = Some v \<and> as_String api v = Returns (DeduplicationString ev)) \<and>
       (\<exists>v. m ''alertCount'' = Some v \<and> as_Integer api v = Returns (AlertCount ev)) \<and>
       (\<exists>v. m ''alertCreationTime'' = Some v \<and> as_Integer api v = Returns (CreationTime ev)) \<and>
       (\<exists>v. m ''alertUpdateTime'' = Some v \<and> as_Integer api v = Returns (UpdateTime ev)) \<and>
       (\<exists>v. m ''eventCount'' = Some v \<and> as_Integer api v = Returns (EventCount ev)) \<and>
       (\<exists>v. m ''logTypes'' = Some v \<and> as_StringSet api v = Returns (LogTypes ev)) \<and>
       (case m ''title'' of None \<Rightarrow> GeneratedTitle ev = None
        | Some v \<Rightarrow> (\<exists>t. as_String api v = Returns t \<and> GeneratedTitle ev = Some t))))"
proof -
  have attr: "getAttribute key m \<noteq> Panics p" "getAttribute key m = Returns v \<longleftrightarrow> m key = Some v" for key m p v
    by (auto simp: getAttribute_def split: option.splits)
  have int: "getIntegerAttribute api key m = Returns n \<longleftrightarrow> (\<exists>v. m key = Some v \<and> as_Integer api v = Returns n)"
    "getIntegerAttribute api key m \<noteq> Panics (PanicOther p)" for key m n p
    using assms(1)
    by (cases "m key"; force simp: getIntegerAttribute_def getAttribute_def split: go_call.splits)+
  have other: "dedup_event_of api m \<noteq> Panics (PanicOther p)" for m p
    using assms(1)
    by (auto simp: dedup_event_of_def bind_call_PanicOther attr int Let_def split: option.splits)
  show ?thesis
  proof (cases img)
    case None
    with assms(2) show ?thesis by (simp add: FromDynamodDBAttribute_def)
  next
    case (Some m)
    with assms(2) other obtain ev where ev: "dedup_event_of api m = Returns ev" "r = Some ev"
      by (auto simp: FromDynamodDBAttribute_def split: go_call.splits panic_value.splits)
    then show ?thesis
      by (auto simp: Some dedup_event_of_def bind_call_Returns attr int Let_def getOptionalAttribute_def
          split: option.splits)
  qed
qed

theorem FromDynamodDBAttribute_correct_witness:
  "FromDynamodDBAttribute sample_api (Some (sample_image (sample_event 3 4))) = Inr (Some (sample_event 3 4)) \<and>
   (\<exists>v. sample_image (sample_event 3 4) ''ruleId'' = Some v \<and> as_String sample_api v = Returns ''r1'')"
proof -
  have "\<forall>v p. as_String sample_api v \<noteq> Panics (PanicOther p) \<and> as_Integer sample_api v \<noteq> Panics (PanicOther p) \<and>
      as_StringSet sample_api v \<noteq> Panics (PanicOther p)"
    by (auto simp: sample_api_def split: sample_value.splits)
  note sample = FromDynamodDBAttribute_correct [OF this sample_image_parsed, of 3 4]
  have "RuleID (sample_event 3 4) = ''r1''" by (simp add: sample_event_def)
  with sample sample_image_parsed [of 3 4] show ?thesis by fastforce
qed

end
