(* ===== verification/Alert_Outputs.thy ===== *)
theory Alert_Outputs
  imports Alert_Forwarder Go_Strings
begin

text \<open>
  \<open>core/alert_delivery/outputs\<close>: the texts of an alert (\<open>outputs.go\<close>), posting JSON to an endpoint
  (\<open>post.go\<close>) and the nine kinds of outputs, from the alert and the configuration to the request that is
  sent and the outcome that is reported.

  JSON values are trees, an object keeping the order in which its members are written here. The encoder, the
  HTTP client, SNS and SQS, the parser of ARNs and the checks of \<open>http.NewRequest\<close> are the fields of
  \<open>output_env\<close>. Times are printed for UTC. The SQS and SNS clients are
  functions of the region: the maps that keep one client per region, and the unsynchronised access of the goroutines to them, are left out. A nil dereference is a panic (\<open>SendPanics\<close>): the configuration of
  another output type, or a rule alert without an alert id.
\<close>

datatype json = JNull | JStr string | JBool bool | JArr "json list" | JObj "(string \<times> json) list"

record AlertDeliveryError =
  Message :: string
  Permanent_error :: bool

text \<open>A call of an output client: its result, or a panic.\<close>

datatype send_outcome = SendReturns "AlertDeliveryError option" | SendPanics

record PostInput =
  pi_url :: string
  pi_body :: json
  pi_headers :: "(string, string) amap"

record http_request =
  hr_method :: string
  hr_url :: string
  hr_payload :: string
  hr_headers :: "(string, string) amap"

record http_response =
  hs_code :: int
  hs_status :: string
  hs_body :: string

record output_env =
  oe_policyURLPrefix :: string
  oe_alertURLPrefix :: string
  oe_marshal :: "json \<Rightarrow> error + string"
  oe_newRequest :: "string \<Rightarrow> error option"
  oe_Do :: "http_request \<Rightarrow> error + http_response"
  oe_arnRegion :: "string \<Rightarrow> error + string"
  oe_Publish :: "string \<Rightarrow> string \<Rightarrow> string \<Rightarrow> string \<Rightarrow> error option" \<comment> \<open>region, topic, message, subject\<close>
  oe_SendMessage :: "string \<Rightarrow> string \<Rightarrow> string \<Rightarrow> error option" \<comment> \<open>region, queue, body\<close>

abbreviation newline :: char where "newline \<equiv> CHR 0x0A"
abbreviation AuthorizationHTTPHeader :: string where "AuthorizationHTTPHeader \<equiv> ''Authorization''"

section \<open>Texts\<close>

definition getDisplayName :: "DeliveryAlert \<Rightarrow> string" where
  "getDisplayName alert =
     (if StringValue (PolicyName alert) \<noteq> [] then the (PolicyName alert) else PolicyID alert)"

definition generateAlertMessage :: "DeliveryAlert \<Rightarrow> string" where
  "generateAlertMessage alert =
     (if StringValue (AlertType alert) = RuleType then getDisplayName alert @ '' failed''
      else getDisplayName alert @ '' failed on new resources'')"

definition generateAlertTitle :: "DeliveryAlert \<Rightarrow> string" where
  "generateAlertTitle alert =
     (case Title alert of
        Some t \<Rightarrow> ''New Alert: '' @ t
      | None \<Rightarrow> (if StringValue (AlertType alert) = RuleType then ''New Alert: '' @ getDisplayName alert
                 else ''Policy Failure: '' @ getDisplayName alert))"

definition generateURL :: "output_env \<Rightarrow> DeliveryAlert \<Rightarrow> string option" where
  "generateURL env alert =
     (if StringValue (AlertType alert) = RuleType
      then map_option (\<lambda>aid. oe_alertURLPrefix env @ aid) (AlertID alert)
      else Some (oe_policyURLPrefix env @ PolicyID alert))"

definition generateDetailedAlertMessage :: "output_env \<Rightarrow> DeliveryAlert \<Rightarrow> string option" where
  "generateDetailedAlertMessage env alert =
     map_option (\<lambda>url. generateAlertMessage alert @ [newline] @ ''For more details please visit: '' @ url @
         [newline] @ ''Severity: '' @ Severity alert @ [newline] @ ''Runbook: '' @ StringValue (Runbook alert) @
         [newline] @ ''Description:'' @ StringValue (PolicyDescription alert)) (generateURL env alert)"

section \<open>Standard library: dates and base64\<close>

definition civil_from_days :: "int \<Rightarrow> int \<times> int \<times> int" where
  "civil_from_days days =
     (let z = days + 719468; era = z div 146097; doe = z mod 146097;
          yoe = (doe - doe div 1460 + doe div 36524 - doe div 146096) div 365;
          doy = doe - (365 * yoe + yoe div 4 - yoe div 100);
          mp = (5 * doy + 2) div 153;
          d = doy - (153 * mp + 2) div 5 + 1;
          m = (if mp < 10 then mp + 3 else mp - 9);
          y = yoe + era * 400 + (if m \<le> 2 then 1 else 0)
      in (y, m, d))"

definition pad :: "nat \<Rightarrow> int \<Rightarrow> string" where
  "pad w n = (let s = Itoa n in replicate (w - length s) (CHR ''0'') @ s)"

text \<open>\<open>Time.Format(time.RFC3339)\<close> of a time in UTC, given in nanoseconds since 1970.\<close>

definition Format_RFC3339 :: "int \<Rightarrow> string" where
  "Format_RFC3339 t =
     (let secs = t div 1000000000; days = secs div 86400; r = secs mod 86400
      in case civil_from_days days of (y, m, d) \<Rightarrow>
           pad 4 y @ ''-'' @ pad 2 m @ ''-'' @ pad 2 d @ ''T'' @ pad 2 (r div 3600) @ '':'' @
           pad 2 (r mod 3600 div 60) @ '':'' @ pad 2 (r mod 60) @ ''Z'')"

definition base64_char :: "nat \<Rightarrow> char" where
  "base64_char n =
     (if n < 26 then char_of (65 + n) else if n < 52 then char_of (71 + n)
      else if n < 62 then char_of (n - 4) else if n = 62 then CHR ''+'' else CHR ''/'')"

fun base64 :: "nat list \<Rightarrow> string" where
  "base64 [] = []"
| "base64 [a] = [base64_char (a div 4), base64_char (a mod 4 * 16), CHR ''='', CHR ''='']"
| "base64 [a, b] = [base64_char (a div 4), base64_char (a mod 4 * 16 + b div 16), base64_char (b mod 16 * 4), CHR ''='']"
| "base64 (a # b # c # rest) =
     [base64_char (a div 4), base64_char (a mod 4 * 16 + b div 16),
      base64_char (b mod 16 * 4 + c div 64), base64_char (c mod 64)] @ base64 rest"

definition base64_EncodeToString :: "string \<Rightarrow> string" where
  "base64_EncodeToString s = base64 (map of_char s)"

section \<open>post.go\<close>

definition post_request :: "PostInput \<Rightarrow> string \<Rightarrow> http_request" where
  "post_request input payload =
     \<lparr>hr_method = ''POST'', hr_url = pi_url input, hr_payload = payload,
      hr_headers = foldl (\<lambda>h (k, v). amap_put k v h)
        [(''Content-Type'', ''application/json''), (''Accept'', ''application/json'')] (pi_headers input)\<rparr>"

definition post :: "output_env \<Rightarrow> PostInput \<Rightarrow> AlertDeliveryError option" where
  "post env input =
     (case oe_marshal env (pi_body input) of
        Inl err \<Rightarrow> Some \<lparr>Message = ''json marshal error: '' @ err, Permanent_error = True\<rparr>
      | Inr payload \<Rightarrow>
          (case oe_newRequest env (pi_url input) of
             Some err \<Rightarrow> Some \<lparr>Message = ''http request error: '' @ err, Permanent_error = True\<rparr>
           | None \<Rightarrow>
               (case oe_Do env (post_request input payload) of
                  Inl err \<Rightarrow> Some \<lparr>Message = ''network error: '' @ err, Permanent_error = False\<rparr>
                | Inr response \<Rightarrow>
                    (if hs_code response < 200 \<or> hs_code response > 299
                     then Some \<lparr>Message = ''request failed: '' @ hs_status response @ '': '' @ hs_body response,
                                Permanent_error = False\<rparr>
                     else None))))"

text \<open>A body that may need the address of the alert.\<close>

definition post_with_url :: "output_env \<Rightarrow> DeliveryAlert \<Rightarrow> (string \<Rightarrow> PostInput) \<Rightarrow> send_outcome" where
  "post_with_url env alert input =
     (case generateURL env alert of None \<Rightarrow> SendPanics | Some url \<Rightarrow> SendReturns (post env (input url)))"

section \<open>The outputs\<close>

definition severityColors :: "string \<Rightarrow> string" where
  "severityColors s = (if s = ''CRITICAL'' then ''#425a70'' else if s = ''HIGH'' then ''#cb2e2e''
     else if s = ''MEDIUM'' then ''#d9822b'' else if s = ''LOW'' then ''#f7d154''
     else if s = ''INFO'' then ''#47b881'' else [])"

definition Slack :: "output_env \<Rightarrow> DeliveryAlert \<Rightarrow> string \<Rightarrow> send_outcome" where
  "Slack env alert webhookURL =
     post_with_url env alert (\<lambda>url.
       \<lparr>pi_url = webhookURL,
        pi_body = JObj [(''attachments'', JArr [JObj
          [(''fallback'', JStr (generateAlertTitle alert)),
           (''color'', JStr (severityColors (Severity alert))),
           (''title'', JStr (generateAlertTitle alert)),
           (''fields'', JArr
             [JObj [(''value'', JStr (''<'' @ url @ ''|Click here to view in the Panther UI>'')), (''short'', JBool False)],
              JObj [(''title'', JStr ''Runbook''), (''value'', JStr (StringValue (Runbook alert))), (''short'', JBool False)],
              JObj [(''title'', JStr ''Severity''), (''value'', JStr (Severity alert)), (''short'', JBool True)]])]])],
        pi_headers = []\<rparr>)"

definition pantherSeverityToPagerDuty :: "string \<Rightarrow> AlertDeliveryError + string" where
  "pantherSeverityToPagerDuty severity =
     (if severity = ''INFO'' \<or> severity = ''LOW'' then Inr ''info''
      else if severity = ''MEDIUM'' then Inr ''warning''
      else if severity = ''HIGH'' then Inr ''error''
      else if severity = ''CRITICAL'' then Inr ''critical''
      else Inl \<lparr>Message = ''unknown severity'' @ severity, Permanent_error = False\<rparr>)"

definition PagerDuty :: "output_env \<Rightarrow> DeliveryAlert \<Rightarrow> string \<Rightarrow> send_outcome" where
  "PagerDuty env alert integrationKey =
     (case pantherSeverityToPagerDuty (Severity alert) of
        Inl err \<Rightarrow> SendReturns (Some err)
      | Inr severity \<Rightarrow>
          SendReturns (post env
            \<lparr>pi_url = ''https://events.pagerduty.com/v2/enqueue'',
             pi_body = JObj
               [(''payload'', JObj
                  [(''summary'', JStr (generateAlertTitle alert)),
                   (''severity'', JStr severity),
                   (''timestamp'', JStr (Format_RFC3339 (CreatedAt alert))),
                   (''source'', JStr ''pantherlabs''),
                   (''custom_details'', JObj
                      [(''description'', JStr (StringValue (PolicyDescription alert))),
                       (''runbook'', JStr (StringValue (Runbook alert)))])]),
                (''routing_key'', JStr integrationKey),
                (''event_action'', JStr ''trigger'')],
             pi_headers = []\<rparr>))"

definition Github :: "output_env \<Rightarrow> DeliveryAlert \<Rightarrow> string \<Rightarrow> string \<Rightarrow> send_outcome" where
  "Github env alert repoName token =
     post_with_url env alert (\<lambda>url.
       \<lparr>pi_url = ''https://api.github.com/repos/'' @ repoName @ ''/issues'',
        pi_body = JObj
          [(''title'', JStr (generateAlertTitle alert)),
           (''body'', JStr (''**Description:** '' @ StringValue (PolicyDescription alert) @
              [newline] @ '' [Click here to view in the Panther UI]('' @ url @ '')'' @
              [newline] @ '' **Runbook:** '' @ StringValue (Runbook alert) @
              [newline] @ '' **Severity:** '' @ Severity alert @
              [newline] @ '' **Tags:** '' @ strings_Join '', '' (Tags alert)))],
        pi_headers = [(AuthorizationHTTPHeader, ''token '' @ token)]\<rparr>)"

record JiraConfig =
  jc_OrgDomain :: string
  jc_ProjectKey :: string
  jc_UserName :: string
  jc_APIKey :: string
  jc_AssigneeID :: "string option"
  jc_Type :: "string option"

definition Jira :: "output_env \<Rightarrow> DeliveryAlert \<Rightarrow> JiraConfig \<Rightarrow> send_outcome" where
  "Jira env alert config =
     post_with_url env alert (\<lambda>url.
       \<lparr>pi_url = jc_OrgDomain config @ ''/rest/api/latest/issue/'',
        pi_body = JObj [(''fields'', JObj (
          [(''summary'', JStr (generateAlertTitle alert)),
           (''description'', JStr (''*Description:* '' @ StringValue (PolicyDescription alert) @
              [newline] @ '' [Click here to view in the Panther UI]('' @ url @ '')'' @
              [newline] @ '' *Runbook:* '' @ StringValue (Runbook alert) @
              [newline] @ '' *Severity:* '' @ Severity alert @
              [newline] @ '' *Tags:* '' @ strings_Join '', '' (Tags alert))),
           (''project'', JObj [(''key'', JStr (jc_ProjectKey config))]),
           (''issuetype'', JObj [(''name'', (case jc_Type config of None \<Rightarrow> JNull | Some t \<Rightarrow> JStr t))])] @
          (if StringValue (jc_AssigneeID config) \<noteq> []
           then [(''assignee'', JObj [(''id'', JStr (the (jc_AssigneeID config)))])] else [])))],
        pi_headers = [(AuthorizationHTTPHeader,
          ''Basic '' @ base64_EncodeToString (jc_UserName config @ '':'' @ jc_APIKey config))]\<rparr>)"

definition Asana :: "output_env \<Rightarrow> DeliveryAlert \<Rightarrow> string option \<Rightarrow> string list \<Rightarrow> send_outcome" where
  "Asana env alert personalAccessToken projectGids =
     (case generateDetailedAlertMessage env alert of
        None \<Rightarrow> SendPanics
      | Some notes \<Rightarrow>
          SendReturns (post env
            \<lparr>pi_url = ''https://app.asana.com/api/1.0/tasks'',
             pi_body = JObj [(''data'', JObj
               [(''name'', JStr (generateAlertTitle alert)),
                (''projects'', JArr (map JStr projectGids)),
                (''notes'', JStr notes)])],
             pi_headers = [(AuthorizationHTTPHeader, ''Bearer '' @ StringValue personalAccessToken)]\<rparr>))"

definition MsTeams_body :: "output_env \<Rightarrow> DeliveryAlert \<Rightarrow> string \<Rightarrow> json" where
  "MsTeams_body env alert url =
     JObj
       [(''@context'', JStr ''http://schema.org/extensions''),
        (''@type'', JStr ''MessageCard''),
        (''text'', JStr (generateAlertTitle alert)),
        (''sections'', JArr [JObj
           [(''facts'', JArr
              [JObj [(''name'', JStr ''Description''), (''value'', JStr (StringValue (PolicyDescription alert)))],
               JObj [(''name'', JStr ''Runbook''), (''value'', JStr (StringValue (Runbook alert)))],
               JObj [(''name'', JStr ''Severity''), (''value'', JStr (Severity alert))],
               JObj [(''name'', JStr ''Tags''), (''value'', JStr (strings_Join '', '' (Tags alert)))]]),
            (''text'', JStr (''[Click here to view in the Panther UI]('' @ oe_policyURLPrefix env @ PolicyID alert @
               '').'' @ [newline]))]]),
        (''potentialAction'', JArr [JObj
           [(''@type'', JStr ''OpenUri''),
            (''name'', JStr ''Click here to view in the Panther UI''),
            (''targets'', JArr [JObj [(''os'', JStr ''default''), (''uri'', JStr url)]])]])]"

definition MsTeams :: "output_env \<Rightarrow> DeliveryAlert \<Rightarrow> string \<Rightarrow> send_outcome" where
  "MsTeams env alert webhookURL =
     post_with_url env alert (\<lambda>url.
       \<lparr>pi_url = webhookURL, pi_body = MsTeams_body env alert url, pi_headers = []\<rparr>)"

definition pantherToOpsGeniePriority :: "string \<Rightarrow> string" where
  "pantherToOpsGeniePriority s = (if s = ''CRITICAL'' then ''P1'' else if s = ''HIGH'' then ''P2''
     else if s = ''MEDIUM'' then ''P3'' else if s = ''LOW'' then ''P4'' else if s = ''INFO'' then ''P5'' else [])"

definition Opsgenie :: "output_env \<Rightarrow> DeliveryAlert \<Rightarrow> string \<Rightarrow> send_outcome" where
  "Opsgenie env alert apiKey =
     post_with_url env alert (\<lambda>url.
       \<lparr>pi_url = ''https://api.opsgenie.com/v2/alerts'',
        pi_body = JObj
          [(''message'', JStr (generateAlertTitle alert)),
           (''description'', JStr (''<strong>Description:</strong> '' @ StringValue (PolicyDescription alert) @
              [newline] @ ''<a href='' @ [CHR 0x22] @ url @ [CHR 0x22] @ ''>Click here to view in the Panther UI</a>'' @
              [newline] @ '' <strong>Runbook:</strong> '' @ StringValue (Runbook alert) @
              [newline] @ '' <strong>Severity:</strong> '' @ Severity alert)),
           (''tags'', JArr (map JStr (Tags alert))),
           (''priority'', JStr (pantherToOpsGeniePriority (Severity alert)))],
        pi_headers = [(AuthorizationHTTPHeader, ''GenieKey '' @ apiKey)]\<rparr>)"

text \<open>The message for SNS and SQS: a nil pointer and an empty list are left out where the field says so.\<close>

definition opt_member :: "string \<Rightarrow> string option \<Rightarrow> (string \<times> json) list" where
  "opt_member k v = (case v of None \<Rightarrow> [] | Some s \<Rightarrow> [(k, JStr s)])"

definition sqsOutputMessage :: "DeliveryAlert \<Rightarrow> json" where
  "sqsOutputMessage alert = JObj (
     [(''id'', JStr (PolicyID alert))] @ opt_member ''name'' (PolicyName alert) @
     opt_member ''versionId'' (PolicyVersionID alert) @ opt_member ''description'' (PolicyDescription alert) @
     opt_member ''runbook'' (Runbook alert) @ [(''severity'', JStr (Severity alert))] @
     (if Tags alert = [] then [] else [(''tags'', JArr (map JStr (Tags alert)))]))"

definition Sns :: "output_env \<Rightarrow> DeliveryAlert \<Rightarrow> string \<Rightarrow> send_outcome" where
  "Sns env alert topicArn =
     (case oe_marshal env (sqsOutputMessage alert) of
        Inl _ \<Rightarrow> SendReturns (Some \<lparr>Message = ''Failed to serialize default message'', Permanent_error = True\<rparr>)
      | Inr serializedDefaultMessage \<Rightarrow>
          (case generateDetailedAlertMessage env alert of
             None \<Rightarrow> SendPanics
           | Some emailMessage \<Rightarrow>
               (case oe_marshal env (JObj [(''default'', JStr serializedDefaultMessage), (''email'', JStr emailMessage)]) of
                  Inl _ \<Rightarrow> SendReturns (Some \<lparr>Message = ''Failed to serialize message'', Permanent_error = True\<rparr>)
                | Inr serializedMessage \<Rightarrow>
                    (case oe_arnRegion env topicArn of
                       Inl _ \<Rightarrow> SendReturns (Some \<lparr>Message = ''Failed to create SNS client for topic'', Permanent_error = True\<rparr>)
                     | Inr region \<Rightarrow>
                         (case oe_Publish env region topicArn serializedMessage (generateAlertTitle alert) of
                            Some _ \<Rightarrow> SendReturns (Some \<lparr>Message = ''Failed to send message to SNS topic'', Permanent_error = False\<rparr>)
                          | None \<Rightarrow> SendReturns None)))))"

text \<open>The region of a queue: the part of its URL between the first two dots. \<open>None\<close> is the index panic.\<close>

definition sqs_region :: "string \<Rightarrow> string option" where
  "sqs_region queueURL = (case split_on (CHR ''.'') queueURL of _ # region # _ \<Rightarrow> Some region | _ \<Rightarrow> None)"

definition Sqs :: "output_env \<Rightarrow> DeliveryAlert \<Rightarrow> string \<Rightarrow> send_outcome" where
  "Sqs env alert queueURL =
     (case oe_marshal env (sqsOutputMessage alert) of
        Inl _ \<Rightarrow> SendReturns (Some \<lparr>Message = ''Failed to serialize message'', Permanent_error = False\<rparr>)
      | Inr serializedMessage \<Rightarrow>
          (case sqs_region queueURL of
             None \<Rightarrow> SendPanics
           | Some region \<Rightarrow>
               (case oe_SendMessage env region queueURL serializedMessage of
                  Some _ \<Rightarrow> SendReturns (Some \<lparr>Message = ''Failed to send message to SQS queue'', Permanent_error = False\<rparr>)
                | None \<Rightarrow> SendReturns None)))"

text \<open>The configuration of an output, and the call that \<open>send\<close> makes for its type.\<close>

record OutputConfig =
  oc_Slack :: "string option"
  oc_Sns :: "string option"
  oc_PagerDuty :: "string option"
  oc_Github :: "(string \<times> string) option"
  oc_Jira :: "JiraConfig option"
  oc_Opsgenie :: "string option"
  oc_MsTeams :: "string option"
  oc_Sqs :: "string option"
  oc_Asana :: "(string option \<times> string list) option"

definition call_with :: "('c \<Rightarrow> send_outcome) \<Rightarrow> 'c option \<Rightarrow> send_outcome" where
  "call_with f config = (case config of None \<Rightarrow> SendPanics | Some c \<Rightarrow> f c)"

definition output_call :: "output_env \<Rightarrow> string \<Rightarrow> DeliveryAlert \<Rightarrow> OutputConfig option \<Rightarrow> send_outcome option" where
  "output_call env ty alert config =
     (if ty = ''slack'' then Some (call_with (Slack env alert) (Option.bind config oc_Slack))
      else if ty = ''pagerduty'' then Some (call_with (PagerDuty env alert) (Option.bind config oc_PagerDuty))
      else if ty = ''github'' then Some (call_with (\<lambda>(repo, token). Github env alert repo token) (Option.bind config oc_Github))
      else if ty = ''opsgenie'' then Some (call_with (Opsgenie env alert) (Option.bind config oc_Opsgenie))
      else if ty = ''jira'' then Some (call_with (Jira env alert) (Option.bind config oc_Jira))
      else if ty = ''msteams'' then Some (call_with (MsTeams env alert) (Option.bind config oc_MsTeams))
      else if ty = ''sqs'' then Some (call_with (Sqs env alert) (Option.bind config oc_Sqs))
      else if ty = ''sns'' then Some (call_with (Sns env alert) (Option.bind config oc_Sns))
      else if ty = ''asana'' then Some (call_with (\<lambda>(token, gids). Asana env alert token gids) (Option.bind config oc_Asana))
      else None)"

section \<open>What an output reports\<close>

lemma post_outcome:
  assumes "oe_marshal env (pi_body input) = Inr payload" "oe_newRequest env (pi_url input) = None"
  shows "post env input = None \<longleftrightarrow> (\<exists>response. oe_Do env (post_request input payload) = Inr response \<and>
      200 \<le> hs_code response \<and> hs_code response \<le> 299)"
    and "post env input = Some err \<Longrightarrow> \<not> Permanent_error err"
  using assms by (auto simp: post_def split: sum.splits if_splits)

text \<open>Alerts and configurations as the forwarder and the outputs API make them.\<close>

definition severities :: "string list" where
  "severities = [''INFO'', ''LOW'', ''MEDIUM'', ''HIGH'', ''CRITICAL'']"

definition deliverable :: "DeliveryAlert \<Rightarrow> bool" where
  "deliverable alert \<longleftrightarrow> Severity alert \<in> set severities \<and> (AlertType alert = Some RuleType \<longrightarrow> AlertID alert \<noteq> None)"

definition configured :: "output_env \<Rightarrow> string \<Rightarrow> OutputConfig \<Rightarrow> bool" where
  "configured env ty c \<longleftrightarrow>
     ty = ''slack'' \<and> oc_Slack c \<noteq> None \<or> ty = ''pagerduty'' \<and> oc_PagerDuty c \<noteq> None \<or>
     ty = ''github'' \<and> oc_Github c \<noteq> None \<or> ty = ''opsgenie'' \<and> oc_Opsgenie c \<noteq> None \<or>
     ty = ''jira'' \<and> oc_Jira c \<noteq> None \<or> ty = ''msteams'' \<and> oc_MsTeams c \<noteq> None \<or>
     ty = ''asana'' \<and> oc_Asana c \<noteq> None \<or>
     ty = ''sqs'' \<and> (\<exists>url region. oc_Sqs c = Some url \<and> sqs_region url = Some region) \<or>
     ty = ''sns'' \<and> (\<exists>topic region. oc_Sns c = Some topic \<and> oe_arnRegion env topic = Inr region)"

definition encodable :: "output_env \<Rightarrow> bool" where
  "encodable env \<longleftrightarrow> (\<forall>j. \<exists>payload. oe_marshal env j = Inr payload)"

text \<open>The address that an output posts to; a queue or a topic is not posted to. \<open>http.NewRequest\<close> refuses a malformed one.\<close>

definition output_url :: "string \<Rightarrow> OutputConfig \<Rightarrow> string option" where
  "output_url ty c =
     (if ty = ''slack'' then oc_Slack c
      else if ty = ''msteams'' then oc_MsTeams c
      else if ty = ''pagerduty'' then Some ''https://events.pagerduty.com/v2/enqueue''
      else if ty = ''opsgenie'' then Some ''https://api.opsgenie.com/v2/alerts''
      else if ty = ''asana'' then Some ''https://app.asana.com/api/1.0/tasks''
      else if ty = ''github'' then map_option (\<lambda>(repo, _). ''https://api.github.com/repos/'' @ repo @ ''/issues'') (oc_Github c)
      else if ty = ''jira'' then map_option (\<lambda>config. jc_OrgDomain config @ ''/rest/api/latest/issue/'') (oc_Jira c)
      else None)"

definition well_addressed :: "output_env \<Rightarrow> string \<Rightarrow> OutputConfig \<Rightarrow> bool" where
  "well_addressed env ty c \<longleftrightarrow> (case output_url ty c of None \<Rightarrow> True | Some url \<Rightarrow> oe_newRequest env url = None)"

text \<open>All the services answer with success, or none does.\<close>

definition services_up :: "output_env \<Rightarrow> bool" where
  "services_up env \<longleftrightarrow>
     (\<forall>q. \<exists>response. oe_Do env q = Inr response \<and> 200 \<le> hs_code response \<and> hs_code response \<le> 299) \<and>
     (\<forall>region topic msg subject. oe_Publish env region topic msg subject = None) \<and>
     (\<forall>region queue body. oe_SendMessage env region queue body = None)"

definition services_down :: "output_env \<Rightarrow> bool" where
  "services_down env \<longleftrightarrow>
     (\<forall>q response. oe_Do env q = Inr response \<longrightarrow> hs_code response < 200 \<or> 299 < hs_code response) \<and>
     (\<forall>region topic msg subject. oe_Publish env region topic msg subject \<noteq> None) \<and>
     (\<forall>region queue body. oe_SendMessage env region queue body \<noteq> None)"

text \<open>The outcome of an output whose address is accepted, and of one whose address is refused.\<close>

definition reports :: "output_env \<Rightarrow> bool \<Rightarrow> send_outcome \<Rightarrow> bool" where
  "reports env accepted outcome \<longleftrightarrow> (\<exists>r. outcome = SendReturns r \<and>
     (if accepted
      then (\<forall>err. r = Some err \<longrightarrow> \<not> Permanent_error err) \<and> (services_up env \<longrightarrow> r = None) \<and> (services_down env \<longrightarrow> r \<noteq> None)
      else \<exists>err. r = Some err \<and> Permanent_error err))"

lemma generateURL_deliverable: "deliverable alert \<Longrightarrow> \<exists>url. generateURL env alert = Some url"
  by (auto simp: deliverable_def generateURL_def StringValue_def split: option.splits)

lemma post_reports: "encodable env \<Longrightarrow> reports env (oe_newRequest env (pi_url input) = None) (SendReturns (post env input))"
proof -
  assume enc: "encodable env"
  then obtain payload where m: "oe_marshal env (pi_body input) = Inr payload"
    by (auto simp: encodable_def)
  show ?thesis
  proof (cases "oe_newRequest env (pi_url input)")
    case None
    then show ?thesis using post_outcome(1) [OF m None] post_outcome(2) [OF m None]
      by (fastforce simp: reports_def services_up_def services_down_def)
  next
    case (Some err)
    then show ?thesis using m by (simp add: reports_def post_def)
  qed
qed

lemma post_with_url_reports:
  assumes "encodable env" "deliverable alert" "\<And>url. pi_url (input url) = address"
  shows "reports env (oe_newRequest env address = None) (post_with_url env alert input)"
  using generateURL_deliverable [OF assms(2), of env] post_reports [OF assms(1)] assms(3)
  by (auto simp: post_with_url_def) metis

lemma PagerDuty_reports:
  assumes "encodable env" "deliverable alert"
  shows "reports env (oe_newRequest env ''https://events.pagerduty.com/v2/enqueue'' = None) (PagerDuty env alert key)"
proof -
  obtain severity where "pantherSeverityToPagerDuty (Severity alert) = Inr severity"
    using assms(2) by (auto simp: pantherSeverityToPagerDuty_def deliverable_def severities_def)
  then show ?thesis using post_reports [OF assms(1)] by (simp add: PagerDuty_def) (metis PostInput.select_convs(1))
qed

lemma Asana_reports:
  assumes "encodable env" "deliverable alert"
  shows "reports env (oe_newRequest env ''https://app.asana.com/api/1.0/tasks'' = None) (Asana env alert token gids)"
proof -
  obtain body where "generateDetailedAlertMessage env alert = Some body"
    using generateURL_deliverable [OF assms(2), of env] by (auto simp: generateDetailedAlertMessage_def)
  then show ?thesis using post_reports [OF assms(1)] by (simp add: Asana_def) (metis PostInput.select_convs(1))
qed

lemma Sns_reports:
  assumes "encodable env" "deliverable alert" "oe_arnRegion env topic = Inr region"
  shows "reports env True (Sns env alert topic)"
proof -
  obtain d where d: "generateDetailedAlertMessage env alert = Some d"
    using generateURL_deliverable [OF assms(2), of env] by (auto simp: generateDetailedAlertMessage_def)
  have "\<exists>p. oe_marshal env j = Inr p" for j using assms(1) by (simp add: encodable_def)
  then show ?thesis using d assms(3)
    by (auto simp: Sns_def reports_def services_up_def services_down_def split: sum.splits option.splits)
       (metis sum.distinct(1))+
qed

lemma Sqs_reports:
  assumes "encodable env" "sqs_region url = Some region"
  shows "reports env True (Sqs env alert url)"
proof -
  obtain p where "oe_marshal env (sqsOutputMessage alert) = Inr p" using assms(1) by (auto simp: encodable_def)
  then show ?thesis using assms(2)
    by (auto simp: Sqs_def reports_def services_up_def services_down_def simp del: not_None_eq split: option.splits)
qed

lemmas outputs_report = post_with_url_reports PagerDuty_reports Asana_reports Sns_reports Sqs_reports

lemma output_call_reports:
  assumes "encodable env" "deliverable alert" "configured env ty c"
  shows "\<exists>outcome. output_call env ty alert (Some c) = Some outcome \<and> reports env (well_addressed env ty c) outcome"
proof -
  note posts = Slack_def Github_def Opsgenie_def Jira_def MsTeams_def
  show ?thesis using assms(3) unfolding configured_def
    by (elim disjE conjE exE)
       (auto simp: output_call_def call_with_def posts well_addressed_def output_url_def intro!: outputs_report assms(1,2) split: prod.splits)
qed

section \<open>Concrete services\<close>

text \<open>No output configured, and services that accept every request.\<close>

definition no_config :: OutputConfig where
  "no_config = \<lparr>oc_Slack = None, oc_Sns = None, oc_PagerDuty = None, oc_Github = None, oc_Jira = None,
     oc_Opsgenie = None, oc_MsTeams = None, oc_Sqs = None, oc_Asana = None\<rparr>"

definition sample_output_env :: output_env where
  "sample_output_env = \<lparr>oe_policyURLPrefix = ''https://panther/policies/'', oe_alertURLPrefix = ''https://panther/alerts/'',
     oe_marshal = (\<lambda>_. Inr ''{}''), oe_newRequest = (\<lambda>url. if url = ''%zz'' then Some ''invalid URL escape'' else None),
     oe_Do = (\<lambda>_. Inr \<lparr>hs_code = 200, hs_status = ''200 OK'', hs_body = []\<rparr>),
     oe_arnRegion = (\<lambda>_. Inr ''us-east-1''), oe_Publish = (\<lambda>_ _ _ _. None), oe_SendMessage = (\<lambda>_ _ _. None)\<rparr>"

definition sample_alert :: DeliveryAlert where
  "sample_alert = \<lparr>CreatedAt = 0, OutputIDs = [], PolicyDescription = None, PolicyID = ''p'', PolicyName = None,
     PolicyVersionID = None, Runbook = None, Severity = ''HIGH'', Tags = [], AlertID = None, AlertType = None,
     Title = None\<rparr>"

lemma sample_encodable: "encodable (sample_output_env\<lparr>oe_Do := f, oe_Publish := g\<rparr>)"
  by (simp add: encodable_def sample_output_env_def)

lemma sample_deliverable: "deliverable sample_alert"
  by code_simp

section \<open>Properties\<close>

text \<open>C40. An output that has a configuration of its type never panics on an alert with a known severity (a
  rule alert having its alert id), whatever the services answer. If its address is one that \<open>http.NewRequest\<close> accepts, it
  reports success or an error that is to be retried: success whenever the services accept what they are sent, and an error
  whenever they do not. If its address is refused, it reports a permanent error. This holds for all nine kinds of outputs, of which
  a queue and a topic have no address to refuse.\<close>

theorem output_call_outcome:
  assumes "encodable env" "deliverable alert" "configured env ty c"
  shows "\<exists>r. output_call env ty alert (Some c) = Some (SendReturns r) \<and>
    (if well_addressed env ty c
     then (\<forall>err. r = Some err \<longrightarrow> \<not> Permanent_error err) \<and> (services_up env \<longrightarrow> r = None) \<and> (services_down env \<longrightarrow> r \<noteq> None)
     else \<exists>err. r = Some err \<and> Permanent_error err)"
  using output_call_reports [OF assms] unfolding reports_def by blast

text \<open>The hook of the first output is accepted and the one of the second is not.\<close>

theorem output_call_outcome_witness:
  "\<exists>r1 r2 err. output_call sample_output_env ''slack'' sample_alert (Some (no_config\<lparr>oc_Slack := Some ''https://hook''\<rparr>)) =
     Some (SendReturns r1) \<and> r1 = None \<and>
     output_call sample_output_env ''slack'' sample_alert (Some (no_config\<lparr>oc_Slack := Some ''%zz''\<rparr>)) = Some (SendReturns r2) \<and>
     r2 = Some err \<and> Permanent_error err"
proof -
  let ?slack = "\<lambda>hook. no_config\<lparr>oc_Slack := Some hook\<rparr>"
  have env: "encodable sample_output_env" "services_up sample_output_env"
    by (simp_all add: encodable_def services_up_def sample_output_env_def)
  have "configured sample_output_env ''slack'' (?slack hook)" for hook by (simp add: configured_def)
  note outcome = output_call_outcome [OF env(1) sample_deliverable this]
  have "well_addressed sample_output_env ''slack'' (?slack ''https://hook'')" "\<not> well_addressed sample_output_env ''slack'' (?slack ''%zz'')"
    by (simp_all add: well_addressed_def output_url_def sample_output_env_def)
  with outcome [of "''https://hook''"] outcome [of "''%zz''"] env(2) show ?thesis by (auto simp del: not_None_eq)
qed

section \<open>Findings\<close>

text \<open>For the alert of a rule, the message to Microsoft Teams has two links: its text leads to a policy with
  the id of the rule, its button to the alert.\<close>

fun member :: "string \<Rightarrow> json \<Rightarrow> json option" where
  "member k (JObj ms) = map_of ms k"
| "member k _ = None"

fun element :: "nat \<Rightarrow> json \<Rightarrow> json option" where
  "element i (JArr js) = (if i < length js then Some (js ! i) else None)"
| "element i _ = None"

lemma MsTeams_two_links:
  assumes "AlertType alert = Some RuleType" "AlertID alert = Some aid"
  shows "\<exists>body. MsTeams env alert hook = SendReturns (post env \<lparr>pi_url = hook, pi_body = body, pi_headers = []\<rparr>) \<and>
    Option.bind (Option.bind (member ''sections'' body) (element 0)) (member ''text'') =
      Some (JStr (''[Click here to view in the Panther UI]('' @ oe_policyURLPrefix env @ PolicyID alert @ '').'' @ [newline])) \<and>
    Option.bind (Option.bind (Option.bind (Option.bind (member ''potentialAction'' body) (element 0))
        (member ''targets'')) (element 0)) (member ''uri'') =
      Some (JStr (oe_alertURLPrefix env @ aid))"
  using assms
  by (intro exI [of _ "MsTeams_body env alert (oe_alertURLPrefix env @ aid)"])
     (simp add: MsTeams_def post_with_url_def generateURL_def StringValue_def MsTeams_body_def)

text \<open>An alert that cannot be encoded fails for good, except for an SQS queue, where it is retried.\<close>

lemma Sqs_retries_encoding:
  assumes "\<forall>j. oe_marshal env j = Inl err"
  shows "\<exists>e. Sqs env alert url = SendReturns (Some e) \<and> \<not> Permanent_error e"
    and "\<exists>e. Sns env alert topic = SendReturns (Some e) \<and> Permanent_error e"
    and "\<exists>e. post env input = Some e \<and> Permanent_error e"
  using assms by (simp_all add: Sqs_def Sns_def post_def)

end
