(* ===== verification/Alert_Delivery.thy ===== *)
theory Alert_Delivery
  imports Alert_Outputs Awsbatch_SQS
begin

text \<open>
  \<open>core/alert_delivery/delivery\<close> and its Lambda \<open>main/lambda.go\<close>: choosing the outputs of an alert
  (\<open>outputs.go\<close>), sending it to all of them in parallel (\<open>dispatch.go\<close>), the loop over the alerts of an
  invocation (\<open>handle.go\<close>) and queueing the ones that failed for another attempt (\<open>retry.go\<close>).

  What an alert meets while it is handled is its \<open>surroundings\<close>: the readings of the clock in the order
  in which the code takes them, the answer of the outputs API should it be asked, the services behind
  each output while it is sent to, and the order in which the goroutines report. Every permutation of the reports is
  possible. Times are in nanoseconds.
\<close>

record AlertOutput =
  OutputID :: string
  OutputType :: string
  OutputConfig_field :: "OutputConfig option"
  DefaultForSeverity :: "string list"

record outputStatus =
  outputID :: string
  success :: bool
  needsRetry :: bool

record outputsCache =
  Outputs :: "AlertOutput list"
  Timestamp :: int

record surroundings =
  sr_since :: int
  sr_fetched :: int
  sr_api :: "error + AlertOutput list"
  sr_env :: "AlertOutput \<Rightarrow> output_env"
  sr_arrival :: "outputStatus list \<Rightarrow> outputStatus list"
  sr_age :: int

text \<open>\<open>mustParseInt\<close> panics (\<open>None\<close>) on a malformed number.\<close>

definition mustParseInt :: "string \<Rightarrow> int option" where
  "mustParseInt txt = Atoi txt"

definition getMaxRetryDuration :: "string \<Rightarrow> int option" where
  "getMaxRetryDuration env_mins = map_option (\<lambda>m. wrap64 (m * Minute)) (mustParseInt env_mins)"

definition getRefreshInterval :: "string \<Rightarrow> int option" where
  "getRefreshInterval intervalMins =
     map_option (\<lambda>m. wrap64 (m * Minute)) (mustParseInt (if intervalMins = [] then ''5'' else intervalMins))"

section \<open>outputs.go\<close>

definition getOutputsBySeverity :: "outputsCache option \<Rightarrow> string \<Rightarrow> AlertOutput list" where
  "getOutputsBySeverity cache severity =
     (case cache of
        None \<Rightarrow> []
      | Some c \<Rightarrow> concat (map (\<lambda>output. map (\<lambda>_. output)
            (filter (\<lambda>outputSeverity. severity = outputSeverity) (DefaultForSeverity output))) (Outputs c)))"

definition getAlertOutputs :: "int \<Rightarrow> surroundings \<Rightarrow> outputsCache option \<Rightarrow> DeliveryAlert
    \<Rightarrow> (error + AlertOutput list) \<times> outputsCache option" where
  "getAlertOutputs refreshInterval sr cache alert =
     (let refreshed =
        (if cache = None \<or> time_Sub (sr_since sr) (Timestamp (the cache)) > refreshInterval
         then (case sr_api sr of
                 Inl err \<Rightarrow> Inl err
               | Inr outputs \<Rightarrow> Inr \<lparr>Outputs = outputs, Timestamp = sr_fetched sr\<rparr>)
         else Inr (the cache))
      in case refreshed of
           Inl err \<Rightarrow> (Inl err, cache)
         | Inr c \<Rightarrow>
             (if OutputIDs alert = [] then (Inr (getOutputsBySeverity (Some c) (Severity alert)), Some c)
              else (Inr (concat (map (\<lambda>output. map (\<lambda>_. output)
                      (filter (\<lambda>alertOutputID. OutputID output = alertOutputID) (OutputIDs alert))) (Outputs c))),
                    Some c)))"

section \<open>dispatch.go\<close>

definition send :: "surroundings \<Rightarrow> DeliveryAlert \<Rightarrow> AlertOutput \<Rightarrow> outputStatus" where
  "send sr alert output =
     (case output_call (sr_env sr output) (OutputType output) alert (OutputConfig_field output) of
        None \<Rightarrow> \<lparr>outputID = OutputID output, success = False, needsRetry = False\<rparr>
      | Some SendPanics \<Rightarrow> \<lparr>outputID = OutputID output, success = False, needsRetry = False\<rparr>
      | Some (SendReturns (Some alertDeliveryError)) \<Rightarrow>
          \<lparr>outputID = OutputID output, success = False, needsRetry = \<not> Permanent_error alertDeliveryError\<rparr>
      | Some (SendReturns None) \<Rightarrow> \<lparr>outputID = OutputID output, success = True, needsRetry = False\<rparr>)"

definition dispatch :: "int \<Rightarrow> surroundings \<Rightarrow> outputsCache option \<Rightarrow> DeliveryAlert
    \<Rightarrow> bool \<times> DeliveryAlert \<times> outputsCache option" where
  "dispatch refreshInterval sr cache alert =
     (case getAlertOutputs refreshInterval sr cache alert of
        (Inl err, cache') \<Rightarrow> (False, alert, cache')
      | (Inr outputs, cache') \<Rightarrow>
          (if outputs = [] then (True, alert, cache')
           else (let statuses = sr_arrival sr (map (send sr alert) outputs);
                     retryOutputs = map outputID (filter needsRetry statuses)
                 in if retryOutputs \<noteq> [] then (False, alert\<lparr>OutputIDs := retryOutputs\<rparr>, cache')
                    else (True, alert, cache'))))"

section \<open>retry.go\<close>

text \<open>\<open>rnd i n\<close> is the i-th result of \<open>rand.Intn(n)\<close>, which panics unless \<open>n\<close> is positive. The
  difference of the bounds wraps around like every Go \<open>int\<close>.\<close>

definition randomInt :: "(nat \<Rightarrow> int \<Rightarrow> int) \<Rightarrow> nat \<Rightarrow> int \<Rightarrow> int \<Rightarrow> int option" where
  "randomInt rnd i lower upper =
     (if wrap64 (upper - lower) \<le> 0 then None else Some (wrap64 (rnd i (wrap64 (upper - lower)) + lower)))"

fun retry_entries :: "(DeliveryAlert \<Rightarrow> error + string) \<Rightarrow> (nat \<Rightarrow> int \<Rightarrow> int) \<Rightarrow> int \<Rightarrow> int \<Rightarrow> nat
    \<Rightarrow> DeliveryAlert list \<Rightarrow> sqs_entry list option" where
  "retry_entries marshal rnd minDelaySeconds maxDelaySeconds i [] = Some []"
| "retry_entries marshal rnd minDelaySeconds maxDelaySeconds i (alert # alerts) =
     (case marshal alert of
        Inl err \<Rightarrow> None
      | Inr body \<Rightarrow>
          (case randomInt rnd i minDelaySeconds maxDelaySeconds of
             None \<Rightarrow> None
           | Some delay \<Rightarrow>
               (case retry_entries marshal rnd minDelaySeconds maxDelaySeconds (Suc i) alerts of
                  None \<Rightarrow> None
                | Some es \<Rightarrow> Some (\<lparr>Id = Itoa (int i), MessageBody = Some body, DelaySeconds = Some delay\<rparr> # es))))"

record delivery_env =
  de_refreshInterval :: int
  de_ALERT_RETRY_DURATION_MINS :: string
  de_MIN_RETRY_DELAY_SECS :: string
  de_MAX_RETRY_DELAY_SECS :: string
  de_marshal :: "DeliveryAlert \<Rightarrow> error + string"
  de_rnd :: "nat \<Rightarrow> int \<Rightarrow> int"

text \<open>The result is the run of \<open>SendMessageBatch\<close>, whose error is only logged; \<open>None\<close> is a panic.\<close>

definition retry_alerts :: "delivery_env \<Rightarrow> sendMessageBatchRequest retry \<Rightarrow> sqs_client \<Rightarrow> DeliveryAlert list
    \<Rightarrow> (sqs_result \<times> sendMessageBatchRequest) option" where
  "retry_alerts env backoff client alerts =
     (case mustParseInt (de_MIN_RETRY_DELAY_SECS env) of
        None \<Rightarrow> None
      | Some minDelaySeconds \<Rightarrow>
          (case mustParseInt (de_MAX_RETRY_DELAY_SECS env) of
             None \<Rightarrow> None
           | Some maxDelaySeconds \<Rightarrow>
               (case retry_entries (de_marshal env) (de_rnd env) minDelaySeconds maxDelaySeconds 0 alerts of
                  None \<Rightarrow> None
                | Some entries \<Rightarrow> Some (SendMessageBatch backoff client entries))))"

section \<open>handle.go\<close>

text \<open>The loop: the alerts to retry and the cache.\<close>

fun handle_loop :: "delivery_env \<Rightarrow> (DeliveryAlert \<times> surroundings) list \<Rightarrow> outputsCache option
    \<Rightarrow> (DeliveryAlert list \<times> outputsCache option) option" where
  "handle_loop env [] cache = Some ([], cache)"
| "handle_loop env ((alert, sr) # rest) cache =
     (case dispatch (de_refreshInterval env) sr cache alert of
        (True, alert', cache') \<Rightarrow> handle_loop env rest cache'
      | (False, alert', cache') \<Rightarrow>
          (case getMaxRetryDuration (de_ALERT_RETRY_DURATION_MINS env) of
             None \<Rightarrow> None
           | Some maxRetry \<Rightarrow>
               (if time_Sub (sr_age sr) (CreatedAt alert') > maxRetry then handle_loop env rest cache'
                else map_option (\<lambda>(failed, c). (alert' # failed, c)) (handle_loop env rest cache'))))"

definition HandleAlerts :: "delivery_env \<Rightarrow> sendMessageBatchRequest retry \<Rightarrow> sqs_client
    \<Rightarrow> (DeliveryAlert \<times> surroundings) list \<Rightarrow> outputsCache option
    \<Rightarrow> ((sqs_result \<times> sendMessageBatchRequest) option \<times> outputsCache option) option" where
  "HandleAlerts env backoff client alerts cache =
     (case handle_loop env alerts cache of
        None \<Rightarrow> None
      | Some (failedAlerts, cache') \<Rightarrow>
          (if failedAlerts = [] then Some (None, cache')
           else (case retry_alerts env backoff client failedAlerts of
                   None \<Rightarrow> None
                 | Some r \<Rightarrow> Some (Some r, cache'))))"

section \<open>lambda.go\<close>

text \<open>Reading the messages of an invocation: \<open>err\<close> is the function's named result, assigned for every
  record. \<open>unmarshal\<close> and \<open>validate\<close> are the JSON and validation libraries.\<close>

fun read_records :: "('m \<Rightarrow> error + DeliveryAlert) \<Rightarrow> (DeliveryAlert \<Rightarrow> error option) \<Rightarrow> 'm list
    \<Rightarrow> error option \<Rightarrow> DeliveryAlert list \<times> error option" where
  "read_records unmarshal validate [] err = ([], err)"
| "read_records unmarshal validate (m # ms) err =
     (case unmarshal m of
        Inl e \<Rightarrow> read_records unmarshal validate ms (Some e)
      | Inr alert \<Rightarrow>
          (case validate alert of
             Some e \<Rightarrow> read_records unmarshal validate ms (Some e)
           | None \<Rightarrow> (case read_records unmarshal validate ms None of (alerts, e) \<Rightarrow> (alert # alerts, e))))"

definition lambdaHandler :: "('m \<Rightarrow> error + DeliveryAlert) \<Rightarrow> (DeliveryAlert \<Rightarrow> error option)
    \<Rightarrow> (DeliveryAlert list \<Rightarrow> 'r option) \<Rightarrow> 'm list \<Rightarrow> (error option \<times> 'r) option" where
  "lambdaHandler unmarshal validate handleAlerts records =
     (case read_records unmarshal validate records None of (alerts, err) \<Rightarrow>
        map_option (\<lambda>r. (err, r)) (handleAlerts alerts))"

section \<open>Choosing outputs\<close>

lemma concat_map_matches:
  "distinct ks \<Longrightarrow> map (\<lambda>_. x) (filter (\<lambda>k. y = k) ks) = (if y \<in> set ks then [x] else [])"
  by (induction ks) auto

lemma picked_filter:
  "\<forall>x \<in> set xs. distinct (ks x) \<Longrightarrow>
   concat (map (\<lambda>x. map (\<lambda>_. x) (filter (\<lambda>k. f x = k) (ks x))) xs) = filter (\<lambda>x. f x \<in> set (ks x)) xs"
  by (induction xs) (simp_all add: concat_map_matches)

lemma picked_set:
  "set (concat (map (\<lambda>x. map (\<lambda>_. x) (filter (\<lambda>k. f x = k) ks)) xs)) = {x \<in> set xs. f x \<in> set ks}"
  by (induction xs) auto

lemma getOutputsBySeverity_filter:
  "\<forall>output \<in> set (Outputs c). distinct (DefaultForSeverity output) \<Longrightarrow>
   getOutputsBySeverity (Some c) severity = filter (\<lambda>output. severity \<in> set (DefaultForSeverity output)) (Outputs c)"
  unfolding getOutputsBySeverity_def option.case by (rule picked_filter)

text \<open>Whatever is designated twice is chosen twice, but nothing is chosen that is not designated.\<close>

lemma getAlertOutputs_designated:
  assumes "getAlertOutputs ri sr cache alert = (Inr outputs, cache')" "OutputIDs alert \<noteq> []"
  shows "\<exists>c. cache' = Some c \<and> set outputs = {output \<in> set (Outputs c). OutputID output \<in> set (OutputIDs alert)}"
proof -
  obtain c where "cache' = Some c" "outputs = concat (map (\<lambda>output. map (\<lambda>_. output)
      (filter (\<lambda>k. OutputID output = k) (OutputIDs alert))) (Outputs c))"
    using assms by (auto simp: getAlertOutputs_def Let_def split: sum.splits if_splits)
  moreover from this have "set outputs = {output \<in> set (Outputs c). OutputID output \<in> set (OutputIDs alert)}"
    by (simp only: picked_set)
  ultimately show ?thesis by blast
qed

text \<open>A delivery that failed and may succeed later.\<close>

definition transient_failure :: "surroundings \<Rightarrow> DeliveryAlert \<Rightarrow> AlertOutput \<Rightarrow> bool" where
  "transient_failure sr alert output \<longleftrightarrow>
     (case output_call (sr_env sr output) (OutputType output) alert (OutputConfig_field output) of
        Some (SendReturns (Some err)) \<Rightarrow> \<not> Permanent_error err | _ \<Rightarrow> False)"

lemma send_status [simp]:
  "outputID (send sr alert output) = OutputID output"
  "needsRetry (send sr alert output) = transient_failure sr alert output"
  by (auto simp: send_def transient_failure_def split: send_outcome.splits option.splits)

definition any_order :: "surroundings \<Rightarrow> bool" where
  "any_order sr \<longleftrightarrow> (\<forall>xs. mset (sr_arrival sr xs) = mset xs)"

lemma retry_outputs_mset:
  assumes "any_order sr"
  shows "mset (map outputID (filter needsRetry (sr_arrival sr (map (send sr alert) outputs)))) =
    mset (map OutputID (filter (transient_failure sr alert) outputs))"
proof -
  have "mset (map outputID (filter needsRetry (sr_arrival sr (map (send sr alert) outputs)))) =
      image_mset outputID (filter_mset needsRetry (mset (map (send sr alert) outputs)))"
    using assms by (simp add: any_order_def)
  also have "\<dots> = mset (map outputID (filter needsRetry (map (send sr alert) outputs)))" by simp
  also have "\<dots> = mset (map OutputID (filter (transient_failure sr alert) outputs))"
    by (simp add: filter_map o_def)
  finally show ?thesis .
qed

lemma dispatch_outputs:
  assumes "any_order sr" "dispatch ri sr cache alert = (ok, alert', cache')"
    and "getAlertOutputs ri sr cache alert = (Inr outputs, cache1)"
  shows "ok \<longleftrightarrow> (\<forall>output \<in> set outputs. \<not> transient_failure sr alert output)"
    and "ok \<Longrightarrow> alert' = alert"
    and "\<not> ok \<Longrightarrow> mset (OutputIDs alert') = mset (map OutputID (filter (transient_failure sr alert) outputs)) \<and>
      alert' = alert\<lparr>OutputIDs := OutputIDs alert'\<rparr>"
proof -
  let ?r = "map outputID (filter needsRetry (sr_arrival sr (map (send sr alert) outputs)))"
  note m = retry_outputs_mset [OF assms(1), of alert outputs]
  have "?r = [] \<longleftrightarrow> filter (transient_failure sr alert) outputs = []"
    using arg_cong [OF m, of size] by (simp only: size_mset length_map flip: length_0_conv)
  then have empty: "?r = [] \<longleftrightarrow> (\<forall>output \<in> set outputs. \<not> transient_failure sr alert output)"
    by (simp add: filter_empty_conv)
  have cases: "if outputs = [] \<or> ?r = [] then ok \<and> alert' = alert else \<not> ok \<and> alert' = alert\<lparr>OutputIDs := ?r\<rparr>"
    using assms(2,3) by (auto simp: dispatch_def Let_def split: if_splits)
  then show "ok \<longleftrightarrow> (\<forall>output \<in> set outputs. \<not> transient_failure sr alert output)" "ok \<Longrightarrow> alert' = alert"
    using empty by (auto split: if_splits)
  show "mset (OutputIDs alert') = mset (map OutputID (filter (transient_failure sr alert) outputs)) \<and>
      alert' = alert\<lparr>OutputIDs := OutputIDs alert'\<rparr>" if "\<not> ok"
    using cases that m by (auto split: if_splits)
qed

section \<open>The loop and the queue\<close>

text \<open>The result of \<open>dispatch\<close> for each alert in turn.\<close>

fun delivery_steps :: "delivery_env \<Rightarrow> (DeliveryAlert \<times> surroundings) list \<Rightarrow> outputsCache option
    \<Rightarrow> (bool \<times> DeliveryAlert \<times> surroundings) list" where
  "delivery_steps env [] cache = []"
| "delivery_steps env ((alert, sr) # rest) cache =
     (case dispatch (de_refreshInterval env) sr cache alert of (ok, alert', cache') \<Rightarrow>
        (ok, alert', sr) # delivery_steps env rest cache')"

lemma handle_loop_steps:
  assumes "getMaxRetryDuration (de_ALERT_RETRY_DURATION_MINS env) = Some maxRetry"
  shows "\<exists>cache'. handle_loop env alerts cache =
    Some (map (\<lambda>(_, alert, _). alert) (filter (\<lambda>(ok, alert, sr).
      \<not> ok \<and> time_Sub (sr_age sr) (CreatedAt alert) \<le> maxRetry) (delivery_steps env alerts cache)), cache')"
proof (induction alerts arbitrary: cache)
  case (Cons a rest)
  obtain alert sr where a: "a = (alert, sr)" by (cases a)
  obtain ok alert' cache' where d: "dispatch (de_refreshInterval env) sr cache alert = (ok, alert', cache')"
    by (cases "dispatch (de_refreshInterval env) sr cache alert") auto
  from Cons.IH [of cache'] assms d show ?case by (cases ok) (auto simp: a not_less)
qed simp

text \<open>A range that is wider than the largest \<open>int\<close> panics although it is not empty.\<close>

lemma randomInt_panics:
  assumes "in_int64 lower" "in_int64 upper" "lower < upper"
  shows "randomInt rnd i lower upper = None \<longleftrightarrow> 2 ^ 63 \<le> upper - lower"
proof (cases "2 ^ 63 \<le> upper - lower")
  case True
  then have "wrap64 (upper - lower) = upper - lower - 2 ^ 64"
    using assms(1,2) by (intro wrap64_above) (simp_all add: in_int64_def)
  with True assms(1,2) show ?thesis by (simp add: randomInt_def in_int64_def)
next
  case False
  then have "wrap64 (upper - lower) = upper - lower" using assms(3) by (intro wrap64_id) (simp add: in_int64_def)
  with False assms(3) show ?thesis by (simp add: randomInt_def)
qed

lemma retry_entries_ok:
  assumes "\<forall>alert. \<exists>body. marshal alert = Inr body" "lo < hi" "\<forall>i n. 0 < n \<longrightarrow> 0 \<le> rnd i n \<and> rnd i n < n"
    and "in_int64 lo" "in_int64 hi" "in_int64 (hi - lo)"
  shows "\<exists>es. retry_entries marshal rnd lo hi i alerts = Some es \<and>
    map (\<lambda>e. Inr (the (MessageBody e))) es = map marshal alerts \<and> map Id es = map (\<lambda>j. Itoa (int j)) [i..<i + length alerts] \<and>
    (\<forall>e \<in> set es. \<exists>d. DelaySeconds e = Some d \<and> lo \<le> d \<and> d < hi)"
proof (induction alerts arbitrary: i)
  case (Cons alert alerts)
  obtain body where body: "marshal alert = Inr body" using assms(1) by blast
  obtain es where es: "retry_entries marshal rnd lo hi (Suc i) alerts = Some es"
    "map (\<lambda>e. Inr (the (MessageBody e))) es = map marshal alerts"
    "map Id es = map (\<lambda>j. Itoa (int j)) [Suc i..<Suc i + length alerts]"
    "\<forall>e \<in> set es. \<exists>d. DelaySeconds e = Some d \<and> lo \<le> d \<and> d < hi"
    using Cons.IH [of "Suc i"] by blast
  have r: "0 \<le> rnd i (hi - lo)" "rnd i (hi - lo) < hi - lo" using assms(2,3) by simp_all
  moreover have "wrap64 (hi - lo) = hi - lo" "wrap64 (rnd i (hi - lo) + lo) = rnd i (hi - lo) + lo"
    using r assms(4-6) by (auto intro!: wrap64_id simp: in_int64_def)
  moreover have upt: "[i..<i + length (alert # alerts)] = i # [Suc i..<Suc i + length alerts]"
    by (simp add: upt_conv_Cons del: upt_Suc)
  ultimately show ?case using es body assms(2) unfolding upt
    by (simp add: randomInt_def del: upt_Suc)
qed simp

lemma retry_ids_distinct: "distinct (map (\<lambda>j. Itoa (int j)) [i..<n])"
  by (simp add: distinct_map inj_on_def)

definition valid_delivery_env :: "delivery_env \<Rightarrow> int \<Rightarrow> int \<Rightarrow> int \<Rightarrow> bool" where
  "valid_delivery_env env maxRetry lo hi \<longleftrightarrow>
     getMaxRetryDuration (de_ALERT_RETRY_DURATION_MINS env) = Some maxRetry \<and>
     mustParseInt (de_MIN_RETRY_DELAY_SECS env) = Some lo \<and> mustParseInt (de_MAX_RETRY_DELAY_SECS env) = Some hi \<and>
     lo < hi \<and> in_int64 (hi - lo) \<and> (\<forall>i n. 0 < n \<longrightarrow> 0 \<le> de_rnd env i n \<and> de_rnd env i n < n)"

section \<open>A concrete delivery\<close>

text \<open>Two outputs, of which the second is down for now, and an alert for both.\<close>

definition sample_outputs :: "AlertOutput list" where
  "sample_outputs =
     [\<lparr>OutputID = ''a'', OutputType = ''slack'', OutputConfig_field = Some (no_config\<lparr>oc_Slack := Some ''https://hook''\<rparr>),
       DefaultForSeverity = [''HIGH'']\<rparr>,
      \<lparr>OutputID = ''b'', OutputType = ''sns'', OutputConfig_field = Some (no_config\<lparr>oc_Sns := Some ''arn:topic''\<rparr>),
       DefaultForSeverity = [''HIGH'', ''LOW'']\<rparr>]"

definition sample_surroundings :: surroundings where
  "sample_surroundings = \<lparr>sr_since = 5, sr_fetched = 6, sr_api = Inr sample_outputs,
     sr_env = (\<lambda>_. sample_output_env\<lparr>oe_Publish := \<lambda>_ _ _ _. Some ''down''\<rparr>),
     sr_arrival = rev, sr_age = 7\<rparr>"

definition sample_delivery_env :: delivery_env where
  "sample_delivery_env = \<lparr>de_refreshInterval = 300 * 1000000000, de_ALERT_RETRY_DURATION_MINS = ''60'',
     de_MIN_RETRY_DELAY_SECS = ''30'', de_MAX_RETRY_DELAY_SECS = ''60'',
     de_marshal = (\<lambda>_. Inr ''{}''), de_rnd = (\<lambda>_ _. 0)\<rparr>"

lemma sample_any_order: "any_order sample_surroundings"
  by (simp add: any_order_def sample_surroundings_def)

lemma sample_chosen: "getAlertOutputs 0 sample_surroundings None sample_alert =
    (Inr sample_outputs, Some \<lparr>Outputs = sample_outputs, Timestamp = 6\<rparr>)"
  by code_simp

lemma sample_dispatch: "dispatch 0 sample_surroundings None sample_alert =
    (False, sample_alert\<lparr>OutputIDs := [''b'']\<rparr>, Some \<lparr>Outputs = sample_outputs, Timestamp = 6\<rparr>)"
  by code_simp

section \<open>Properties\<close>

text \<open>C15. With every order in which the parallel deliveries report, \<open>dispatch\<close> returns true exactly if no
  designated output failed in a way that can be retried; otherwise the alert is changed in its output
  ids only, which are then exactly the outputs to retry, so that whatever happens next, only outputs
  that failed this way will be sent the alert again.\<close>

theorem dispatch_correct:
  assumes "any_order sr" "dispatch ri sr cache alert = (ok, alert', cache')"
    and "getAlertOutputs ri sr cache alert = (Inr outputs, cache1)"
  shows "(ok \<longleftrightarrow> (\<forall>output \<in> set outputs. \<not> transient_failure sr alert output)) \<and>
    (ok \<longrightarrow> alert' = alert) \<and>
    (\<not> ok \<longrightarrow> mset (OutputIDs alert') = mset (map OutputID (filter (transient_failure sr alert) outputs)) \<and>
       alert' = alert\<lparr>OutputIDs := OutputIDs alert'\<rparr> \<and>
       (\<forall>sr2 cache2 outputs2 cache3. getAlertOutputs ri sr2 cache2 alert' = (Inr outputs2, cache3) \<longrightarrow>
          (\<forall>o2 \<in> set outputs2. \<exists>o1 \<in> set outputs. OutputID o1 = OutputID o2 \<and> transient_failure sr alert o1)))"
proof -
  note d = dispatch_outputs [OF assms]
  have "\<exists>o1 \<in> set outputs. OutputID o1 = OutputID o2 \<and> transient_failure sr alert o1"
    if "\<not> ok" "getAlertOutputs ri sr2 cache2 alert' = (Inr outputs2, cache3)" "o2 \<in> set outputs2"
    for sr2 cache2 outputs2 cache3 o2
  proof -
    have ids: "set (OutputIDs alert') = OutputID ` {o1 \<in> set outputs. transient_failure sr alert o1}"
      using arg_cong [OF conjunct1 [OF d(3) [OF that(1)]], of set_mset] by simp
    moreover have "OutputIDs alert' \<noteq> []" using d(1) that(1) ids by auto
    ultimately have "OutputID o2 \<in> OutputID ` {o1 \<in> set outputs. transient_failure sr alert o1}"
      using getAlertOutputs_designated [OF that(2)] that(3) by auto
    then show ?thesis by (auto intro: rev_bexI)
  qed
  with d show ?thesis by blast
qed

theorem dispatch_correct_witness:
  "\<exists>alert'. fst (dispatch 0 sample_surroundings None sample_alert) = False \<and>
     alert' = fst (snd (dispatch 0 sample_surroundings None sample_alert)) \<and> mset (OutputIDs alert') = {# ''b'' #}"
proof -
  have f: "filter (transient_failure sample_surroundings sample_alert) sample_outputs = [sample_outputs ! 1]"
    by code_simp
  have "OutputID (sample_outputs ! 1) = ''b''" by code_simp
  with dispatch_correct [OF sample_any_order sample_dispatch sample_chosen] f show ?thesis
    by (simp add: sample_dispatch)
qed

text \<open>Choosing outputs: the list used is never older than the refresh interval; an alert with
  output ids goes to exactly the configured outputs with these ids, one without to exactly those that
  are a default for its severity, each once (when neither list repeats an entry). When the outputs
  API fails, the cache is kept.\<close>

theorem getAlertOutputs_correct:
  assumes "getAlertOutputs ri sr cache alert = (r, cache')" "distinct (OutputIDs alert)"
    and "\<forall>output \<in> set (case cache' of Some c \<Rightarrow> Outputs c | None \<Rightarrow> []). distinct (DefaultForSeverity output)"
  shows "case r of
      Inl err \<Rightarrow> sr_api sr = Inl err \<and> cache' = cache
    | Inr outputs \<Rightarrow> (\<exists>c. cache' = Some c \<and>
        (cache = Some c \<and> time_Sub (sr_since sr) (Timestamp c) \<le> ri \<or>
         sr_api sr = Inr (Outputs c) \<and> Timestamp c = sr_fetched sr) \<and>
        outputs = filter (\<lambda>output. if OutputIDs alert = [] then Severity alert \<in> set (DefaultForSeverity output)
          else OutputID output \<in> set (OutputIDs alert)) (Outputs c))"
proof -
  have ids: "concat (map (\<lambda>output. map (\<lambda>_. output) (filter (\<lambda>k. OutputID output = k) (OutputIDs alert))) os) =
      filter (\<lambda>output. OutputID output \<in> set (OutputIDs alert)) os" for os
    using picked_filter [of os "\<lambda>_. OutputIDs alert" OutputID] assms(2) by simp
  show ?thesis
  proof (cases "cache = None \<or> time_Sub (sr_since sr) (Timestamp (the cache)) > ri")
    case True
    show ?thesis
    proof (cases "sr_api sr")
      case (Inl err)
      with True assms(1) have "r = Inl err" "cache' = cache" by (auto simp: getAlertOutputs_def)
      with Inl show ?thesis by simp
    next
      case (Inr os)
      with True assms(1,3) show ?thesis
        by (auto simp: getAlertOutputs_def ids getOutputsBySeverity_filter split: if_splits)
    qed
  next
    case False
    then obtain c where "cache = Some c" by auto
    with False assms(1,3) show ?thesis
      by (auto simp: getAlertOutputs_def ids getOutputsBySeverity_filter split: if_splits)
  qed
qed

theorem getAlertOutputs_correct_witness:
  "\<exists>outputs. getAlertOutputs 0 sample_surroundings None sample_alert =
       (Inr outputs, Some \<lparr>Outputs = sample_outputs, Timestamp = 6\<rparr>) \<and>
     outputs = filter (\<lambda>output. ''HIGH'' \<in> set (DefaultForSeverity output)) sample_outputs"
proof -
  have "distinct (OutputIDs sample_alert)" by code_simp
  moreover have "\<forall>output \<in> set (case Some \<lparr>Outputs = sample_outputs, Timestamp = 6\<rparr> of Some c \<Rightarrow> Outputs c | None \<Rightarrow> []).
      distinct (DefaultForSeverity output)" by code_simp
  moreover have "OutputIDs sample_alert = []" "Severity sample_alert = ''HIGH''" by code_simp+
  ultimately show ?thesis using getAlertOutputs_correct [OF sample_chosen] sample_chosen by simp
qed

text \<open>C18. With a valid configuration (the numbers parse, the smallest delay is below the largest and their difference
  is in the range of an \<open>int\<close>) and alerts that can be encoded, handling any alerts in any surroundings returns. What it passes to
  the batch send are the alerts whose dispatch failed and that are not too old, as \<open>dispatch\<close> left them; if
  there is none, nothing is sent. When the batch send reports no error, each of them is in the queue exactly once, with a delay inside
  the configured range. An error of the batch send is only logged, and then the theorem does not say what was queued.\<close>

theorem HandleAlerts_requeues:
  assumes "valid_delivery_env env maxRetry lo hi" "backoff_retry backoff" "sqs_client_ok client"
    and "\<forall>alert. \<exists>body. de_marshal env alert = Inr body"
  shows "\<exists>failed cache'.
    failed = map (\<lambda>(_, alert, _). alert) (filter (\<lambda>(ok, alert, sr).
      \<not> ok \<and> time_Sub (sr_age sr) (CreatedAt alert) \<le> maxRetry) (delivery_steps env alerts cache)) \<and>
    (if failed = [] then HandleAlerts env backoff client alerts cache = Some (None, cache')
     else (\<exists>entries result request. HandleAlerts env backoff client alerts cache = Some (Some (result, request), cache') \<and>
       SendMessageBatch backoff client entries = (result, request) \<and>
       map (\<lambda>e. Inr (the (MessageBody e))) entries = map (de_marshal env) failed \<and>
       (result = SqsReturned [] None \<longrightarrow>
          {#Inr (the (MessageBody e)). e \<in># sqs_acked request#} = mset (map (de_marshal env) failed) \<and>
          (\<forall>e \<in># sqs_acked request. \<exists>d. DelaySeconds e = Some d \<and> lo \<le> d \<and> d < hi))))"
proof -
  define failed where "failed = map (\<lambda>(_, alert, _). alert) (filter (\<lambda>(ok, alert, sr).
      \<not> ok \<and> time_Sub (sr_age sr) (CreatedAt alert) \<le> maxRetry) (delivery_steps env alerts cache))"
  obtain cache' where loop: "handle_loop env alerts cache = Some (failed, cache')"
    using handle_loop_steps [of env maxRetry alerts cache] assms(1) by (auto simp: valid_delivery_env_def failed_def)
  have cfg: "mustParseInt (de_MIN_RETRY_DELAY_SECS env) = Some lo" "mustParseInt (de_MAX_RETRY_DELAY_SECS env) = Some hi"
    "lo < hi" "\<forall>i n. 0 < n \<longrightarrow> 0 \<le> de_rnd env i n \<and> de_rnd env i n < n"
    using assms(1) by (auto simp: valid_delivery_env_def)
  have range: "in_int64 lo" "in_int64 hi" "in_int64 (hi - lo)"
    using assms(1) by (auto simp: valid_delivery_env_def mustParseInt_def Atoi_in_int64)
  from retry_entries_ok [OF assms(4) cfg(3,4) range, of 0 failed] obtain es where
    es: "retry_entries (de_marshal env) (de_rnd env) lo hi 0 failed = Some es"
      "map (\<lambda>e. Inr (the (MessageBody e))) es = map (de_marshal env) failed"
      "\<forall>e \<in> set es. \<exists>d. DelaySeconds e = Some d \<and> lo \<le> d \<and> d < hi" by blast
  obtain result request where send: "SendMessageBatch backoff client es = (result, request)"
    by (cases "SendMessageBatch backoff client es")
  have acked: "sqs_acked request = mset es" if "result = SqsReturned [] None"
    using SendMessageBatch_no_error [OF assms(2,3) send [unfolded that]] by blast
  have "{#Inr (the (MessageBody e)). e \<in># mset es#} = mset (map (de_marshal env) failed)"
    unfolding es(2) [symmetric] by simp
  with acked es(3) have sent: "result = SqsReturned [] None \<longrightarrow>
      {#Inr (the (MessageBody e)). e \<in># sqs_acked request#} = mset (map (de_marshal env) failed) \<and>
      (\<forall>e \<in># sqs_acked request. \<exists>d. DelaySeconds e = Some d \<and> lo \<le> d \<and> d < hi)"
    by auto
  have "if failed = [] then HandleAlerts env backoff client alerts cache = Some (None, cache')
      else HandleAlerts env backoff client alerts cache = Some (Some (result, request), cache')"
    using loop cfg es(1) send by (simp add: HandleAlerts_def retry_alerts_def)
  with sent send es(2) show ?thesis unfolding failed_def [symmetric]
    by (intro exI [of _ failed] exI [of _ cache']) (auto simp del: map_eq_conv)
qed

theorem HandleAlerts_requeues_witness:
  "\<exists>result request cache'. HandleAlerts sample_delivery_env (retry_attempts 1) sqs_flaky_client
       [(sample_alert, sample_surroundings)] None = Some (Some (result, request), cache')"
proof -
  have "valid_delivery_env sample_delivery_env (60 * Minute) 30 60"
  proof -
    have "getMaxRetryDuration ''60'' = Some (60 * Minute)" "mustParseInt ''30'' = Some 30" "mustParseInt ''60'' = Some 60"
      by code_simp+
    then show ?thesis by (simp add: valid_delivery_env_def sample_delivery_env_def in_int64_def)
  qed
  moreover have "\<forall>alert. \<exists>body. de_marshal sample_delivery_env alert = Inr body"
    by (simp add: sample_delivery_env_def)
  moreover have "dispatch (de_refreshInterval sample_delivery_env) sample_surroundings None sample_alert =
      (False, sample_alert\<lparr>OutputIDs := [''b'']\<rparr>, Some \<lparr>Outputs = sample_outputs, Timestamp = 6\<rparr>)"
    by code_simp
  ultimately show ?thesis
    using HandleAlerts_requeues [OF _ backoff_retry_attempts [of 1] sqs_flaky_client_ok, of sample_delivery_env "60 * Minute" 30 60
        "[(sample_alert, sample_surroundings)]" None]
    by (auto simp: sample_surroundings_def sample_alert_def time_Sub_def)
qed

lemma read_records_app:
  "read_records unmarshal validate (ms @ [m]) err =
     (case read_records unmarshal validate ms err of (alerts, e) \<Rightarrow>
        (case read_records unmarshal validate [m] e of (alerts2, e2) \<Rightarrow> (alerts @ alerts2, e2)))"
  by (induction unmarshal validate ms err rule: read_records.induct)
     (auto split: sum.splits option.splits prod.splits)

text \<open>The alert of a message that is well-formed and valid.\<close>

definition valid_record :: "('m \<Rightarrow> error + DeliveryAlert) \<Rightarrow> (DeliveryAlert \<Rightarrow> error option) \<Rightarrow> 'm \<Rightarrow> DeliveryAlert option" where
  "valid_record unmarshal validate m =
     (case unmarshal m of Inl _ \<Rightarrow> None | Inr alert \<Rightarrow> (if validate alert = None then Some alert else None))"

lemma read_records_alerts:
  "fst (read_records unmarshal validate ms err) = List.map_filter (valid_record unmarshal validate) ms"
  by (induction unmarshal validate ms err rule: read_records.induct)
     (auto simp: valid_record_def map_filter_simps split: sum.splits option.splits prod.splits)

text \<open>The Lambda delivers exactly the valid messages of its batch, in order, and skips the others.
  Whether it then reports failure depends on the last message alone: with an invalid last message it
  returns an error although all the alerts before it were handled, and the queue will hand over the whole
  batch again; with a valid last message it returns none although messages before it were dropped.\<close>

theorem lambdaHandler_last_record:
  assumes "handleAlerts (List.map_filter (valid_record unmarshal validate) (ms @ [m])) = Some r"
  shows "\<exists>err. lambdaHandler unmarshal validate handleAlerts (ms @ [m]) = Some (err, r) \<and>
    (err = None \<longleftrightarrow> valid_record unmarshal validate m \<noteq> None)"
proof -
  obtain alerts e where rd: "read_records unmarshal validate (ms @ [m]) None = (alerts, e)"
    by (cases "read_records unmarshal validate (ms @ [m]) None")
  then have "alerts = List.map_filter (valid_record unmarshal validate) (ms @ [m])"
    using read_records_alerts [of unmarshal validate "ms @ [m]" None] by simp
  moreover have "e = None \<longleftrightarrow> valid_record unmarshal validate m \<noteq> None"
    using rd unfolding read_records_app
    by (auto simp: valid_record_def split: prod.splits sum.splits option.splits)
  ultimately show ?thesis using assms rd by (simp add: lambdaHandler_def)
qed

theorem lambdaHandler_last_record_witness:
  "\<exists>err. lambdaHandler (\<lambda>m. if m = ''bad'' then Inl ''json'' else Inr sample_alert) (\<lambda>_. None)
     (\<lambda>alerts. Some (length alerts)) [''x'', ''bad''] = Some (Some err, 1)"
proof -
  let ?u = "\<lambda>m. if m = ''bad'' then Inl ''json'' else Inr sample_alert"
  have "List.map_filter (valid_record ?u (\<lambda>_. None)) ([''x''] @ [''bad'']) = [sample_alert]"
    by (simp add: valid_record_def map_filter_simps)
  then show ?thesis
    using lambdaHandler_last_record [of "\<lambda>alerts. Some (length alerts)" ?u "\<lambda>_. None" "[''x'']" "''bad''" 1]
    by (auto simp: valid_record_def)
qed

end
