(* ===== verification/Go_Path.thy ===== *)
theory Go_Path
  imports Panther_Prelude "HOL-Library.Char_ord"
begin

text \<open>
  The parts of Go's \<open>path\<close> and \<open>net/url\<close> packages that the program uses on user input: the shell patterns
  of \<open>path.Match\<close> (suppressions of policies) and \<open>url.QueryUnescape\<close>. Strings are sequences of
  single-byte characters, on which bytes and runes agree.
\<close>

abbreviation backslash :: char where "backslash \<equiv> CHR 0x5C"

datatype match_result = Matched string | NoMatch | BadPattern

section \<open>path.Match\<close>

fun getEsc :: "string \<Rightarrow> (char \<times> string) option" where
  "getEsc [] = None"
| "getEsc (c # cs) =
     (if c = CHR ''-'' \<or> c = CHR '']'' then None
      else if c = backslash
      then (case cs of [] \<Rightarrow> None | r # rest \<Rightarrow> if rest = [] then None else Some (r, rest))
      else if cs = [] then None else Some (c, cs))"

lemma getEsc_shorter: "getEsc chunk = Some (c, rest) \<Longrightarrow> length rest < length chunk \<and> rest \<noteq> []"
  by (cases chunk) (auto split: if_splits list.splits)

text \<open>The ranges of a character class: whether one contains \<open>r\<close>, and the pattern after the class.\<close>

function class_loop :: "char \<Rightarrow> string \<Rightarrow> bool \<Rightarrow> bool \<Rightarrow> (bool \<times> string) option" where
  "class_loop r chunk some_range matches =
     (if some_range \<and> chunk \<noteq> [] \<and> hd chunk = CHR '']'' then Some (matches, tl chunk)
      else (case getEsc chunk of
              None \<Rightarrow> None
            | Some (lo, chunk1) \<Rightarrow>
                (if hd chunk1 = CHR ''-''
                 then (case getEsc (tl chunk1) of
                         None \<Rightarrow> None
                       | Some (hi, chunk2) \<Rightarrow> class_loop r chunk2 True (matches \<or> lo \<le> r \<and> r \<le> hi))
                 else class_loop r chunk1 True (matches \<or> lo \<le> r \<and> r \<le> lo))))"
  by pat_completeness auto
termination
proof (relation "measure (\<lambda>(_, chunk, _, _). length chunk)", goal_cases)
  case (2 r chunk some_range matches p lo chunk1 q hi chunk2)
  then have "length chunk2 < length (tl chunk1)" "length chunk1 < length chunk"
    using getEsc_shorter [of "tl chunk1" hi chunk2] getEsc_shorter [of chunk lo chunk1] by auto
  then show ?case by simp
qed (auto dest: getEsc_shorter)

declare class_loop.simps [simp del]

lemma class_loop_shorter: "class_loop r chunk b m = Some (m', rest) \<Longrightarrow> length rest < length chunk"
proof (induction r chunk b m rule: class_loop.induct)
  case (1 r chunk b m)
  show ?case
  proof (cases "b \<and> chunk \<noteq> [] \<and> hd chunk = CHR '']''")
    case True
    with 1(3) show ?thesis by (auto simp: class_loop.simps [of r chunk])
  next
    case False
    with 1(3) obtain lo chunk1 where g: "getEsc chunk = Some (lo, chunk1)"
      by (auto simp: class_loop.simps [of r chunk] split: option.splits)
    note short = getEsc_shorter [OF g]
    show ?thesis
    proof (cases "hd chunk1 = CHR ''-''")
      case True
      with False g 1(3) obtain hi chunk2 where g2: "getEsc (tl chunk1) = Some (hi, chunk2)"
        by (auto simp: class_loop.simps [of r chunk] split: option.splits)
      with 1(1) [OF False g refl True g2 refl] 1(3) False g True have "length rest < length chunk2"
        by (simp add: class_loop.simps [of r chunk])
      with getEsc_shorter [OF g2] short show ?thesis by auto
    next
      case noRange: False
      with 1(2) [OF False g refl noRange] 1(3) False g have "length rest < length chunk1"
        by (simp add: class_loop.simps [of r chunk])
      with short show ?thesis by simp
    qed
  qed
qed

function matchChunk :: "string \<Rightarrow> string \<Rightarrow> match_result" where
  "matchChunk chunk s =
     (case chunk of
        [] \<Rightarrow> Matched s
      | c # cs \<Rightarrow>
          (case s of
             [] \<Rightarrow> NoMatch
           | x # xs \<Rightarrow>
               (if c = CHR ''['' then
                  (let (negated, body) = (if cs \<noteq> [] \<and> hd cs = CHR 0x5E then (True, tl cs) else (False, cs))
                   in case class_loop x body False False of
                        None \<Rightarrow> BadPattern
                      | Some (matches, rest) \<Rightarrow> if matches = negated then NoMatch else matchChunk rest xs)
                else if c = CHR ''?'' then (if x = CHR ''/'' then NoMatch else matchChunk cs xs)
                else if c = backslash then
                  (case cs of
                     [] \<Rightarrow> BadPattern
                   | d # ds \<Rightarrow> if d \<noteq> x then NoMatch else matchChunk ds xs)
                else if c \<noteq> x then NoMatch else matchChunk cs xs)))"
  by pat_completeness auto
termination by (relation "measure (\<lambda>(_, s). length s)") auto

declare matchChunk.simps [simp del]

text \<open>\<open>scanChunk\<close>: the part of the pattern up to the next star outside a class.\<close>

fun scan_plain :: "bool \<Rightarrow> string \<Rightarrow> string \<times> string" where
  "scan_plain inrange [] = ([], [])"
| "scan_plain inrange (c # cs) =
     (if c = backslash then
        (case cs of
           [] \<Rightarrow> ([c], [])
         | d # ds \<Rightarrow> (case scan_plain inrange ds of (a, b) \<Rightarrow> (c # d # a, b)))
      else if c = CHR ''['' then (case scan_plain True cs of (a, b) \<Rightarrow> (c # a, b))
      else if c = CHR '']'' then (case scan_plain False cs of (a, b) \<Rightarrow> (c # a, b))
      else if c = CHR ''*'' \<and> \<not> inrange then ([], c # cs)
      else (case scan_plain inrange cs of (a, b) \<Rightarrow> (c # a, b)))"

definition scanChunk :: "string \<Rightarrow> bool \<times> string \<times> string" where
  "scanChunk pattern =
     (let rest = dropWhile (\<lambda>c. c = CHR ''*'') pattern
      in (pattern \<noteq> [] \<and> hd pattern = CHR ''*'', scan_plain False rest))"

fun star_loop :: "string \<Rightarrow> bool \<Rightarrow> string \<Rightarrow> match_result" where
  "star_loop chunk last_chunk [] = NoMatch"
| "star_loop chunk last_chunk (c # cs) =
     (if c = CHR ''/'' then NoMatch
      else (case matchChunk chunk cs of
              Matched t \<Rightarrow> if last_chunk \<and> t \<noteq> [] then star_loop chunk last_chunk cs else Matched t
            | BadPattern \<Rightarrow> BadPattern
            | NoMatch \<Rightarrow> star_loop chunk last_chunk cs))"

lemma scan_plain_append: "scan_plain b cs = (chunk, rest) \<Longrightarrow> cs = chunk @ rest"
  by (induction b cs arbitrary: chunk rest rule: scan_plain.induct)
     (auto split: if_splits list.splits prod.splits)

lemma scanChunk_shorter:
  assumes "scanChunk pattern = (star, chunk, rest)" "pattern \<noteq> []" "\<not> (star \<and> chunk = [])"
  shows "length rest < length pattern"
proof -
  let ?p = "dropWhile (\<lambda>c. c = CHR ''*'') pattern"
  have split: "?p = chunk @ rest" "star \<longleftrightarrow> hd pattern = CHR ''*''"
    using assms(1,2) scan_plain_append [of False ?p chunk rest] by (auto simp: scanChunk_def Let_def)
  have len: "length ?p \<le> length pattern" by (rule length_dropWhile_le)
  show ?thesis
  proof (cases "chunk = []")
    case False
    then show ?thesis using split(1) len by (cases chunk) auto
  next
    case True
    with assms(3) split(2) have "hd pattern \<noteq> CHR ''*''" by simp
    with assms(2) obtain c cs where p: "pattern = c # cs" "c \<noteq> CHR ''*''" by (cases pattern) auto
    then have "scan_plain False pattern = (chunk, rest)"
      using assms(1) by (simp add: scanChunk_def Let_def)
    with p True show ?thesis by (auto split: if_splits list.splits prod.splits)
  qed
qed

function path_Match :: "string \<Rightarrow> string \<Rightarrow> match_result" where
  "path_Match pattern name =
     (if pattern = [] then (if name = [] then Matched [] else NoMatch)
      else (case scanChunk pattern of (star, chunk, rest) \<Rightarrow>
              if star \<and> chunk = [] then (if CHR ''/'' \<in> set name then NoMatch else Matched [])
              else (case matchChunk chunk name of
                      Matched t \<Rightarrow>
                        (if t = [] \<or> rest \<noteq> [] then path_Match rest t
                         else if star
                         then (case star_loop chunk (rest = []) name of
                                 Matched t \<Rightarrow> path_Match rest t | r \<Rightarrow> r)
                         else NoMatch)
                    | BadPattern \<Rightarrow> BadPattern
                    | NoMatch \<Rightarrow>
                        (if star
                         then (case star_loop chunk (rest = []) name of
                                 Matched t \<Rightarrow> path_Match rest t | r \<Rightarrow> r)
                         else NoMatch))))"
  by pat_completeness auto
termination
  by (relation "measure (\<lambda>(pattern, _). length pattern)") (auto dest: scanChunk_shorter [OF sym])

declare path_Match.simps [simp del]

section \<open>url.QueryUnescape\<close>

definition hex_val :: "char \<Rightarrow> nat option" where
  "hex_val c =
     (let n = of_char c
      in if 48 \<le> n \<and> n \<le> 57 then Some (n - 48)
         else if 97 \<le> n \<and> n \<le> 102 then Some (n - 87)
         else if 65 \<le> n \<and> n \<le> 70 then Some (n - 55) else None)"

fun QueryUnescape :: "string \<Rightarrow> string option" where
  "QueryUnescape [] = Some []"
| "QueryUnescape (c # cs) =
     (if c = CHR ''%'' then
        (case cs of
           a # b # rest \<Rightarrow>
             (case (hex_val a, hex_val b) of
                (Some x, Some y) \<Rightarrow> map_option (\<lambda>r. char_of (16 * x + y) # r) (QueryUnescape rest)
              | _ \<Rightarrow> None)
         | _ \<Rightarrow> None)
      else map_option (\<lambda>r. (if c = CHR ''+'' then CHR '' '' else c) # r) (QueryUnescape cs))"

lemma QueryUnescape_plain:
  "CHR ''%'' \<notin> set s \<Longrightarrow> CHR ''+'' \<notin> set s \<Longrightarrow> QueryUnescape s = Some s"
  by (induction s) auto

section \<open>Patterns without special characters\<close>

text \<open>A pattern of ordinary characters matches exactly itself.\<close>

definition plain_pattern :: "string \<Rightarrow> bool" where
  "plain_pattern p \<longleftrightarrow> set p \<inter> {CHR ''*'', CHR ''?'', CHR ''['', CHR '']'', backslash} = {}"

lemma matchChunk_plain: "plain_pattern chunk \<Longrightarrow> matchChunk chunk s =
    (if take (length chunk) s = chunk then Matched (drop (length chunk) s) else NoMatch)"
proof (induction chunk arbitrary: s)
  case Nil
  then show ?case by (simp add: matchChunk.simps)
next
  case (Cons c chunk)
  then have "plain_pattern chunk" by (simp add: plain_pattern_def)
  with Cons show ?case
    by (cases s) (auto simp: matchChunk.simps [of "c # chunk"] plain_pattern_def)
qed

lemma scan_plain_plain: "plain_pattern p \<Longrightarrow> scan_plain b p = (p, [])"
proof (induction p arbitrary: b)
  case (Cons c p)
  then have "plain_pattern p" by (simp add: plain_pattern_def)
  with Cons show ?case by (auto simp: plain_pattern_def)
qed simp

lemma path_Match_plain: "plain_pattern p \<Longrightarrow> path_Match p s = (if s = p then Matched [] else NoMatch)"
proof (cases p)
  case Nil
  then show ?thesis by (simp add: path_Match.simps)
next
  case (Cons c cs)
  assume plain: "plain_pattern p"
  then have "c \<noteq> CHR ''*''" by (auto simp: plain_pattern_def Cons)
  then have "scanChunk p = (False, p, [])"
    using scan_plain_plain [OF plain] by (simp add: scanChunk_def Cons)
  with plain show ?thesis
    by (subst path_Match.simps) (auto simp: Cons matchChunk_plain path_Match.simps [of "[]"])
qed

end
