(* ===== verification/Go_Time.thy ===== *)
theory Go_Time
  imports Panther_Prelude
begin

text \<open>
  The part of Go's \<open>time\<close> package that the log-analysis components use, in UTC: a \<open>time.Time\<close> is the number of
  nanoseconds since its zero value (January 1, year 1), the calendar functions follow \<open>absDate\<close> and \<open>Date\<close> of the
  package (a cycle of 400 years has 146097 days), and \<open>Truncate\<close> rounds down to a multiple of a duration since the
  zero time. The lemmas say that \<open>Date\<close> and \<open>absDate\<close> are inverse and how the calendar moves from one day to the next.
\<close>

named_theorems calendar \<open>facts of the calendar\<close>

type_synonym gotime = int

abbreviation Second :: int where "Second \<equiv> 1000000000"
abbreviation Hour_ns :: int where "Hour_ns \<equiv> 3600000000000"
abbreviation Day_ns :: int where "Day_ns \<equiv> 86400000000000"

definition Truncate :: "gotime \<Rightarrow> int \<Rightarrow> gotime" where
  "Truncate t d = t - t mod d"

definition IsZero :: "gotime \<Rightarrow> bool" where
  "IsZero t \<longleftrightarrow> t = 0"

section \<open>Dates\<close>

definition isLeap :: "int \<Rightarrow> bool" where
  "isLeap year \<longleftrightarrow> year mod 4 = 0 \<and> (year mod 100 \<noteq> 0 \<or> year mod 400 = 0)"

definition daysBefore :: "int \<Rightarrow> int" where
  "daysBefore m = [0, 31, 59, 90, 120, 151, 181, 212, 243, 273, 304, 334, 365] ! nat m"

text \<open>The year (counted from 0 for year 1) and the day of the year, from the days since the zero time. The last day
  of a leap cycle would be counted as the first of a fifth part, which \<open>n - n div 4\<close> takes back.\<close>

definition abs_year :: "int \<Rightarrow> int \<times> int" where
  "abs_year d0 =
     (let n400 = d0 div 146097; d1 = d0 - 146097 * n400;
          c = d1 div 36524; n100 = c - c div 4; d2 = d1 - 36524 * n100;
          n4 = d2 div 1461; d3 = d2 - 1461 * n4;
          a = d3 div 365; n1 = a - a div 4
      in (400 * n400 + 100 * n100 + 4 * n4 + n1 + 1, d3 - 365 * n1))"

definition abs_month :: "bool \<Rightarrow> int \<Rightarrow> int \<times> int" where
  "abs_month leap yday =
     (if leap \<and> yday = 59 then (2, 29)
      else let day = (if leap \<and> yday > 59 then yday - 1 else yday);
               month = day div 31; lim = daysBefore (month + 1)
           in if day \<ge> lim then (month + 2, day - lim + 1) else (month + 1, day - daysBefore month + 1))"

definition absDate :: "int \<Rightarrow> int \<times> int \<times> int" where
  "absDate d = (let (year, yday) = abs_year d in (year, abs_month (isLeap year) yday))"

definition Date_of :: "gotime \<Rightarrow> int \<times> int \<times> int" where
  "Date_of t = absDate (t div Day_ns)"

definition Year :: "gotime \<Rightarrow> int" where "Year t = fst (Date_of t)"
definition Month :: "gotime \<Rightarrow> int" where "Month t = fst (snd (Date_of t))"
definition Day :: "gotime \<Rightarrow> int" where "Day t = snd (snd (Date_of t))"
definition Hour :: "gotime \<Rightarrow> int" where "Hour t = t mod Day_ns div Hour_ns"

definition Minute_of :: "gotime \<Rightarrow> int" where "Minute_of t = t mod Hour_ns div Minute"
definition Second_of :: "gotime \<Rightarrow> int" where "Second_of t = t mod Minute div Second"

text \<open>The first day of a year, and the day of a date with a month in its range.\<close>

definition year_start :: "int \<Rightarrow> int" where
  "year_start year =
     (let y = year - 1; n400 = y div 400; y1 = y - 400 * n400; n100 = y1 div 100; y2 = y1 - 100 * n100;
          n4 = y2 div 4; n1 = y2 - 4 * n4
      in 146097 * n400 + 36524 * n100 + 1461 * n4 + 365 * n1)"

definition day_of :: "int \<Rightarrow> int \<Rightarrow> int \<Rightarrow> int" where
  "day_of year month day =
     year_start year + daysBefore (month - 1) + (if isLeap year \<and> month \<ge> 3 then 1 else 0) + day - 1"

text \<open>\<open>time.Date\<close> of a full hour: a month outside 1 to 12 moves the year; days and hours outside their range carry
  over by themselves.\<close>

definition time_Date :: "int \<Rightarrow> int \<Rightarrow> int \<Rightarrow> int \<Rightarrow> gotime" where
  "time_Date year month day hour =
     (let m = month - 1 in day_of (year + m div 12) (m mod 12 + 1) day * Day_ns + hour * Hour_ns)"

definition days_in :: "int \<Rightarrow> int \<Rightarrow> int" where
  "days_in year month = daysBefore month - daysBefore (month - 1) + (if isLeap year \<and> month = 2 then 1 else 0)"

definition valid_date :: "int \<times> int \<times> int \<Rightarrow> bool" where
  "valid_date = (\<lambda>(year, month, day). 1 \<le> month \<and> month \<le> 12 \<and> 1 \<le> day \<and> day \<le> days_in year month)"

definition year_len :: "int \<Rightarrow> int" where
  "year_len year = (if isLeap year then 366 else 365)"

section \<open>The calendar\<close>

text \<open>A year in the parts of its cycle of 400 years.\<close>

definition cycle :: "int \<Rightarrow> int \<Rightarrow> int \<Rightarrow> int \<Rightarrow> int" where
  "cycle n400 n100 n4 n1 = 400 * n400 + 100 * n100 + 4 * n4 + n1 + 1"

abbreviation in_cycle :: "int \<Rightarrow> int \<Rightarrow> int \<Rightarrow> bool" where
  "in_cycle n100 n4 n1 \<equiv> 0 \<le> n100 \<and> n100 < 4 \<and> 0 \<le> n4 \<and> n4 < 25 \<and> 0 \<le> n1 \<and> n1 < 4"

lemma div_parts: "0 \<le> r \<Longrightarrow> r < k \<Longrightarrow> (k * q + r) div k = (q :: int)"
  by (simp add: div_pos_pos_trivial)

lemma cycle_obtain:
  obtains n400 n100 n4 n1 where "y = cycle n400 n100 n4 n1" "in_cycle n100 n4 n1"
proof
  let ?y = "y - 1"
  show "y = cycle (?y div 400) (?y mod 400 div 100) (?y mod 400 mod 100 div 4) (?y mod 400 mod 100 mod 4)"
    using mult_div_mod_eq [of 400 ?y] mult_div_mod_eq [of 100 "?y mod 400"] mult_div_mod_eq [of 4 "?y mod 400 mod 100"]
    unfolding cycle_def by linarith
  have "0 \<le> x \<Longrightarrow> x < 400 \<Longrightarrow> 0 \<le> x div 100 \<and> x div 100 < 4" "0 \<le> x \<Longrightarrow> x < 100 \<Longrightarrow> 0 \<le> x div 4 \<and> x div 4 < 25"
    for x :: int by presburger+
  then show "in_cycle (?y mod 400 div 100) (?y mod 400 mod 100 div 4) (?y mod 400 mod 100 mod 4)"
    by simp
qed

lemma year_start_cycle [calendar]:
  assumes "in_cycle n100 n4 n1"
  shows "year_start (cycle n400 n100 n4 n1) = 146097 * n400 + 36524 * n100 + 1461 * n4 + 365 * n1"
proof -
  have "(400 * n400 + (100 * n100 + 4 * n4 + n1)) div 400 = n400"
    "(100 * n100 + (4 * n4 + n1)) div 100 = n100" "(4 * n4 + n1) div 4 = n4"
    using assms by (intro div_parts; linarith)+
  then show ?thesis by (simp add: year_start_def cycle_def Let_def add.assoc)
qed

lemma mod_zero_top:
  assumes "0 < r" "r \<le> k"
  shows "(r + q * k) mod k = 0 \<longleftrightarrow> r = (k :: int)"
proof (cases "r = k")
  case False
  with assms show ?thesis by (simp add: mod_pos_pos_trivial)
qed simp

lemma isLeap_cycle [calendar]:
  assumes "in_cycle n100 n4 n1"
  shows "isLeap (cycle n400 n100 n4 n1) \<longleftrightarrow> n1 = 3 \<and> (n4 \<noteq> 24 \<or> n100 = 3)"
proof -
  have forms: "cycle n400 n100 n4 n1 = (n1 + 1) + (100 * n400 + 25 * n100 + n4) * 4"
    "cycle n400 n100 n4 n1 = (4 * n4 + n1 + 1) + (4 * n400 + n100) * 100"
    "cycle n400 n100 n4 n1 = (100 * n100 + 4 * n4 + n1 + 1) + n400 * 400"
    by (simp_all add: cycle_def)
  have "cycle n400 n100 n4 n1 mod 4 = 0 \<longleftrightarrow> n1 + 1 = 4"
    unfolding forms(1) using assms by (intro mod_zero_top) linarith+
  moreover have "cycle n400 n100 n4 n1 mod 100 = 0 \<longleftrightarrow> 4 * n4 + n1 + 1 = 100"
    unfolding forms(2) using assms by (intro mod_zero_top) linarith+
  moreover have "cycle n400 n100 n4 n1 mod 400 = 0 \<longleftrightarrow> 100 * n100 + 4 * n4 + n1 + 1 = 400"
    unfolding forms(3) using assms by (intro mod_zero_top) linarith+
  moreover have century: "4 * n4 + n1 + 1 = 100 \<longleftrightarrow> n4 = 24 \<and> n1 = 3" using assms by presburger
  moreover have "100 * n100 + 4 * n4 + n1 + 1 = 400 \<longleftrightarrow> n100 = 3 \<and> 4 * n4 + n1 + 1 = 100"
  proof
    assume h: "100 * n100 + 4 * n4 + n1 + 1 = 400"
    then have "n100 = 3" using assms by linarith
    with h show "n100 = 3 \<and> 4 * n4 + n1 + 1 = 100" by simp
  qed simp
  ultimately show ?thesis by (auto simp: isLeap_def)
qed

lemma year_start_Suc: "year_start (y + 1) = year_start y + year_len y"
proof -
  obtain n400 n100 n4 n1 where y: "y = cycle n400 n100 n4 n1" and r: "in_cycle n100 n4 n1" by (rule cycle_obtain)
  consider "n1 < 3" | "n1 = 3" "n4 < 24" | "n1 = 3" "n4 = 24" "n100 < 3" | "n1 = 3" "n4 = 24" "n100 = 3"
    using r by linarith
  then show ?thesis
  proof cases
    case 1
    then have "y + 1 = cycle n400 n100 n4 (n1 + 1)" by (simp add: y cycle_def)
    with 1 r show ?thesis by (simp add: y year_len_def calendar)
  next
    case 2
    then have "y + 1 = cycle n400 n100 (n4 + 1) 0" by (simp add: y cycle_def)
    with 2 r show ?thesis by (simp add: y year_len_def calendar)
  next
    case 3
    then have "y + 1 = cycle n400 (n100 + 1) 0 0" by (simp add: y cycle_def)
    with 3 r show ?thesis by (simp add: y year_len_def calendar)
  next
    case 4
    then have "y + 1 = cycle (n400 + 1) 0 0 0" by (simp add: y cycle_def)
    with 4 r show ?thesis by (simp add: y year_len_def calendar)
  qed
qed

lemma year_len_pos: "365 \<le> year_len y"
  by (simp add: year_len_def)

lemma year_start_mono: "y < z \<Longrightarrow> year_start y + year_len y \<le> year_start z"
proof (induction z rule: int_gr_induct)
  case base
  then show ?case by (simp add: year_start_Suc)
next
  case (step z)
  then show ?case using year_len_pos [of z] by (simp add: year_start_Suc)
qed

text \<open>\<open>abs_year\<close> finds the year that holds the day.\<close>

lemma abs_year_bounds:
  assumes "abs_year d = (year, yday)"
  shows "year_start year + yday = d" "0 \<le> yday" "yday < year_len year"
proof -
  define n400 d1 where "n400 = d div 146097" and "d1 = d - 146097 * n400"
  define c n100 d2 where "c = d1 div 36524" and "n100 = c - c div 4" and "d2 = d1 - 36524 * n100"
  define n4 d3 where "n4 = d2 div 1461" and "d3 = d2 - 1461 * n4"
  define a n1 where "a = d3 div 365" and "n1 = a - a div 4"
  note defs = n400_def d1_def c_def n100_def d2_def n4_def d3_def a_def n1_def
  have "abs_year d = (cycle n400 n100 n4 n1, d3 - 365 * n1)"
    by (simp only: abs_year_def Let_def cycle_def defs)
  with assms have eq: "year = cycle n400 n100 n4 n1" "yday = d3 - 365 * n1" by simp_all
  have bound: "k * (x div k) \<le> x" "x < k * (x div k) + k" if "0 < k" for k x :: int
    using mult_div_mod_eq [of k x] pos_mod_bound [OF that, of x] pos_mod_sign [OF that, of x] by linarith+
  have d1: "0 \<le> d1" "d1 < 146097" using bound [of 146097 d] unfolding d1_def n400_def by linarith+
  have c: "36524 * c \<le> d1" "d1 < 36524 * c + 36524" unfolding c_def
    using bound [of 36524 d1] by simp_all
  then have "0 \<le> c" "c \<le> 4" using d1 by linarith+
  then have n100: "n100 = (if c = 4 then 3 else c)" unfolding n100_def by auto
  have d2: "0 \<le> d2" "d2 \<le> 36524" "d2 = 36524 \<Longrightarrow> n100 = 3" "0 \<le> n100" "n100 \<le> 3"
    using c d1 \<open>0 \<le> c\<close> \<open>c \<le> 4\<close> unfolding d2_def n100 by (cases "c = 4"; simp)+
  have n4: "1461 * n4 \<le> d2" "d2 < 1461 * n4 + 1461" unfolding n4_def
    using bound [of 1461 d2] by simp_all
  have d3: "0 \<le> d3" "d3 \<le> 1460" "0 \<le> n4" "n4 \<le> 24"
    using n4 d2 unfolding d3_def by linarith+
  have a: "365 * a \<le> d3" "d3 < 365 * a + 365" unfolding a_def
    using bound [of 365 d3] by simp_all
  then have "0 \<le> a" "a \<le> 4" using d3 by linarith+
  then have n1: "n1 = (if a = 4 then 3 else a)" unfolding n1_def by auto
  have r: "in_cycle n100 n4 n1" using d2 d3 \<open>0 \<le> a\<close> \<open>a \<le> 4\<close> by (auto simp: n1)
  have yd: "0 \<le> yday" "yday \<le> 365" "yday = 365 \<Longrightarrow> n1 = 3 \<and> d3 = 1460"
    using a d3 \<open>0 \<le> a\<close> \<open>a \<le> 4\<close> unfolding eq n1 by (cases "a = 4"; simp)+
  show "year_start year + yday = d"
    using r by (simp add: eq calendar) (simp add: d3_def d2_def d1_def)
  show "0 \<le> yday" by (rule yd)
  have "n4 = 24 \<Longrightarrow> d3 = 1460 \<Longrightarrow> n100 = 3" using d2(3) d3_def by linarith
  then show "yday < year_len year"
    using yd r by (cases "yday = 365") (auto simp: eq(1) year_len_def calendar)
qed

lemma abs_year_unique:
  assumes "0 \<le> yday" "yday < year_len year"
  shows "abs_year (year_start year + yday) = (year, yday)"
proof -
  obtain y' d' where a: "abs_year (year_start year + yday) = (y', d')" by fastforce
  from abs_year_bounds [OF this] have b: "year_start y' + d' = year_start year + yday" "0 \<le> d'" "d' < year_len y'"
    by auto
  have "y' = year" using year_start_mono [of y' year] year_start_mono [of year y'] b assms by linarith
  with a b show ?thesis by simp
qed

text \<open>Within a year, by the table of the months.\<close>

definition leap_day :: "bool \<Rightarrow> int \<Rightarrow> int" where
  "leap_day leap month = (if leap \<and> month \<ge> 3 then 1 else 0)"

definition month_len :: "bool \<Rightarrow> int \<Rightarrow> int" where
  "month_len leap month = daysBefore month - daysBefore (month - 1) + (if leap \<and> month = 2 then 1 else 0)"

lemma month_table:
  "list_all (\<lambda>leap. list_all (\<lambda>yday. case abs_month leap yday of (m, day) \<Rightarrow>
       daysBefore (m - 1) + leap_day leap m + day - 1 = yday \<and> 1 \<le> m \<and> m \<le> 12 \<and> 1 \<le> day \<and> day \<le> month_len leap m)
     [0..(if leap then 365 else 364)]) [True, False]"
  by code_simp

lemma day_table:
  "list_all (\<lambda>leap. list_all (\<lambda>m. list_all (\<lambda>day.
       abs_month leap (daysBefore (m - 1) + leap_day leap m + day - 1) = (m, day))
     [1..month_len leap m]) [1..12]) [True, False]"
  by code_simp

lemma month_ends:
  "list_all (\<lambda>leap. list_all (\<lambda>m. 28 \<le> month_len leap m \<and> month_len leap m \<le> 31 \<and> 0 \<le> daysBefore (m - 1) + leap_day leap m \<and>
      (if m = 12 then daysBefore 11 + leap_day leap 12 + month_len leap 12 = (if leap then 366 else 365)
       else daysBefore (m - 1) + leap_day leap m + month_len leap m = daysBefore m + leap_day leap (m + 1) \<and>
            daysBefore m + leap_day leap (m + 1) < (if leap then 366 else 365)))
     [1..12]) [True, False]"
  by code_simp

lemma in_bools: "b \<in> set [True, False]"
  by simp

lemma abs_month_correct:
  assumes "0 \<le> yday" "yday < (if leap then 366 else 365)" "abs_month leap yday = (m, day)"
  shows "daysBefore (m - 1) + leap_day leap m + day - 1 = yday" "1 \<le> m" "m \<le> 12" "1 \<le> day" "day \<le> month_len leap m"
proof -
  have "yday \<in> set [0..(if leap then 365 else 364)]" using assms(1,2) by (auto split: if_splits)
  then have "case abs_month leap yday of (m, day) \<Rightarrow>
      daysBefore (m - 1) + leap_day leap m + day - 1 = yday \<and> 1 \<le> m \<and> m \<le> 12 \<and> 1 \<le> day \<and> day \<le> month_len leap m"
    by (rule bspec [OF bspec [OF month_table [unfolded list_all_iff] in_bools]])
  with assms(3)
  show "daysBefore (m - 1) + leap_day leap m + day - 1 = yday" "1 \<le> m" "m \<le> 12" "1 \<le> day" "day \<le> month_len leap m"
    by simp_all
qed

lemma abs_month_inverse:
  assumes "1 \<le> m" "m \<le> 12" "1 \<le> day" "day \<le> month_len leap m"
  shows "abs_month leap (daysBefore (m - 1) + leap_day leap m + day - 1) = (m, day)"
proof -
  have "m \<in> set [1..12]" "day \<in> set [1..month_len leap m]" using assms by auto
  with day_table in_bools [of leap] show ?thesis unfolding list_all_iff by blast
qed

lemma month_end_at:
  assumes "1 \<le> m" "m \<le> 12"
  shows "28 \<le> month_len leap m" "month_len leap m \<le> 31" "0 \<le> daysBefore (m - 1) + leap_day leap m"
    "m = 12 \<Longrightarrow> daysBefore 11 + leap_day leap 12 + month_len leap 12 = (if leap then 366 else 365)"
    "m < 12 \<Longrightarrow> daysBefore (m - 1) + leap_day leap m + month_len leap m = daysBefore m + leap_day leap (m + 1)"
    "m < 12 \<Longrightarrow> daysBefore m + leap_day leap (m + 1) < (if leap then 366 else 365)"
proof -
  have "m \<in> set [1..12]" using assms by auto
  then have "28 \<le> month_len leap m \<and> month_len leap m \<le> 31 \<and> 0 \<le> daysBefore (m - 1) + leap_day leap m \<and>
      (if m = 12 then daysBefore 11 + leap_day leap 12 + month_len leap 12 = (if leap then 366 else 365)
       else daysBefore (m - 1) + leap_day leap m + month_len leap m = daysBefore m + leap_day leap (m + 1) \<and>
            daysBefore m + leap_day leap (m + 1) < (if leap then 366 else 365))"
    using month_ends in_bools [of leap] unfolding list_all_iff by blast
  then show "28 \<le> month_len leap m" "month_len leap m \<le> 31" "0 \<le> daysBefore (m - 1) + leap_day leap m"
    "m = 12 \<Longrightarrow> daysBefore 11 + leap_day leap 12 + month_len leap 12 = (if leap then 366 else 365)"
    "m < 12 \<Longrightarrow> daysBefore (m - 1) + leap_day leap m + month_len leap m = daysBefore m + leap_day leap (m + 1)"
    "m < 12 \<Longrightarrow> daysBefore m + leap_day leap (m + 1) < (if leap then 366 else 365)"
    by simp_all
qed

lemma day_of_split: "day_of y m d = year_start y + (daysBefore (m - 1) + leap_day (isLeap y) m + d - 1)"
  by (simp add: day_of_def leap_day_def)

lemma days_in_month_len: "days_in y m = month_len (isLeap y) m"
  by (simp add: days_in_def month_len_def)

text \<open>The day of the year is within the year.\<close>

lemma yday_bounds:
  assumes "1 \<le> m" "m \<le> 12" "1 \<le> day" "day \<le> month_len leap m"
  shows "0 \<le> daysBefore (m - 1) + leap_day leap m + day - 1"
    "daysBefore (m - 1) + leap_day leap m + day - 1 < (if leap then 366 else 365)"
proof -
  note e = month_end_at [OF assms(1,2), of leap]
  show "0 \<le> daysBefore (m - 1) + leap_day leap m + day - 1"
    using e(3) assms by linarith
  show "daysBefore (m - 1) + leap_day leap m + day - 1 < (if leap then 366 else 365)"
  proof (cases "m = 12")
    case True
    with e(4) assms show ?thesis by simp
  next
    case False
    with e(5,6) assms show ?thesis by simp
  qed
qed

theorem day_of_absDate:
  assumes "absDate d = (y, m, day)"
  shows "day_of y m day = d" "valid_date (y, m, day)"
proof -
  obtain y' yday where a: "abs_year d = (y', yday)" by fastforce
  note b = abs_year_bounds [OF a]
  from assms a have y: "y' = y" "abs_month (isLeap y) yday = (m, day)" by (auto simp: absDate_def)
  note c = abs_month_correct [OF b(2) _ y(2)]
  have "yday < (if isLeap y then 366 else 365)" using b(3) y by (simp add: year_len_def)
  from c [OF this] b(1) y show "day_of y m day = d" "valid_date (y, m, day)"
    by (auto simp: day_of_split valid_date_def days_in_month_len)
qed

theorem absDate_day_of:
  assumes "valid_date (y, m, day)"
  shows "absDate (day_of y m day) = (y, m, day)"
proof -
  have v: "1 \<le> m" "m \<le> 12" "1 \<le> day" "day \<le> month_len (isLeap y) m"
    using assms by (auto simp: valid_date_def days_in_month_len)
  note b = yday_bounds [OF v]
  have "abs_year (day_of y m day) = (y, daysBefore (m - 1) + leap_day (isLeap y) m + day - 1)"
    unfolding day_of_split using b by (intro abs_year_unique) (auto simp: year_len_def)
  then show ?thesis by (simp add: absDate_def abs_month_inverse [OF v])
qed

text \<open>From one day to the next.\<close>

lemma day_of_Suc: "day_of y m (day + 1) = day_of y m day + 1"
  by (simp add: day_of_def)

definition next_month :: "int \<Rightarrow> int \<Rightarrow> int \<times> int" where
  "next_month y m = (if m = 12 then (y + 1, 1) else (y, m + 1))"

lemma day_of_month_end:
  assumes "1 \<le> m" "m \<le> 12" "next_month y m = (y', m')"
  shows "day_of y' m' 1 = day_of y m (days_in y m) + 1"
proof (cases "m = 12")
  case True
  note e = month_end_at [OF assms(1,2), of "isLeap y"]
  have "daysBefore 0 = 0" by (simp add: daysBefore_def)
  with True e(4) assms(3) show ?thesis
    by (auto simp: day_of_split days_in_month_len next_month_def year_start_Suc year_len_def leap_day_def)
next
  case False
  note e = month_end_at [OF assms(1,2), of "isLeap y"]
  with False assms show ?thesis by (auto simp: day_of_split days_in_month_len next_month_def)
qed

lemma valid_month_start: "1 \<le> m \<Longrightarrow> m \<le> 12 \<Longrightarrow> valid_date (y, m, 1)"
  using month_end_at(1) [of m "isLeap y"] by (simp add: valid_date_def days_in_month_len)

section \<open>Times of a date\<close>

lemma Date_of_date:
  assumes "valid_date (y, m, day)" "0 \<le> r" "r < Day_ns"
  shows "Date_of (day_of y m day * Day_ns + r) = (y, m, day)"
proof -
  have "(day_of y m day * Day_ns + r) div Day_ns = day_of y m day" using assms(2,3) by simp
  then show ?thesis by (simp add: Date_of_def absDate_day_of [OF assms(1)])
qed

lemma date_of_time:
  "day_of (Year t) (Month t) (Day t) = t div Day_ns" "valid_date (Year t, Month t, Day t)"
  using day_of_absDate [of "t div Day_ns" "Year t" "Month t" "Day t"]
  by (simp_all add: Year_def Month_def Day_def Date_of_def)

lemma Hour_bounds: "0 \<le> Hour t" "Hour t < 24"
proof -
  have "0 \<le> t mod Day_ns" "t mod Day_ns < Day_ns" by simp_all
  then show "0 \<le> Hour t" "Hour t < 24" unfolding Hour_def by (simp_all add: div_int_pos_iff int_div_less_self)
qed

text \<open>Rebuilding a time from its year, month, day and hour gives the start of its hour.\<close>

theorem time_Date_parts: "time_Date (Year t) (Month t) (Day t) (Hour t) = Truncate t Hour_ns"
proof -
  have m: "1 \<le> Month t" "Month t \<le> 12" using date_of_time(2) [of t] by (auto simp: valid_date_def)
  then have "(Month t - 1) div 12 = 0" "(Month t - 1) mod 12 = Month t - 1" by simp_all
  then have "time_Date (Year t) (Month t) (Day t) (Hour t) = t div Day_ns * Day_ns + Hour t * Hour_ns"
    using date_of_time(1) [of t] by (simp add: time_Date_def Let_def)
  also have "\<dots> = t - t mod Day_ns + (t mod Day_ns - t mod Day_ns mod Hour_ns)"
    by (simp add: Hour_def minus_mod_eq_div_mult [symmetric])
  also have "t mod Day_ns mod Hour_ns = t mod Hour_ns"
    by (rule mod_mod_cancel) simp
  finally show ?thesis by (simp add: Truncate_def)
qed

end
