(* ===== verification/Go_Url.thy ===== *)
theory Go_Url
  imports Go_Strings Go_Path
begin

text \<open>
  \<open>url.Parse\<close> of Go's \<open>net/url\<close>, as far as its caller looks at the result: whether the text is a URL, and its host.
  The steps are those of the package: scheme, query, authority with user and port, escapes.
\<close>

definition is_alpha :: "char \<Rightarrow> bool" where
  "is_alpha c \<longleftrightarrow> (let n = of_char c :: nat in 97 \<le> n \<and> n \<le> 122 \<or> 65 \<le> n \<and> n \<le> 90)"

definition is_ctl :: "char \<Rightarrow> bool" where
  "is_ctl c \<longleftrightarrow> (let n = of_char c :: nat in n < 32 \<or> n = 127)"

text \<open>\<open>split(s, c, cutc)\<close>: what is before the first \<open>c\<close>, and what is after it.\<close>

definition before :: "char \<Rightarrow> string \<Rightarrow> string" where
  "before c s = takeWhile (\<lambda>x. x \<noteq> c) s"

definition after :: "char \<Rightarrow> string \<Rightarrow> string" where
  "after c s = drop 1 (dropWhile (\<lambda>x. x \<noteq> c) s)"

text \<open>What is from the last \<open>c\<close> on, if there is one.\<close>

definition last_part :: "char \<Rightarrow> string \<Rightarrow> string option" where
  "last_part c s = (if c \<in> set s then Some (c # rev (takeWhile (\<lambda>x. x \<noteq> c) (rev s))) else None)"

text \<open>\<open>getscheme\<close>: the scheme and the rest; \<open>None\<close> for a missing scheme.\<close>

fun getscheme_from :: "string \<Rightarrow> string \<Rightarrow> string \<Rightarrow> (string \<times> string) option" where
  "getscheme_from raw seen [] = Some ([], raw)"
| "getscheme_from raw seen (c # cs) =
     (if is_alpha c then getscheme_from raw (seen @ [c]) cs
      else if is_digit c \<or> c \<in> set ''+-.'' then (if seen = [] then Some ([], raw) else getscheme_from raw (seen @ [c]) cs)
      else if c = CHR '':'' then (if seen = [] then None else Some (seen, cs))
      else Some ([], raw))"

definition getscheme :: "string \<Rightarrow> (string \<times> string) option" where
  "getscheme raw = getscheme_from raw [] raw"

datatype url_mode = encodeHost | encodeZone | encodeOther

text \<open>A character that may not stand for itself in a host.\<close>

definition host_escape :: "char \<Rightarrow> bool" where
  "host_escape c \<longleftrightarrow> \<not> (is_alpha c \<or> is_digit c \<or> c \<in> set ''!$&()*+,;=:[]<>-_.~'' \<or> c = CHR 0x27 \<or> c = CHR 0x22)"

fun unescape :: "url_mode \<Rightarrow> string \<Rightarrow> string option" where
  "unescape mode [] = Some []"
| "unescape mode (c # cs) =
     (if c = CHR ''%'' then
        (case cs of
           a # b # rest \<Rightarrow>
             (case (hex_val a, hex_val b) of
                (Some x, Some y) \<Rightarrow>
                  (if mode = encodeHost \<and> x < 8 \<and> [a, b] \<noteq> ''25'' then None
                   else if mode = encodeZone \<and> [a, b] \<noteq> ''25'' \<and> 16 * x + y \<noteq> 32 \<and> host_escape (char_of (16 * x + y)) then None
                   else map_option (\<lambda>r. char_of (16 * x + y) # r) (unescape mode rest))
              | _ \<Rightarrow> None)
         | _ \<Rightarrow> None)
      else if mode \<noteq> encodeOther \<and> (of_char c :: nat) < 128 \<and> host_escape c then None
      else map_option (\<lambda>r. c # r) (unescape mode cs))"

definition validOptionalPort :: "string \<Rightarrow> bool" where
  "validOptionalPort port \<longleftrightarrow> port = [] \<or> hd port = CHR '':'' \<and> list_all is_digit (tl port)"

text \<open>Where the zone of an IPv6 address begins.\<close>

fun zone_index :: "string \<Rightarrow> nat option" where
  "zone_index [] = None"
| "zone_index (c # cs) = (if HasPrefix (c # cs) ''%25'' then Some 0 else map_option Suc (zone_index cs))"

definition concat_options :: "string option list \<Rightarrow> string option" where
  "concat_options os = (if list_all (\<lambda>x. x \<noteq> None) os then Some (concat (map the os)) else None)"

definition parseHost :: "string \<Rightarrow> string option" where
  "parseHost host =
     (if HasPrefix host ''['' then
        (case last_part (CHR '']'') host of
           None \<Rightarrow> None
         | Some t \<Rightarrow>
             (let i = length host - length t
              in if \<not> validOptionalPort (tl t) then None
                 else case zone_index (take i host) of
                        None \<Rightarrow> unescape encodeHost host
                      | Some z \<Rightarrow> concat_options [unescape encodeHost (take z host),
                          unescape encodeZone (drop z (take i host)), unescape encodeHost (drop i host)]))
      else case last_part (CHR '':'') host of
             None \<Rightarrow> unescape encodeHost host
           | Some port \<Rightarrow> (if validOptionalPort port then unescape encodeHost host else None))"

definition validUserinfo :: "string \<Rightarrow> bool" where
  "validUserinfo s \<longleftrightarrow> list_all (\<lambda>c. is_alpha c \<or> is_digit c \<or> c \<in> set ''-._:~!$&()*+,;=%@'' \<or> c = CHR 0x27) s"

definition parseAuthority :: "string \<Rightarrow> string option" where
  "parseAuthority authority =
     (case last_part (CHR ''@'') authority of
        None \<Rightarrow> parseHost authority
      | Some t \<Rightarrow>
          (let userinfo = take (length authority - length t) authority
           in case parseHost (tl t) of
                None \<Rightarrow> None
              | Some host \<Rightarrow>
                  (if validUserinfo userinfo \<and> unescape encodeOther (before (CHR '':'') userinfo) \<noteq> None \<and>
                      unescape encodeOther (after (CHR '':'') userinfo) \<noteq> None
                   then Some host else None)))"

definition parse_url :: "string \<Rightarrow> string option" where
  "parse_url raw =
     (if list_ex is_ctl raw then None
      else if raw = ''*'' then Some []
      else case getscheme raw of
             None \<Rightarrow> None
           | Some (scheme, rest0) \<Rightarrow>
               (let rest = before (CHR ''?'') rest0
                in if \<not> HasPrefix rest ''/'' \<and> scheme \<noteq> [] then Some []
                   else if \<not> HasPrefix rest ''/'' \<and> CHR '':'' \<in> set (before (CHR ''/'') rest) then None
                   else if (scheme \<noteq> [] \<or> \<not> HasPrefix rest ''///'') \<and> HasPrefix rest ''//'' then
                     (let authority = before (CHR ''/'') (drop 2 rest)
                      in case parseAuthority authority of
                           None \<Rightarrow> None
                         | Some host \<Rightarrow>
                             (if unescape encodeOther (dropWhile (\<lambda>c. c \<noteq> CHR ''/'') (drop 2 rest)) = None
                              then None else Some host))
                   else if unescape encodeOther rest = None then None else Some []))"

text \<open>\<open>url.Parse(raw)\<close>: the host, or \<open>None\<close> for an error.\<close>

definition url_Host :: "string \<Rightarrow> string option" where
  "url_Host raw =
     (case parse_url (before (CHR ''#'') raw) of
        None \<Rightarrow> None
      | Some host \<Rightarrow> (if unescape encodeOther (after (CHR ''#'') raw) = None then None else Some host))"

lemma url_Host_bucket: "url_Host ''s3://panther-data/logs/t/'' = Some ''panther-data''"
  by code_simp

end
