(* ===== verification/Awsglue.thy ===== *)
theory Awsglue
  imports Go_Time Go_Url
begin

text \<open>
  \<open>pkg/awsglue\<close>: the tables and partitions that Athena queries. A table holds the data of one log type, its
  partitions one hour (day, month) each; the location of a partition in S3 is derived from its time, and the time
  from an object key. \<open>SyncPartitions\<close> updates all partitions of a table with ten concurrent workers, modelled as a
  step relation in which every call of AWS is a step of its own.

  The Glue and S3 clients are functions of the calls made so far and of the request, so that they may answer
  differently every time. Of their answers only the fields the code reads are kept; those it dereferences
  without a check (storage descriptor, location, serialisation library) are present.
\<close>

section \<open>glue_timebin.go\<close>

type_synonym GlueTableTimebin = int

definition GlueTableMonthly :: GlueTableTimebin where "GlueTableMonthly = 1"
definition GlueTableDaily :: GlueTableTimebin where "GlueTableDaily = 2"
definition GlueTableHourly :: GlueTableTimebin where "GlueTableHourly = 3"

lemmas timebin_defs = GlueTableMonthly_def GlueTableDaily_def GlueTableHourly_def

definition timebin_Validate :: "GlueTableTimebin \<Rightarrow> error option" where
  "timebin_Validate tb =
     (if tb = GlueTableHourly \<or> tb = GlueTableDaily \<or> tb = GlueTableMonthly then None
      else Some (''unknown GlueTableMetadata table time bin: '' @ Itoa tb))"

text \<open>The loop of a monthly table: a day at a time until the month changes.\<close>

partial_function (option) month_loop :: "int \<Rightarrow> gotime \<Rightarrow> gotime option" where
  "month_loop currentMonth next = (if Month next = currentMonth then month_loop currentMonth (next + Day_ns) else Some next)"

text \<open>The next time bin; \<open>None\<close> is the panic on an unknown time bin (or a loop that does not end).\<close>

definition Next :: "GlueTableTimebin \<Rightarrow> gotime \<Rightarrow> gotime option" where
  "Next tb t =
     (if tb = GlueTableHourly then Some (Truncate (t + Hour_ns) Hour_ns)
      else if tb = GlueTableDaily then Some (Truncate (t + Day_ns) Day_ns)
      else if tb = GlueTableMonthly then month_loop (Month t) (Truncate (t + Day_ns) Day_ns)
      else None)"

text \<open>\<open>for timeBin := t; !timeBin.After(lim); timeBin = tb.Next(timeBin)\<close>: the times the loop visits.\<close>

partial_function (option) timebins :: "GlueTableTimebin \<Rightarrow> gotime \<Rightarrow> gotime \<Rightarrow> gotime list option" where
  "timebins tb t lim =
     (if t > lim then Some []
      else Option.bind (Next tb t) (\<lambda>t'. Option.bind (timebins tb t' lim) (\<lambda>ts. Some (t # ts))))"

declare month_loop.simps [code] timebins.simps [code]

section \<open>partition.go: locations\<close>

type_synonym DataType = string

definition LogData :: DataType where "LogData = ''LogData''"
definition RuleData :: DataType where "RuleData = ''RuleMatches''"

definition logS3Prefix :: string where "logS3Prefix = ''logs''"
definition ruleMatchS3Prefix :: string where "ruleMatchS3Prefix = ''rules''"
definition LogProcessingDatabaseName :: string where "LogProcessingDatabaseName = ''panther_logs''"
definition RuleMatchDatabaseName :: string where "RuleMatchDatabaseName = ''panther_rule_matches''"

lemmas glue_names = LogData_def RuleData_def logS3Prefix_def ruleMatchS3Prefix_def
  LogProcessingDatabaseName_def RuleMatchDatabaseName_def

definition getDatabase :: "DataType \<Rightarrow> string" where
  "getDatabase datatype = (if datatype = LogData then LogProcessingDatabaseName else RuleMatchDatabaseName)"

definition getTablePrefix :: "DataType \<Rightarrow> string \<Rightarrow> string" where
  "getTablePrefix datatype tableName =
     (if datatype = LogData then logS3Prefix @ ''/'' @ tableName @ ''/'' else ruleMatchS3Prefix @ ''/'' @ tableName @ ''/'')"

text \<open>\<open>strings.ToLower\<close> and \<open>strings.Replace\<close> of one byte, on ASCII texts.\<close>

definition lower_char :: "char \<Rightarrow> char" where
  "lower_char c = (let n = of_char c :: nat in if 65 \<le> n \<and> n \<le> 90 then char_of (n + 32) else c)"

definition GetTableName :: "string \<Rightarrow> string" where
  "GetTableName logType = map lower_char (map (\<lambda>c. if c = CHR ''.'' then CHR ''_'' else c) logType)"

text \<open>The format \<open>%02d\<close>.\<close>

definition pad2 :: "int \<Rightarrow> string" where
  "pad2 n = (if 0 \<le> n \<and> n < 10 then CHR ''0'' # Itoa n else Itoa n)"

definition getTimePartitionPrefix :: "GlueTableTimebin \<Rightarrow> gotime \<Rightarrow> string" where
  "getTimePartitionPrefix timebin t =
     (if timebin = GlueTableHourly
      then ''year='' @ Itoa (Year t) @ ''/month='' @ pad2 (Month t) @ ''/day='' @ pad2 (Day t) @ ''/hour='' @ pad2 (Hour t) @ ''/''
      else if timebin = GlueTableDaily
      then ''year='' @ Itoa (Year t) @ ''/month='' @ pad2 (Month t) @ ''/day='' @ pad2 (Day t) @ ''/''
      else ''year='' @ Itoa (Year t) @ ''/month='' @ pad2 (Month t) @ ''/'')"

definition GetPartitionPrefix :: "DataType \<Rightarrow> string \<Rightarrow> GlueTableTimebin \<Rightarrow> gotime \<Rightarrow> string" where
  "GetPartitionPrefix datatype logType timebin t =
     getTablePrefix datatype (GetTableName logType) @ getTimePartitionPrefix timebin t"

record PartitionColumnInfo =
  pc_Key :: string
  pc_Value :: string

record GluePartition =
  gp_datatype :: DataType
  gp_databaseName :: string
  gp_tableName :: string
  gp_s3Bucket :: string
  gp_dataFormat :: string
  gp_compression :: string
  gp_hour :: gotime
  gp_partitionColumns :: "PartitionColumnInfo list"

fun columns_prefix :: "PartitionColumnInfo list \<Rightarrow> string" where
  "columns_prefix [] = []"
| "columns_prefix (c # cs) = pc_Key c @ ''='' @ pc_Value c @ ''/'' @ columns_prefix cs"

definition GetPartitionLocation :: "GluePartition \<Rightarrow> string" where
  "GetPartitionLocation gp =
     ''s3://'' @ gp_s3Bucket gp @ ''/'' @ getTablePrefix (gp_datatype gp) (gp_tableName gp) @ columns_prefix (gp_partitionColumns gp)"

text \<open>The cause that \<open>strconv\<close> gives for a text that is no number is left out of the error.\<close>

definition inferPartitionColumnInfo :: "string \<Rightarrow> string \<Rightarrow> error + PartitionColumnInfo" where
  "inferPartitionColumnInfo input partitionName =
     (case split_on (CHR ''='') input of
        [k, v] \<Rightarrow>
          (if k \<noteq> partitionName then Inl (''failed to get partition key '' @ partitionName @ '' from '' @ input)
           else case Atoi v of
                  None \<Rightarrow> Inl (''failed to parse to integer '' @ v)
                | Some _ \<Rightarrow> Inr \<lparr>pc_Key = partitionName, pc_Value = v\<rparr>)
      | _ \<Rightarrow> Inl (''failed to get partition key '' @ partitionName @ '' from '' @ input))"

text \<open>The columns for day and hour, and the time of the partition, which stays zero unless all four are there.\<close>

definition finer_columns :: "GluePartition \<Rightarrow> PartitionColumnInfo \<Rightarrow> PartitionColumnInfo \<Rightarrow> string list \<Rightarrow> GluePartition" where
  "finer_columns part year_kv month_kv more_keys =
     (case more_keys of
        [] \<Rightarrow> part
      | k4 # rest \<Rightarrow>
          (case inferPartitionColumnInfo k4 ''day'' of
             Inl _ \<Rightarrow> part
           | Inr day_kv \<Rightarrow>
               (let p1 = part\<lparr>gp_partitionColumns := gp_partitionColumns part @ [day_kv]\<rparr>
                in case rest of
                     [] \<Rightarrow> p1
                   | k5 # _ \<Rightarrow>
                       (case inferPartitionColumnInfo k5 ''hour'' of
                          Inl _ \<Rightarrow> p1
                        | Inr hour_kv \<Rightarrow>
                            (let p2 = p1\<lparr>gp_partitionColumns := gp_partitionColumns p1 @ [hour_kv]\<rparr>
                             in case (Atoi (pc_Value year_kv), Atoi (pc_Value month_kv), Atoi (pc_Value day_kv), Atoi (pc_Value hour_kv)) of
                                  (Some year, Some month, Some day, Some hour) \<Rightarrow> p2\<lparr>gp_hour := time_Date year month day hour\<rparr>
                                | _ \<Rightarrow> p2)))))"

definition GetPartitionFromS3 :: "string \<Rightarrow> string \<Rightarrow> error + GluePartition" where
  "GetPartitionFromS3 s3Bucket s3ObjectKey =
     (if \<not> HasSuffix s3ObjectKey ''.json.gz'' then Inl ''currently only GZIP json is supported''
      else case split_on (CHR ''/'') s3ObjectKey of
        k0 # k1 # k2 # k3 # more_keys \<Rightarrow>
          (if k0 \<noteq> logS3Prefix \<and> k0 \<noteq> ruleMatchS3Prefix then Inl (''unsupported S3 object prefix '' @ k0)
           else case inferPartitionColumnInfo k2 ''year'' of
                  Inl err \<Rightarrow> Inl err
                | Inr year_kv \<Rightarrow>
                    (case inferPartitionColumnInfo k3 ''month'' of
                       Inl err \<Rightarrow> Inl err
                     | Inr month_kv \<Rightarrow>
                         Inr (finer_columns
                           \<lparr>gp_datatype = (if k0 = logS3Prefix then LogData else RuleData),
                            gp_databaseName = (if k0 = logS3Prefix then LogProcessingDatabaseName else RuleMatchDatabaseName),
                            gp_tableName = k1, gp_s3Bucket = s3Bucket, gp_dataFormat = ''json'', gp_compression = ''gzip'',
                            gp_hour = 0, gp_partitionColumns = [year_kv, month_kv]\<rparr>
                           year_kv month_kv more_keys)))
      | _ \<Rightarrow> Inl (''s3 object key ['' @ s3ObjectKey @ ''] doesn'' @ [CHR 0x27] @ ''t have the appropriate format''))"

section \<open>glue.go\<close>

datatype glue_error =
    awserr string string                          \<comment> \<open>an error of AWS: code and message\<close>
  | other_error string
  | cannot_parse_path string string string        \<comment> \<open>database, table and location\<close>
  | not_json_table string
  | failed_to_create_partition glue_error

definition error_code :: "glue_error \<Rightarrow> string option" where
  "error_code e = (case e of awserr code _ \<Rightarrow> Some code | _ \<Rightarrow> None)"

definition ErrCodeEntityNotFoundException :: string where
  "ErrCodeEntityNotFoundException = ''EntityNotFoundException''"

definition ErrCodeAlreadyExistsException :: string where
  "ErrCodeAlreadyExistsException = ''AlreadyExistsException''"

record SerDeInfo =
  SerializationLibrary :: string
  Parameters :: "(string \<times> string) list"

record StorageDescriptor =
  sd_Columns :: "(string \<times> string) list"
  sd_Location :: string
  sd_SerdeInfo :: SerDeInfo
  sd_Other :: "(string \<times> string) list"           \<comment> \<open>the fields that are only copied\<close>

record TableData =
  td_CreateTime :: gotime
  td_StorageDescriptor :: StorageDescriptor

text \<open>The calls of AWS, each with its answer. Of a listing the sizes on its first page are kept: the callback stops
  there.\<close>

datatype glue_event =
    EGetTable string string "glue_error + TableData"
  | EGetPartition string string "string list" "glue_error + StorageDescriptor"
  | ECreatePartition string string "string list" StorageDescriptor "glue_error option"
  | EUpdatePartition string string "string list" StorageDescriptor "glue_error option"
  | EDeletePartition string string "string list" "glue_error option"
  | EListObjects string string "glue_error + int list"

type_synonym glue_log = "glue_event list"

record glue_client =
  gc_GetTable :: "glue_log \<Rightarrow> string \<Rightarrow> string \<Rightarrow> glue_error + TableData"
  gc_GetPartition :: "glue_log \<Rightarrow> string \<Rightarrow> string \<Rightarrow> string list \<Rightarrow> glue_error + StorageDescriptor"
  gc_CreatePartition :: "glue_log \<Rightarrow> string \<Rightarrow> string \<Rightarrow> string list \<Rightarrow> StorageDescriptor \<Rightarrow> glue_error option"
  gc_UpdatePartition :: "glue_log \<Rightarrow> string \<Rightarrow> string \<Rightarrow> string list \<Rightarrow> StorageDescriptor \<Rightarrow> glue_error option"
  gc_DeletePartition :: "glue_log \<Rightarrow> string \<Rightarrow> string \<Rightarrow> string list \<Rightarrow> glue_error option"
  gc_ListObjects :: "glue_log \<Rightarrow> string \<Rightarrow> string \<Rightarrow> glue_error + int list"

record PartitionKey =
  pk_Name :: string
  pk_Type :: string

text \<open>The event structure, which only the schema generator reads, is left out.\<close>

record GlueTableMetadata =
  gm_databaseName :: string
  gm_tableName :: string
  gm_description :: string
  gm_logType :: string
  gm_prefix :: string
  gm_timebin :: GlueTableTimebin

definition NewGlueTableMetadata :: "DataType \<Rightarrow> string \<Rightarrow> string \<Rightarrow> GlueTableTimebin \<Rightarrow> GlueTableMetadata" where
  "NewGlueTableMetadata datatype logType logDescription timebin =
     \<lparr>gm_databaseName = getDatabase datatype, gm_tableName = GetTableName logType, gm_description = logDescription,
      gm_logType = logType, gm_prefix = getTablePrefix datatype (GetTableName logType), gm_timebin = timebin\<rparr>"

definition PartitionKeys :: "GlueTableMetadata \<Rightarrow> PartitionKey list" where
  "PartitionKeys gm =
     [\<lparr>pk_Name = ''year'', pk_Type = ''int''\<rparr>]
     @ (if gm_timebin gm \<ge> GlueTableMonthly then [\<lparr>pk_Name = ''month'', pk_Type = ''int''\<rparr>] else [])
     @ (if gm_timebin gm \<ge> GlueTableDaily then [\<lparr>pk_Name = ''day'', pk_Type = ''int''\<rparr>] else [])
     @ (if gm_timebin gm \<ge> GlueTableHourly then [\<lparr>pk_Name = ''hour'', pk_Type = ''int''\<rparr>] else [])"

definition partitionValues :: "GlueTableMetadata \<Rightarrow> gotime \<Rightarrow> string list" where
  "partitionValues gm t =
     [Itoa (Year t)]
     @ (if gm_timebin gm \<ge> GlueTableMonthly then [pad2 (Month t)] else [])
     @ (if gm_timebin gm \<ge> GlueTableDaily then [pad2 (Day t)] else [])
     @ (if gm_timebin gm \<ge> GlueTableHourly then [pad2 (Hour t)] else [])"

definition gm_GetPartitionPrefix :: "GlueTableMetadata \<Rightarrow> gotime \<Rightarrow> string" where
  "gm_GetPartitionPrefix gm t = gm_prefix gm @ getTimePartitionPrefix (gm_timebin gm) t"

definition table_path_error :: "GlueTableMetadata \<Rightarrow> TableData \<Rightarrow> glue_error" where
  "table_path_error gm table =
     cannot_parse_path (gm_databaseName gm) (gm_tableName gm) (sd_Location (td_StorageDescriptor table))"

definition createPartition ::
  "glue_client \<Rightarrow> GlueTableMetadata \<Rightarrow> gotime \<Rightarrow> TableData \<Rightarrow> glue_log \<Rightarrow> glue_error option \<times> glue_log" where
  "createPartition client gm t table calls =
     (case url_Host (sd_Location (td_StorageDescriptor table)) of
        None \<Rightarrow> (Some (table_path_error gm table), calls)
      | Some host \<Rightarrow>
          (let sd = (td_StorageDescriptor table)\<lparr>sd_Location := ''s3://'' @ host @ ''/'' @ gm_GetPartitionPrefix gm t\<rparr>;
               values = partitionValues gm t;
               r = gc_CreatePartition client calls (gm_databaseName gm) (gm_tableName gm) values sd;
               calls' = calls @ [ECreatePartition (gm_databaseName gm) (gm_tableName gm) values sd r]
           in case r of
                None \<Rightarrow> (None, calls')
              | Some err \<Rightarrow> (if error_code err = Some ErrCodeAlreadyExistsException then None else Some err, calls')))"

definition deletePartition ::
  "glue_client \<Rightarrow> GlueTableMetadata \<Rightarrow> gotime \<Rightarrow> glue_log \<Rightarrow> glue_error option \<times> glue_log" where
  "deletePartition client gm t calls =
     (let r = gc_DeletePartition client calls (gm_databaseName gm) (gm_tableName gm) (partitionValues gm t)
      in (r, calls @ [EDeletePartition (gm_databaseName gm) (gm_tableName gm) (partitionValues gm t) r]))"

definition partitionHasData ::
  "glue_client \<Rightarrow> GlueTableMetadata \<Rightarrow> gotime \<Rightarrow> TableData \<Rightarrow> glue_log \<Rightarrow> (glue_error + bool) \<times> glue_log" where
  "partitionHasData client gm t table calls =
     (case url_Host (sd_Location (td_StorageDescriptor table)) of
        None \<Rightarrow> (Inl (table_path_error gm table), calls)
      | Some host \<Rightarrow>
          (let r = gc_ListObjects client calls host (gm_GetPartitionPrefix gm t);
               calls' = calls @ [EListObjects host (gm_GetPartitionPrefix gm t) r]
           in case r of
                Inl err \<Rightarrow> (Inl err, calls')
              | Inr sizes \<Rightarrow> (Inr (list_ex (\<lambda>n. n > 0) sizes), calls')))"

definition get_table ::
  "glue_client \<Rightarrow> GlueTableMetadata \<Rightarrow> glue_log \<Rightarrow> (glue_error + TableData) \<times> glue_log" where
  "get_table client gm calls =
     (let r = gc_GetTable client calls (gm_databaseName gm) (gm_tableName gm)
      in (r, calls @ [EGetTable (gm_databaseName gm) (gm_tableName gm) r]))"

text \<open>\<open>strings.Contains\<close>\<close>

fun strings_Contains :: "string \<Rightarrow> string \<Rightarrow> bool" where
  "strings_Contains [] p \<longleftrightarrow> p = []"
| "strings_Contains (c # cs) p \<longleftrightarrow> HasPrefix (c # cs) p \<or> strings_Contains cs p"

definition CreateJSONPartition ::
  "glue_client \<Rightarrow> GlueTableMetadata \<Rightarrow> gotime \<Rightarrow> glue_log \<Rightarrow> glue_error option \<times> glue_log" where
  "CreateJSONPartition client gm t calls =
     (case get_table client gm calls of
        (Inl err, calls1) \<Rightarrow> (Some err, calls1)
      | (Inr table, calls1) \<Rightarrow>
          (if \<not> strings_Contains (SerializationLibrary (sd_SerdeInfo (td_StorageDescriptor table))) ''json''
           then (Some (not_json_table (SerializationLibrary (sd_SerdeInfo (td_StorageDescriptor table)))), calls1)
           else createPartition client gm t table calls1))"

definition CreatePartition :: "glue_client \<Rightarrow> GluePartition \<Rightarrow> glue_log \<Rightarrow> glue_error option \<times> glue_log" where
  "CreatePartition client gp calls =
     CreateJSONPartition client (NewGlueTableMetadata (gp_datatype gp) (gp_tableName gp) [] GlueTableHourly) (gp_hour gp) calls"

definition acknowledged :: "glue_error option \<Rightarrow> bool" where
  "acknowledged r \<longleftrightarrow> (case r of None \<Rightarrow> True | Some e \<Rightarrow> error_code e = Some ErrCodeAlreadyExistsException)"

definition created_descriptor :: "GlueTableMetadata \<Rightarrow> gotime \<Rightarrow> TableData \<Rightarrow> string \<Rightarrow> StorageDescriptor" where
  "created_descriptor gm t table host =
     (td_StorageDescriptor table)\<lparr>sd_Location := ''s3://'' @ host @ ''/'' @ gm_GetPartitionPrefix gm t\<rparr>"

lemma createPartition_Inr:
  assumes "createPartition client gm t table calls = (None, calls')"
  shows "\<exists>host r. acknowledged r \<and>
    calls' = calls @ [ECreatePartition (gm_databaseName gm) (gm_tableName gm) (partitionValues gm t) (created_descriptor gm t table host) r]"
  using assms by (auto simp: createPartition_def acknowledged_def created_descriptor_def Let_def split: option.splits if_splits)

lemma createPartition_log: "createPartition client gm t table calls = (r, calls') \<Longrightarrow> set calls \<subseteq> set calls'"
  by (auto simp: createPartition_def Let_def split: option.splits)

section \<open>Time bins\<close>

definition bin_start :: "GlueTableTimebin \<Rightarrow> gotime \<Rightarrow> bool" where
  "bin_start tb t \<longleftrightarrow>
     (if tb = GlueTableHourly then t mod Hour_ns = 0
      else if tb = GlueTableDaily then t mod Day_ns = 0
      else t mod Day_ns = 0 \<and> Day t = 1)"

lemma Truncate_multiple: "0 < d \<Longrightarrow> Truncate (t + d) d = (t div d + 1) * d"
  unfolding Truncate_def by (simp add: distrib_right minus_mod_eq_div_mult [symmetric])

text \<open>Between \<open>t\<close> and the next multiple of \<open>d\<close> there is no other multiple.\<close>

lemma next_multiple:
  assumes "0 < (d :: int)"
  shows "t < (t div d + 1) * d" "((t div d + 1) * d) mod d = 0"
    "t < u \<Longrightarrow> u < (t div d + 1) * d \<Longrightarrow> u mod d \<noteq> 0"
proof -
  have split: "t = t div d * d + t mod d" by simp
  have m: "0 \<le> t mod d" "t mod d < d" using assms by simp_all
  have e: "(t div d + 1) * d = t div d * d + d" by (simp add: distrib_right)
  show "t < (t div d + 1) * d" using split m e by linarith
  show "((t div d + 1) * d) mod d = 0" by simp
  assume u: "t < u" "u < (t div d + 1) * d"
  show "u mod d \<noteq> 0"
  proof
    assume "u mod d = 0"
    then obtain q where q: "u = q * d" by (auto simp: mod_eq_0_iff_dvd dvd_def mult.commute)
    have "t div d * d < q * d" using u(1) split m q by linarith
    then have "t div d < q" using assms by simp
    moreover have "q < t div d + 1" using u(2) q assms by simp
    ultimately show False by linarith
  qed
qed

lemma Date_of_day:
  assumes "valid_date (y, m, d)"
  shows "Month (day_of y m d * Day_ns) = m" "Day (day_of y m d * Day_ns) = d"
  using Date_of_date [OF assms, of 0] by (simp_all add: Month_def Day_def)

lemma month_loop_in_month:
  assumes "valid_date (y, m, d)" "next_month y m = (y', m')"
  shows "month_loop m (day_of y m d * Day_ns) = Some (day_of y' m' 1 * Day_ns)"
  using assms(1)
proof (induction "nat (days_in y m - d)" arbitrary: d)
  case 0
  then have d: "d = days_in y m" "1 \<le> m" "m \<le> 12" by (auto simp: valid_date_def)
  have s: "day_of y m d * Day_ns + Day_ns = day_of y' m' 1 * Day_ns"
    using day_of_month_end [OF d(2,3) assms(2)] d(1) by (simp add: distrib_right)
  have v: "valid_date (y', m', 1)" "m' \<noteq> m"
    using assms(2) d(2,3) valid_month_start by (auto simp: next_month_def split: if_splits)
  have "month_loop m (day_of y' m' 1 * Day_ns) = Some (day_of y' m' 1 * Day_ns)"
    using v Date_of_day(1) [OF v(1)] by (simp add: month_loop.simps)
  then show ?case using Date_of_day(1) [OF "0.prems"] by (subst month_loop.simps) (simp add: s)
next
  case (Suc k)
  then have v: "valid_date (y, m, d + 1)" by (auto simp: valid_date_def)
  moreover have "k = nat (days_in y m - (d + 1))" using Suc.hyps(2) by linarith
  ultimately have IH: "month_loop m (day_of y m (d + 1) * Day_ns) = Some (day_of y' m' 1 * Day_ns)"
    using Suc.hyps(1) by blast
  have "day_of y m d * Day_ns + Day_ns = day_of y m (d + 1) * Day_ns" by (simp add: day_of_Suc distrib_right)
  with IH Date_of_day(1) [OF Suc.prems] show ?case by (subst month_loop.simps) simp
qed

lemma Next_monthly:
  assumes "next_month (Year t) (Month t) = (y', m')"
  shows "Next GlueTableMonthly t = Some (day_of y' m' 1 * Day_ns)"
proof -
  note v = date_of_time(2) [of t]
  then have m: "1 \<le> Month t" "Month t \<le> 12" by (auto simp: valid_date_def)
  have s: "Truncate (t + Day_ns) Day_ns = (day_of (Year t) (Month t) (Day t) + 1) * Day_ns"
    by (simp add: Truncate_multiple date_of_time(1))
  show ?thesis
  proof (cases "Day t < days_in (Year t) (Month t)")
    case True
    then have "valid_date (Year t, Month t, Day t + 1)" using v by (auto simp: valid_date_def)
    from month_loop_in_month [OF this assms] s show ?thesis
      by (simp add: Next_def timebin_defs day_of_Suc)
  next
    case False
    then have "Day t = days_in (Year t) (Month t)" using v by (auto simp: valid_date_def)
    with day_of_month_end [OF m assms] s have s': "Truncate (t + Day_ns) Day_ns = day_of y' m' 1 * Day_ns" by simp
    have "valid_date (y', m', 1)" "m' \<noteq> Month t"
      using assms m valid_month_start by (auto simp: next_month_def split: if_splits)
    with Date_of_day(1) [of y' m' 1] s' show ?thesis
      by (simp add: Next_def timebin_defs month_loop.simps)
  qed
qed

text \<open>No other first day of a month lies between.\<close>

lemma month_gap:
  assumes "next_month (Year t) (Month t) = (y', m')" "t < u" "u < day_of y' m' 1 * Day_ns" "u mod Day_ns = 0"
  shows "Day u \<noteq> 1"
proof -
  let ?y = "Year t" and ?m = "Month t"
  note v = date_of_time [of t]
  from v have m: "1 \<le> ?m" "?m \<le> 12" by (auto simp: valid_date_def)
  define k where "k = u div Day_ns"
  have u: "u = k * Day_ns" using assms(4) by (simp add: k_def minus_mod_eq_div_mult [symmetric])
  have "t div Day_ns * Day_ns \<le> t" by (simp add: minus_mod_eq_div_mult [symmetric])
  with assms(2) u have "t div Day_ns < k" by simp
  define j where "j = k - day_of ?y ?m (Day t)"
  have j: "k = day_of ?y ?m (Day t) + j" "0 < j" using v(1) \<open>t div Day_ns < k\<close> by (simp_all add: j_def)
  have "k < day_of ?y ?m (days_in ?y ?m) + 1" using assms(3) u day_of_month_end [OF m assms(1)] by simp
  then have "j \<le> days_in ?y ?m - Day t" using j by (simp add: day_of_def)
  then have valid: "valid_date (?y, ?m, Day t + j)" using v(2) j by (auto simp: valid_date_def)
  have "k = day_of ?y ?m (Day t + j)" using j by (simp add: day_of_def)
  with Date_of_day(2) [OF valid] u have "Day u = Day t + j" by simp
  moreover have "1 \<le> Day t" using v(2) by (simp add: valid_date_def)
  ultimately show ?thesis using j by simp
qed

lemma Next_spec:
  assumes "timebin_Validate tb = None"
  obtains n where "Next tb t = Some n" "t < n" "bin_start tb n" "\<forall>u. t < u \<and> u < n \<longrightarrow> \<not> bin_start tb u"
proof -
  consider "tb = GlueTableHourly" | "tb = GlueTableDaily" | "tb = GlueTableMonthly"
    using assms by (auto simp: timebin_Validate_def split: if_splits)
  then show thesis
  proof cases
    case 1
    then show thesis
      by (intro that [of "(t div Hour_ns + 1) * Hour_ns"])
         (use next_multiple [of Hour_ns t] in \<open>auto simp: Next_def Truncate_multiple bin_start_def\<close>)
  next
    case 2
    then show thesis
      by (intro that [of "(t div Day_ns + 1) * Day_ns"])
         (use next_multiple [of Day_ns t] in \<open>auto simp: Next_def Truncate_multiple bin_start_def timebin_defs\<close>)
  next
    case 3
    obtain y' m' where ym: "next_month (Year t) (Month t) = (y', m')" by fastforce
    have m: "1 \<le> Month t" "Month t \<le> 12" "Day t \<le> days_in (Year t) (Month t)"
      using date_of_time(2) [of t] by (auto simp: valid_date_def)
    have v: "valid_date (y', m', 1)"
      using ym m valid_month_start by (auto simp: next_month_def split: if_splits)
    have "t div Day_ns + 1 \<le> day_of y' m' 1"
      using day_of_month_end [OF m(1,2) ym] date_of_time(1) [of t] m(3) by (simp add: day_of_def)
    then have "(t div Day_ns + 1) * Day_ns \<le> day_of y' m' 1 * Day_ns" by simp
    then have "t < day_of y' m' 1 * Day_ns" using next_multiple(1) [of Day_ns t] by linarith
    moreover have "bin_start tb (day_of y' m' 1 * Day_ns)"
      using Date_of_day(2) [OF v] 3 by (simp add: bin_start_def timebin_defs)
    ultimately show thesis
      using that [of "day_of y' m' 1 * Day_ns"] Next_monthly [OF ym] month_gap [OF ym] 3
      by (auto simp: bin_start_def timebin_defs)
  qed
qed

lemma timebins_spec:
  assumes "timebin_Validate tb = None"
  shows "\<exists>ts. timebins tb t lim = Some ts \<and> sorted_wrt (<) ts \<and>
           set ts = {u. u \<le> lim \<and> (u = t \<or> t < u \<and> bin_start tb u)}"
proof (induction "nat (lim + 1 - t)" arbitrary: t rule: less_induct)
  case less
  show ?case
  proof (cases "t > lim")
    case True
    then show ?thesis by (subst timebins.simps) auto
  next
    case False
    obtain n where n: "Next tb t = Some n" "t < n" "bin_start tb n" "\<forall>u. t < u \<and> u < n \<longrightarrow> \<not> bin_start tb u"
      by (rule Next_spec [OF assms, of t])
    have "nat (lim + 1 - n) < nat (lim + 1 - t)" using n(2) False by linarith
    from less [OF this] obtain ts where ts: "timebins tb n lim = Some ts" "sorted_wrt (<) ts"
      "set ts = {u. u \<le> lim \<and> (u = n \<or> n < u \<and> bin_start tb u)}" by blast
    have "timebins tb t lim = Some (t # ts)" using False n(1) ts(1) by (subst timebins.simps) simp
    moreover have "sorted_wrt (<) (t # ts)" using ts n(2) by auto
    moreover have "set (t # ts) = {u. u \<le> lim \<and> (u = t \<or> t < u \<and> bin_start tb u)}"
      using ts(3) n False by (auto simp: not_less)
    ultimately show ?thesis by blast
  qed
qed

end
