(* ===== verification/Glue_Sync.thy ===== *)
theory Glue_Sync
  imports Awsglue
begin

text \<open>
  \<open>SyncPartitions\<close> of \<open>pkg/awsglue/glue.go\<close>: after a change of the schema of a table, all its partitions are updated.
  The main goroutine sends the time bins from a start date to the end of today into a buffered channel; ten workers
  receive them. A worker that meets an error reports it once on a second channel and from then on only drains the
  first one. At the end the first error, if any, is returned.

  A state holds the two channels, the bins the main goroutine still has to send and the program counter of every
  worker. Each step is one action of one goroutine, with at most one call of AWS; the steps interleave freely.
\<close>

section \<open>The goroutines\<close>

abbreviation concurrency :: nat where "concurrency \<equiv> 10"

datatype worker_pc =
    Idle                                  \<comment> \<open>at the channel\<close>
  | Fetch gotime                          \<comment> \<open>before \<open>GetPartition\<close>\<close>
  | Check gotime                          \<comment> \<open>no partition: before \<open>partitionHasData\<close>\<close>
  | Creating gotime                       \<comment> \<open>data without partition: before \<open>createPartition\<close>\<close>
  | Updating gotime StorageDescriptor     \<comment> \<open>before \<open>UpdatePartition\<close>\<close>
  | Sending glue_error                    \<comment> \<open>at the error channel\<close>
  | Done

record worker =
  w_pc :: worker_pc
  w_failed :: bool

record sync_state =
  sy_todo :: "gotime list"
  sy_chan :: "gotime list"                \<comment> \<open>\<open>updateChan\<close>\<close>
  sy_workers :: "worker list"
  sy_errs :: "glue_error list"            \<comment> \<open>\<open>errChan\<close>\<close>
  sy_calls :: glue_log

definition fail_with :: "worker \<Rightarrow> glue_error \<Rightarrow> worker" where
  "fail_with w err = w\<lparr>w_pc := Sending err, w_failed := True\<rparr>"

definition updated_descriptor :: "TableData \<Rightarrow> StorageDescriptor \<Rightarrow> StorageDescriptor" where
  "updated_descriptor table sd =
     sd\<lparr>sd_Columns := sd_Columns (td_StorageDescriptor table), sd_SerdeInfo := sd_SerdeInfo (td_StorageDescriptor table)\<rparr>"

text \<open>One call of a worker.\<close>

definition worker_act ::
  "glue_client \<Rightarrow> GlueTableMetadata \<Rightarrow> TableData \<Rightarrow> worker \<Rightarrow> glue_log \<Rightarrow> worker \<times> glue_log" where
  "worker_act client gm table w calls =
     (case w_pc w of
        Fetch t \<Rightarrow>
          (let vals = partitionValues gm t;
               r = gc_GetPartition client calls (gm_databaseName gm) (gm_tableName gm) vals;
               calls' = calls @ [EGetPartition (gm_databaseName gm) (gm_tableName gm) vals r]
           in case r of
                Inl err \<Rightarrow>
                  (if error_code err = Some ErrCodeEntityNotFoundException then w\<lparr>w_pc := Check t\<rparr> else fail_with w err, calls')
              | Inr sd \<Rightarrow> (w\<lparr>w_pc := Updating t (updated_descriptor table sd)\<rparr>, calls'))
      | Check t \<Rightarrow>
          (case partitionHasData client gm t table calls of
             (Inl err, calls') \<Rightarrow> (fail_with w err, calls')
           | (Inr hasData, calls') \<Rightarrow> (w\<lparr>w_pc := (if hasData then Creating t else Idle)\<rparr>, calls'))
      | Creating t \<Rightarrow>
          (case createPartition client gm t table calls of
             (Some err, calls') \<Rightarrow> (fail_with w err, calls')
           | (None, calls') \<Rightarrow> (w\<lparr>w_pc := Idle\<rparr>, calls'))
      | Updating t sd \<Rightarrow>
          (let vals = partitionValues gm t;
               r = gc_UpdatePartition client calls (gm_databaseName gm) (gm_tableName gm) vals sd;
               calls' = calls @ [EUpdatePartition (gm_databaseName gm) (gm_tableName gm) vals sd r]
           in case r of
                Some err \<Rightarrow> (fail_with w err, calls')
              | None \<Rightarrow> (w\<lparr>w_pc := Idle\<rparr>, calls'))
      | _ \<Rightarrow> (w, calls))"

fun active :: "worker_pc \<Rightarrow> bool" where
  "active (Fetch _) = True"
| "active (Check _) = True"
| "active (Creating _) = True"
| "active (Updating _ _) = True"
| "active _ = False"

fun sending :: "worker_pc \<Rightarrow> bool" where
  "sending (Sending _) = True"
| "sending _ = False"

inductive sync_step :: "glue_client \<Rightarrow> GlueTableMetadata \<Rightarrow> TableData \<Rightarrow> sync_state \<Rightarrow> sync_state \<Rightarrow> bool"
  for client gm table
where
  produce: "sy_todo s = t # ts \<Longrightarrow> length (sy_chan s) < concurrency \<Longrightarrow>
    sync_step client gm table s (s\<lparr>sy_todo := ts, sy_chan := sy_chan s @ [t]\<rparr>)"
| receive: "i < length (sy_workers s) \<Longrightarrow> w = sy_workers s ! i \<Longrightarrow> w_pc w = Idle \<Longrightarrow> sy_chan s = t # ts \<Longrightarrow>
    sync_step client gm table s
      (s\<lparr>sy_chan := ts, sy_workers := (sy_workers s)[i := (if w_failed w then w else w\<lparr>w_pc := Fetch t\<rparr>)]\<rparr>)"
| act: "i < length (sy_workers s) \<Longrightarrow> w = sy_workers s ! i \<Longrightarrow> active (w_pc w) \<Longrightarrow>
    worker_act client gm table w (sy_calls s) = (w', calls') \<Longrightarrow>
    sync_step client gm table s (s\<lparr>sy_workers := (sy_workers s)[i := w'], sy_calls := calls'\<rparr>)"
| report: "i < length (sy_workers s) \<Longrightarrow> w = sy_workers s ! i \<Longrightarrow> w_pc w = Sending err \<Longrightarrow> length (sy_errs s) < concurrency \<Longrightarrow>
    sync_step client gm table s
      (s\<lparr>sy_errs := sy_errs s @ [err], sy_workers := (sy_workers s)[i := w\<lparr>w_pc := Idle\<rparr>]\<rparr>)"
| finish: "i < length (sy_workers s) \<Longrightarrow> w = sy_workers s ! i \<Longrightarrow> w_pc w = Idle \<Longrightarrow> sy_todo s = [] \<Longrightarrow> sy_chan s = [] \<Longrightarrow>
    sync_step client gm table s (s\<lparr>sy_workers := (sy_workers s)[i := w\<lparr>w_pc := Done\<rparr>]\<rparr>)"

text \<open>Before the goroutines: the table is read and the bins are determined. \<open>None\<close> is the panic on an unknown time
  bin, \<open>Inl\<close> an early return.\<close>

definition sync_start ::
  "glue_client \<Rightarrow> GlueTableMetadata \<Rightarrow> gotime \<Rightarrow> gotime \<Rightarrow> glue_log \<Rightarrow> (glue_error + TableData \<times> sync_state) option" where
  "sync_start client gm startDate now calls =
     (case get_table client gm calls of
        (Inl err, _) \<Rightarrow> Some (Inl err)
      | (Inr table, calls1) \<Rightarrow>
          (let start = Truncate (if IsZero startDate then td_CreateTime table else startDate) Day_ns;
               endDay = Truncate now Day_ns + 23 * Hour_ns
           in map_option (\<lambda>bins. Inr (table,
                \<lparr>sy_todo = bins, sy_chan = [], sy_workers = replicate concurrency \<lparr>w_pc = Idle, w_failed = False\<rparr>,
                 sy_errs = [], sy_calls = calls1\<rparr>)) (timebins (gm_timebin gm) start endDay)))"

definition sync_done :: "sync_state \<Rightarrow> bool" where
  "sync_done s \<longleftrightarrow> list_all (\<lambda>w. w_pc w = Done) (sy_workers s)"

text \<open>\<open>return <-errChan\<close> on the closed channel.\<close>

definition sync_result :: "sync_state \<Rightarrow> glue_error option" where
  "sync_result s = (case sy_errs s of [] \<Rightarrow> None | err # _ \<Rightarrow> Some err)"

inductive_cases sync_stepE: "sync_step client gm table s s'"

section \<open>No deadlock\<close>

lemma filter_update_length:
  assumes "i < length ws"
  shows "length (filter P (ws[i := w])) + (if P (ws ! i) then 1 else 0) = length (filter P ws) + (if P w then 1 else 0)"
  using assms
proof (induction ws arbitrary: i)
  case (Cons x ws)
  then show ?case by (cases i) auto
qed simp

definition worker_ok :: "worker \<Rightarrow> bool" where
  "worker_ok w \<longleftrightarrow> (sending (w_pc w) \<longrightarrow> w_failed w) \<and> (active (w_pc w) \<longrightarrow> \<not> w_failed w)"

definition sync_wf :: "sync_state \<Rightarrow> bool" where
  "sync_wf s \<longleftrightarrow>
     length (sy_workers s) = concurrency \<and> list_all worker_ok (sy_workers s) \<and>
     length (sy_errs s) + length (filter (\<lambda>w. sending (w_pc w)) (sy_workers s)) = length (filter w_failed (sy_workers s))"

lemma worker_act_cases:
  assumes "worker_act client gm table w calls = (w', calls')" "active (w_pc w)"
  shows "(w_pc w' = Idle \<or> active (w_pc w')) \<and> w_failed w' = w_failed w \<or> sending (w_pc w') \<and> w_failed w'"
  using assms
  by (auto simp: worker_act_def fail_with_def Let_def split: worker_pc.splits sum.splits option.splits prod.splits if_splits)

lemma list_all_update: "list_all P ws \<Longrightarrow> P w \<Longrightarrow> list_all P (ws[i := w])"
  by (induction ws arbitrary: i) (auto split: nat.splits)

lemma sync_wf_step:
  assumes "sync_step client gm table s s'" "sync_wf s"
  shows "sync_wf s'"
  using assms(1)
proof (cases rule: sync_step.cases)
  case (receive i w t ts)
  let ?w' = "if w_failed w then w else w\<lparr>w_pc := Fetch t\<rparr>"
  have "worker_ok ?w'" "w_failed ?w' = w_failed w" "\<not> sending (w_pc ?w')" "\<not> sending (w_pc w)"
    using receive by (auto simp: worker_ok_def)
  with receive assms(2) filter_update_length [of i "sy_workers s" w_failed ?w']
    filter_update_length [of i "sy_workers s" "\<lambda>w. sending (w_pc w)" ?w'] show ?thesis
    by (auto simp: sync_wf_def list_all_update)
next
  case (act i w w' calls')
  have w: "worker_ok w" "\<not> w_failed w" using act assms(2) by (auto simp: sync_wf_def worker_ok_def list_all_length)
  have ok: "worker_ok w'" "w_failed w' \<longleftrightarrow> sending (w_pc w')" "\<not> sending (w_pc w)"
    using worker_act_cases [OF act(5,4)] w act(4) by (auto simp: worker_ok_def elim: sending.elims active.elims)
  with act w assms(2) filter_update_length [of i "sy_workers s" w_failed w']
    filter_update_length [of i "sy_workers s" "\<lambda>w. sending (w_pc w)" w'] show ?thesis
    by (auto simp: sync_wf_def list_all_update split: if_splits)
next
  case (report i w err)
  have w: "w_failed w" using report assms(2) by (auto simp: sync_wf_def worker_ok_def list_all_length)
  with report assms(2) filter_update_length [of i "sy_workers s" w_failed "w\<lparr>w_pc := Idle\<rparr>"]
    filter_update_length [of i "sy_workers s" "\<lambda>w. sending (w_pc w)" "w\<lparr>w_pc := Idle\<rparr>"] show ?thesis
    by (auto simp: sync_wf_def worker_ok_def intro!: list_all_update)
next
  case (finish i w)
  with assms(2) filter_update_length [of i "sy_workers s" w_failed "w\<lparr>w_pc := Done\<rparr>"]
    filter_update_length [of i "sy_workers s" "\<lambda>w. sending (w_pc w)" "w\<lparr>w_pc := Done\<rparr>"] show ?thesis
    by (auto simp: sync_wf_def worker_ok_def intro!: list_all_update)
qed (use assms(2) in \<open>auto simp: sync_wf_def\<close>)

lemma sync_progress:
  assumes "sync_wf s" "\<not> sync_done s"
  shows "\<exists>s'. sync_step client gm table s s'"
proof -
  obtain i where i: "i < length (sy_workers s)" "w_pc (sy_workers s ! i) \<noteq> Done"
    using assms(2) by (auto simp: sync_done_def list_all_length)
  let ?w = "sy_workers s ! i"
  consider "w_pc ?w = Idle" | "active (w_pc ?w)" | err where "w_pc ?w = Sending err"
    using i(2) by (cases "w_pc ?w") auto
  then show ?thesis
  proof cases
    case 1
    then show ?thesis
      using sync_step.receive [OF i(1) refl 1, of _ _ client gm table] sync_step.produce [of s _ _ client gm table]
        sync_step.finish [OF i(1) refl 1, of client gm table]
      by (cases "sy_chan s"; cases "sy_todo s") auto
  next
    case 2
    obtain w' calls' where "worker_act client gm table ?w (sy_calls s) = (w', calls')" by fastforce
    then show ?thesis using sync_step.act [OF i(1) refl 2] by blast
  next
    case 3
    have "?w \<in> set (filter (\<lambda>w. sending (w_pc w)) (sy_workers s))" using i(1) 3 by simp
    then have "0 < length (filter (\<lambda>w. sending (w_pc w)) (sy_workers s))" using length_pos_if_in_set by fast
    moreover have "length (filter w_failed (sy_workers s)) \<le> concurrency"
      using assms(1) length_filter_le [of w_failed "sy_workers s"] by (simp add: sync_wf_def)
    ultimately have "length (sy_errs s) < concurrency" using assms(1) unfolding sync_wf_def by linarith
    then show ?thesis using sync_step.report [OF i(1) refl 3] by blast
  qed
qed

text \<open>Every step brings the end nearer.\<close>

fun rank :: "worker_pc \<Rightarrow> nat" where
  "rank (Fetch _) = 5"
| "rank (Check _) = 4"
| "rank (Creating _) = 3"
| "rank (Updating _ _) = 3"
| "rank (Sending _) = 2"
| "rank Idle = 1"
| "rank Done = 0"

definition remaining :: "sync_state \<Rightarrow> nat" where
  "remaining s = 7 * length (sy_todo s) + 6 * length (sy_chan s) + sum_list (map (\<lambda>w. rank (w_pc w)) (sy_workers s))"

lemma sum_map_update:
  assumes "i < length ws"
  shows "sum_list (map f (ws[i := w])) + f (ws ! i) = sum_list (map f ws) + (f w :: nat)"
  using assms
proof (induction ws arbitrary: i)
  case (Cons x ws)
  then show ?case by (cases i) (auto simp: algebra_simps)
qed simp

lemma worker_act_rank:
  "worker_act client gm table w calls = (w', calls') \<Longrightarrow> active (w_pc w) \<Longrightarrow> rank (w_pc w') < rank (w_pc w)"
  by (auto simp: worker_act_def fail_with_def Let_def split: worker_pc.splits sum.splits option.splits prod.splits if_splits)

lemma remaining_step:
  assumes "sync_step client gm table s s'"
  shows "remaining s' < remaining s"
  using assms
proof (cases rule: sync_step.cases)
  case (receive i w t ts)
  with sum_map_update [of i "sy_workers s" "\<lambda>w. rank (w_pc w)" "if w_failed w then w else w\<lparr>w_pc := Fetch t\<rparr>"]
  show ?thesis by (auto simp: remaining_def split: if_splits)
next
  case (act i w w' calls')
  with sum_map_update [of i "sy_workers s" "\<lambda>w. rank (w_pc w)" w'] worker_act_rank [OF act(5,4)]
  show ?thesis by (auto simp: remaining_def)
next
  case (report i w err)
  with sum_map_update [of i "sy_workers s" "\<lambda>w. rank (w_pc w)" "w\<lparr>w_pc := Idle\<rparr>"]
  show ?thesis by (auto simp: remaining_def)
next
  case (finish i w)
  with sum_map_update [of i "sy_workers s" "\<lambda>w. rank (w_pc w)" "w\<lparr>w_pc := Done\<rparr>"]
  show ?thesis by (auto simp: remaining_def)
qed (auto simp: remaining_def)

lemma sync_run:
  assumes "(sync_step client gm table ^^ n) s0 s" "sync_wf s0"
  shows "sync_wf s \<and> remaining s + n \<le> remaining s0"
  using assms(1)
proof (induction n arbitrary: s)
  case (Suc n)
  then obtain s1 where s1: "(sync_step client gm table ^^ n) s0 s1" "sync_step client gm table s1 s" by auto
  with Suc.IH [OF s1(1)] sync_wf_step [OF s1(2)] remaining_step [OF s1(2)] show ?case by auto
qed (use assms(2) in auto)

lemma sync_start_state:
  assumes "sync_start client gm startDate now calls = Some (Inr (table, s0))"
  shows "sync_wf s0" "remaining s0 = 7 * length (sy_todo s0) + concurrency" "sy_chan s0 = []" "sy_errs s0 = []"
    "list_all (\<lambda>w. w_pc w = Idle \<and> \<not> w_failed w) (sy_workers s0)"
    "gc_GetTable client calls (gm_databaseName gm) (gm_tableName gm) = Inr table"
    "timebins (gm_timebin gm) (Truncate (if IsZero startDate then td_CreateTime table else startDate) Day_ns)
       (Truncate now Day_ns + 23 * Hour_ns) = Some (sy_todo s0)"
  using assms
  by (auto simp: sync_start_def sync_wf_def worker_ok_def remaining_def get_table_def Let_def sum_list_replicate
      list_all_iff split: sum.splits option.splits)

section \<open>Every bin is settled\<close>

definition part_found :: "GlueTableMetadata \<Rightarrow> gotime \<Rightarrow> StorageDescriptor \<Rightarrow> glue_log \<Rightarrow> bool" where
  "part_found gm t sd calls \<longleftrightarrow> EGetPartition (gm_databaseName gm) (gm_tableName gm) (partitionValues gm t) (Inr sd) \<in> set calls"

definition part_missing :: "GlueTableMetadata \<Rightarrow> gotime \<Rightarrow> glue_log \<Rightarrow> bool" where
  "part_missing gm t calls \<longleftrightarrow>
     (\<exists>err. EGetPartition (gm_databaseName gm) (gm_tableName gm) (partitionValues gm t) (Inl err) \<in> set calls \<and>
        error_code err = Some ErrCodeEntityNotFoundException)"

definition part_listed :: "GlueTableMetadata \<Rightarrow> gotime \<Rightarrow> (int list \<Rightarrow> bool) \<Rightarrow> glue_log \<Rightarrow> bool" where
  "part_listed gm t P calls \<longleftrightarrow> (\<exists>host sizes. EListObjects host (gm_GetPartitionPrefix gm t) (Inr sizes) \<in> set calls \<and> P sizes)"

text \<open>The partition of a bin has the schema of the table: it existed and was updated, or it was missing and either has
  no data or was created.\<close>

definition settled :: "GlueTableMetadata \<Rightarrow> TableData \<Rightarrow> gotime \<Rightarrow> glue_log \<Rightarrow> bool" where
  "settled gm table t calls \<longleftrightarrow>
     (\<exists>sd. part_found gm t sd calls \<and>
        EUpdatePartition (gm_databaseName gm) (gm_tableName gm) (partitionValues gm t) (updated_descriptor table sd) None \<in> set calls) \<or>
     part_missing gm t calls \<and>
       (part_listed gm t (\<lambda>sizes. \<not> list_ex (\<lambda>n. n > 0) sizes) calls \<or>
        part_listed gm t (list_ex (\<lambda>n. n > 0)) calls \<and>
        (\<exists>host r. acknowledged r \<and> ECreatePartition (gm_databaseName gm) (gm_tableName gm) (partitionValues gm t)
           (created_descriptor gm t table host) r \<in> set calls))"

definition working :: "GlueTableMetadata \<Rightarrow> TableData \<Rightarrow> gotime \<Rightarrow> glue_log \<Rightarrow> worker \<Rightarrow> bool" where
  "working gm table t calls w \<longleftrightarrow>
     w_pc w = Fetch t \<or> w_pc w = Check t \<and> part_missing gm t calls \<or>
     w_pc w = Creating t \<and> part_missing gm t calls \<and> part_listed gm t (list_ex (\<lambda>n. n > 0)) calls \<or>
     (\<exists>sd. w_pc w = Updating t (updated_descriptor table sd) \<and> part_found gm t sd calls)"

lemma log_mono:
  assumes "set calls \<subseteq> set calls'"
  shows "part_found gm t sd calls \<Longrightarrow> part_found gm t sd calls'" "part_missing gm t calls \<Longrightarrow> part_missing gm t calls'"
    "part_listed gm t P calls \<Longrightarrow> part_listed gm t P calls'" "settled gm table t calls \<Longrightarrow> settled gm table t calls'"
    "working gm table t calls w \<Longrightarrow> working gm table t calls' w"
proof -
  show a: "part_found gm t sd calls \<Longrightarrow> part_found gm t sd calls'" for sd using assms unfolding part_found_def by blast
  show b: "part_missing gm t calls \<Longrightarrow> part_missing gm t calls'" using assms unfolding part_missing_def by blast
  show c: "part_listed gm t P calls \<Longrightarrow> part_listed gm t P calls'" for P using assms unfolding part_listed_def by blast
  show "settled gm table t calls \<Longrightarrow> settled gm table t calls'"
    using a b c assms unfolding settled_def by (meson subsetD)
  show "working gm table t calls w \<Longrightarrow> working gm table t calls' w"
    using a b c unfolding working_def by blast
qed

lemma worker_act_log: "worker_act client gm table w calls = (w', calls') \<Longrightarrow> set calls \<subseteq> set calls'"
  using createPartition_log
  by (fastforce simp: worker_act_def partitionHasData_def Let_def split: worker_pc.splits sum.splits option.splits prod.splits)

lemma worker_act_working:
  assumes "worker_act client gm table w calls = (w', calls')" "working gm table t calls w"
  shows "working gm table t calls' w' \<or> settled gm table t calls' \<or> w_failed w'"
proof -
  note mono = log_mono [OF worker_act_log [OF assms(1)]]
  from assms(2) consider "w_pc w = Fetch t" | "w_pc w = Check t" "part_missing gm t calls"
    | "w_pc w = Creating t" "part_missing gm t calls" "part_listed gm t (list_ex (\<lambda>n. n > 0)) calls"
    | sd where "w_pc w = Updating t (updated_descriptor table sd)" "part_found gm t sd calls"
    by (auto simp: working_def)
  then show ?thesis
  proof cases
    case 1
    with assms(1) show ?thesis
      by (auto simp: worker_act_def fail_with_def working_def part_missing_def part_found_def Let_def split: sum.splits if_splits)
  next
    case 2
    note missing = mono(2) [OF 2(2)]
    show ?thesis
    proof (cases "w_failed w'")
      case False
      then obtain host sizes where "EListObjects host (gm_GetPartitionPrefix gm t) (Inr sizes) \<in> set calls'"
        "w' = w\<lparr>w_pc := (if list_ex (\<lambda>n. n > 0) sizes then Creating t else Idle)\<rparr>"
        using assms(1) 2(1)
        by (auto simp: worker_act_def fail_with_def partitionHasData_def Let_def split: sum.splits option.splits) blast
      then show ?thesis using missing by (cases "list_ex (\<lambda>n. n > 0) sizes") (auto simp: working_def settled_def part_listed_def)
    qed simp
  next
    case 3
    show ?thesis
    proof (cases "w_failed w'")
      case False
      then have "createPartition client gm t table calls = (None, calls')"
        using assms(1) 3(1) by (auto simp: worker_act_def fail_with_def split: prod.splits option.splits)
      from createPartition_Inr [OF this] obtain host r where "acknowledged r"
        "ECreatePartition (gm_databaseName gm) (gm_tableName gm) (partitionValues gm t) (created_descriptor gm t table host) r \<in> set calls'"
        by fastforce
      with mono(2) [OF 3(2)] mono(3) [OF 3(3)] show ?thesis by (auto simp: settled_def)
    qed simp
  next
    case 4
    with assms(1) mono(1) [OF 4(2)] show ?thesis
      by (auto simp: worker_act_def fail_with_def settled_def Let_def split: option.splits)
  qed
qed

text \<open>Where a bin can be: still to be sent, in the channel, with a worker, or settled; or some worker has failed.\<close>

definition accounted :: "GlueTableMetadata \<Rightarrow> TableData \<Rightarrow> sync_state \<Rightarrow> gotime \<Rightarrow> bool" where
  "accounted gm table s t \<longleftrightarrow>
     t \<in> set (sy_todo s) \<or> t \<in> set (sy_chan s) \<or> (\<exists>j < length (sy_workers s). working gm table t (sy_calls s) (sy_workers s ! j)) \<or>
     settled gm table t (sy_calls s) \<or> (\<exists>j < length (sy_workers s). w_failed (sy_workers s ! j))"

lemma accounted_step:
  assumes "sync_step client gm table s s'" "accounted gm table s t" "sync_wf s"
  shows "accounted gm table s' t"
  using assms(1)
proof (cases rule: sync_step.cases)
  case (produce t' ts)
  with assms(2) show ?thesis by (auto simp: accounted_def)
next
  case (receive i w t' ts)
  let ?w' = "if w_failed w then w else w\<lparr>w_pc := Fetch t'\<rparr>"
  have idle: "\<not> working gm table u calls w" for u calls using receive by (simp add: working_def)
  have new: "working gm table t' (sy_calls s) ?w' \<or> w_failed ?w'" by (simp add: working_def)
  have len: "length ((sy_workers s)[i := ?w']) = length (sy_workers s)" by simp
  from assms(2) consider "t \<in> set (sy_todo s)" | "t = t'" | "t \<in> set ts"
    | j where "j < length (sy_workers s)" "working gm table t (sy_calls s) (sy_workers s ! j)" | "settled gm table t (sy_calls s)"
    | j where "j < length (sy_workers s)" "w_failed (sy_workers s ! j)"
    using receive by (auto simp: accounted_def)
  then show ?thesis
  proof cases
    case 2
    with new receive show ?thesis by (auto simp: accounted_def intro!: exI [of _ i])
  next
    case 4
    then have "j \<noteq> i" using idle receive by auto
    with 4 receive show ?thesis by (auto simp: accounted_def intro!: exI [of _ j])
  next
    case 6
    with receive show ?thesis by (cases "j = i") (auto simp: accounted_def intro!: exI [of _ j])
  qed (use receive in \<open>auto simp: accounted_def\<close>)
next
  case (act i w w' calls')
  note mono = log_mono [OF worker_act_log [OF act(5)]]
  from assms(2) consider "t \<in> set (sy_todo s) \<or> t \<in> set (sy_chan s)"
    | j where "j < length (sy_workers s)" "working gm table t (sy_calls s) (sy_workers s ! j)" | "settled gm table t (sy_calls s)"
    | j where "j < length (sy_workers s)" "w_failed (sy_workers s ! j)"
    by (auto simp: accounted_def)
  then show ?thesis
  proof cases
    case 2
    show ?thesis
    proof (cases "j = i")
      case True
      then have "working gm table t calls' w' \<or> settled gm table t calls' \<or> w_failed w'"
        using worker_act_working [OF act(5), of t] 2 act by simp
      with act show ?thesis by (auto simp: accounted_def intro!: exI [of _ i])
    next
      case False
      with 2 act mono(5) show ?thesis by (auto simp: accounted_def intro!: exI [of _ j])
    qed
  next
    case 4
    have "\<not> w_failed w" using act assms(3) by (auto simp: sync_wf_def worker_ok_def list_all_length)
    then have "j \<noteq> i" using 4 act by auto
    with 4 act show ?thesis by (auto simp: accounted_def intro!: exI [of _ j])
  qed (use act mono(4) in \<open>auto simp: accounted_def\<close>)
next
  case (report i w err)
  have "w_failed w" using report assms(3) by (auto simp: sync_wf_def worker_ok_def list_all_length)
  with report show ?thesis by (auto simp: accounted_def intro!: exI [of _ i])
next
  case (finish i w)
  have idle: "\<not> working gm table u calls w" for u calls using finish by (simp add: working_def)
  from assms(2) finish consider j where "j < length (sy_workers s)" "working gm table t (sy_calls s) (sy_workers s ! j)"
    | "settled gm table t (sy_calls s)" | j where "j < length (sy_workers s)" "w_failed (sy_workers s ! j)"
    by (auto simp: accounted_def)
  then show ?thesis
  proof cases
    case 1
    then have "j \<noteq> i" using idle finish by auto
    with 1 finish show ?thesis by (auto simp: accounted_def intro!: exI [of _ j])
  next
    case 3
    with finish show ?thesis by (cases "j = i") (auto simp: accounted_def intro!: exI [of _ j])
  qed (use finish in \<open>auto simp: accounted_def\<close>)
qed

lemma accounted_run:
  assumes "(sync_step client gm table ^^ n) s0 s" "sync_wf s0" "accounted gm table s0 t"
  shows "accounted gm table s t"
  using assms(1)
proof (induction n arbitrary: s)
  case (Suc n)
  then obtain s1 where "(sync_step client gm table ^^ n) s0 s1" "sync_step client gm table s1 s" by auto
  with Suc.IH sync_run [OF _ assms(2)] accounted_step show ?case by blast
qed (use assms(3) in auto)

text \<open>When all workers are done, everything was sent and received, and a failed worker has reported.\<close>

definition drained :: "sync_state \<Rightarrow> bool" where
  "drained s \<longleftrightarrow> ((\<exists>w \<in> set (sy_workers s). w_pc w = Done) \<longrightarrow> sy_todo s = [] \<and> sy_chan s = [])"

lemma drained_step:
  assumes "sync_step client gm table s s'" "drained s"
  shows "drained s'"
  using assms(1)
proof (cases rule: sync_step.cases)
  case (act i w w' calls')
  then have "w_pc w' \<noteq> Done" using worker_act_cases [OF act(5,4)] by (auto elim: sending.elims)
  with act assms(2) show ?thesis by (auto simp: drained_def dest!: set_update_subset_insert [THEN subsetD])
qed (use assms(2) in \<open>auto simp: drained_def dest!: set_update_subset_insert [THEN subsetD] split: if_splits\<close>)

lemma drained_run:
  assumes "(sync_step client gm table ^^ n) s0 s" "drained s0"
  shows "drained s"
  using assms(1)
proof (induction n arbitrary: s)
  case (Suc n)
  then obtain s1 where "(sync_step client gm table ^^ n) s0 s1" "sync_step client gm table s1 s" by auto
  with Suc.IH drained_step show ?case by blast
qed (use assms(2) in auto)

lemma done_without_error:
  assumes "sync_wf s" "sync_done s" "sync_result s = None" "drained s" "accounted gm table s t"
  shows "settled gm table t (sy_calls s)"
proof -
  have all: "w_pc w = Done" if "w \<in> set (sy_workers s)" for w using assms(2) that by (simp add: sync_done_def list_all_iff)
  then have "filter (\<lambda>w. sending (w_pc w)) (sy_workers s) = []" by (simp add: filter_empty_conv)
  moreover have "sy_errs s = []" using assms(3) by (simp add: sync_result_def split: list.splits)
  ultimately have "filter w_failed (sy_workers s) = []" using assms(1) by (simp add: sync_wf_def)
  then have no_fail: "\<not> w_failed (sy_workers s ! j)" if "j < length (sy_workers s)" for j
    using that by (simp add: filter_empty_conv)
  have "sy_workers s \<noteq> []" using assms(1) by (auto simp: sync_wf_def)
  then have "sy_todo s = []" "sy_chan s = []" using assms(4) all by (auto simp: drained_def neq_Nil_conv)
  moreover have "\<not> working gm table t (sy_calls s) (sy_workers s ! j)" if "j < length (sy_workers s)" for j
    using all [OF nth_mem [OF that]] by (simp add: working_def)
  ultimately show ?thesis using assms(5) no_fail by (auto simp: accounted_def)
qed

section \<open>Executing a schedule\<close>

text \<open>The step of worker \<open>i\<close>, or of the main goroutine for an \<open>i\<close> that is no worker, if it is not blocked.\<close>

definition step_of :: "glue_client \<Rightarrow> GlueTableMetadata \<Rightarrow> TableData \<Rightarrow> nat \<Rightarrow> sync_state \<Rightarrow> sync_state option" where
  "step_of client gm table i s =
     (if i < length (sy_workers s) then
        (let w = sy_workers s ! i
         in case w_pc w of
              Idle \<Rightarrow>
                (case sy_chan s of
                   t # ts \<Rightarrow> Some (s\<lparr>sy_chan := ts, sy_workers := (sy_workers s)[i := (if w_failed w then w else w\<lparr>w_pc := Fetch t\<rparr>)]\<rparr>)
                 | [] \<Rightarrow> (if sy_todo s = [] then Some (s\<lparr>sy_workers := (sy_workers s)[i := w\<lparr>w_pc := Done\<rparr>]\<rparr>) else None))
            | Sending err \<Rightarrow>
                (if length (sy_errs s) < concurrency
                 then Some (s\<lparr>sy_errs := sy_errs s @ [err], sy_workers := (sy_workers s)[i := w\<lparr>w_pc := Idle\<rparr>]\<rparr>) else None)
            | Done \<Rightarrow> None
            | _ \<Rightarrow> (case worker_act client gm table w (sy_calls s) of (w', calls') \<Rightarrow>
                     Some (s\<lparr>sy_workers := (sy_workers s)[i := w'], sy_calls := calls'\<rparr>)))
      else case sy_todo s of
             t # ts \<Rightarrow> (if length (sy_chan s) < concurrency then Some (s\<lparr>sy_todo := ts, sy_chan := sy_chan s @ [t]\<rparr>) else None)
           | [] \<Rightarrow> None)"

fun run_schedule :: "glue_client \<Rightarrow> GlueTableMetadata \<Rightarrow> TableData \<Rightarrow> nat list \<Rightarrow> sync_state \<Rightarrow> sync_state option" where
  "run_schedule client gm table [] s = Some s"
| "run_schedule client gm table (i # is) s =
     (case step_of client gm table i s of None \<Rightarrow> None | Some s' \<Rightarrow> run_schedule client gm table is s')"

lemma step_of_sound: "step_of client gm table i s = Some s' \<Longrightarrow> sync_step client gm table s s'"
  using sync_step.receive [of i s "sy_workers s ! i" _ _ client gm table]
  by (auto simp: step_of_def Let_def split: if_splits list.splits worker_pc.splits prod.splits intro: sync_step.intros)

lemma run_schedule_sound: "run_schedule client gm table is s = Some s' \<Longrightarrow> (sync_step client gm table ^^ length is) s s'"
proof (induction client gm table "is" s rule: run_schedule.induct)
  case (2 client gm table i "is" s)
  then obtain s1 where s1: "step_of client gm table i s = Some s1" "run_schedule client gm table is s1 = Some s'"
    by (auto split: option.splits)
  with 2 step_of_sound [OF s1(1)] have "sync_step client gm table s s1" "(sync_step client gm table ^^ length is) s1 s'" by auto
  then show ?case unfolding length_Cons by (rule relpowp_Suc_I2)
qed auto

section \<open>Properties\<close>

text \<open>C27. 
  \<open>Next\<close> always returns for a known time bin, also for a monthly one, whose loop looks for a change of the
  month; and the loop over the bins from one time to another ends. It visits the start and then exactly the
  beginnings of the hours (days, months) up to the limit, in order.
\<close>

theorem timebins_complete:
  assumes "timebin_Validate tb = None"
  shows "(\<exists>n. Next tb t = Some n \<and> t < n) \<and>
    (\<exists>ts. timebins tb t lim = Some ts \<and> sorted_wrt (<) ts \<and> set ts = {u. u \<le> lim \<and> (u = t \<or> t < u \<and> bin_start tb u)})"
proof
  show "\<exists>n. Next tb t = Some n \<and> t < n" by (rule Next_spec [OF assms, of t]) blast
qed (rule timebins_spec [OF assms])

theorem timebins_complete_witness:
  "timebins GlueTableMonthly (time_Date 2020 1 31 5) (time_Date 2020 4 15 0)
     = Some [time_Date 2020 1 31 5, time_Date 2020 2 1 0, time_Date 2020 3 1 0, time_Date 2020 4 1 0] \<and>
   (\<exists>n. Next GlueTableMonthly (time_Date 2020 1 31 5) = Some n \<and> time_Date 2020 1 31 5 < n)"
proof -
  have v: "timebin_Validate GlueTableMonthly = None" by code_simp
  have "timebins GlueTableMonthly (time_Date 2020 1 31 5) (time_Date 2020 4 15 0)
     = Some [time_Date 2020 1 31 5, time_Date 2020 2 1 0, time_Date 2020 3 1 0, time_Date 2020 4 1 0]" by code_simp
  with timebins_complete [OF v, of "time_Date 2020 1 31 5" "time_Date 2020 4 15 0"] show ?thesis by blast
qed

text \<open>A monthly table in a service without partitions but with data, and the schedule in which worker 0 does all the work.\<close>

definition sync_table :: TableData where
  "sync_table = \<lparr>td_CreateTime = 0, td_StorageDescriptor = \<lparr>sd_Columns = [(''col'', ''int'')], sd_Location = ''s3://data/logs/t/'',
     sd_SerdeInfo = \<lparr>SerializationLibrary = ''json'', Parameters = []\<rparr>, sd_Other = []\<rparr>\<rparr>"

definition sync_glue :: glue_client where
  "sync_glue = \<lparr>gc_GetTable = (\<lambda>_ _ _. Inr sync_table), gc_GetPartition = (\<lambda>_ _ _ _. Inl (awserr ErrCodeEntityNotFoundException [])),
     gc_CreatePartition = (\<lambda>_ _ _ _ _. None), gc_UpdatePartition = (\<lambda>_ _ _ _ _. None),
     gc_DeletePartition = (\<lambda>_ _ _ _. None), gc_ListObjects = (\<lambda>_ _ _. Inr [10])\<rparr>"

definition sync_gm :: GlueTableMetadata where
  "sync_gm = NewGlueTableMetadata LogData ''T'' [] GlueTableMonthly"

definition sync_day :: gotime where "sync_day = time_Date 2020 2 29 0"

definition sync_init :: sync_state where
  "sync_init = \<lparr>sy_todo = [sync_day], sy_chan = [], sy_workers = replicate concurrency \<lparr>w_pc = Idle, w_failed = False\<rparr>,
     sy_errs = [], sy_calls = [EGetTable ''panther_logs'' ''t'' (Inr sync_table)]\<rparr>"

definition sync_schedule :: "nat list" where
  "sync_schedule = [10, 0, 0, 0, 0] @ [0..<10]"

definition sync_final :: sync_state where
  "sync_final = the (run_schedule sync_glue sync_gm sync_table sync_schedule sync_init)"

lemma sync_example:
  "sync_start sync_glue sync_gm sync_day sync_day [] = Some (Inr (sync_table, sync_init))"
  "(sync_step sync_glue sync_gm sync_table ^^ 15) sync_init sync_final"
  "sync_done sync_final" "sync_result sync_final = None"
proof -
  show "sync_start sync_glue sync_gm sync_day sync_day [] = Some (Inr (sync_table, sync_init))" by code_simp
  have "map_option (\<lambda>s. (sync_done s, sync_result s)) (run_schedule sync_glue sync_gm sync_table sync_schedule sync_init) = Some (True, None)" by code_simp
  then have run: "run_schedule sync_glue sync_gm sync_table sync_schedule sync_init = Some sync_final"
    and final: "sync_done sync_final" "sync_result sync_final = None"
    by (auto simp: sync_final_def)
  have "length sync_schedule = 15" by (simp add: sync_schedule_def)
  with run_schedule_sound [OF run] show "(sync_step sync_glue sync_gm sync_table ^^ 15) sync_init sync_final" by simp
  show "sync_done sync_final" "sync_result sync_final = None" by (fact final)+
qed

text \<open>C26. 
  \<open>SyncPartitions\<close> ends, however its goroutines interleave and whatever AWS answers: no state that can be reached is
  stuck, because an error channel of ten is never full when a worker wants to report, and a run takes at most seven
  steps per time bin and one per worker.
\<close>

theorem SyncPartitions_terminates:
  assumes "sync_start client gm startDate now calls = Some (Inr (table, s0))" "(sync_step client gm table ^^ n) s0 s"
  shows "n \<le> 7 * length (sy_todo s0) + concurrency \<and> (sync_done s \<or> (\<exists>s'. sync_step client gm table s s'))"
proof -
  note s0 = sync_start_state [OF assms(1)]
  from sync_run [OF assms(2) s0(1)] s0(2) sync_progress [of s client gm table] show ?thesis by auto
qed

theorem SyncPartitions_terminates_witness:
  "(15 :: nat) \<le> 7 * length (sy_todo sync_init) + concurrency \<and>
   (sync_done sync_final \<or> (\<exists>s'. sync_step sync_glue sync_gm sync_table sync_final s'))"
  by (rule SyncPartitions_terminates [OF sync_example(1,2)])

text \<open>C11. 
  When all workers are done and no error is returned, the partition of every time bin from the start date to the end
  of today is up to date: Glue acknowledged its update to the columns and the serialisation of the table, or it did
  not exist and holds no data, or it did not exist and was created.
\<close>

theorem SyncPartitions_complete:
  assumes "sync_start client gm startDate now calls = Some (Inr (table, s0))" "(sync_step client gm table ^^ n) s0 s"
    "sync_done s" "sync_result s = None" "timebin_Validate (gm_timebin gm) = None" "startDate \<noteq> 0"
    "t = Truncate startDate Day_ns \<or> Truncate startDate Day_ns < t \<and> bin_start (gm_timebin gm) t" "t \<le> Truncate now Day_ns + 23 * Hour_ns"
  shows "settled gm table t (sy_calls s)"
proof -
  note s0 = sync_start_state [OF assms(1)]
  have "t \<in> set (sy_todo s0)"
    using timebins_spec [OF assms(5), of "Truncate startDate Day_ns" "Truncate now Day_ns + 23 * Hour_ns"] s0(7) assms(6-8)
    by (auto simp: IsZero_def)
  then have "accounted gm table s0 t" by (simp add: accounted_def)
  moreover have "drained s0" using s0(5) by (auto simp: drained_def list_all_iff)
  ultimately show ?thesis
    using done_without_error sync_run [OF assms(2) s0(1)] accounted_run [OF assms(2) s0(1)] drained_run [OF assms(2)] assms(3,4)
    by blast
qed

theorem SyncPartitions_complete_witness: "settled sync_gm sync_table sync_day (sy_calls sync_final)"
proof -
  have "timebin_Validate (gm_timebin sync_gm) = None" "sync_day \<noteq> 0" "sync_day = Truncate sync_day Day_ns"
    "sync_day \<le> Truncate sync_day Day_ns + 23 * Hour_ns" by code_simp+
  then show ?thesis by (intro SyncPartitions_complete [OF sync_example]) auto
qed

end
