(* ===== verification/Datacatalog.thy ===== *)
theory Datacatalog
  imports Awsglue
begin

text \<open>
  The registry of log types (\<open>log_processor/registry/registry.go\<close>), the object keys under which the S3 destination
  stores their data (\<open>getS3ObjectKey\<close>), and \<open>datacatalog_updater/main/lambda.go\<close>, which creates the Glue partition of
  every object it is notified of. The cache of partitions survives from one invocation to the next, so it is part
  of the state.
\<close>

section \<open>registry.go\<close>

text \<open>The log types of the registered parsers; each parser is registered under its own log type.\<close>

definition parsersRegistry :: "string list" where
  "parsersRegistry =
     [''AWS.CloudTrail'', ''AWS.S3ServerAccess'', ''AWS.VPCFlow'', ''AWS.ALB'', ''AWS.AuroraMySQLAudit'', ''AWS.GuardDuty'',
      ''Nginx.Access'', ''Osquery.Differential'', ''Osquery.Batch'', ''Osquery.Status'', ''Osquery.Snapshot'',
      ''OSSEC.EventInfo'', ''Syslog.RFC3164'', ''Syslog.RFC5424'', ''Fluentd.Syslog3164'', ''Fluentd.Syslog5424'',
      ''Zeek.DNS'', ''Suricata.Anomaly'']"

text \<open>The table of a parser; its description, a text of the parser, is a parameter.\<close>

definition DefaultLogParser :: "(string \<Rightarrow> string) \<Rightarrow> string \<Rightarrow> GlueTableMetadata" where
  "DefaultLogParser desc logType = NewGlueTableMetadata LogData logType (desc logType) GlueTableHourly"

definition AvailableTables :: "(string \<Rightarrow> string) \<Rightarrow> GlueTableMetadata list" where
  "AvailableTables desc = map (DefaultLogParser desc) parsersRegistry"

text \<open>\<open>None\<close> is the panic on a log type that is not registered.\<close>

definition LookupParser :: "(string \<Rightarrow> string) \<Rightarrow> string \<Rightarrow> GlueTableMetadata option" where
  "LookupParser desc logType = (if logType \<in> set parsersRegistry then Some (DefaultLogParser desc logType) else None)"

section \<open>Object keys of the S3 destination\<close>

text \<open>\<open>S3ObjectTimestampFormat\<close>: year of at least four digits, then two digits each.\<close>

definition pad4 :: "int \<Rightarrow> string" where
  "pad4 n = (let d = Itoa \<bar>n\<bar> in (if n < 0 then ''-'' else []) @ replicate (4 - length d) (CHR ''0'') @ d)"

definition Format_S3 :: "gotime \<Rightarrow> string" where
  "Format_S3 t = pad4 (Year t) @ pad2 (Month t) @ pad2 (Day t) @ ''T'' @ pad2 (Hour t) @ pad2 (Minute_of t) @ pad2 (Second_of t) @ ''Z''"

definition getS3ObjectKey :: "(string \<Rightarrow> string) \<Rightarrow> string \<Rightarrow> gotime \<Rightarrow> string \<Rightarrow> string option" where
  "getS3ObjectKey desc logType timestamp uuid =
     map_option (\<lambda>gm. gm_GetPartitionPrefix gm timestamp @ Format_S3 timestamp @ ''-'' @ uuid @ ''.json.gz'')
       (LookupParser desc logType)"

section \<open>datacatalog_updater\<close>

record catalog_state =
  cs_cache :: "string list"               \<comment> \<open>\<open>partitionPrefixCache\<close>\<close>
  cs_calls :: glue_log

text \<open>One object of a notification: its bucket and key. \<open>None\<close> means to go on with the next.\<close>

definition object_step :: "glue_client \<Rightarrow> string \<times> string \<Rightarrow> catalog_state \<Rightarrow> glue_error option \<times> catalog_state" where
  "object_step client obj s =
     (case GetPartitionFromS3 (fst obj) (snd obj) of
        Inl _ \<Rightarrow> (None, s)
      | Inr gp \<Rightarrow>
          (let loc = GetPartitionLocation gp
           in if loc \<in> set (cs_cache s) then (None, s)
              else case CreatePartition client gp (cs_calls s) of
                     (Some err, calls) \<Rightarrow> (Some (failed_to_create_partition err), s\<lparr>cs_calls := calls\<rparr>)
                   | (None, calls) \<Rightarrow> (None, s\<lparr>cs_cache := loc # cs_cache s, cs_calls := calls\<rparr>)))"

fun object_loop :: "glue_client \<Rightarrow> (string \<times> string) list \<Rightarrow> catalog_state \<Rightarrow> glue_error option \<times> catalog_state" where
  "object_loop client [] s = (None, s)"
| "object_loop client (obj # objs) s =
     (case object_step client obj s of
        (Some err, s') \<Rightarrow> (Some err, s')
      | (None, s') \<Rightarrow> object_loop client objs s')"

text \<open>The bodies of the SQS records; \<open>unmarshal\<close> reads the objects of an S3 notification from its JSON. A body that
  cannot be read and one without objects are logged and skipped.\<close>

fun catalog_process ::
  "glue_client \<Rightarrow> (string \<Rightarrow> (string \<times> string) list option) \<Rightarrow> string list \<Rightarrow> catalog_state \<Rightarrow> glue_error option \<times> catalog_state" where
  "catalog_process client unmarshal [] s = (None, s)"
| "catalog_process client unmarshal (body # bodies) s =
     (case unmarshal body of
        None \<Rightarrow> catalog_process client unmarshal bodies s
      | Some objs \<Rightarrow>
          (case object_loop client objs s of
             (Some err, s') \<Rightarrow> (Some err, s')
           | (None, s') \<Rightarrow> catalog_process client unmarshal bodies s'))"

section \<open>Round trip of object keys\<close>

lemma lower_char_other: "lower_char c = d \<Longrightarrow> (of_char d :: nat) < 65 \<Longrightarrow> c = d"
proof -
  assume h: "lower_char c = d" "(of_char d :: nat) < 65"
  show "c = d"
  proof (cases "65 \<le> (of_char c :: nat) \<and> (of_char c :: nat) \<le> 90")
    case True
    then have "d = char_of (of_char c + 32 :: nat)" using h(1) by (simp add: lower_char_def Let_def)
    then have "(of_char d :: nat) = of_char c + 32" using True by simp
    with h(2) True show ?thesis by simp
  qed (use h(1) in \<open>auto simp: lower_char_def Let_def split: if_splits\<close>)
qed

lemma GetTableName_no_slash: "CHR ''/'' \<notin> set logType \<Longrightarrow> CHR ''/'' \<notin> set (GetTableName logType)"
  by (auto simp: GetTableName_def dest!: sym [of "CHR ''/''"] lower_char_other split: if_splits)

lemma lower_char_idem: "lower_char (lower_char c) = lower_char c"
  by (auto simp: lower_char_def Let_def)

lemma lower_char_dot: "lower_char c = CHR ''.'' \<Longrightarrow> c = CHR ''.''"
  by (rule lower_char_other) simp_all

text \<open>A table name is its own table name.\<close>

lemma GetTableName_idem: "GetTableName (GetTableName logType) = GetTableName logType"
  by (auto simp: GetTableName_def lower_char_idem dest: lower_char_dot)

lemma Itoa_chars: "c \<in> set (Itoa i) \<Longrightarrow> is_digit c \<or> c = CHR ''-''"
  using string_of_nat_digits [of "nat i"] string_of_nat_digits [of "nat (- i)"]
  by (auto simp: Itoa_def list_all_iff split: if_splits)

lemma pad2_chars: "c \<in> set (pad2 i) \<Longrightarrow> is_digit c \<or> c = CHR ''-''"
  using Itoa_chars [of c i] by (auto simp: pad2_def is_digit_def split: if_splits)

lemma nat_of_digits_zero: "nat_of_digits (CHR ''0'' # s) = nat_of_digits s"
  by (simp add: nat_of_digits_def digit_val_def)

lemma Atoi_pad2: "0 \<le> n \<Longrightarrow> in_int64 n \<Longrightarrow> Atoi (pad2 n) = Some n"
proof (cases "n < 10")
  case True
  assume n: "0 \<le> n" "in_int64 n"
  have "is_digit (CHR ''0'')" by (simp add: is_digit_def)
  with True n show ?thesis
    using string_of_nat_digits [of "nat n"]
    by (simp add: pad2_def Atoi_def Itoa_def Atoi_digits_def nat_of_digits_zero decimal_simps)
next
  case False
  then show "0 \<le> n \<Longrightarrow> in_int64 n \<Longrightarrow> ?thesis" by (simp add: pad2_def Atoi_Itoa)
qed

lemma infer_column:
  assumes "CHR ''='' \<notin> set k" "CHR ''='' \<notin> set v" "Atoi v = Some n"
  shows "inferPartitionColumnInfo (k @ CHR ''='' # v) k = Inr \<lparr>pc_Key = k, pc_Value = v\<rparr>"
  using assms by (simp add: inferPartitionColumnInfo_def split_on_append split_on_none)

text \<open>The four columns of an hour.\<close>

definition hour_columns :: "gotime \<Rightarrow> PartitionColumnInfo list" where
  "hour_columns t =
     [\<lparr>pc_Key = ''year'', pc_Value = Itoa (Year t)\<rparr>, \<lparr>pc_Key = ''month'', pc_Value = pad2 (Month t)\<rparr>,
      \<lparr>pc_Key = ''day'', pc_Value = pad2 (Day t)\<rparr>, \<lparr>pc_Key = ''hour'', pc_Value = pad2 (Hour t)\<rparr>]"

lemma columns_prefix_hour: "columns_prefix (hour_columns t) = getTimePartitionPrefix GlueTableHourly t"
  by (simp add: hour_columns_def getTimePartitionPrefix_def)

lemma small_int64: "0 \<le> n \<Longrightarrow> n \<le> 31 \<Longrightarrow> in_int64 n"
  by (simp add: in_int64_def)

lemma date_parts:
  "1 \<le> Month t" "Month t \<le> 12" "1 \<le> Day t" "Day t \<le> 31" "0 \<le> Hour t" "Hour t < 24"
proof -
  have v: "1 \<le> Month t" "Month t \<le> 12" "1 \<le> Day t" "Day t \<le> days_in (Year t) (Month t)"
    using date_of_time(2) [of t] by (auto simp: valid_date_def)
  then show "1 \<le> Month t" "Month t \<le> 12" "1 \<le> Day t" "Day t \<le> 31"
    using month_end_at(2) [of "Month t" "isLeap (Year t)"] by (auto simp: days_in_month_len)
  show "0 \<le> Hour t" "Hour t < 24" by (rule Hour_bounds)+
qed

lemma hour_values:
  assumes "in_int64 (Year t)"
  shows "Atoi (Itoa (Year t)) = Some (Year t)" "Atoi (pad2 (Month t)) = Some (Month t)"
    "Atoi (pad2 (Day t)) = Some (Day t)" "Atoi (pad2 (Hour t)) = Some (Hour t)"
  using assms date_parts [of t] by (auto intro!: Atoi_Itoa Atoi_pad2 small_int64)

lemma split_hour_key:
  assumes "CHR ''/'' \<notin> set k0" "CHR ''/'' \<notin> set tab"
  shows "split_on (CHR ''/'') (k0 @ ''/'' @ tab @ ''/'' @ getTimePartitionPrefix GlueTableHourly t @ rest) =
    [k0, tab, ''year='' @ Itoa (Year t), ''month='' @ pad2 (Month t), ''day='' @ pad2 (Day t), ''hour='' @ pad2 (Hour t)]
    @ split_on (CHR ''/'') rest"
proof -
  have no: "CHR ''/'' \<notin> set (Itoa i)" "CHR ''/'' \<notin> set (pad2 i)" for i
    by (auto dest: Itoa_chars pad2_chars simp: is_digit_def)
  then have "split_on (CHR ''/'') (getTimePartitionPrefix GlueTableHourly t @ rest) =
    [''year='' @ Itoa (Year t), ''month='' @ pad2 (Month t), ''day='' @ pad2 (Day t), ''hour='' @ pad2 (Hour t)]
    @ split_on (CHR ''/'') rest"
    by (simp add: getTimePartitionPrefix_def split_on_append)
  with assms show ?thesis by (simp add: split_on_append)
qed

definition hour_partition :: "DataType \<Rightarrow> string \<Rightarrow> string \<Rightarrow> gotime \<Rightarrow> GluePartition" where
  "hour_partition datatype tableName bucket t =
     \<lparr>gp_datatype = datatype, gp_databaseName = getDatabase datatype, gp_tableName = tableName, gp_s3Bucket = bucket,
      gp_dataFormat = ''json'', gp_compression = ''gzip'', gp_hour = Truncate t Hour_ns, gp_partitionColumns = hour_columns t\<rparr>"

lemma GetPartitionFromS3_hour:
  assumes "datatype = LogData \<or> datatype = RuleData" "CHR ''/'' \<notin> set tab" "in_int64 (Year t)"
  shows "GetPartitionFromS3 bucket (getTablePrefix datatype tab @ getTimePartitionPrefix GlueTableHourly t @ name @ ''.json.gz'')
    = Inr (hour_partition datatype tab bucket t)"
proof -
  define k0 where "k0 = (if datatype = LogData then logS3Prefix else ruleMatchS3Prefix)"
  have k0: "CHR ''/'' \<notin> set k0" "k0 = logS3Prefix \<or> k0 = ruleMatchS3Prefix" "k0 = logS3Prefix \<longleftrightarrow> datatype = LogData"
    using assms(1) by (auto simp: k0_def glue_names)
  let ?key = "k0 @ ''/'' @ tab @ ''/'' @ getTimePartitionPrefix GlueTableHourly t @ name @ ''.json.gz''"
  have key: "getTablePrefix datatype tab @ getTimePartitionPrefix GlueTableHourly t @ name @ ''.json.gz'' = ?key"
    by (simp add: getTablePrefix_def k0_def)
  have suffix: "HasSuffix ?key ''.json.gz''"
    using HasSuffix_append [of "k0 @ ''/'' @ tab @ ''/'' @ getTimePartitionPrefix GlueTableHourly t @ name" "''.json.gz''"]
    by (simp only: append_assoc)
  have no: "CHR ''='' \<notin> set (Itoa i)" "CHR ''='' \<notin> set (pad2 i)" for i
    by (auto dest: Itoa_chars pad2_chars simp: is_digit_def)
  have cols: "inferPartitionColumnInfo (''year='' @ Itoa (Year t)) ''year'' = Inr \<lparr>pc_Key = ''year'', pc_Value = Itoa (Year t)\<rparr>"
    "inferPartitionColumnInfo (''month='' @ pad2 (Month t)) ''month'' = Inr \<lparr>pc_Key = ''month'', pc_Value = pad2 (Month t)\<rparr>"
    "inferPartitionColumnInfo (''day='' @ pad2 (Day t)) ''day'' = Inr \<lparr>pc_Key = ''day'', pc_Value = pad2 (Day t)\<rparr>"
    "inferPartitionColumnInfo (''hour='' @ pad2 (Hour t)) ''hour'' = Inr \<lparr>pc_Key = ''hour'', pc_Value = pad2 (Hour t)\<rparr>"
    using infer_column [OF _ no(1) hour_values(1) [OF assms(3)], of "''year''"]
      infer_column [OF _ no(2) hour_values(2) [OF assms(3)], of "''month''"]
      infer_column [OF _ no(2) hour_values(3) [OF assms(3)], of "''day''"]
      infer_column [OF _ no(2) hour_values(4) [OF assms(3)], of "''hour''"] by simp_all
  show ?thesis
    unfolding key GetPartitionFromS3_def split_hour_key [OF k0(1) assms(2)] using k0 suffix cols assms(1)
    by (auto simp: finer_columns_def Let_def hour_values [OF assms(3)] hour_partition_def hour_columns_def
        time_Date_parts getDatabase_def)
qed

lemma GetPartitionLocation_hour:
  "GetPartitionLocation (hour_partition datatype tab bucket t) =
     ''s3://'' @ bucket @ ''/'' @ getTablePrefix datatype tab @ getTimePartitionPrefix GlueTableHourly t"
  by (simp add: GetPartitionLocation_def hour_partition_def columns_prefix_hour)

section \<open>Partitions and their locations\<close>

text \<open>The time that the columns of a partition name.\<close>

definition hour_of_columns :: "PartitionColumnInfo list \<Rightarrow> gotime" where
  "hour_of_columns cols =
     (case map (\<lambda>c. Atoi (pc_Value c)) cols of
        [Some year, Some month, Some day, Some hour] \<Rightarrow> time_Date year month day hour
      | _ \<Rightarrow> 0)"

definition column_ok :: "PartitionColumnInfo \<Rightarrow> bool" where
  "column_ok c \<longleftrightarrow> CHR ''/'' \<notin> set (pc_Key c) \<and> CHR ''/'' \<notin> set (pc_Value c) \<and> CHR ''='' \<notin> set (pc_Key c) \<and> Atoi (pc_Value c) \<noteq> None"

definition partition_wf :: "GluePartition \<Rightarrow> bool" where
  "partition_wf gp \<longleftrightarrow>
     (gp_datatype gp = LogData \<or> gp_datatype gp = RuleData) \<and> CHR ''/'' \<notin> set (gp_tableName gp) \<and>
     list_all column_ok (gp_partitionColumns gp) \<and> gp_hour gp = hour_of_columns (gp_partitionColumns gp)"

lemma infer_column_ok:
  assumes "inferPartitionColumnInfo input k = Inr c" "CHR ''/'' \<notin> set input"
  shows "column_ok c"
proof -
  obtain v where v: "split_on (CHR ''='') input = [k, v]" "Atoi v \<noteq> None" "c = \<lparr>pc_Key = k, pc_Value = v\<rparr>"
    using assms(1) by (auto simp: inferPartitionColumnInfo_def split: list.splits if_splits option.splits)
  have "input = k @ ''='' @ v" using split_on_Join [of "CHR ''=''" input] v(1) by simp
  moreover have "CHR ''='' \<notin> set k" using split_on_no_sep [of k "CHR ''=''" input] v(1) by simp
  ultimately show ?thesis using v assms(2) by (auto simp: column_ok_def)
qed

lemma finer_columns_bucket: "gp_s3Bucket (finer_columns p y m ks) = gp_s3Bucket p"
  by (simp add: finer_columns_def Let_def split: list.splits sum.splits option.splits)

lemma finer_columns_wf:
  assumes "gp_partitionColumns p = [y, m]" "column_ok y" "column_ok m" "gp_hour p = 0" "list_all (\<lambda>k. CHR ''/'' \<notin> set k) ks"
    "gp_datatype p = LogData \<or> gp_datatype p = RuleData" "CHR ''/'' \<notin> set (gp_tableName p)"
  shows "partition_wf (finer_columns p y m ks)"
proof -
  have base: "partition_wf p" using assms by (simp add: partition_wf_def hour_of_columns_def split: option.splits)
  show "partition_wf (finer_columns p y m ks)"
  proof (cases ks)
    case Nil
    with base show ?thesis by (simp add: finer_columns_def)
  next
    case (Cons k4 rest)
    show ?thesis
    proof (cases "inferPartitionColumnInfo k4 ''day''")
      case (Inl a)
      with Cons base show ?thesis by (simp add: finer_columns_def)
    next
      case (Inr d)
      have d: "column_ok d" using infer_column_ok [OF Inr] assms(5) Cons by simp
      have p1: "partition_wf (p\<lparr>gp_partitionColumns := gp_partitionColumns p @ [d]\<rparr>)"
        using assms d by (simp add: partition_wf_def hour_of_columns_def split: option.splits)
      show ?thesis
      proof (cases rest)
        case Nil
        with Cons Inr p1 show ?thesis by (simp add: finer_columns_def)
      next
        case (Cons k5 rest')
        show ?thesis
        proof (cases "inferPartitionColumnInfo k5 ''hour''")
          case (Inl a)
          with Cons \<open>ks = k4 # rest\<close> Inr p1 show ?thesis by (simp add: finer_columns_def)
        next
          case hour: (Inr h)
          have h: "column_ok h" using infer_column_ok [OF hour] assms(5) Cons \<open>ks = k4 # rest\<close> by simp
          obtain a b c e where "Atoi (pc_Value y) = Some a" "Atoi (pc_Value m) = Some b" "Atoi (pc_Value d) = Some c"
            "Atoi (pc_Value h) = Some e" using assms(2,3) d h by (auto simp: column_ok_def)
          with Cons \<open>ks = k4 # rest\<close> Inr hour assms d h show ?thesis
            by (simp add: finer_columns_def partition_wf_def hour_of_columns_def)
        qed
      qed
    qed
  qed
qed

lemma GetPartitionFromS3_wf:
  assumes "GetPartitionFromS3 bucket key = Inr gp"
  shows "partition_wf gp" "gp_s3Bucket gp = bucket"
proof -
  obtain k0 k1 k2 k3 ks y m where k: "split_on (CHR ''/'') key = k0 # k1 # k2 # k3 # ks"
    "inferPartitionColumnInfo k2 ''year'' = Inr y" "inferPartitionColumnInfo k3 ''month'' = Inr m"
    "gp = finer_columns \<lparr>gp_datatype = (if k0 = logS3Prefix then LogData else RuleData),
       gp_databaseName = (if k0 = logS3Prefix then LogProcessingDatabaseName else RuleMatchDatabaseName),
       gp_tableName = k1, gp_s3Bucket = bucket, gp_dataFormat = ''json'', gp_compression = ''gzip'',
       gp_hour = 0, gp_partitionColumns = [y, m]\<rparr> y m ks"
    using assms by (auto simp: GetPartitionFromS3_def split: if_splits list.splits sum.splits)
  have no: "CHR ''/'' \<notin> set w" if "w \<in> set (k0 # k1 # k2 # k3 # ks)" for w
    using split_on_no_sep [of w "CHR ''/''" key] that k(1) by simp
  have "column_ok y" "column_ok m" using infer_column_ok [OF k(2)] infer_column_ok [OF k(3)] no by auto
  with no show "partition_wf gp"
    unfolding k(4) by (intro finer_columns_wf) (simp_all add: list_all_iff)
  show "gp_s3Bucket gp = bucket" by (simp add: k(4) finer_columns_bucket)
qed

lemma append_sep_inject: "c \<notin> set a \<Longrightarrow> c \<notin> set a' \<Longrightarrow> a @ c # b = a' @ c # b' \<longleftrightarrow> a = a' \<and> b = b'"
proof (induction a arbitrary: a')
  case Nil
  then show ?case by (cases a') auto
next
  case (Cons x a)
  then show ?case by (cases a') auto
qed

lemma columns_prefix_inject:
  "list_all column_ok cs \<Longrightarrow> list_all column_ok cs' \<Longrightarrow> columns_prefix cs = columns_prefix cs' \<Longrightarrow> cs = cs'"
proof (induction cs arbitrary: cs')
  case Nil
  then show ?case by (cases cs') auto
next
  case (Cons c cs)
  then obtain c' ds where cs': "cs' = c' # ds" by (cases cs') auto
  with Cons.prems have "pc_Key c = pc_Key c'" "pc_Value c = pc_Value c'" "columns_prefix cs = columns_prefix ds"
    by (auto simp: column_ok_def append_sep_inject)
  with Cons cs' show ?case by auto
qed

text \<open>The location determines the table and the time of the partition.\<close>

lemma GetPartitionLocation_inject:
  assumes "partition_wf gp" "partition_wf gp'" "CHR ''/'' \<notin> set (gp_s3Bucket gp)" "CHR ''/'' \<notin> set (gp_s3Bucket gp')"
    "GetPartitionLocation gp = GetPartitionLocation gp'"
  shows "gp_datatype gp = gp_datatype gp'" "gp_tableName gp = gp_tableName gp'" "gp_hour gp = gp_hour gp'"
proof -
  let ?k = "\<lambda>g. if gp_datatype g = LogData then logS3Prefix else ruleMatchS3Prefix"
  have loc: "GetPartitionLocation g = ''s3://'' @ gp_s3Bucket g @ CHR ''/'' # ?k g @ CHR ''/'' # gp_tableName g @ CHR ''/'' #
      columns_prefix (gp_partitionColumns g)" for g
    by (simp add: GetPartitionLocation_def getTablePrefix_def)
  have k: "CHR ''/'' \<notin> set (?k g)" for g by (simp add: glue_names)
  have eqs: "?k gp = ?k gp'" "gp_tableName gp = gp_tableName gp'"
    "columns_prefix (gp_partitionColumns gp) = columns_prefix (gp_partitionColumns gp')"
    using assms k [of gp] k [of gp'] unfolding loc by (auto simp: append_sep_inject partition_wf_def)
  then show "gp_tableName gp = gp_tableName gp'" by simp
  show "gp_datatype gp = gp_datatype gp'"
    using eqs(1) assms(1,2) by (auto simp: partition_wf_def glue_names split: if_splits)
  have "gp_partitionColumns gp = gp_partitionColumns gp'"
    using columns_prefix_inject eqs(3) assms(1,2) by (simp add: partition_wf_def)
  then show "gp_hour gp = gp_hour gp'" using assms(1,2) by (simp add: partition_wf_def)
qed

section \<open>The catalog has a partition for every object\<close>

text \<open>Glue has acknowledged the partition of a table for an hour, at its location.\<close>

definition partition_created :: "DataType \<Rightarrow> string \<Rightarrow> gotime \<Rightarrow> glue_log \<Rightarrow> bool" where
  "partition_created datatype tab t calls \<longleftrightarrow>
     (\<exists>sd r host. ECreatePartition (getDatabase datatype) tab [Itoa (Year t), pad2 (Month t), pad2 (Day t), pad2 (Hour t)] sd r \<in> set calls \<and>
        acknowledged r \<and> sd_Location sd = ''s3://'' @ host @ ''/'' @ getTablePrefix datatype tab @ getTimePartitionPrefix GlueTableHourly t)"

lemma partition_created_mono: "partition_created d tab t calls \<Longrightarrow> set calls \<subseteq> set calls' \<Longrightarrow> partition_created d tab t calls'"
  unfolding partition_created_def by blast

lemma createPartition_created:
  assumes "createPartition client (NewGlueTableMetadata d tab desc GlueTableHourly) t table calls = (None, calls')"
  shows "partition_created d (GetTableName tab) t calls'"
proof -
  let ?gm = "NewGlueTableMetadata d tab desc GlueTableHourly"
  from createPartition_Inr [OF assms] obtain host r where c: "acknowledged r"
    "calls' = calls @ [ECreatePartition (gm_databaseName ?gm) (gm_tableName ?gm) (partitionValues ?gm t)
       (created_descriptor ?gm t table host) r]" by blast
  show ?thesis unfolding partition_created_def
    by (rule exI [of _ "created_descriptor ?gm t table host"], rule exI [of _ r], rule exI [of _ host])
       (simp add: c partitionValues_def created_descriptor_def NewGlueTableMetadata_def gm_GetPartitionPrefix_def timebin_defs)
qed

lemma CreatePartition_created:
  assumes "CreatePartition client gp calls = (r, calls')"
  shows "set calls \<subseteq> set calls'" "r = None \<Longrightarrow> partition_created (gp_datatype gp) (GetTableName (gp_tableName gp)) (gp_hour gp) calls'"
  using assms createPartition_log createPartition_created
  by (fastforce simp: CreatePartition_def CreateJSONPartition_def get_table_def Let_def split: sum.splits if_splits)+

definition object_created :: "glue_log \<Rightarrow> string \<times> string \<Rightarrow> bool" where
  "object_created calls obj \<longleftrightarrow>
     (case GetPartitionFromS3 (fst obj) (snd obj) of
        Inl _ \<Rightarrow> True
      | Inr gp \<Rightarrow> partition_created (gp_datatype gp) (GetTableName (gp_tableName gp)) (gp_hour gp) calls)"

text \<open>What the cache means: every location in it belongs to an acknowledged partition.\<close>

definition cache_ok :: "catalog_state \<Rightarrow> bool" where
  "cache_ok s \<longleftrightarrow> (\<forall>loc \<in> set (cs_cache s). \<exists>gp. partition_wf gp \<and> CHR ''/'' \<notin> set (gp_s3Bucket gp) \<and>
     GetPartitionLocation gp = loc \<and> partition_created (gp_datatype gp) (GetTableName (gp_tableName gp)) (gp_hour gp) (cs_calls s))"

abbreviation buckets_ok :: "(string \<times> string) list \<Rightarrow> bool" where
  "buckets_ok \<equiv> list_all (\<lambda>obj. CHR ''/'' \<notin> set (fst obj))"

lemma cache_ok_log:
  "cache_ok s \<Longrightarrow> set (cs_calls s) \<subseteq> set calls \<Longrightarrow> cache_ok (s\<lparr>cs_calls := calls\<rparr>)"
  using partition_created_mono by (simp add: cache_ok_def) blast

lemma object_step_ok:
  assumes "object_step client obj s = (r, s')" "cache_ok s" "CHR ''/'' \<notin> set (fst obj)"
  shows "cache_ok s'" "set (cs_calls s) \<subseteq> set (cs_calls s')" "r = None \<Longrightarrow> object_created (cs_calls s') obj"
proof -
  have "cache_ok s' \<and> set (cs_calls s) \<subseteq> set (cs_calls s') \<and> (r = None \<longrightarrow> object_created (cs_calls s') obj)"
  proof (cases "GetPartitionFromS3 (fst obj) (snd obj)")
    case (Inl e)
    with assms show ?thesis by (simp add: object_step_def object_created_def)
  next
    case (Inr gp)
    note wf = GetPartitionFromS3_wf [OF Inr]
    show ?thesis
    proof (cases "GetPartitionLocation gp \<in> set (cs_cache s)")
      case True
      then obtain g where g: "partition_wf g" "CHR ''/'' \<notin> set (gp_s3Bucket g)" "GetPartitionLocation g = GetPartitionLocation gp"
        "partition_created (gp_datatype g) (GetTableName (gp_tableName g)) (gp_hour g) (cs_calls s)"
        using assms(2) by (auto simp: cache_ok_def)
      from GetPartitionLocation_inject [OF g(1) wf(1) g(2) _ g(3)] wf(2) assms(3) g(4)
      have "object_created (cs_calls s) obj" by (simp add: object_created_def Inr)
      with assms True Inr show ?thesis by (simp add: object_step_def)
    next
      case False
      obtain r0 calls where c: "CreatePartition client gp (cs_calls s) = (r0, calls)" by fastforce
      note cr = CreatePartition_created [OF c]
      show ?thesis
      proof (cases r0)
        case None
        then have created: "partition_created (gp_datatype gp) (GetTableName (gp_tableName gp)) (gp_hour gp) calls" using cr(2) by simp
        have "cache_ok (s\<lparr>cs_cache := GetPartitionLocation gp # cs_cache s, cs_calls := calls\<rparr>)"
          using cache_ok_log [OF assms(2) cr(1)] created wf assms(3) by (auto simp: cache_ok_def)
        with assms(1) False Inr None c created cr(1) show ?thesis by (auto simp: object_step_def object_created_def Let_def)
      next
        case (Some e)
        with assms(1) False Inr c cr(1) cache_ok_log [OF assms(2) cr(1)] show ?thesis by (auto simp: object_step_def Let_def)
      qed
    qed
  qed
  then show "cache_ok s'" "set (cs_calls s) \<subseteq> set (cs_calls s')" "r = None \<Longrightarrow> object_created (cs_calls s') obj" by auto
qed

lemma object_created_mono: "object_created calls obj \<Longrightarrow> set calls \<subseteq> set calls' \<Longrightarrow> object_created calls' obj"
  using partition_created_mono by (auto simp: object_created_def split: sum.splits)

lemma object_loop_ok:
  assumes "object_loop client objs s = (r, s')" "cache_ok s" "buckets_ok objs"
  shows "cache_ok s' \<and> set (cs_calls s) \<subseteq> set (cs_calls s') \<and> (r = None \<longrightarrow> list_all (object_created (cs_calls s')) objs)"
  using assms
proof (induction client objs s rule: object_loop.induct)
  case (2 client obj objs s)
  obtain r0 s0 where st: "object_step client obj s = (r0, s0)" by fastforce
  from object_step_ok [OF st] 2 have ok: "cache_ok s0" "set (cs_calls s) \<subseteq> set (cs_calls s0)"
    "r0 = None \<Longrightarrow> object_created (cs_calls s0) obj" by auto
  show ?case
  proof (cases r0)
    case None
    with 2 st ok(1) have "cache_ok s' \<and> set (cs_calls s0) \<subseteq> set (cs_calls s') \<and>
        (r = None \<longrightarrow> list_all (object_created (cs_calls s')) objs)" by auto
    with ok None object_created_mono show ?thesis by auto
  qed (use 2 st ok in auto)
qed auto

lemma catalog_process_ok:
  assumes "catalog_process client unmarshal bodies s = (r, s')" "cache_ok s"
    "\<forall>body objs. unmarshal body = Some objs \<longrightarrow> buckets_ok objs"
  shows "cache_ok s' \<and> set (cs_calls s) \<subseteq> set (cs_calls s') \<and>
    (r = None \<longrightarrow> (\<forall>body \<in> set bodies. \<forall>objs. unmarshal body = Some objs \<longrightarrow> list_all (object_created (cs_calls s')) objs))"
  using assms
proof (induction client unmarshal bodies s rule: catalog_process.induct)
  case (2 client unmarshal body bodies s)
  show ?case
  proof (cases "unmarshal body")
    case None
    with 2 show ?thesis by auto
  next
    case (Some objs)
    obtain r0 s0 where st: "object_loop client objs s = (r0, s0)" by fastforce
    from object_loop_ok [OF st] 2 Some have ok: "cache_ok s0" "set (cs_calls s) \<subseteq> set (cs_calls s0)"
      "r0 = None \<Longrightarrow> list_all (object_created (cs_calls s0)) objs" by auto
    show ?thesis
    proof (cases r0)
      case None
      with 2 Some st ok(1) have IH: "cache_ok s' \<and> set (cs_calls s0) \<subseteq> set (cs_calls s') \<and>
          (r = None \<longrightarrow> (\<forall>body \<in> set bodies. \<forall>objs. unmarshal body = Some objs \<longrightarrow> list_all (object_created (cs_calls s')) objs))"
        by auto
      then have "list_all (object_created (cs_calls s')) objs"
        using ok(3) None object_created_mono by (auto simp: list_all_iff)
      with IH ok Some show ?thesis by auto
    qed (use 2 st ok Some in auto)
  qed
qed auto

lemma written_key:
  assumes "getS3ObjectKey desc logType t uuid = Some key" "in_int64 (Year t)"
  shows "GetPartitionFromS3 bucket key = Inr (hour_partition LogData (GetTableName logType) bucket t)"
    and "''s3://'' @ bucket @ ''/'' @ key =
      GetPartitionLocation (hour_partition LogData (GetTableName logType) bucket t) @ Format_S3 t @ ''-'' @ uuid @ ''.json.gz''"
    and "logType \<in> set parsersRegistry"
proof -
  show reg: "logType \<in> set parsersRegistry"
    using assms(1) by (auto simp: getS3ObjectKey_def LookupParser_def split: if_splits)
  have key: "key = getTablePrefix LogData (GetTableName logType) @ getTimePartitionPrefix GlueTableHourly t @
      (Format_S3 t @ ''-'' @ uuid) @ ''.json.gz''"
    using assms(1) by (auto simp: getS3ObjectKey_def LookupParser_def DefaultLogParser_def gm_GetPartitionPrefix_def
        NewGlueTableMetadata_def split: if_splits)
  have "list_all (\<lambda>lt. CHR ''/'' \<notin> set lt) parsersRegistry" by code_simp
  with reg have tab: "CHR ''/'' \<notin> set (GetTableName logType)"
    by (intro GetTableName_no_slash) (metis list_all_iff)
  show "GetPartitionFromS3 bucket key = Inr (hour_partition LogData (GetTableName logType) bucket t)"
    unfolding key by (rule GetPartitionFromS3_hour [OF _ tab assms(2)]) simp
  show "''s3://'' @ bucket @ ''/'' @ key =
      GetPartitionLocation (hour_partition LogData (GetTableName logType) bucket t) @ Format_S3 t @ ''-'' @ uuid @ ''.json.gz''"
    using GetPartitionLocation_hour [of LogData "GetTableName logType" bucket t] by (simp add: key)
qed

lemma GetTableName_registered: "logType \<in> set parsersRegistry \<Longrightarrow> GetTableName (GetTableName logType) = GetTableName logType"
proof -
  have "list_all (\<lambda>lt. GetTableName (GetTableName lt) = GetTableName lt) parsersRegistry" by code_simp
  then show "logType \<in> set parsersRegistry \<Longrightarrow> GetTableName (GetTableName logType) = GetTableName logType" by (simp add: list_all_iff)
qed

text \<open>C30. 
  Round trip of object keys. From the key under which the S3 destination stores the events of a registered log type
  and a time, the catalog reads back exactly that table and the hour of the time, and the location it derives for
  the partition is the directory of the object.
\<close>

theorem object_key_partition:
  assumes "getS3ObjectKey desc logType t uuid = Some key" "in_int64 (Year t)"
  shows "GetPartitionFromS3 bucket key =
      Inr \<lparr>gp_datatype = LogData, gp_databaseName = LogProcessingDatabaseName, gp_tableName = GetTableName logType,
           gp_s3Bucket = bucket, gp_dataFormat = ''json'', gp_compression = ''gzip'', gp_hour = Truncate t Hour_ns,
           gp_partitionColumns = hour_columns t\<rparr> \<and>
    (case GetPartitionFromS3 bucket key of Inl _ \<Rightarrow> False | Inr gp \<Rightarrow>
       ''s3://'' @ bucket @ ''/'' @ key = GetPartitionLocation gp @ Format_S3 t @ ''-'' @ uuid @ ''.json.gz'')"
  using written_key(1,2) [OF assms] by (simp add: hour_partition_def getDatabase_def)

theorem object_key_partition_witness:
  "map_option (\<lambda>key. GetPartitionFromS3 ''data'' key = Inr \<lparr>gp_datatype = LogData, gp_databaseName = LogProcessingDatabaseName,
       gp_tableName = ''aws_alb'', gp_s3Bucket = ''data'', gp_dataFormat = ''json'', gp_compression = ''gzip'',
       gp_hour = time_Date 2020 2 29 13, gp_partitionColumns = hour_columns (time_Date 2020 2 29 13 + 5)\<rparr>)
     (getS3ObjectKey (\<lambda>_. []) ''AWS.ALB'' (time_Date 2020 2 29 13 + 5) ''u'') = Some True"
proof -
  let ?t = "time_Date 2020 2 29 13 + 5"
  have key: "getS3ObjectKey (\<lambda>_. []) ''AWS.ALB'' ?t ''u'' =
      Some ''logs/aws_alb/year=2020/month=02/day=29/hour=13/20200229T130000Z-u.json.gz''" by code_simp
  have "in_int64 (Year ?t)" by code_simp
  moreover have "Truncate ?t Hour_ns = time_Date 2020 2 29 13" "GetTableName ''AWS.ALB'' = ''aws_alb''" by code_simp+
  ultimately show ?thesis using object_key_partition [OF key, of "''data''"] key by simp
qed

text \<open>C12. 
  The data catalog is complete. Starting from a cache whose entries are partitions that Glue has acknowledged, consider an
  invocation that reports no error and an object of its notifications. If the key of the object names a table and an hour, Glue has acknowledged
  the partition of that table and hour, at its location; so it has for the log type and the hour of every object that the S3
  destination wrote. The cache, which lets the invocation skip objects, stays sound. Nothing is claimed of objects whose keys name no
  partition, which are logged and skipped, or no hour (see below).
\<close>

theorem catalog_complete:
  assumes "catalog_process client unmarshal bodies s = (None, s')" "cache_ok s"
    "\<forall>body objs. unmarshal body = Some objs \<longrightarrow> buckets_ok objs"
    "body \<in> set bodies" "unmarshal body = Some objs" "(bucket, key) \<in> set objs"
  shows "cache_ok s' \<and>
    (\<forall>gp. GetPartitionFromS3 bucket key = Inr gp \<longrightarrow> length (gp_partitionColumns gp) = 4 \<longrightarrow>
       partition_created (gp_datatype gp) (GetTableName (gp_tableName gp)) (hour_of_columns (gp_partitionColumns gp)) (cs_calls s')) \<and>
    (\<forall>desc logType t uuid. getS3ObjectKey desc logType t uuid = Some key \<longrightarrow> in_int64 (Year t) \<longrightarrow>
       partition_created LogData (GetTableName logType) (Truncate t Hour_ns) (cs_calls s'))"
proof -
  note ok = catalog_process_ok [OF assms(1-3)]
  have made: "partition_created (gp_datatype gp) (GetTableName (gp_tableName gp)) (gp_hour gp) (cs_calls s')"
    if "GetPartitionFromS3 bucket key = Inr gp" for gp
    using ok assms(4-6) that by (fastforce simp: list_all_iff object_created_def)
  have "gp_hour gp = hour_of_columns (gp_partitionColumns gp)" if "GetPartitionFromS3 bucket key = Inr gp" for gp
    using GetPartitionFromS3_wf(1) [OF that] by (simp add: partition_wf_def)
  moreover have "partition_created LogData (GetTableName logType) (Truncate t Hour_ns) (cs_calls s')"
    if "getS3ObjectKey desc logType t uuid = Some key" "in_int64 (Year t)" for desc logType t uuid
    using made [OF written_key(1) [OF that]] GetTableName_registered [OF written_key(3) [OF that]] by (simp add: hour_partition_def)
  ultimately show ?thesis using ok made by simp
qed

text \<open>A Glue service with JSON tables in one bucket that creates what it is asked to.\<close>

definition example_table :: TableData where
  "example_table = \<lparr>td_CreateTime = 0, td_StorageDescriptor = \<lparr>sd_Columns = [(''col'', ''int'')], sd_Location = ''s3://data/logs/aws_alb/'',
     sd_SerdeInfo = \<lparr>SerializationLibrary = ''org.openx.data.jsonserde.JsonSerDe'', Parameters = []\<rparr>, sd_Other = []\<rparr>\<rparr>"

definition example_glue :: glue_client where
  "example_glue = \<lparr>gc_GetTable = (\<lambda>_ _ _. Inr example_table), gc_GetPartition = (\<lambda>_ _ _ _. Inl (awserr ErrCodeEntityNotFoundException [])),
     gc_CreatePartition = (\<lambda>_ _ _ _ _. None), gc_UpdatePartition = (\<lambda>_ _ _ _ _. None),
     gc_DeletePartition = (\<lambda>_ _ _ _. None), gc_ListObjects = (\<lambda>_ _ _. Inr [10])\<rparr>"

definition example_key :: string where
  "example_key = ''logs/aws_alb/year=2020/month=02/day=29/hour=13/20200229T130000Z-u.json.gz''"

definition example_unmarshal :: "string \<Rightarrow> (string \<times> string) list option" where
  "example_unmarshal body = (if body = ''b'' then Some [(''data'', example_key)] else None)"

theorem catalog_complete_witness:
  "partition_created LogData ''aws_alb'' (time_Date 2020 2 29 13)
     (cs_calls (snd (catalog_process example_glue example_unmarshal [''x'', ''b''] \<lparr>cs_cache = [], cs_calls = []\<rparr>)))"
proof -
  let ?s = "\<lparr>cs_cache = [], cs_calls = []\<rparr>"
  let ?s' = "snd (catalog_process example_glue example_unmarshal [''x'', ''b''] ?s)"
  let ?t = "time_Date 2020 2 29 13 + 5"
  have run: "catalog_process example_glue example_unmarshal [''x'', ''b''] ?s = (None, ?s')" by code_simp
  have cache: "cache_ok ?s" by (simp add: cache_ok_def)
  have ok: "\<forall>body objs. example_unmarshal body = Some objs \<longrightarrow> buckets_ok objs" by (simp add: example_unmarshal_def)
  have key: "getS3ObjectKey (\<lambda>_. []) ''AWS.ALB'' ?t ''u'' = Some example_key" by code_simp
  have year: "in_int64 (Year ?t)" and t: "Truncate ?t Hour_ns = time_Date 2020 2 29 13" "GetTableName ''AWS.ALB'' = ''aws_alb''" by code_simp+
  have obj: "''b'' \<in> set [''x'', ''b'']" "example_unmarshal ''b'' = Some [(''data'', example_key)]" "(''data'', example_key) \<in> set [(''data'', example_key)]"
    by (simp_all add: example_unmarshal_def)
  show ?thesis
    using catalog_complete [OF run cache ok obj, THEN conjunct2, THEN conjunct2, rule_format, OF key year] unfolding t .
qed

text \<open>
  A key without an hour is accepted, as the documentation of the key format says it should be, but the partition
  that is then requested is the first hour of the year 1, whatever the year, month and day in the key.
\<close>

theorem coarse_key_zero_hour:
  assumes "GetPartitionFromS3 bucket key = Inr gp" "length (gp_partitionColumns gp) \<noteq> 4"
  shows "gp_hour gp = 0 \<and>
    partitionValues (NewGlueTableMetadata (gp_datatype gp) (gp_tableName gp) [] GlueTableHourly) (gp_hour gp) = [''1'', ''01'', ''01'', ''00'']"
proof -
  have "gp_hour gp = hour_of_columns (gp_partitionColumns gp)"
    using GetPartitionFromS3_wf(1) [OF assms(1)] by (simp add: partition_wf_def)
  also have "\<dots> = 0" using assms(2) by (auto simp: hour_of_columns_def split: list.splits option.splits)
  finally have "gp_hour gp = 0" .
  moreover have "[Itoa (Year 0), pad2 (Month 0), pad2 (Day 0), pad2 (Hour 0)] = [''1'', ''01'', ''01'', ''00'']" by code_simp
  ultimately show ?thesis by (simp add: partitionValues_def NewGlueTableMetadata_def timebin_defs)
qed

theorem coarse_key_zero_hour_witness:
  "(case GetPartitionFromS3 ''data'' ''logs/t/year=2020/month=03/f.json.gz'' of Inl _ \<Rightarrow> False | Inr gp \<Rightarrow>
     partitionValues (NewGlueTableMetadata (gp_datatype gp) (gp_tableName gp) [] GlueTableHourly) (gp_hour gp) = [''1'', ''01'', ''01'', ''00''])"
proof -
  obtain gp where gp: "GetPartitionFromS3 ''data'' ''logs/t/year=2020/month=03/f.json.gz'' = Inr gp"
    and len: "length (gp_partitionColumns gp) = 2"
  proof -
    have "(case GetPartitionFromS3 ''data'' ''logs/t/year=2020/month=03/f.json.gz'' of Inl _ \<Rightarrow> False
      | Inr gp \<Rightarrow> length (gp_partitionColumns gp) = 2)" by code_simp
    then show thesis using that by (auto split: sum.splits)
  qed
  then show ?thesis using coarse_key_zero_hour [OF gp] by auto
qed

text \<open>The tables of the registered log types have different names, so no two log types share a location.\<close>

lemma table_names_distinct: "distinct (map gm_tableName (AvailableTables desc))"
proof -
  have "map gm_tableName (AvailableTables desc) = map GetTableName parsersRegistry"
    by (simp add: AvailableTables_def DefaultLogParser_def NewGlueTableMetadata_def)
  moreover have "distinct (map GetTableName parsersRegistry)" by code_simp
  ultimately show ?thesis by simp
qed

end
