(* ===== verification/Base64.thy ===== *)
theory Base64
  imports Panther_Prelude
begin

text \<open>
  \<open>base64.URLEncoding\<close> of Go's \<open>encoding/base64\<close>, with padding: three bytes are four characters. The decoder skips line
  breaks and refuses characters outside the alphabet, wrong padding and anything after it.
\<close>

definition url_alphabet :: string where
  "url_alphabet = ''ABCDEFGHIJKLMNOPQRSTUVWXYZabcdefghijklmnopqrstuvwxyz0123456789-_''"

definition b64_char :: "nat \<Rightarrow> char" where
  "b64_char v = url_alphabet ! v"

fun index_of :: "char \<Rightarrow> string \<Rightarrow> nat option" where
  "index_of c [] = None"
| "index_of c (x # xs) = (if c = x then Some 0 else map_option Suc (index_of c xs))"

definition b64_val :: "char \<Rightarrow> nat option" where
  "b64_val c = index_of c url_alphabet"

abbreviation byte :: "char \<Rightarrow> nat" where "byte \<equiv> of_char"

fun EncodeToString :: "string \<Rightarrow> string" where
  "EncodeToString (x # y # z # rest) =
     [b64_char (byte x div 4), b64_char (byte x mod 4 * 16 + byte y div 16),
      b64_char (byte y mod 16 * 4 + byte z div 64), b64_char (byte z mod 64)] @ EncodeToString rest"
| "EncodeToString [x, y] =
     [b64_char (byte x div 4), b64_char (byte x mod 4 * 16 + byte y div 16), b64_char (byte y mod 16 * 4), CHR ''='']"
| "EncodeToString [x] = [b64_char (byte x div 4), b64_char (byte x mod 4 * 16), CHR ''='', CHR ''='']"
| "EncodeToString [] = []"

definition first_byte :: "nat \<Rightarrow> nat \<Rightarrow> char" where "first_byte a b = char_of (a * 4 + b div 16)"
definition second_byte :: "nat \<Rightarrow> nat \<Rightarrow> char" where "second_byte b c = char_of (b mod 16 * 16 + c div 4)"
definition third_byte :: "nat \<Rightarrow> nat \<Rightarrow> char" where "third_byte c d = char_of (c mod 4 * 64 + d)"

fun decode_quanta :: "string \<Rightarrow> string option" where
  "decode_quanta [] = Some []"
| "decode_quanta (a # b # c # d # rest) =
     (case (b64_val a, b64_val b) of
        (Some va, Some vb) \<Rightarrow>
          (case b64_val c of
             None \<Rightarrow> (if c = CHR ''='' \<and> d = CHR ''='' \<and> rest = [] then Some [first_byte va vb] else None)
           | Some vc \<Rightarrow>
               (case b64_val d of
                  None \<Rightarrow> (if d = CHR ''='' \<and> rest = [] then Some [first_byte va vb, second_byte vb vc] else None)
                | Some vd \<Rightarrow> map_option (\<lambda>r. [first_byte va vb, second_byte vb vc, third_byte vc vd] @ r) (decode_quanta rest)))
      | _ \<Rightarrow> None)"
| "decode_quanta _ = None"

definition DecodeString :: "string \<Rightarrow> string option" where
  "DecodeString s = decode_quanta (filter (\<lambda>c. c \<noteq> CHR 0x0A \<and> c \<noteq> CHR 0x0D) s)"

lemma alphabet_table:
  "list_all (\<lambda>v. b64_val (b64_char v) = Some v \<and> b64_char v \<noteq> CHR 0x0A \<and> b64_char v \<noteq> CHR 0x0D) [0..<64]"
  by code_simp

lemma b64_val_char [simp]: "v < 64 \<Longrightarrow> b64_val (b64_char v) = Some v"
  and b64_char_break [simp]: "v < 64 \<Longrightarrow> b64_char v \<noteq> CHR 0x0A" "v < 64 \<Longrightarrow> b64_char v \<noteq> CHR 0x0D"
  using alphabet_table by (auto simp: list_all_iff)

lemma b64_val_pad [simp]: "b64_val (CHR ''='') = None"
  by code_simp

lemma byte_bound [simp]: "byte c < 256"
  by (rule nat_of_char_less_256)

lemma byte_div [simp]: "byte c div 4 < 64" "byte c div 16 < 16" "byte c div 64 < 4"
  by (rule less_mult_imp_div_less, simp)+

lemma sextets [simp]:
  "byte x mod 4 * 16 + byte y div 16 < 64" "byte y mod 16 * 4 + byte z div 64 < 64" "byte x mod 4 * 16 < 64" "byte y mod 16 * 4 < 64"
proof -
  have "byte x mod 4 < 4" "byte y mod 16 < 16" by simp_all
  with byte_div(2) [of y] byte_div(3) [of z]
  show "byte x mod 4 * 16 + byte y div 16 < 64" "byte y mod 16 * 4 + byte z div 64 < 64" "byte x mod 4 * 16 < 64" "byte y mod 16 * 4 < 64"
    by linarith+
qed

lemma decode_encode: "decode_quanta (EncodeToString s) = Some s"
proof (induction s rule: EncodeToString.induct)
  case (1 x y z rest)
  then show ?case by (simp add: first_byte_def second_byte_def third_byte_def)
next
  case (2 x y)
  show ?case by (simp add: first_byte_def second_byte_def)
next
  case (3 x)
  show ?case by (simp add: first_byte_def)
qed simp

lemma encode_no_breaks: "filter (\<lambda>c. c \<noteq> CHR 0x0A \<and> c \<noteq> CHR 0x0D) (EncodeToString s) = EncodeToString s"
  by (induction s rule: EncodeToString.induct) simp_all

theorem base64_round_trip: "DecodeString (EncodeToString s) = Some s"
  by (simp add: DecodeString_def encode_no_breaks decode_encode)

end
