(* ===== verification/Alerts_Api.thy ===== *)
theory Alerts_Api
  imports Awsglue Base64 "HOL-Library.List_Lexorder" "HOL-Library.Char_ord"
begin

text \<open>
  \<open>internal/log_analysis/alerts_api\<close>: the handlers that list alerts and that page through the events of an alert. The
  events are lines of S3 objects under the hourly partitions between the creation and the last update of the alert;
  S3 Select filters the lines of the alert. The position in every log type (object key and number of events already
  returned from it) travels with the client as an opaque token.

  DynamoDB, S3 and the JSON encoding of the token are parameters; base64 and the time format are computed.
\<close>

datatype 'r api_call = ApiOk 'r | ApiErr error | ApiPanic

section \<open>table/table.go, api/api.go\<close>

definition RuleIDKey :: string where "RuleIDKey = ''ruleId''"
definition AlertIDKey :: string where "AlertIDKey = ''id''"
definition TimePartitionKey :: string where "TimePartitionKey = ''timePartition''"
definition TimePartitionValue :: string where "TimePartitionValue = ''defaultPartition''"

record AlertItem =
  ai_AlertID :: string
  ai_RuleID :: string
  ai_RuleVersion :: string
  ai_RuleDisplayName :: "string option"
  ai_Title :: "string option"
  ai_DedupString :: string
  ai_CreationTime :: gotime
  ai_UpdateTime :: gotime
  ai_Severity :: string
  ai_EventCount :: int
  ai_LogTypes :: "string list"

record LogTypeToken =
  lt_S3ObjectKey :: string
  lt_EventIndex :: int

text \<open>The map of a token that came in as JSON may be nil, and so may be the pointers in it.\<close>

type_synonym EventPaginationToken = "(string, LogTypeToken option) amap option"

definition newPaginationToken :: EventPaginationToken where
  "newPaginationToken = Some []"

record token_codec =
  jsoniter_Marshal :: "EventPaginationToken \<Rightarrow> error + string"
  jsoniter_Unmarshal :: "string \<Rightarrow> error + EventPaginationToken"
  base64_error :: "string \<Rightarrow> error"

definition token_encode :: "token_codec \<Rightarrow> EventPaginationToken \<Rightarrow> error + string" where
  "token_encode codec t =
     (case jsoniter_Marshal codec t of Inl err \<Rightarrow> Inl err | Inr marshaled \<Rightarrow> Inr (EncodeToString marshaled))"

definition decodePaginationToken :: "token_codec \<Rightarrow> string \<Rightarrow> error + EventPaginationToken" where
  "decodePaginationToken codec token =
     (case DecodeString token of
        None \<Rightarrow> Inl (base64_error codec token)
      | Some unmarshaled \<Rightarrow> jsoniter_Unmarshal codec unmarshaled)"

section \<open>table/get_alert.go, table/list.go\<close>

text \<open>DynamoDB with items of a type \<open>'i\<close>. A missing item is an empty map, which \<open>UnmarshalMap\<close> turns into a zero
  \<open>AlertItem\<close>.\<close>

record 'i query_input =
  qi_IndexName :: string
  qi_Key :: "string \<times> string"               \<comment> \<open>attribute and value of the key condition\<close>
  qi_ScanIndexForward :: bool
  qi_ExclusiveStartKey :: "'i option"
  qi_Limit :: "int option"

record 'i alerts_db =
  db_GetItem :: "string \<Rightarrow> string \<Rightarrow> error + 'i"
  db_UnmarshalMap :: "'i \<Rightarrow> error + AlertItem"
  db_Query :: "'i query_input \<Rightarrow> error + 'i list \<times> 'i"
  db_emptyKey :: "'i \<Rightarrow> bool"
  db_MarshalKey :: "'i \<Rightarrow> error + string"
  db_UnmarshalKey :: "string \<Rightarrow> error + 'i"
  db_RuleIndex :: string
  db_TimeIndex :: string

definition table_GetAlert :: "'i alerts_db \<Rightarrow> string \<Rightarrow> error + AlertItem" where
  "table_GetAlert db alertID =
     (case db_GetItem db AlertIDKey alertID of
        Inl err \<Rightarrow> Inl (Wrap err (''GetItem() failed for: '' @ alertID))
      | Inr item \<Rightarrow>
          (case db_UnmarshalMap db item of
             Inl err \<Rightarrow> Inl (Wrap err (''UnmarshalMap() failed for: '' @ alertID))
           | Inr alertItem \<Rightarrow> Inr alertItem))"

fun unmarshal_all :: "('i \<Rightarrow> error + AlertItem) \<Rightarrow> 'i list \<Rightarrow> error + AlertItem list" where
  "unmarshal_all f [] = Inr []"
| "unmarshal_all f (i # is) =
     (case f i of
        Inl err \<Rightarrow> Inl err
      | Inr a \<Rightarrow> (case unmarshal_all f is of Inl err \<Rightarrow> Inl err | Inr as \<Rightarrow> Inr (a # as)))"

text \<open>The expression builder cannot fail on an equality of a named key with a value.\<close>

definition table_list ::
  "'i alerts_db \<Rightarrow> string \<Rightarrow> string \<Rightarrow> string option \<Rightarrow> int option \<Rightarrow> error + AlertItem list \<times> string option" where
  "table_list db ddbKey ddbValue exclusiveStartKey pageSize =
     (if ddbKey \<noteq> RuleIDKey \<and> ddbKey \<noteq> TimePartitionKey then Inl (''unknown key'' @ ddbKey)
      else let index = (if ddbKey = RuleIDKey then db_RuleIndex db else db_TimeIndex db);
               start = (case exclusiveStartKey of None \<Rightarrow> Inr None | Some k \<Rightarrow> map_sum id Some (db_UnmarshalKey db k))
           in case start of
                Inl err \<Rightarrow> Inl (Wrap err ''failed to Unmarshal ExclusiveStartKey'')
              | Inr startKey \<Rightarrow>
                  (case db_Query db \<lparr>qi_IndexName = index, qi_Key = (ddbKey, ddbValue), qi_ScanIndexForward = False,
                          qi_ExclusiveStartKey = startKey, qi_Limit = pageSize\<rparr> of
                     Inl err \<Rightarrow> Inl (Wrap err (''QueryInput() failed for '' @ ddbKey @ '','' @ ddbValue))
                   | Inr (items, lastKey) \<Rightarrow>
                       (case unmarshal_all (db_UnmarshalMap db) items of
                          Inl err \<Rightarrow> Inl (Wrap err ''UnmarshalListOfMaps() failed'')
                        | Inr summaries \<Rightarrow>
                            (if db_emptyKey db lastKey then Inr (summaries, None)
                             else case db_MarshalKey db lastKey of
                                    Inl err \<Rightarrow> Inl (Wrap err ''failed to Marshal LastEvaluatedKey)'')
                                  | Inr k \<Rightarrow> Inr (summaries, Some k)))))"

definition ListByRule ::
  "'i alerts_db \<Rightarrow> string \<Rightarrow> string option \<Rightarrow> int option \<Rightarrow> error + AlertItem list \<times> string option" where
  "ListByRule db ruleID = table_list db RuleIDKey ruleID"

definition ListAll :: "'i alerts_db \<Rightarrow> string option \<Rightarrow> int option \<Rightarrow> error + AlertItem list \<times> string option" where
  "ListAll db = table_list db TimePartitionKey TimePartitionValue"

section \<open>api/list_alerts.go\<close>

record AlertSummary =
  as_AlertID :: string
  as_RuleID :: string
  as_DedupString :: string
  as_CreationTime :: gotime
  as_Severity :: string
  as_UpdateTime :: gotime
  as_EventsMatched :: int
  as_RuleDisplayName :: "string option"
  as_Title :: string
  as_RuleVersion :: string

definition getAlertTitle :: "AlertItem \<Rightarrow> string" where
  "getAlertTitle alert =
     (case ai_Title alert of
        Some t \<Rightarrow> t
      | None \<Rightarrow> (case ai_RuleDisplayName alert of Some n \<Rightarrow> n | None \<Rightarrow> ai_RuleID alert))"

definition alert_summary :: "AlertItem \<Rightarrow> AlertSummary" where
  "alert_summary item =
     \<lparr>as_AlertID = ai_AlertID item, as_RuleID = ai_RuleID item, as_DedupString = ai_DedupString item,
      as_CreationTime = ai_CreationTime item, as_Severity = ai_Severity item, as_UpdateTime = ai_UpdateTime item,
      as_EventsMatched = ai_EventCount item, as_RuleDisplayName = ai_RuleDisplayName item, as_Title = getAlertTitle item,
      as_RuleVersion = ai_RuleVersion item\<rparr>"

definition alertItemsToAlertSummary :: "AlertItem list \<Rightarrow> AlertSummary list" where
  "alertItemsToAlertSummary items = map alert_summary items"

record ListAlertsInput =
  li_RuleID :: "string option"
  li_PageSize :: "int option"
  li_ExclusiveStartKey :: "string option"

definition ListAlerts :: "'i alerts_db \<Rightarrow> ListAlertsInput \<Rightarrow> error + AlertSummary list \<times> string option" where
  "ListAlerts db input =
     (case (case li_RuleID input of
              Some ruleID \<Rightarrow> ListByRule db ruleID (li_ExclusiveStartKey input) (li_PageSize input)
            | None \<Rightarrow> ListAll db (li_ExclusiveStartKey input) (li_PageSize input)) of
        Inl err \<Rightarrow> Inl err
      | Inr (alertItems, lastEvaluatedKey) \<Rightarrow> Inr (alertItemsToAlertSummary alertItems, lastEvaluatedKey))"

section \<open>time.ParseInLocation with S3ObjectTimestampFormat\<close>

text \<open>\<open>getnum\<close>: one or two digits, two if \<open>fixed\<close>.\<close>

definition getnum :: "bool \<Rightarrow> string \<Rightarrow> (int \<times> string) option" where
  "getnum fixed s =
     (case s of
        a # b # rest \<Rightarrow>
          (if \<not> is_digit a then None
           else if is_digit b then Some (int (10 * digit_val a + digit_val b), rest)
           else if fixed then None else Some (int (digit_val a), b # rest))
      | [a] \<Rightarrow> (if is_digit a \<and> \<not> fixed then Some (int (digit_val a), []) else None)
      | [] \<Rightarrow> None)"

definition getnum_in :: "bool \<Rightarrow> int \<Rightarrow> int \<Rightarrow> string \<Rightarrow> (int \<times> string) option" where
  "getnum_in fixed lo hi s =
     (case getnum fixed s of Some (n, rest) \<Rightarrow> if lo \<le> n \<and> n < hi then Some (n, rest) else None | None \<Rightarrow> None)"

definition skip_char :: "char \<Rightarrow> string \<Rightarrow> string option" where
  "skip_char c s = (case s of x # rest \<Rightarrow> if x = c then Some rest else None | [] \<Rightarrow> None)"

text \<open>A fraction of a second, which is accepted although the format has none.\<close>

definition parse_fraction :: "string \<Rightarrow> (int \<times> string) option" where
  "parse_fraction s =
     (case s of
        dot # d # rest \<Rightarrow>
          (if dot = CHR ''.'' \<and> is_digit d then
             (let ds = takeWhile is_digit (d # rest); ns = nat_of_digits ds
              in if ns < 10 ^ 9 then Some (int (ns * 10 ^ (9 - length ds)), drop (Suc (length ds)) s) else None)
           else Some (0, s))
      | _ \<Rightarrow> Some (0, s))"

definition parse_S3_time :: "string \<Rightarrow> gotime option" where
  "parse_S3_time s =
     (if length s < 4 \<or> \<not> list_all is_digit (take 4 s) then None
      else let year = int (nat_of_digits (take 4 s))
      in Option.bind (getnum_in True 1 13 (drop 4 s)) (\<lambda>(month, s).
         Option.bind (getnum True s) (\<lambda>(day, s).
         Option.bind (skip_char (CHR ''T'') s) (\<lambda>s.
         Option.bind (getnum_in False 0 24 s) (\<lambda>(hour, s).
         Option.bind (getnum_in True 0 60 s) (\<lambda>(minute, s).
         Option.bind (getnum_in True 0 60 s) (\<lambda>(sec, s).
         Option.bind (parse_fraction s) (\<lambda>(nsec, s).
         Option.bind (skip_char (CHR ''Z'') s) (\<lambda>s.
           if s \<noteq> [] \<or> day < 1 \<or> day > days_in year month then None
           else Some (day_of year month day * Day_ns + hour * Hour_ns + minute * Minute + sec * Second + nsec))))))))))"

section \<open>api/get_alert.go\<close>

datatype select_event = RecordsEvent string | StatsEvent | OtherEvent

text \<open>The S3 client: \<open>SelectObjectContent\<close> on a key and a query, with the events of its stream and the error of the
  stream; \<open>ListObjectsV2Pages\<close> on a prefix and a start, with the keys on each page and the error after them.\<close>

record s3_reader =
  sr_Select :: "string \<Rightarrow> string \<Rightarrow> error + select_event list \<times> error option"
  sr_List :: "string \<Rightarrow> string option \<Rightarrow> string list list \<times> error option"
  sr_timeError :: "string \<Rightarrow> error"

definition timeFromS3ObjectKey :: "string \<Rightarrow> gotime option" where
  "timeFromS3ObjectKey key =
     (let keyParts = split_on (CHR ''/'') key in parse_S3_time (hd (split_on (CHR ''-'') (last keyParts))))"

fun payload :: "select_event list \<Rightarrow> string" where
  "payload [] = []"
| "payload (RecordsEvent p # es) = p @ payload es"
| "payload (_ # es) = payload es"

fun record_loop :: "int \<Rightarrow> int \<Rightarrow> string list \<Rightarrow> int \<Rightarrow> string list \<Rightarrow> string list \<times> int" where
  "record_loop exclusiveStartIndex maxResults [] currentIndex result = (result, currentIndex)"
| "record_loop exclusiveStartIndex maxResults (record # records) currentIndex result =
     (if record = [] then record_loop exclusiveStartIndex maxResults records currentIndex result
      else if int (length result) \<ge> maxResults then (result, currentIndex)
      else if currentIndex + 1 \<le> exclusiveStartIndex
      then record_loop exclusiveStartIndex maxResults records (currentIndex + 1) result
      else record_loop exclusiveStartIndex maxResults records (currentIndex + 1) (result @ [record]))"

definition select_query :: "string \<Rightarrow> string" where
  "select_query alertID = ''SELECT * FROM S3Object o WHERE o.p_alert_id='' @ [CHR 0x27] @ alertID @ [CHR 0x27]"

definition queryS3Object :: "s3_reader \<Rightarrow> string \<Rightarrow> string \<Rightarrow> int \<Rightarrow> int \<Rightarrow> error + string list \<times> int" where
  "queryS3Object s3 key alertID exclusiveStartIndex maxResults =
     (case sr_Select s3 key (select_query alertID) of
        Inl err \<Rightarrow> Inl err
      | Inr (events, streamError) \<Rightarrow>
          (case streamError of
             Some err \<Rightarrow> Inl err
           | None \<Rightarrow> Inr (record_loop exclusiveStartIndex maxResults (split_on (CHR 0x0A) (payload events)) 0 [])))"

record event_scan =
  es_result :: "string list"
  es_token :: LogTypeToken

text \<open>The keys of one page: \<open>Inl\<close> the pagination error; \<open>Inr True\<close> keeps paginating.\<close>

fun key_loop :: "s3_reader \<Rightarrow> AlertItem \<Rightarrow> int \<Rightarrow> string list \<Rightarrow> event_scan \<Rightarrow> (error + bool) \<times> event_scan" where
  "key_loop s3 alert maxResults [] es = (Inr True, es)"
| "key_loop s3 alert maxResults (key # keys) es =
     (case timeFromS3ObjectKey key of
        None \<Rightarrow> (Inl (sr_timeError s3 key), es)
      | Some objectTime \<Rightarrow>
          (if objectTime < ai_CreationTime alert \<or> objectTime > ai_UpdateTime alert then key_loop s3 alert maxResults keys es
           else case queryS3Object s3 key (ai_AlertID alert) 0 (maxResults - int (length (es_result es))) of
                  Inl err \<Rightarrow> (Inl err, es)
                | Inr (events, index) \<Rightarrow>
                    (let es' = \<lparr>es_result = es_result es @ events, es_token = \<lparr>lt_S3ObjectKey = key, lt_EventIndex = index\<rparr>\<rparr>
                     in if int (length (es_result es')) \<ge> maxResults then (Inr False, es')
                        else key_loop s3 alert maxResults keys es')))"

text \<open>The pages of a listing; the error of the listing itself is only met when its pages are used up.\<close>

fun page_loop :: "s3_reader \<Rightarrow> AlertItem \<Rightarrow> int \<Rightarrow> string list list \<Rightarrow> error option \<Rightarrow> event_scan \<Rightarrow> error option \<times> event_scan" where
  "page_loop s3 alert maxResults [] listError es = (listError, es)"
| "page_loop s3 alert maxResults (page # more_pages) listError es =
     (case key_loop s3 alert maxResults page es of
        (Inl err, es') \<Rightarrow> (Some err, es')
      | (Inr keep, es') \<Rightarrow> (if keep then page_loop s3 alert maxResults more_pages listError es' else (None, es')))"

definition ruleSuffix :: "AlertItem \<Rightarrow> string" where
  "ruleSuffix alert = ''rule_id='' @ ai_RuleID alert @ ''/''"

fun partition_loop :: "s3_reader \<Rightarrow> AlertItem \<Rightarrow> int \<Rightarrow> string option \<Rightarrow> string list \<Rightarrow> event_scan \<Rightarrow> error option \<times> event_scan" where
  "partition_loop s3 alert maxResults startAfter [] es = (None, es)"
| "partition_loop s3 alert maxResults startAfter (part # parts) es =
     (if int (length (es_result es)) \<ge> maxResults then (None, es)
      else case sr_List s3 (part @ ruleSuffix alert) startAfter of
             (pages_, listError) \<Rightarrow>
               (case page_loop s3 alert maxResults pages_ listError es of
                  (Some err, es') \<Rightarrow> (Some err, es')
                | (None, es') \<Rightarrow> partition_loop s3 alert maxResults startAfter parts es'))"

definition partition_locations :: "string \<Rightarrow> AlertItem \<Rightarrow> string list option" where
  "partition_locations logType alert =
     map_option (map (GetPartitionPrefix RuleData logType GlueTableHourly))
       (timebins GlueTableHourly (ai_CreationTime alert) (ai_UpdateTime alert))"

text \<open>The part after the token's own object; \<open>None\<close> would be a panic of \<open>Next\<close>.\<close>

definition list_partitions ::
  "s3_reader \<Rightarrow> string \<Rightarrow> LogTypeToken option \<Rightarrow> AlertItem \<Rightarrow> int \<Rightarrow> event_scan \<Rightarrow> (string list \<times> LogTypeToken) api_call" where
  "list_partitions s3 logType token alert maxResults es =
     (case partition_locations logType alert of
        None \<Rightarrow> ApiPanic
      | Some parts \<Rightarrow>
          (case partition_loop s3 alert maxResults (map_option lt_S3ObjectKey token) parts es of
             (Some err, _) \<Rightarrow> ApiErr err
           | (None, es') \<Rightarrow> ApiOk (es_result es', es_token es')))"

definition getEventsForLogType ::
  "s3_reader \<Rightarrow> string \<Rightarrow> LogTypeToken option \<Rightarrow> AlertItem \<Rightarrow> int \<Rightarrow> (string list \<times> LogTypeToken) api_call" where
  "getEventsForLogType s3 logType token alert maxResults =
     (case token of
        None \<Rightarrow> list_partitions s3 logType token alert maxResults
                  \<lparr>es_result = [], es_token = \<lparr>lt_S3ObjectKey = [], lt_EventIndex = 0\<rparr>\<rparr>
      | Some tok \<Rightarrow>
          (case queryS3Object s3 (lt_S3ObjectKey tok) (ai_AlertID alert) (lt_EventIndex tok) maxResults of
             Inl err \<Rightarrow> ApiErr err
           | Inr (events, index) \<Rightarrow>
               (let resultToken = \<lparr>lt_S3ObjectKey = lt_S3ObjectKey tok, lt_EventIndex = index\<rparr>
                in if int (length events) \<ge> maxResults then ApiOk (events, resultToken)
                   else list_partitions s3 logType token alert maxResults \<lparr>es_result = events, es_token = resultToken\<rparr>)))"

text \<open>The loop over the log types of the alert, with the map of the token and the events so far.\<close>

fun log_type_loop ::
  "s3_reader \<Rightarrow> AlertItem \<Rightarrow> int \<Rightarrow> string list \<Rightarrow> EventPaginationToken \<Rightarrow> string list \<Rightarrow> (EventPaginationToken \<times> string list) api_call" where
  "log_type_loop s3 alert pageSize [] token events = ApiOk (token, events)"
| "log_type_loop s3 alert pageSize (logType # logTypes) token events =
     (case getEventsForLogType s3 logType
             (case token of None \<Rightarrow> None | Some m \<Rightarrow> (case map_of m logType of None \<Rightarrow> None | Some p \<Rightarrow> p))
             alert (pageSize - int (length events)) of
        ApiErr err \<Rightarrow> ApiErr err
      | ApiPanic \<Rightarrow> ApiPanic
      | ApiOk (eventsReturned, resultToken) \<Rightarrow>
          (case token of
             None \<Rightarrow> ApiPanic
           | Some m \<Rightarrow>
               (let token' = Some (amap_put logType (Some resultToken) m); events' = events @ eventsReturned
                in if int (length events') \<ge> pageSize then ApiOk (token', events')
                   else log_type_loop s3 alert pageSize logTypes token' events')))"

record GetAlertInput =
  ga_AlertID :: string
  ga_EventsPageSize :: int
  ga_EventsExclusiveStartKey :: "string option"

record GetAlertOutput =
  go_Summary :: AlertSummary
  go_Events :: "string list"
  go_EventsLastEvaluatedKey :: string

definition GetAlert ::
  "'i alerts_db \<Rightarrow> s3_reader \<Rightarrow> token_codec \<Rightarrow> GetAlertInput \<Rightarrow> GetAlertOutput api_call" where
  "GetAlert db s3 codec input =
     (case table_GetAlert db (ga_AlertID input) of
        Inl err \<Rightarrow> ApiErr err
      | Inr alertItem \<Rightarrow>
          (case (case ga_EventsExclusiveStartKey input of None \<Rightarrow> Inr newPaginationToken | Some k \<Rightarrow> decodePaginationToken codec k) of
             Inl err \<Rightarrow> ApiErr err
           | Inr token \<Rightarrow>
               (case log_type_loop s3 alertItem (ga_EventsPageSize input) (ai_LogTypes alertItem) token [] of
                  ApiErr err \<Rightarrow> ApiErr err
                | ApiPanic \<Rightarrow> ApiPanic
                | ApiOk (token', events) \<Rightarrow>
                    (case token_encode codec token' of
                       Inl err \<Rightarrow> ApiErr err
                     | Inr encodedToken \<Rightarrow>
                         ApiOk \<lparr>go_Summary = alert_summary alertItem, go_Events = events, go_EventsLastEvaluatedKey = encodedToken\<rparr>))))"

end
