(* ===== verification/Alerts_Paging.thy ===== *)
theory Alerts_Paging
  imports Alerts_Api Datacatalog
begin

text \<open>
  Paging through the events of an alert. The lemmas say in which order S3 lists the partitions, what the nested loops of
  \<open>getEventsForLogType\<close> return, and where their token points; the properties follow for any sequence of page sizes.
\<close>

section \<open>The order of partition prefixes\<close>

lemma append_less: "length a = length b \<Longrightarrow> a < b \<Longrightarrow> a @ x < b @ (y :: string)"
proof (induction a arbitrary: b)
  case (Cons c a)
  then obtain d b' where "b = d # b'" by (cases b) auto
  with Cons show ?case by auto
qed simp

lemma append_same_less [simp]: "a @ x < a @ y \<longleftrightarrow> x < (y :: string)"
  by (induction a) auto

lemma append_le_less: "length a = length b \<Longrightarrow> a < b \<or> a = b \<and> x < y \<Longrightarrow> a @ x < b @ (y :: string)"
  using append_less by auto

lemma nat_of_digits_Cons: "nat_of_digits (c # s) = digit_val c * 10 ^ length s + nat_of_digits s"
proof (induction s rule: rev_induct)
  case Nil
  then show ?case by (simp add: nat_of_digits_def)
next
  case (snoc x s)
  have "nat_of_digits (c # s @ [x]) = 10 * nat_of_digits (c # s) + digit_val x"
    using nat_of_digits_snoc [of "c # s" x] by simp
  with snoc show ?case by (simp add: nat_of_digits_snoc)
qed

lemma digit_val_less: "is_digit c \<Longrightarrow> digit_val c < 10"
  unfolding is_digit_def digit_val_def by linarith

lemma nat_of_digits_less: "list_all is_digit s \<Longrightarrow> nat_of_digits s < 10 ^ length s"
proof (induction s)
  case Nil
  then show ?case by (simp add: nat_of_digits_def)
next
  case (Cons c s)
  then have "digit_val c < 10" "nat_of_digits s < 10 ^ length s" by (auto dest: digit_val_less)
  then have "digit_val c * 10 ^ length s + nat_of_digits s < (digit_val c + 1) * 10 ^ length s" by simp
  also have "\<dots> \<le> 10 * 10 ^ length s" using \<open>digit_val c < 10\<close> by (intro mult_le_mono1) simp
  finally show ?case by (simp add: nat_of_digits_Cons)
qed

text \<open>Numerals of the same length are ordered as their numbers.\<close>

lemma numeral_order:
  "length s = length t \<Longrightarrow> list_all is_digit s \<Longrightarrow> list_all is_digit t \<Longrightarrow> nat_of_digits s < nat_of_digits t \<Longrightarrow> s < t"
proof (induction s arbitrary: t)
  case (Cons c s)
  then obtain d u where t: "t = d # u" by (cases t) auto
  note prems = Cons.prems [unfolded t]
  have less: "digit_val c * 10 ^ length s + nat_of_digits s < digit_val d * 10 ^ length s + nat_of_digits u"
    using prems by (simp add: nat_of_digits_Cons)
  have bound: "nat_of_digits s < 10 ^ length s" "nat_of_digits u < 10 ^ length s"
    using nat_of_digits_less [of s] nat_of_digits_less [of u] prems by auto
  consider "digit_val c < digit_val d" | "digit_val c = digit_val d" | "digit_val d < digit_val c" by linarith
  then show ?case
  proof cases
    case 1
    then have "c < d" by (simp add: digit_val_def less_char_def)
    then show ?thesis by (simp add: t)
  next
    case 2
    have "is_digit c" "is_digit d" using prems by auto
    then have "byte c = byte d" using 2 unfolding digit_val_def is_digit_def by linarith
    then have "c = d" by simp
    with 2 less Cons.IH [of u] prems show ?thesis by (simp add: t)
  next
    case 3
    then have "(digit_val d + 1) * 10 ^ length s \<le> digit_val c * 10 ^ length s" by (intro mult_le_mono1) simp
    with less bound show ?thesis by simp
  qed
qed simp

lemma pad2_digits:
  assumes "0 \<le> n" "n < 100"
  shows "length (pad2 n) = 2" "list_all is_digit (pad2 n)" "nat_of_digits (pad2 n) = nat n"
proof -
  have "is_digit (CHR ''0'')" by (simp add: is_digit_def)
  then show "list_all is_digit (pad2 n)" using assms string_of_nat_digits [of "nat n"] by (simp add: pad2_def Itoa_def)
  show "nat_of_digits (pad2 n) = nat n"
    using assms by (simp add: pad2_def Itoa_def nat_of_digits_zero decimal_simps)
  have "nat n div 10 < 10" using assms by (simp add: less_mult_imp_div_less)
  then show "length (pad2 n) = 2"
    using assms by (auto simp: pad2_def Itoa_def string_of_nat.simps [of "nat n"] string_of_nat.simps [of "nat n div 10"])
qed

lemma year_digits:
  assumes "1000 \<le> n" "n < 10000"
  shows "length (Itoa n) = 4" "list_all is_digit (Itoa n)" "nat_of_digits (Itoa n) = nat n"
proof -
  show "list_all is_digit (Itoa n)" using assms string_of_nat_digits [of "nat n"] by (simp add: Itoa_def)
  show "nat_of_digits (Itoa n) = nat n" using assms by (simp add: Itoa_def decimal_simps)
  define k where "k = nat n"
  have k: "1000 \<le> k" "k < 10000" using assms by (auto simp: k_def)
  have "\<not> k < 10" "\<not> k div 10 < 10" "\<not> k div 10 div 10 < 10" "k div 10 div 10 div 10 < 10" using k by auto
  then have "length (string_of_nat k) = 4"
    by (simp add: string_of_nat.simps [of k] string_of_nat.simps [of "k div 10"] string_of_nat.simps [of "k div 10 div 10"]
        string_of_nat.simps [of "k div 10 div 10 div 10"] del: div_mult2_eq)
  then show "length (Itoa n) = 4" using assms by (simp add: Itoa_def k_def)
qed

lemma pad2_less: "0 \<le> n \<Longrightarrow> n < m \<Longrightarrow> m < 100 \<Longrightarrow> pad2 n < pad2 m"
  by (rule numeral_order) (simp_all add: pad2_digits)

lemma year_less: "1000 \<le> n \<Longrightarrow> n < m \<Longrightarrow> m < 10000 \<Longrightarrow> Itoa n < Itoa m"
  by (rule numeral_order) (simp_all add: year_digits)

text \<open>Later days have later dates.\<close>

lemma month_start_mono:
  assumes "1 \<le> m" "m < m'" "m' \<le> 12"
  shows "daysBefore (m - 1) + leap_day leap m + month_len leap m \<le> daysBefore (m' - 1) + leap_day leap m'"
  using assms(2,3)
proof (induction m' rule: int_gr_induct)
  case base
  then show ?case using month_end_at(5) [of m leap] assms(1) by simp
next
  case (step k)
  then have k: "1 \<le> k" "k \<le> 12" "k < 12" using assms(1) by auto
  have "daysBefore (k - 1) + leap_day leap k \<le> daysBefore (k - 1) + leap_day leap k + month_len leap k"
    using month_end_at(1) [OF k(1,2), of leap] by linarith
  also have "\<dots> = daysBefore (k + 1 - 1) + leap_day leap (k + 1)" using month_end_at(5) [OF k(1,2,3), of leap] by simp
  finally show ?case using step by linarith
qed

lemma date_order:
  assumes "t div Day_ns < u div Day_ns"
  shows "Year t < Year u \<or> Year t = Year u \<and> (Month t < Month u \<or> Month t = Month u \<and> Day t < Day u)"
proof -
  have v: "1 \<le> Month x" "Month x \<le> 12" "1 \<le> Day x" "Day x \<le> month_len (isLeap (Year x)) (Month x)" for x
    using date_of_time(2) [of x] by (auto simp: valid_date_def days_in_month_len)
  have less: "day_of (Year t) (Month t) (Day t) < day_of (Year u) (Month u) (Day u)"
    using assms date_of_time(1) [of t] date_of_time(1) [of u] by simp
  have year: "year_start (Year x) \<le> day_of (Year x) (Month x) (Day x)"
    "day_of (Year x) (Month x) (Day x) < year_start (Year x) + year_len (Year x)" for x
    using yday_bounds [OF v] by (auto simp: day_of_split year_len_def)
  have "\<not> Year u < Year t" using year_start_mono [of "Year u" "Year t"] year [of u] year [of t] less by linarith
  moreover have "\<not> Month u < Month t" if "Year t = Year u"
    using month_start_mono [of "Month u" "Month t" "isLeap (Year t)"] v [of u] v [of t] less that
    by (auto simp: day_of_split)
  moreover have "Day t < Day u" if "Year t = Year u" "Month t = Month u"
    using less that by (simp add: day_of_split)
  ultimately show ?thesis by force
qed

lemma hour_order:
  assumes "t div Hour_ns < u div Hour_ns"
  shows "t div Day_ns < u div Day_ns \<or> t div Day_ns = u div Day_ns \<and> Hour t < Hour u"
proof -
  have d: "x div Day_ns = x div Hour_ns div 24" "Hour x = x div Hour_ns mod 24" for x :: int
  proof -
    show "x div Day_ns = x div Hour_ns div 24" by (simp add: zdiv_zmult2_eq [symmetric])
    have "x mod (Hour_ns * 24) = Hour_ns * (x div Hour_ns mod 24) + x mod Hour_ns" by (rule zmod_zmult2_eq) simp
    moreover have "(Hour_ns * q + x mod Hour_ns) div Hour_ns = q" for q by (intro div_parts) simp_all
    ultimately show "Hour x = x div Hour_ns mod 24" unfolding Hour_def by simp
  qed
  define a b where "a = t div Hour_ns" and "b = u div Hour_ns"
  have "a < b" using assms by (simp add: a_def b_def)
  then have "a div 24 \<le> b div 24" by (simp add: zdiv_mono1)
  then have "a div 24 < b div 24 \<or> a div 24 = b div 24 \<and> a mod 24 < b mod 24"
    using \<open>a < b\<close> mult_div_mod_eq [of 24 a] mult_div_mod_eq [of 24 b] by linarith
  then show ?thesis by (simp add: d a_def b_def)
qed

definition four_digits :: "gotime \<Rightarrow> bool" where
  "four_digits t \<longleftrightarrow> 1000 \<le> Year t \<and> Year t < 10000"

lemma time_prefix_order:
  assumes "t div Hour_ns < u div Hour_ns" "four_digits t" "four_digits u"
  shows "getTimePartitionPrefix GlueTableHourly t @ x < getTimePartitionPrefix GlueTableHourly u @ y"
proof -
  note parts = date_parts [of t] date_parts [of u]
  have cmp: "Year t < Year u \<or> Year t = Year u \<and> (Month t < Month u \<or> Month t = Month u \<and> (Day t < Day u \<or> Day t = Day u \<and> Hour t < Hour u))"
  proof (cases "t div Day_ns < u div Day_ns")
    case True
    from date_order [OF True] show ?thesis by blast
  next
    case False
    with hour_order [OF assms(1)] have "t div Day_ns = u div Day_ns" "Hour t < Hour u" by auto
    then show ?thesis by (simp add: Year_def Month_def Day_def Date_of_def)
  qed
  have len: "length (Itoa (Year t)) = length (Itoa (Year u))" "length (pad2 (Month t)) = length (pad2 (Month u))"
    "length (pad2 (Day t)) = length (pad2 (Day u))" "length (pad2 (Hour t)) = length (pad2 (Hour u))"
    using assms(2,3) parts by (simp_all add: four_digits_def year_digits pad2_digits)
  have ord: "Year t < Year u \<Longrightarrow> Itoa (Year t) < Itoa (Year u)" "Month t < Month u \<Longrightarrow> pad2 (Month t) < pad2 (Month u)"
    "Day t < Day u \<Longrightarrow> pad2 (Day t) < pad2 (Day u)" "Hour t < Hour u \<Longrightarrow> pad2 (Hour t) < pad2 (Hour u)"
    using assms(2,3) parts by (auto simp: four_digits_def intro: year_less pad2_less)
  show ?thesis
    using cmp ord
    by (auto simp: getTimePartitionPrefix_def intro!: append_le_less [OF len(1)] append_le_less [OF len(2)]
        append_le_less [OF len(3)] append_le_less [OF len(4)])
qed

section \<open>What one object returns\<close>

lemma record_loop_taking:
  assumes "i \<le> cur"
  shows "record_loop (int i) (int m) rs (int cur) res =
    (res @ take (m - length res) (filter (\<lambda>r. r \<noteq> []) rs), int (cur + min (m - length res) (length (filter (\<lambda>r. r \<noteq> []) rs))))"
  using assms
proof (induction rs arbitrary: cur res)
  case (Cons r rs)
  show ?case
  proof (cases "r = [] \<or> m \<le> length res")
    case True
    with Cons show ?thesis by auto
  next
    case False
    then obtain k where k: "m - length res = Suc k" by (metis Suc_diff_Suc not_le)
    then have k': "m - length (res @ [r]) = k" by simp
    from False Cons.prems have "record_loop (int i) (int m) (r # rs) (int cur) res =
        record_loop (int i) (int m) rs (int (Suc cur)) (res @ [r])" by (simp add: add.commute)
    also have "\<dots> = ((res @ [r]) @ take k (filter (\<lambda>r. r \<noteq> []) rs), int (Suc cur + min k (length (filter (\<lambda>r. r \<noteq> []) rs))))"
      using Cons.IH [of "Suc cur" "res @ [r]"] Cons.prems k' by (simp del: of_nat_Suc)
    finally show ?thesis using False k by simp
  qed
qed simp

lemma record_loop_skipping:
  assumes "cur + k = i" "k \<le> length (filter (\<lambda>r. r \<noteq> []) rs)" "0 < m"
  shows "record_loop (int i) (int m) rs (int cur) [] =
    (take m (drop k (filter (\<lambda>r. r \<noteq> []) rs)), int (i + min m (length (filter (\<lambda>r. r \<noteq> []) rs) - k)))"
  using assms
proof (induction rs arbitrary: cur k)
  case (Cons r rs)
  show ?case
  proof (cases k)
    case 0
    with Cons.prems record_loop_taking [of i cur m "r # rs" "[]"] show ?thesis by simp
  next
    case (Suc j)
    show ?thesis
    proof (cases "r = []")
      case True
      with Cons show ?thesis by simp
    next
      case False
      with Suc Cons.prems have "record_loop (int i) (int m) (r # rs) (int cur) [] = record_loop (int i) (int m) rs (int (Suc cur)) []"
        by (simp add: add.commute)
      with Cons.IH [of "Suc cur" j] Suc Cons.prems False show ?thesis by (simp del: of_nat_Suc)
    qed
  qed
qed simp

text \<open>An S3 bucket with the objects of an alert: keys in order, each with the lines that match the alert. Listings and
  selections may be cut into pages and stream events in any way.\<close>

type_synonym s3_store = "(string \<times> string list) list"

definition object_held :: "s3_reader \<Rightarrow> string \<Rightarrow> string \<times> string list \<Rightarrow> bool" where
  "object_held s3 alertID obj \<longleftrightarrow>
     timeFromS3ObjectKey (fst obj) \<noteq> None \<and>
     (\<exists>evs. sr_Select s3 (fst obj) (select_query alertID) = Inr (evs, None) \<and>
        filter (\<lambda>r. r \<noteq> []) (split_on (CHR 0x0A) (payload evs)) = snd obj)"

definition listed :: "string \<Rightarrow> string option \<Rightarrow> string \<times> string list \<Rightarrow> bool" where
  "listed prefix start obj \<longleftrightarrow> HasPrefix (fst obj) prefix \<and> (case start of None \<Rightarrow> True | Some k \<Rightarrow> k < fst obj)"

definition s3_holds :: "s3_reader \<Rightarrow> string \<Rightarrow> s3_store \<Rightarrow> bool" where
  "s3_holds s3 alertID store \<longleftrightarrow>
     sorted_wrt (<) (map fst store) \<and> (\<forall>obj \<in> set store. object_held s3 alertID obj) \<and>
     (\<forall>prefix start. \<exists>ps. sr_List s3 prefix start = (ps, None) \<and> concat ps = map fst (filter (listed prefix start) store))"

lemma queryS3Object_held:
  assumes "object_held s3 alertID (key, ls)" "i \<le> length ls" "0 < m"
  shows "queryS3Object s3 key alertID (int i) (int m) = Inr (take m (drop i ls), int (i + min m (length ls - i)))"
  using assms record_loop_skipping [of 0 i i]
  by (fastforce simp: object_held_def queryS3Object_def)

section \<open>The loops as one scan\<close>

definition in_range :: "AlertItem \<Rightarrow> string \<Rightarrow> bool" where
  "in_range alert key \<longleftrightarrow>
     (case timeFromS3ObjectKey key of None \<Rightarrow> False | Some t \<Rightarrow> ai_CreationTime alert \<le> t \<and> t \<le> ai_UpdateTime alert)"

text \<open>Reading objects one after the other until \<open>m\<close> events are there; the flag says whether to go on.\<close>

fun scan :: "nat \<Rightarrow> s3_store \<Rightarrow> event_scan \<Rightarrow> bool \<times> event_scan" where
  "scan m [] es = (True, es)"
| "scan m ((key, ls) # objs) es =
     (let n = m - length (es_result es);
          es' = \<lparr>es_result = es_result es @ take n ls, es_token = \<lparr>lt_S3ObjectKey = key, lt_EventIndex = int (min n (length ls))\<rparr>\<rparr>
      in if m \<le> length (es_result es') then (False, es') else scan m objs es')"

lemma scan_append:
  "scan m (xs @ ys) es = (case scan m xs es of (True, es') \<Rightarrow> scan m ys es' | (False, es') \<Rightarrow> (False, es'))"
  by (induction m xs es rule: scan.induct) (auto simp: Let_def)

lemma scan_flag: "length (es_result es) < m \<Longrightarrow> scan m objs es = (b, es') \<Longrightarrow> b \<longleftrightarrow> length (es_result es') < m"
  by (induction m objs es rule: scan.induct) (auto simp: Let_def split: if_splits)

lemma key_loop_scan:
  assumes "\<forall>obj \<in> set objs. object_held s3 (ai_AlertID alert) obj" "length (es_result es) < m" "scan m (filter (\<lambda>obj. in_range alert (fst obj)) objs) es = (b, es')"
  shows "key_loop s3 alert (int m) (map fst objs) es = (Inr b, es')"
  using assms
proof (induction objs arbitrary: es)
  case (Cons obj objs)
  obtain key ls where obj: "obj = (key, ls)" by fastforce
  obtain t where t: "timeFromS3ObjectKey key = Some t" using Cons.prems(1) obj by (auto simp: object_held_def)
  show ?case
  proof (cases "in_range alert key")
    case False
    with Cons t obj show ?thesis by (auto simp: in_range_def)
  next
    case True
    define n where "n = m - length (es_result es)"
    have pos: "0 < n" "int m - int (length (es_result es)) = int n" using Cons.prems(2) by (auto simp: n_def)
    have "object_held s3 (ai_AlertID alert) (key, ls)" using Cons.prems(1) obj by simp
    from queryS3Object_held [OF this _ pos(1), of 0]
    have q: "queryS3Object s3 key (ai_AlertID alert) 0 (int m - int (length (es_result es))) = Inr (take n ls, int (min n (length ls)))"
      unfolding pos(2) by simp
    let ?es = "\<lparr>es_result = es_result es @ take n ls, es_token = \<lparr>lt_S3ObjectKey = key, lt_EventIndex = int (min n (length ls))\<rparr>\<rparr>"
    have sc: "scan m (filter (\<lambda>obj. in_range alert (fst obj)) (obj # objs)) es =
        (if m \<le> length (es_result ?es) then (False, ?es) else scan m (filter (\<lambda>obj. in_range alert (fst obj)) objs) ?es)"
      using True by (simp only: obj n_def filter.simps fst_conv if_True scan.simps Let_def)
    have range: "\<not> (t < ai_CreationTime alert \<or> t > ai_UpdateTime alert)" using True t by (auto simp: in_range_def)
    show ?thesis
    proof (cases "m \<le> length (es_result ?es)")
      case stop: True
      then have "int m \<le> int (length (es_result ?es))" by linarith
      with stop Cons.prems(3) sc obj t range q show ?thesis by (simp add: Let_def)
    next
      case go: False
      then have "\<not> int m \<le> int (length (es_result ?es))" by linarith
      moreover have "key_loop s3 alert (int m) (map fst objs) ?es = (Inr b, es')"
        using go Cons.prems sc by (intro Cons.IH) auto
      ultimately show ?thesis using obj t range q by (simp add: Let_def)
    qed
  qed
qed auto

lemma page_loop_scan:
  assumes "\<forall>obj \<in> set objs. object_held s3 (ai_AlertID alert) obj" "length (es_result es) < m" "concat ps = map fst objs"
  shows "page_loop s3 alert (int m) ps None es = (None, snd (scan m (filter (\<lambda>obj. in_range alert (fst obj)) objs) es))"
  using assms
proof (induction ps arbitrary: objs es)
  case (Cons p ps)
  let ?a = "take (length p) objs" and ?b = "drop (length p) objs"
  have p: "map fst ?a = p" "concat ps = map fst ?b"
    using Cons.prems(3) by (simp_all add: append_eq_conv_conj take_map drop_map)
  have held: "\<forall>obj \<in> set ?a. object_held s3 (ai_AlertID alert) obj" "\<forall>obj \<in> set ?b. object_held s3 (ai_AlertID alert) obj"
    using Cons.prems(1) by (auto dest: in_set_takeD in_set_dropD)
  obtain b es' where sc: "scan m (filter (\<lambda>obj. in_range alert (fst obj)) ?a) es = (b, es')" by fastforce
  have kl: "key_loop s3 alert (int m) p es = (Inr b, es')"
    using key_loop_scan [OF held(1) Cons.prems(2) sc] p(1) by simp
  have split: "filter (\<lambda>obj. in_range alert (fst obj)) objs =
      filter (\<lambda>obj. in_range alert (fst obj)) ?a @ filter (\<lambda>obj. in_range alert (fst obj)) ?b"
    by (metis append_take_drop_id filter_append)
  show ?case
  proof (cases b)
    case True
    then have "length (es_result es') < m" using scan_flag [OF Cons.prems(2) sc] by simp
    with Cons.IH [OF held(2) _ p(2)] True kl sc show ?thesis by (simp add: split scan_append)
  qed (use kl sc in \<open>simp add: split scan_append\<close>)
qed simp

text \<open>The objects that a listing of partitions finds, in its order.\<close>

definition found :: "AlertItem \<Rightarrow> s3_store \<Rightarrow> string option \<Rightarrow> string list \<Rightarrow> s3_store" where
  "found alert store start parts =
     concat (map (\<lambda>p. filter (\<lambda>obj. in_range alert (fst obj)) (filter (listed (p @ ruleSuffix alert) start) store)) parts)"

lemma partition_loop_scan:
  assumes "s3_holds s3 (ai_AlertID alert) store" "length (es_result es) < m"
  shows "partition_loop s3 alert (int m) start parts es = (None, snd (scan m (found alert store start parts) es))"
  using assms(2)
proof (induction parts arbitrary: es)
  case (Cons p parts)
  let ?objs = "filter (listed (p @ ruleSuffix alert) start) store"
  obtain ps where ps: "sr_List s3 (p @ ruleSuffix alert) start = (ps, None)" "concat ps = map fst ?objs"
    using assms(1) unfolding s3_holds_def by blast
  have held: "\<forall>obj \<in> set ?objs. object_held s3 (ai_AlertID alert) obj" using assms(1) by (simp add: s3_holds_def)
  obtain b es' where sc: "scan m (filter (\<lambda>obj. in_range alert (fst obj)) ?objs) es = (b, es')" by fastforce
  from page_loop_scan [OF held Cons.prems ps(2)] sc
  have pl: "page_loop s3 alert (int m) ps None es = (None, es')" by simp
  have rest: "partition_loop s3 alert (int m) start (p # parts) es = partition_loop s3 alert (int m) start parts es'"
    using Cons.prems ps(1) pl by simp
  show ?case
  proof (cases b)
    case True
    then have "length (es_result es') < m" using scan_flag [OF Cons.prems sc] by simp
    from Cons.IH [OF this] True sc rest show ?thesis by (simp add: found_def scan_append)
  next
    case False
    then have full: "int m \<le> int (length (es_result es'))" using scan_flag [OF Cons.prems sc] by simp
    have "partition_loop s3 alert (int m) start parts es' = (None, es')" by (cases parts) (use full in simp_all)
    with False sc rest show ?thesis by (simp add: found_def scan_append)
  qed
qed (simp add: found_def)

text \<open>What is left after a token: the rest of its object, and all objects behind it.\<close>

definition rest_of :: "s3_store \<Rightarrow> LogTypeToken option \<Rightarrow> string list" where
  "rest_of objs tok =
     (case tok of
        None \<Rightarrow> concat (map snd objs)
      | Some tk \<Rightarrow> drop (nat (lt_EventIndex tk)) (the (map_of objs (lt_S3ObjectKey tk))) @
          concat (map snd (filter (\<lambda>obj. lt_S3ObjectKey tk < fst obj) objs)))"

definition token_ok :: "s3_store \<Rightarrow> LogTypeToken option \<Rightarrow> bool" where
  "token_ok objs tok \<longleftrightarrow>
     (case tok of
        None \<Rightarrow> True
      | Some tk \<Rightarrow> (\<exists>ls. map_of objs (lt_S3ObjectKey tk) = Some ls \<and> 0 \<le> lt_EventIndex tk \<and> lt_EventIndex tk \<le> int (length ls)))"

text \<open>The scan returns the next events, and its token leaves exactly the others.\<close>

lemma scan_spec:
  assumes "sorted_wrt (<) (map fst objs)" "length (es_result es) < m" "scan m objs es = (b, es')" "objs \<noteq> []"
  shows "es_result es' = es_result es @ take (m - length (es_result es)) (concat (map snd objs)) \<and>
    token_ok objs (Some (es_token es')) \<and>
    rest_of objs (Some (es_token es')) = drop (m - length (es_result es)) (concat (map snd objs))"
  using assms
proof (induction objs arbitrary: es)
  case (Cons obj objs)
  obtain key ls where obj: "obj = (key, ls)" by fastforce
  define n where "n = m - length (es_result es)"
  have sorted: "sorted_wrt (<) (map fst objs)" using Cons.prems(1) by simp
  let ?es = "\<lparr>es_result = es_result es @ take n ls, es_token = \<lparr>lt_S3ObjectKey = key, lt_EventIndex = int (min n (length ls))\<rparr>\<rparr>"
  have sc: "scan m (obj # objs) es = (if m \<le> length (es_result ?es) then (False, ?es) else scan m objs ?es)"
    by (simp only: obj n_def scan.simps Let_def)
  have later: "key < k" if "k \<in> fst ` set objs" for k using Cons.prems(1) that obj by auto
  have behind: "filter (\<lambda>obj. key < fst obj) (obj # objs) = objs"
    using later obj by (auto simp: filter_id_conv image_iff)
  show ?case
  proof (cases "m \<le> length (es_result ?es)")
    case True
    then have n: "n \<le> length ls" using Cons.prems(2) by (auto simp: n_def min_def split: if_splits)
    have "es' = ?es" using sc Cons.prems(3) True by auto
    then show ?thesis using n behind obj by (simp add: token_ok_def rest_of_def n_def [symmetric] min_def)
  next
    case False
    then have n: "length ls < n" using Cons.prems(2) by (auto simp: n_def min_def split: if_splits)
    have run: "scan m objs ?es = (b, es')" using sc Cons.prems(3) False by auto
    show ?thesis
    proof (cases objs)
      case Nil
      then have "es' = ?es" using run by simp
      with n Nil obj show ?thesis by (simp add: token_ok_def rest_of_def n_def [symmetric])
    next
      case (Cons o2 os)
      have sub: "m - length (es_result ?es) = n - length ls" using n Cons.prems(2) by (simp add: n_def)
      have IH: "es_result es' = es_result ?es @ take (n - length ls) (concat (map snd objs)) \<and>
        token_ok objs (Some (es_token es')) \<and> rest_of objs (Some (es_token es')) = drop (n - length ls) (concat (map snd objs))"
        using Cons.IH [OF sorted _ run] False unfolding sub by (simp add: not_le Cons del: concat.simps list.map)
      then obtain ls' where k: "map_of objs (lt_S3ObjectKey (es_token es')) = Some ls'"
        by (auto simp: token_ok_def)
      have lt: "key < lt_S3ObjectKey (es_token es')" using later [OF image_eqI [OF _ map_of_SomeD [OF k]]] by simp
      then have "token_ok (obj # objs) (Some (es_token es'))" "rest_of (obj # objs) (Some (es_token es')) = rest_of objs (Some (es_token es'))"
        using IH obj by (auto simp: token_ok_def rest_of_def)
      with IH n obj show ?thesis by (simp add: n_def [symmetric])
    qed
  qed
qed simp

section \<open>The objects of a log type\<close>

lemma Year_mono: "t \<le> u \<Longrightarrow> Year t \<le> Year u"
proof -
  assume "t \<le> u"
  then have "t div Day_ns \<le> u div Day_ns" by (rule zdiv_mono1) simp
  then consider "t div Day_ns = u div Day_ns" | "t div Day_ns < u div Day_ns" by linarith
  then show ?thesis
  proof cases
    case 1
    then show ?thesis by (simp add: Year_def Date_of_def)
  next
    case 2
    from date_order [OF 2] show ?thesis by linarith
  qed
qed

definition alert_years :: "AlertItem \<Rightarrow> bool" where
  "alert_years alert \<longleftrightarrow> 1000 \<le> Year (ai_CreationTime alert) \<and> Year (ai_UpdateTime alert) < 10000"

lemma hourly_bins:
  assumes "timebins GlueTableHourly (ai_CreationTime alert) (ai_UpdateTime alert) = Some ts" "alert_years alert"
  shows "sorted_wrt (\<lambda>t u. t div Hour_ns < u div Hour_ns) ts" "\<forall>t \<in> set ts. four_digits t"
proof -
  have "timebin_Validate GlueTableHourly = None" by code_simp
  from timebins_spec [OF this, of "ai_CreationTime alert" "ai_UpdateTime alert"] assms(1)
  have ts: "sorted_wrt (<) ts"
    "set ts = {u. u \<le> ai_UpdateTime alert \<and> (u = ai_CreationTime alert \<or> ai_CreationTime alert < u \<and> u mod Hour_ns = 0)}"
    by (auto simp: bin_start_def)
  have "t div Hour_ns < u div Hour_ns" if "t \<in> set ts" "u \<in> set ts" "t < u" for t u
  proof -
    have "u mod Hour_ns = 0" using ts(2) that by auto
    then have "u = u div Hour_ns * Hour_ns" by (simp add: minus_mod_eq_div_mult [symmetric])
    moreover have "t div Hour_ns * Hour_ns \<le> t" by (simp add: minus_mod_eq_div_mult [symmetric])
    ultimately have "t div Hour_ns * Hour_ns < u div Hour_ns * Hour_ns" using that(3) by linarith
    then show ?thesis by simp
  qed
  with ts(1) show "sorted_wrt (\<lambda>t u. t div Hour_ns < u div Hour_ns) ts" by (auto elim: sorted_wrt_mono_rel [rotated])
  show "\<forall>t \<in> set ts. four_digits t"
  proof
    fix t assume "t \<in> set ts"
    then have "ai_CreationTime alert \<le> t" "t \<le> ai_UpdateTime alert" using ts(2) by auto
    with Year_mono [of "ai_CreationTime alert" t] Year_mono [of t "ai_UpdateTime alert"] assms(2)
    show "four_digits t" by (simp add: four_digits_def alert_years_def)
  qed
qed

lemma sorted_concat_map:
  assumes "sorted_wrt R ts" "\<forall>t \<in> set ts. sorted_wrt P (f t)" "\<And>t u x y. t \<in> set ts \<Longrightarrow> u \<in> set ts \<Longrightarrow> R t u \<Longrightarrow> x \<in> set (f t) \<Longrightarrow> y \<in> set (f u) \<Longrightarrow> P x y"
  shows "sorted_wrt P (concat (map f ts))"
  using assms
proof (induction ts)
  case (Cons t ts)
  have "sorted_wrt P (concat (map f ts))" using Cons.prems by (intro Cons.IH) auto
  moreover have "\<forall>x \<in> set (f t). \<forall>y \<in> set (concat (map f ts)). P x y"
    using Cons.prems(1) Cons.prems(3) [of t] by auto
  ultimately show ?case using Cons.prems(2) by (simp add: sorted_wrt_append)
qed simp

definition log_objects :: "AlertItem \<Rightarrow> s3_store \<Rightarrow> string \<Rightarrow> s3_store" where
  "log_objects alert store logType =
     (case partition_locations logType alert of None \<Rightarrow> [] | Some parts \<Rightarrow> found alert store None parts)"

lemma partition_locations_total: "\<exists>parts. partition_locations logType alert = Some parts"
proof -
  have "timebin_Validate GlueTableHourly = None" by code_simp
  from timebins_spec [OF this, of "ai_CreationTime alert" "ai_UpdateTime alert"] show ?thesis
    by (auto simp: partition_locations_def)
qed

lemma log_objects_sorted:
  assumes "sorted_wrt (<) (map fst store)" "alert_years alert"
  shows "sorted_wrt (<) (map fst (log_objects alert store logType))"
proof -
  obtain ts where ts: "timebins GlueTableHourly (ai_CreationTime alert) (ai_UpdateTime alert) = Some ts"
    using partition_locations_total [of logType alert] by (auto simp: partition_locations_def)
  define f where "f = (\<lambda>t. filter (\<lambda>obj. in_range alert (fst obj))
      (filter (listed (GetPartitionPrefix RuleData logType GlueTableHourly t @ ruleSuffix alert) None) store))"
  have eq: "log_objects alert store logType = concat (map f ts)"
    by (simp add: log_objects_def partition_locations_def ts found_def f_def comp_def)
  note bins = hourly_bins [OF ts assms(2)]
  have "sorted_wrt (\<lambda>x y. fst x < fst y) (concat (map f ts))"
  proof (rule sorted_concat_map [OF bins(1)])
    show "\<forall>t \<in> set ts. sorted_wrt (\<lambda>x y. fst x < fst y) (f t)"
      using assms(1) by (simp add: f_def sorted_wrt_map sorted_wrt_filter)
    fix t u x y
    assume h: "t \<in> set ts" "u \<in> set ts" "t div Hour_ns < u div Hour_ns" "x \<in> set (f t)" "y \<in> set (f u)"
    obtain v w where
      "fst x = getTablePrefix RuleData (GetTableName logType) @ getTimePartitionPrefix GlueTableHourly t @ ruleSuffix alert @ v"
      "fst y = getTablePrefix RuleData (GetTableName logType) @ getTimePartitionPrefix GlueTableHourly u @ ruleSuffix alert @ w"
      using h(4,5) by (auto simp: f_def listed_def HasPrefix_iff GetPartitionPrefix_def)
    with time_prefix_order [OF h(3)] bins(2) h(1,2) show "fst x < fst y" by simp
  qed
  then show ?thesis by (simp add: eq sorted_wrt_map)
qed

lemma found_after: "found alert store (Some k) parts = filter (\<lambda>obj. k < fst obj) (found alert store None parts)"
  by (simp add: found_def filter_concat comp_def listed_def conj_commute conj_left_commute cong: conj_cong)

lemma log_objects_held:
  "s3_holds s3 (ai_AlertID alert) store \<Longrightarrow> obj \<in> set (log_objects alert store logType) \<Longrightarrow> object_held s3 (ai_AlertID alert) obj"
  by (auto simp: log_objects_def found_def s3_holds_def split: option.splits)

section \<open>A page of a log type\<close>

lemma list_partitions_scan:
  assumes "s3_holds s3 (ai_AlertID alert) store" "length (es_result es) < m"
    "L = (case tok of None \<Rightarrow> log_objects alert store logType
          | Some tk \<Rightarrow> filter (\<lambda>obj. lt_S3ObjectKey tk < fst obj) (log_objects alert store logType))"
  shows "list_partitions s3 logType tok alert (int m) es =
    ApiOk (es_result (snd (scan m L es)), es_token (snd (scan m L es)))"
proof -
  obtain parts where parts: "partition_locations logType alert = Some parts" using partition_locations_total by blast
  have "found alert store (map_option lt_S3ObjectKey tok) parts = L"
    using assms(3) parts by (cases tok) (simp_all add: log_objects_def found_after)
  with partition_loop_scan [OF assms(1,2), of "map_option lt_S3ObjectKey tok" parts] parts
  show ?thesis by (simp add: list_partitions_def)
qed

lemma getEvents_first:
  assumes "s3_holds s3 (ai_AlertID alert) store" "alert_years alert" "0 < m"
    "log_objects alert store logType \<noteq> []"
  shows "\<exists>tok'. getEventsForLogType s3 logType None alert (int m) = ApiOk (take m (rest_of (log_objects alert store logType) None), tok') \<and>
    token_ok (log_objects alert store logType) (Some tok') \<and>
    rest_of (log_objects alert store logType) (Some tok') = drop m (rest_of (log_objects alert store logType) None)"
proof -
  let ?L = "log_objects alert store logType"
  let ?es = "\<lparr>es_result = [], es_token = \<lparr>lt_S3ObjectKey = [], lt_EventIndex = 0\<rparr>\<rparr>"
  have sorted: "sorted_wrt (<) (map fst ?L)" using log_objects_sorted assms(1,2) by (simp add: s3_holds_def)
  obtain b es' where sc: "scan m ?L ?es = (b, es')" by fastforce
  from list_partitions_scan [OF assms(1), of ?es m ?L logType None] assms(3) sc
  have "getEventsForLogType s3 logType None alert (int m) = ApiOk (es_result es', es_token es')"
    by (simp add: getEventsForLogType_def)
  with scan_spec [OF sorted _ sc assms(4)] assms(3) show ?thesis by (auto simp: rest_of_def)
qed

lemma getEvents_next:
  assumes "s3_holds s3 (ai_AlertID alert) store" "alert_years alert" "0 < m"
    "token_ok (log_objects alert store logType) (Some tok)"
  shows "\<exists>tok'. getEventsForLogType s3 logType (Some tok) alert (int m) = ApiOk (take m (rest_of (log_objects alert store logType) (Some tok)), tok') \<and>
    token_ok (log_objects alert store logType) (Some tok') \<and>
    rest_of (log_objects alert store logType) (Some tok') = drop m (rest_of (log_objects alert store logType) (Some tok))"
proof -
  let ?L = "log_objects alert store logType" and ?k = "lt_S3ObjectKey tok"
  define i where "i = nat (lt_EventIndex tok)"
  define after where "after = filter (\<lambda>obj. ?k < fst obj) ?L"
  obtain ls where ls: "map_of ?L ?k = Some ls" "lt_EventIndex tok = int i" "i \<le> length ls"
    using assms(4) by (auto simp: token_ok_def i_def)
  have held: "object_held s3 (ai_AlertID alert) (?k, ls)" using log_objects_held [OF assms(1)] map_of_SomeD [OF ls(1)] by blast
  have q: "queryS3Object s3 ?k (ai_AlertID alert) (lt_EventIndex tok) (int m) = Inr (take m (drop i ls), int (i + min m (length ls - i)))"
    using queryS3Object_held [OF held ls(3) assms(3)] ls(2) by simp
  have rest: "rest_of ?L (Some tok) = drop i ls @ concat (map snd after)"
    by (simp add: rest_of_def ls(1) i_def [symmetric] after_def)
  show ?thesis
  proof (cases "m \<le> length ls - i")
    case True
    let ?tok = "\<lparr>lt_S3ObjectKey = ?k, lt_EventIndex = int (i + m)\<rparr>"
    have "getEventsForLogType s3 logType (Some tok) alert (int m) = ApiOk (take m (drop i ls), ?tok)"
      using q True by (simp add: getEventsForLogType_def Let_def min_def)
    moreover have "token_ok ?L (Some ?tok)" using ls True by (auto simp: token_ok_def)
    moreover have "rest_of ?L (Some ?tok) = drop m (rest_of ?L (Some tok))"
      using True unfolding rest by (simp add: rest_of_def ls(1) after_def nat_add_distrib add.commute)
    ultimately show ?thesis unfolding rest using True by auto
  next
    case False
    let ?tok = "\<lparr>lt_S3ObjectKey = ?k, lt_EventIndex = int (length ls)\<rparr>" and ?es = "\<lparr>es_result = drop i ls, es_token = \<lparr>lt_S3ObjectKey = ?k, lt_EventIndex = int (length ls)\<rparr>\<rparr>"
    have idx: "int (i + min m (length ls - i)) = int (length ls)" using False ls(3) by simp
    have short: "\<not> int m \<le> int (length (drop i ls))" "length (es_result ?es) < m" "take m (drop i ls) = drop i ls" using False by auto
    obtain b es' where sc: "scan m after ?es = (b, es')" by fastforce
    have get: "getEventsForLogType s3 logType (Some tok) alert (int m) = ApiOk (es_result es', es_token es')"
      using q [unfolded idx short(3)] short list_partitions_scan [OF assms(1) short(2), of after logType "Some tok"] sc
      by (simp add: getEventsForLogType_def Let_def after_def)
    show ?thesis
    proof (cases "after = []")
      case True
      then have "es' = ?es" using sc by simp
      moreover have "rest_of ?L (Some ?tok) = concat (map snd after)" by (simp add: rest_of_def ls(1) after_def)
      moreover have "token_ok ?L (Some ?tok)" using ls(1) by (simp add: token_ok_def)
      ultimately show ?thesis using get True short(3) False unfolding rest by simp
    next
      case nonempty: False
      have sorted: "sorted_wrt (<) (map fst ?L)" using log_objects_sorted assms(1,2) by (simp add: s3_holds_def)
      then have "sorted_wrt (<) (map fst after)" by (simp add: after_def sorted_wrt_map sorted_wrt_filter)
      from scan_spec [OF this short(2) sc nonempty]
      have sp: "es_result es' = drop i ls @ take (m - length (drop i ls)) (concat (map snd after))"
        "token_ok after (Some (es_token es'))" "rest_of after (Some (es_token es')) = drop (m - length (drop i ls)) (concat (map snd after))"
        by simp_all
      have dist: "distinct (map fst ?L)" using sorted strict_sorted_iff by auto
      from sp(2) obtain ls' where k': "map_of after (lt_S3ObjectKey (es_token es')) = Some ls'" by (auto simp: token_ok_def)
      then have "(lt_S3ObjectKey (es_token es'), ls') \<in> set after" by (rule map_of_SomeD)
      then have mem: "(lt_S3ObjectKey (es_token es'), ls') \<in> set ?L" "?k < lt_S3ObjectKey (es_token es')" by (auto simp: after_def)
      have same: "map_of ?L (lt_S3ObjectKey (es_token es')) = map_of after (lt_S3ObjectKey (es_token es'))"
        using dist mem(1) k' by simp
      have behind: "filter (\<lambda>obj. lt_S3ObjectKey (es_token es') < fst obj) ?L = filter (\<lambda>obj. lt_S3ObjectKey (es_token es') < fst obj) after"
        using mem(2) by (auto simp: after_def intro!: filter_cong)
      have "token_ok ?L (Some (es_token es'))" using sp(2) same by (simp add: token_ok_def)
      moreover have "rest_of ?L (Some (es_token es')) = rest_of after (Some (es_token es'))"
        by (simp add: rest_of_def same behind)
      ultimately show ?thesis using get sp short(3) False unfolding rest by auto
    qed
  qed
qed

section \<open>A page of an alert\<close>

definition token_for :: "(string, LogTypeToken option) amap \<Rightarrow> string \<Rightarrow> LogTypeToken option" where
  "token_for m logType = (case map_of m logType of None \<Rightarrow> None | Some p \<Rightarrow> p)"

text \<open>The events that a token leaves, over the log types of the alert.\<close>

definition pending :: "AlertItem \<Rightarrow> s3_store \<Rightarrow> (string, LogTypeToken option) amap \<Rightarrow> string list \<Rightarrow> string list" where
  "pending alert store m logTypes = concat (map (\<lambda>lt. rest_of (log_objects alert store lt) (token_for m lt)) logTypes)"

definition tokens_ok :: "AlertItem \<Rightarrow> s3_store \<Rightarrow> (string, LogTypeToken option) amap \<Rightarrow> string list \<Rightarrow> bool" where
  "tokens_ok alert store m logTypes \<longleftrightarrow> (\<forall>lt \<in> set logTypes. token_ok (log_objects alert store lt) (token_for m lt))"

lemma token_for_put: "token_for (amap_put lt p m) lt' = (if lt' = lt then p else token_for m lt')"
  by (simp add: token_for_def amap_simps)

lemma getEvents_page:
  assumes "s3_holds s3 (ai_AlertID alert) store" "alert_years alert" "0 < n" "log_objects alert store lt \<noteq> []"
    "token_ok (log_objects alert store lt) tok"
  obtains tok' where "getEventsForLogType s3 lt tok alert (int n) = ApiOk (take n (rest_of (log_objects alert store lt) tok), tok')"
    "token_ok (log_objects alert store lt) (Some tok')"
    "rest_of (log_objects alert store lt) (Some tok') = drop n (rest_of (log_objects alert store lt) tok)"
proof (cases tok)
  case None
  then show thesis using getEvents_first [OF assms(1-4)] that by blast
next
  case (Some tk)
  then show thesis using getEvents_next [OF assms(1-3)] assms(5) that by blast
qed

lemma log_type_loop_page:
  assumes "s3_holds s3 (ai_AlertID alert) store" "alert_years alert" "distinct lts"
    "\<forall>lt \<in> set lts. log_objects alert store lt \<noteq> []" "tokens_ok alert store m lts" "length evs < n"
  shows "\<exists>m'. log_type_loop s3 alert (int n) lts (Some m) evs =
      ApiOk (Some m', evs @ take (n - length evs) (pending alert store m lts)) \<and>
    tokens_ok alert store m' lts \<and> pending alert store m' lts = drop (n - length evs) (pending alert store m lts) \<and>
    (\<forall>lt. lt \<notin> set lts \<longrightarrow> token_for m' lt = token_for m lt)"
  using assms(3-6)
proof (induction lts arbitrary: m evs)
  case (Cons lt lts)
  let ?L = "log_objects alert store lt" and ?r = "rest_of (log_objects alert store lt) (token_for m lt)"
  define k where "k = n - length evs"
  have k: "0 < k" "int n - int (length evs) = int k" using Cons.prems(4) by (auto simp: k_def)
  obtain tok' where tok': "getEventsForLogType s3 lt (token_for m lt) alert (int k) = ApiOk (take k ?r, tok')"
    "token_ok ?L (Some tok')" "rest_of ?L (Some tok') = drop k ?r"
    using getEvents_page [OF assms(1,2) k(1), of lt "token_for m lt"] Cons.prems by (auto simp: tokens_ok_def)
  let ?m = "amap_put lt (Some tok') m" and ?evs = "evs @ take k ?r"
  have ok: "tokens_ok alert store ?m (lt # lts)" using Cons.prems(3) tok'(2) by (simp add: tokens_ok_def token_for_put)
  have others: "pending alert store ?m lts = pending alert store m lts"
    using Cons.prems(1) by (auto simp: pending_def token_for_put intro!: arg_cong [of _ _ concat])
  have unfold: "log_type_loop s3 alert (int n) (lt # lts) (Some m) evs =
      (if int n \<le> int (length ?evs) then ApiOk (Some ?m, ?evs) else log_type_loop s3 alert (int n) lts (Some ?m) ?evs)"
    using tok'(1) k(2) by (simp add: token_for_def Let_def)
  show ?case
  proof (cases "k \<le> length ?r")
    case True
    then have "int n \<le> int (length ?evs)" using k_def by simp
    with unfold ok True tok'(3) others k_def show ?thesis
      by (intro exI [of _ ?m]) (simp add: pending_def token_for_put)
  next
    case False
    then have short: "\<not> int n \<le> int (length ?evs)" "length ?evs < n" "take k ?r = ?r" using k_def k by auto
    have left: "n - length ?evs = k - length ?r" using False k_def by simp
    have ok_rest: "tokens_ok alert store ?m lts" using ok by (simp add: tokens_ok_def)
    from Cons.IH [OF _ _ ok_rest short(2)] Cons.prems others left obtain m' where m':
      "log_type_loop s3 alert (int n) lts (Some ?m) ?evs = ApiOk (Some m', ?evs @ take (k - length ?r) (pending alert store m lts))"
      "tokens_ok alert store m' lts" "pending alert store m' lts = drop (k - length ?r) (pending alert store m lts)"
      "\<forall>lt. lt \<notin> set lts \<longrightarrow> token_for m' lt = token_for ?m lt" by auto
    have "token_for m' lt = Some tok'" using m'(4) Cons.prems(1) by (simp add: token_for_put)
    then have "pending alert store m' (lt # lts) = drop k (pending alert store m (lt # lts))"
      using m'(3) tok'(3) False by (simp add: pending_def)
    moreover have "?evs @ take (k - length ?r) (pending alert store m lts) = evs @ take k (pending alert store m (lt # lts))"
      using False by (simp add: pending_def)
    moreover have "\<forall>lt'. lt' \<notin> set (lt # lts) \<longrightarrow> token_for m' lt' = token_for m lt'" using m'(4) by (simp add: token_for_put)
    moreover have "log_type_loop s3 alert (int n) (lt # lts) (Some m) evs =
        ApiOk (Some m', ?evs @ take (k - length ?r) (pending alert store m lts))"
      unfolding unfold using short(1) m'(1) by (simp only: if_False)
    moreover have "tokens_ok alert store m' (lt # lts)" using m'(2) tok'(2) \<open>token_for m' lt = Some tok'\<close> by (simp add: tokens_ok_def)
    ultimately show ?thesis unfolding k_def [symmetric] by (intro exI [of _ m']) (simp only: simp_thms)
  qed
qed (simp add: pending_def tokens_ok_def)

text \<open>The same when the map also has a token for a log type that the loop does not visit.\<close>

lemma log_type_loop_foreign:
  assumes "s3_holds s3 (ai_AlertID alert) store" "alert_years alert" "distinct lts" "\<forall>lt \<in> set lts. log_objects alert store lt \<noteq> []"
    "lt0 \<notin> set lts" "0 < n"
  shows "\<exists>m'. log_type_loop s3 alert (int n) lts (Some [(lt0, Some tok0)]) [] = ApiOk (Some m', take n (pending alert store [] lts)) \<and>
    token_for m' lt0 = Some tok0"
proof -
  let ?m = "[(lt0, Some tok0)]"
  have same: "token_for ?m lt = None" if "lt \<in> set lts" for lt using that assms(5) by (auto simp: token_for_def)
  then have "tokens_ok alert store ?m lts" by (simp add: tokens_ok_def token_ok_def)
  moreover have "pending alert store ?m lts = pending alert store [] lts"
    using same by (auto simp: pending_def token_for_def intro!: arg_cong [of _ _ concat])
  ultimately show ?thesis
    using log_type_loop_page [OF assms(1-4), of ?m "[]" n] assms(5,6) by (auto simp: token_for_def)
qed

section \<open>Properties\<close>

text \<open>A client that asks for pages of the given sizes, each time with the key of the page before.\<close>

fun fetch_pages ::
  "'i alerts_db \<Rightarrow> s3_reader \<Rightarrow> token_codec \<Rightarrow> string \<Rightarrow> nat list \<Rightarrow> string option \<Rightarrow> string list list api_call" where
  "fetch_pages db s3 codec alertID [] start = ApiOk []"
| "fetch_pages db s3 codec alertID (n # ns) start =
     (case GetAlert db s3 codec \<lparr>ga_AlertID = alertID, ga_EventsPageSize = int n, ga_EventsExclusiveStartKey = start\<rparr> of
        ApiErr err \<Rightarrow> ApiErr err
      | ApiPanic \<Rightarrow> ApiPanic
      | ApiOk out \<Rightarrow>
          (case fetch_pages db s3 codec alertID ns (Some (go_EventsLastEvaluatedKey out)) of
             ApiOk ps \<Rightarrow> ApiOk (go_Events out # ps)
           | ApiErr err \<Rightarrow> ApiErr err
           | ApiPanic \<Rightarrow> ApiPanic))"

text \<open>JSON of a token reads back as the token.\<close>

definition codec_ok :: "token_codec \<Rightarrow> bool" where
  "codec_ok codec \<longleftrightarrow> (\<forall>t. \<exists>js. jsoniter_Marshal codec t = Inr js \<and> jsoniter_Unmarshal codec js = Inr t)"

lemma token_round_trip:
  assumes "codec_ok codec"
  obtains key where "token_encode codec t = Inr key" "decodePaginationToken codec key = Inr t"
proof -
  from assms obtain js where "jsoniter_Marshal codec t = Inr js" "jsoniter_Unmarshal codec js = Inr t"
    unfolding codec_ok_def by blast
  then show thesis
    using that [of "EncodeToString js"] by (simp add: token_encode_def decodePaginationToken_def base64_round_trip)
qed

definition start_token :: "token_codec \<Rightarrow> string option \<Rightarrow> error + EventPaginationToken" where
  "start_token codec start = (case start of None \<Rightarrow> Inr newPaginationToken | Some k \<Rightarrow> decodePaginationToken codec k)"

lemma fetch_pages_pending:
  assumes "table_GetAlert db alertID = Inr alert" "s3_holds s3 (ai_AlertID alert) store" "alert_years alert" "codec_ok codec"
    "distinct (ai_LogTypes alert)" "\<forall>lt \<in> set (ai_LogTypes alert). log_objects alert store lt \<noteq> []" "list_all (\<lambda>n. 0 < n) ns"
    "start_token codec start = Inr (Some m)" "tokens_ok alert store m (ai_LogTypes alert)"
  shows "\<exists>ps. fetch_pages db s3 codec alertID ns start = ApiOk ps \<and> list_all2 (\<lambda>p n. length p \<le> n) ps ns \<and>
    concat ps = take (sum_list ns) (pending alert store m (ai_LogTypes alert))"
  using assms(7-9)
proof (induction ns arbitrary: start m)
  case (Cons n ns)
  from log_type_loop_page [OF assms(2,3,5,6) Cons.prems(3), of "[]" n] Cons.prems(1)
  obtain m' where m': "log_type_loop s3 alert (int n) (ai_LogTypes alert) (Some m) [] =
      ApiOk (Some m', take n (pending alert store m (ai_LogTypes alert)))"
    "tokens_ok alert store m' (ai_LogTypes alert)" "pending alert store m' (ai_LogTypes alert) = drop n (pending alert store m (ai_LogTypes alert))" by auto
  obtain key where key: "token_encode codec (Some m') = Inr key" "decodePaginationToken codec key = Inr (Some m')"
    using token_round_trip [OF assms(4)] by blast
  have st: "start_token codec (Some key) = Inr (Some m')" by (simp add: start_token_def key(2))
  have get: "GetAlert db s3 codec \<lparr>ga_AlertID = alertID, ga_EventsPageSize = int n, ga_EventsExclusiveStartKey = start\<rparr> =
      ApiOk \<lparr>go_Summary = alert_summary alert, go_Events = take n (pending alert store m (ai_LogTypes alert)), go_EventsLastEvaluatedKey = key\<rparr>"
    using assms(1) Cons.prems(2) m'(1) key(1) by (simp add: GetAlert_def start_token_def)
  from Cons.IH [OF _ st m'(2)] Cons.prems(1) obtain ps where ps: "fetch_pages db s3 codec alertID ns (Some key) = ApiOk ps"
    "list_all2 (\<lambda>p n. length p \<le> n) ps ns" "concat ps = take (sum_list ns) (pending alert store m' (ai_LogTypes alert))" by auto
  with get m'(3) show ?case by (auto simp: take_add min_def)
qed (simp add: pending_def)

text \<open>C10. Paging through the events of an alert whose log types are distinct and each have an object in the hours of the alert, for hours in the
  years 1000 to 9999 and page sizes of at least one. Whatever these page sizes are, and however S3 cuts its listings and selections into pages, the
  pages do not fail and, put together, are the first events of the alert: the lines that match it in the objects of its hours, log type
  by log type in the order of the keys, none missing and none twice. (Without an object for a log type the next page fails, see below.)\<close>

theorem alert_pages_complete:
  assumes "table_GetAlert db alertID = Inr alert" "s3_holds s3 (ai_AlertID alert) store" "alert_years alert" "codec_ok codec"
    "distinct (ai_LogTypes alert)" "\<forall>lt \<in> set (ai_LogTypes alert). log_objects alert store lt \<noteq> []" "list_all (\<lambda>n. 0 < n) ns"
  shows "\<exists>ps. fetch_pages db s3 codec alertID ns None = ApiOk ps \<and> list_all2 (\<lambda>p n. length p \<le> n) ps ns \<and>
    concat ps = take (sum_list ns) (concat (map (\<lambda>lt. concat (map snd (log_objects alert store lt))) (ai_LogTypes alert)))"
proof -
  have st: "start_token codec None = Inr (Some [])" by (simp add: start_token_def newPaginationToken_def)
  have ok: "tokens_ok alert store [] (ai_LogTypes alert)" by (simp add: tokens_ok_def token_for_def token_ok_def)
  have "pending alert store [] (ai_LogTypes alert) =
      concat (map (\<lambda>lt. concat (map snd (log_objects alert store lt))) (ai_LogTypes alert))"
    by (simp add: pending_def token_for_def rest_of_def)
  with fetch_pages_pending [OF assms st ok] show ?thesis by auto
qed

text \<open>A bucket that answers with its whole content, and a codec for tokens: lengths in decimal in front of every text.\<close>

definition store_reader :: "s3_store \<Rightarrow> s3_reader" where
  "store_reader store =
     \<lparr>sr_Select = (\<lambda>key _. case map_of store key of
        None \<Rightarrow> Inl ''NoSuchKey''
      | Some ls \<Rightarrow> Inr ([RecordsEvent (concat (map (\<lambda>l. l @ [CHR 0x0A]) ls)), StatsEvent], None)),
      sr_List = (\<lambda>prefix start. ([map fst (filter (listed prefix start) store)], None)), sr_timeError = (\<lambda>_. ''bad time'')\<rparr>"

lemma split_lines:
  "list_all (\<lambda>l. l \<noteq> [] \<and> CHR 0x0A \<notin> set l) ls \<Longrightarrow>
   filter (\<lambda>r. r \<noteq> []) (split_on (CHR 0x0A) (concat (map (\<lambda>l. l @ [CHR 0x0A]) ls))) = ls"
  by (induction ls) (simp_all add: split_on_append)

lemma store_reader_holds:
  assumes "sorted_wrt (<) (map fst store)"
    "list_all (\<lambda>(k, ls). timeFromS3ObjectKey k \<noteq> None \<and> list_all (\<lambda>l. l \<noteq> [] \<and> CHR 0x0A \<notin> set l) ls) store"
  shows "s3_holds (store_reader store) alertID store"
proof -
  have "distinct (map fst store)" using assms(1) strict_sorted_iff by auto
  then have "map_of store k = Some ls" if "(k, ls) \<in> set store" for k ls using that by simp
  with assms show ?thesis
    by (auto simp: s3_holds_def object_held_def store_reader_def list_all_iff split_lines [unfolded list_all_iff])
qed

definition enc_nat :: "nat \<Rightarrow> string" where "enc_nat n = string_of_nat n @ '':''"
definition dec_nat :: "string \<Rightarrow> nat \<times> string" where
  "dec_nat s = (let ds = takeWhile is_digit s in (nat_of_digits ds, drop (Suc (length ds)) s))"

definition enc_text :: "string \<Rightarrow> string" where "enc_text s = enc_nat (length s) @ s"
definition dec_text :: "string \<Rightarrow> string \<times> string" where
  "dec_text s = (let (n, r) = dec_nat s in (take n r, drop n r))"

definition enc_token :: "LogTypeToken option \<Rightarrow> string" where
  "enc_token p = (case p of None \<Rightarrow> ''n''
     | Some tk \<Rightarrow> (if lt_EventIndex tk < 0 then ''-'' else ''+'') @ enc_nat (nat \<bar>lt_EventIndex tk\<bar>) @ enc_text (lt_S3ObjectKey tk))"
definition dec_token :: "string \<Rightarrow> LogTypeToken option \<times> string" where
  "dec_token s = (if hd s = CHR ''n'' then (None, tl s)
     else let (n, r) = dec_nat (tl s); (k, r') = dec_text r
          in (Some \<lparr>lt_S3ObjectKey = k, lt_EventIndex = (if hd s = CHR ''-'' then - int n else int n)\<rparr>, r'))"

fun dec_entries :: "nat \<Rightarrow> string \<Rightarrow> (string, LogTypeToken option) amap" where
  "dec_entries 0 s = []"
| "dec_entries (Suc n) s = (let (k, r) = dec_text s; (p, r') = dec_token r in (k, p) # dec_entries n r')"

definition text_codec :: token_codec where
  "text_codec =
     \<lparr>jsoniter_Marshal = (\<lambda>t. Inr (case t of None \<Rightarrow> []
        | Some m \<Rightarrow> enc_nat (length m) @ concat (map (\<lambda>(k, p). enc_text k @ enc_token p) m))),
      jsoniter_Unmarshal = (\<lambda>s. Inr (if s = [] then None else let (n, r) = dec_nat s in Some (dec_entries n r))),
      base64_error = (\<lambda>_. ''illegal base64 data'')\<rparr>"

lemma dec_enc_nat: "dec_nat (enc_nat n @ r) = (n, r)"
proof -
  have "takeWhile is_digit (string_of_nat n @ CHR '':'' # r) = string_of_nat n"
    using string_of_nat_digits [of n] by (simp add: takeWhile_append2 list_all_iff)
  then show ?thesis by (simp add: dec_nat_def enc_nat_def Let_def decimal_simps)
qed

lemma dec_enc_text: "dec_text (enc_text s @ r) = (s, r)"
  by (simp add: dec_text_def enc_text_def dec_enc_nat)

lemma dec_enc_token: "dec_token (enc_token p @ r) = (p, r)"
  by (cases p) (simp_all add: dec_token_def enc_token_def dec_enc_nat dec_enc_text Let_def)

lemma dec_enc_entries: "dec_entries (length m) (concat (map (\<lambda>(k, p). enc_text k @ enc_token p) m) @ r) = m"
  by (induction m) (auto simp: dec_enc_text dec_enc_token)

lemma text_codec_ok: "codec_ok text_codec"
proof -
  have "enc_nat n \<noteq> []" for n by (simp add: enc_nat_def)
  then show ?thesis
    using dec_enc_entries [of _ "[]"] by (auto simp: codec_ok_def text_codec_def dec_enc_nat split: option.splits)
qed

definition example_alert :: AlertItem where
  "example_alert = \<lparr>ai_AlertID = ''a1'', ai_RuleID = ''R'', ai_RuleVersion = ''v'', ai_RuleDisplayName = None, ai_Title = None,
     ai_DedupString = ''d'', ai_CreationTime = time_Date 2020 2 29 13 + 600 * Second, ai_UpdateTime = time_Date 2020 2 29 14 + 1200 * Second,
     ai_Severity = ''LOW'', ai_EventCount = 3, ai_LogTypes = [''AWS.ALB'']\<rparr>"

definition example_store :: s3_store where
  "example_store =
     [(''rules/aws_alb/year=2020/month=02/day=29/hour=13/rule_id=R/20200229T131500Z-u.json.gz'', [''e1'', ''e2'']),
      (''rules/aws_alb/year=2020/month=02/day=29/hour=14/rule_id=R/20200229T141000Z-u.json.gz'', [''e3''])]"

definition example_db :: "AlertItem alerts_db" where
  "example_db = \<lparr>db_GetItem = (\<lambda>_ _. Inr example_alert), db_UnmarshalMap = Inr, db_Query = (\<lambda>_. Inr ([], example_alert)),
     db_emptyKey = (\<lambda>_. True), db_MarshalKey = (\<lambda>_. Inr []), db_UnmarshalKey = (\<lambda>_. Inr example_alert),
     db_RuleIndex = ''r'', db_TimeIndex = ''t''\<rparr>"

lemma example_reader: "s3_holds (store_reader example_store) (ai_AlertID example_alert) example_store"
proof (rule store_reader_holds)
  show "sorted_wrt (<) (map fst example_store)" by code_simp
  show "list_all (\<lambda>(k, ls). timeFromS3ObjectKey k \<noteq> None \<and> list_all (\<lambda>l. l \<noteq> [] \<and> CHR 0x0A \<notin> set l) ls) example_store" by code_simp
qed

theorem alert_pages_complete_witness:
  "\<exists>ps. fetch_pages example_db (store_reader example_store) text_codec ''a1'' [2, 2] None = ApiOk ps \<and> concat ps = [''e1'', ''e2'', ''e3'']"
proof -
  have alert: "table_GetAlert example_db ''a1'' = Inr example_alert" by (simp add: table_GetAlert_def example_db_def)
  have years: "alert_years example_alert" by code_simp
  have objs: "log_objects example_alert example_store ''AWS.ALB'' = example_store" by code_simp
  have types: "ai_LogTypes example_alert = [''AWS.ALB'']" by (simp add: example_alert_def)
  have "example_store \<noteq> []" "concat (map snd example_store) = [''e1'', ''e2'', ''e3'']" by (simp_all add: example_store_def)
  with alert_pages_complete [OF alert example_reader years text_codec_ok, of "[2, 2]"] types objs show ?thesis by auto
qed

text \<open>
  A log type without objects breaks the second page. The first page hands out a token with an empty object key for it,
  and the next call asks S3 for the object with that empty key, which S3 refuses; the events behind the first page
  cannot be read.
\<close>

theorem empty_log_type_fails:
  assumes "table_GetAlert db alertID = Inr alert" "s3_holds s3 (ai_AlertID alert) store" "alert_years alert" "codec_ok codec"
    "ai_LogTypes alert = lt # lts" "distinct (lt # lts)" "log_objects alert store lt = []"
    "\<forall>lt \<in> set lts. log_objects alert store lt \<noteq> []" "0 < n" "0 < n'"
    "sr_Select s3 [] (select_query (ai_AlertID alert)) = Inl err"
  shows "fetch_pages db s3 codec alertID [n, n'] None = ApiErr err"
proof -
  let ?tok = "\<lparr>lt_S3ObjectKey = [], lt_EventIndex = 0\<rparr>"
  have first: "getEventsForLogType s3 lt None alert (int n) = ApiOk ([], ?tok)"
    using list_partitions_scan [OF assms(2), of "\<lparr>es_result = [], es_token = ?tok\<rparr>" n "[]" lt None] assms(7,9)
    by (simp add: getEventsForLogType_def)
  have rest: "\<exists>m'. log_type_loop s3 alert (int n) lts (Some [(lt, Some ?tok)]) [] =
      ApiOk (Some m', take n (pending alert store [] lts)) \<and> token_for m' lt = Some ?tok"
    by (rule log_type_loop_foreign [OF assms(2,3) _ assms(8)]) (use assms(6,9) in auto)
  then obtain m' where m': "log_type_loop s3 alert (int n) lts (Some [(lt, Some ?tok)]) [] =
      ApiOk (Some m', take n (pending alert store [] lts))" "token_for m' lt = Some ?tok" by blast
  obtain key where key: "token_encode codec (Some m') = Inr key" "decodePaginationToken codec key = Inr (Some m')"
    using token_round_trip [OF assms(4)] by blast
  have page1: "GetAlert db s3 codec \<lparr>ga_AlertID = alertID, ga_EventsPageSize = int n, ga_EventsExclusiveStartKey = None\<rparr> =
      ApiOk \<lparr>go_Summary = alert_summary alert, go_Events = take n (pending alert store [] lts), go_EventsLastEvaluatedKey = key\<rparr>"
    using assms(1,5,9) first m'(1) key(1) by (simp add: GetAlert_def newPaginationToken_def Let_def)
  have "getEventsForLogType s3 lt (Some ?tok) alert (int n') = ApiErr err"
    using assms(11) by (simp add: getEventsForLogType_def queryS3Object_def)
  then have "log_type_loop s3 alert (int n') (lt # lts) (Some m') [] = ApiErr err"
    using m'(2) by (simp add: token_for_def)
  then have "GetAlert db s3 codec \<lparr>ga_AlertID = alertID, ga_EventsPageSize = int n', ga_EventsExclusiveStartKey = Some key\<rparr> = ApiErr err"
    using assms(1,5) key(2) by (simp add: GetAlert_def)
  with page1 show ?thesis by simp
qed

theorem empty_log_type_fails_witness:
  "fetch_pages example_db (store_reader []) text_codec ''a1'' [2, 2] None = ApiErr ''NoSuchKey''"
proof -
  have alert: "table_GetAlert example_db ''a1'' = Inr example_alert" by (simp add: table_GetAlert_def example_db_def)
  have years: "alert_years example_alert" by code_simp
  have holds: "s3_holds (store_reader []) (ai_AlertID example_alert) []" by (rule store_reader_holds) simp_all
  have objs: "log_objects example_alert [] ''AWS.ALB'' = []" by code_simp
  have types: "ai_LogTypes example_alert = [''AWS.ALB'']" by (simp add: example_alert_def)
  show ?thesis
    by (rule empty_log_type_fails [OF alert holds years text_codec_ok types _ objs]) (simp_all add: store_reader_def)
qed

end
