(* ===== verification/Compliance_Model.thy ===== *)
theory Compliance_Model
  imports Awsbatch_Dynamo "HOL-Library.List_Lexorder" "HOL-Library.Char_ord"
    "HOL-Library.Product_Lexorder"
begin

text \<open>
  \<open>compliance_api/handlers\<close>, the part that computes: counting statuses and ordering policies and
  resources (\<open>util.go\<close>), reading the pages of a query or scan (\<open>dynamo.go\<close>), the page of items of a
  policy or resource with its totals (\<open>paging.go\<close>), the lists of an organisation (\<open>describe_org.go\<close>) and
  its overview (\<open>get_org_overview.go\<close>).

  Statuses and severities are strings, as in the source: the code has a default branch for any other
  text. A query or scan is what DynamoDB delivers: its pages and the error that ends it, if any; the
  decoding of a page is a parameter. \<open>None\<close> in a result is a panic.
\<close>

abbreviation StatusERROR :: string where "StatusERROR \<equiv> ''ERROR''"
abbreviation StatusFAIL :: string where "StatusFAIL \<equiv> ''FAIL''"
abbreviation StatusPASS :: string where "StatusPASS \<equiv> ''PASS''"

record ComplianceStatus =
  cs_ErrorMessage :: string
  cs_ExpiresAt :: int
  cs_IntegrationID :: string
  cs_LastUpdated :: int
  cs_PolicyID :: string
  cs_PolicySeverity :: string
  cs_ResourceID :: string
  cs_ResourceType :: string
  cs_Status :: string
  cs_Suppressed :: bool

record StatusCount =
  sc_Error :: int
  sc_Fail :: int
  sc_Pass :: int

record StatusCountBySeverity =
  by_Info :: StatusCount
  by_Low :: StatusCount
  by_Medium :: StatusCount
  by_High :: StatusCount
  by_Critical :: StatusCount

record PolicySummary =
  ps_Count :: StatusCount
  ps_ID :: string
  ps_Severity :: string

record ResourceSummary =
  rs_Count :: StatusCountBySeverity
  rs_ID :: string
  rs_Type :: string

section \<open>util.go\<close>

definition severityPriority :: "string \<Rightarrow> int" where
  "severityPriority s =
     (if s = ''LOW'' then 1 else if s = ''MEDIUM'' then 2 else if s = ''HIGH'' then 3
      else if s = ''CRITICAL'' then 4 else 0)"

definition NewStatusCount :: StatusCount where
  "NewStatusCount = \<lparr>sc_Error = 0, sc_Fail = 0, sc_Pass = 0\<rparr>"

definition updateStatusCount :: "StatusCount \<Rightarrow> string \<Rightarrow> StatusCount" where
  "updateStatusCount cnt status =
     (if status = StatusPASS then cnt\<lparr>sc_Pass := sc_Pass cnt + 1\<rparr>
      else if status = StatusFAIL then cnt\<lparr>sc_Fail := sc_Fail cnt + 1\<rparr>
      else cnt\<lparr>sc_Error := sc_Error cnt + 1\<rparr>)"

definition countToStatus :: "StatusCount \<Rightarrow> string" where
  "countToStatus cnt =
     (if sc_Error cnt > 0 then StatusERROR else if sc_Fail cnt > 0 then StatusFAIL else StatusPASS)"

definition NewStatusCountBySeverity :: StatusCountBySeverity where
  "NewStatusCountBySeverity = \<lparr>by_Info = NewStatusCount, by_Low = NewStatusCount, by_Medium = NewStatusCount,
     by_High = NewStatusCount, by_Critical = NewStatusCount\<rparr>"

definition updateStatusCountBySeverity :: "StatusCountBySeverity \<Rightarrow> string \<Rightarrow> string \<Rightarrow> StatusCountBySeverity" where
  "updateStatusCountBySeverity cnt severity status =
     (if severity = ''INFO'' then cnt\<lparr>by_Info := updateStatusCount (by_Info cnt) status\<rparr>
      else if severity = ''LOW'' then cnt\<lparr>by_Low := updateStatusCount (by_Low cnt) status\<rparr>
      else if severity = ''MEDIUM'' then cnt\<lparr>by_Medium := updateStatusCount (by_Medium cnt) status\<rparr>
      else if severity = ''HIGH'' then cnt\<lparr>by_High := updateStatusCount (by_High cnt) status\<rparr>
      else cnt\<lparr>by_Critical := updateStatusCount (by_Critical cnt) status\<rparr>)"

definition countBySeverityToStatus :: "StatusCountBySeverity \<Rightarrow> string" where
  "countBySeverityToStatus cnt =
     (if sc_Error (by_Low cnt) > 0 \<or> sc_Error (by_Info cnt) > 0 \<or> sc_Error (by_Medium cnt) > 0 \<or>
         sc_Error (by_High cnt) > 0 \<or> sc_Error (by_Critical cnt) > 0 then StatusERROR
      else if sc_Fail (by_Low cnt) > 0 \<or> sc_Fail (by_Info cnt) > 0 \<or> sc_Fail (by_Medium cnt) > 0 \<or>
         sc_Fail (by_High cnt) > 0 \<or> sc_Fail (by_Critical cnt) > 0 then StatusFAIL
      else StatusPASS)"

definition failures :: "StatusCount \<Rightarrow> int" where
  "failures cnt = sc_Error cnt + sc_Fail cnt"

definition policy_less :: "PolicySummary \<Rightarrow> PolicySummary \<Rightarrow> bool" where
  "policy_less left right =
     (let leftFailures = failures (ps_Count left); rightFailures = failures (ps_Count right)
      in if leftFailures = 0 \<and> rightFailures = 0 then ps_ID left < ps_ID right
         else if leftFailures = 0 \<and> rightFailures > 0 then False
         else if leftFailures > 0 \<and> rightFailures = 0 then True
         else if ps_Severity left \<noteq> ps_Severity right
         then severityPriority (ps_Severity left) > severityPriority (ps_Severity right)
         else if leftFailures \<noteq> rightFailures then leftFailures > rightFailures
         else ps_ID left < ps_ID right)"

definition resource_less :: "ResourceSummary \<Rightarrow> ResourceSummary \<Rightarrow> bool" where
  "resource_less left right =
     (let l = rs_Count left; r = rs_Count right
      in if failures (by_Critical l) \<noteq> failures (by_Critical r)
         then failures (by_Critical l) > failures (by_Critical r)
         else if failures (by_High l) \<noteq> failures (by_High r) then failures (by_High l) > failures (by_High r)
         else if failures (by_Medium l) \<noteq> failures (by_Medium r) then failures (by_Medium l) > failures (by_Medium r)
         else if failures (by_Low l) \<noteq> failures (by_Low r) then failures (by_Low l) > failures (by_Low r)
         else if failures (by_Info l) \<noteq> failures (by_Info r) then failures (by_Info l) > failures (by_Info r)
         else rs_ID left < rs_ID right)"

text \<open>\<open>sort.Slice\<close> does not promise an algorithm; this one inserts the elements one after the other.
  The comparators are shown to leave it no choice.\<close>

fun insert_by :: "('a \<Rightarrow> 'a \<Rightarrow> bool) \<Rightarrow> 'a \<Rightarrow> 'a list \<Rightarrow> 'a list" where
  "insert_by lt x [] = [x]"
| "insert_by lt x (y # ys) = (if lt y x then y # insert_by lt x ys else x # y # ys)"

definition sort_Slice :: "('a \<Rightarrow> 'a \<Rightarrow> bool) \<Rightarrow> 'a list \<Rightarrow> 'a list" where
  "sort_Slice lt xs = foldr (insert_by lt) xs []"

definition sortPoliciesByTopFailing :: "PolicySummary list \<Rightarrow> PolicySummary list" where
  "sortPoliciesByTopFailing policies = sort_Slice policy_less policies"

definition sortResourcesByTopFailing :: "ResourceSummary list \<Rightarrow> ResourceSummary list" where
  "sortResourcesByTopFailing resources = sort_Slice resource_less resources"

section \<open>dynamo.go\<close>

record 'i pages_result =
  pr_pages :: "'i list list"
  pr_error :: "error option"

type_synonym 'i unmarshal = "'i list \<Rightarrow> error + ComplianceStatus list"
text \<open>The errors of a handler: \<open>path.ErrBadPattern\<close>, which one handler tests for, and any other.\<close>

datatype page_error = ErrBadPattern | OtherError error

type_synonym 's item_handler = "ComplianceStatus \<Rightarrow> 's \<Rightarrow> page_error option \<times> 's"

fun handle_entries :: "'s item_handler \<Rightarrow> ComplianceStatus list \<Rightarrow> 's \<Rightarrow> page_error option \<times> 's" where
  "handle_entries handler [] s = (None, s)"
| "handle_entries handler (entry # rest) s =
     (case handler entry s of
        (Some err, s') \<Rightarrow> (Some err, s')
      | (None, s') \<Rightarrow> handle_entries handler rest s')"

definition handleItems :: "'i unmarshal \<Rightarrow> 's item_handler \<Rightarrow> 'i list \<Rightarrow> 's \<Rightarrow> page_error option \<times> 's" where
  "handleItems unmarshal handler items s =
     (case unmarshal items of
        Inl err \<Rightarrow> (Some (OtherError err), s)
      | Inr statusPage \<Rightarrow> handle_entries handler statusPage s)"

text \<open>\<open>QueryPages\<close> and \<open>ScanPages\<close> of the client hand over one page after the other until the callback
  stops them.\<close>

fun pages_loop :: "'i unmarshal \<Rightarrow> 's item_handler \<Rightarrow> 'i list list \<Rightarrow> 's \<Rightarrow> page_error option \<times> 's" where
  "pages_loop unmarshal handler [] s = (None, s)"
| "pages_loop unmarshal handler (page # rest) s =
     (case handleItems unmarshal handler page s of
        (Some innerErr, s') \<Rightarrow> (Some innerErr, s')
      | (None, s') \<Rightarrow> pages_loop unmarshal handler rest s')"

definition queryPages :: "'i unmarshal \<Rightarrow> 's item_handler \<Rightarrow> 'i pages_result \<Rightarrow> 's \<Rightarrow> page_error option \<times> 's" where
  "queryPages unmarshal handler answer s =
     (case pages_loop unmarshal handler (pr_pages answer) s of
        (Some innerErr, s') \<Rightarrow> (Some innerErr, s')
      | (None, s') \<Rightarrow> (map_option OtherError (pr_error answer), s'))"

definition scanPages :: "'i unmarshal \<Rightarrow> 's item_handler \<Rightarrow> 'i pages_result \<Rightarrow> 's \<Rightarrow> page_error option \<times> 's" where
  "scanPages unmarshal handler answer s =
     (case pages_loop unmarshal handler (pr_pages answer) s of
        (Some innerErr, s') \<Rightarrow> (Some innerErr, s')
      | (None, s') \<Rightarrow> (map_option OtherError (pr_error answer), s'))"

type_synonym policyMap = "(string, PolicySummary) amap"
type_synonym resourceMap = "(string, ResourceSummary) amap"

definition update_policy :: "ComplianceStatus \<Rightarrow> policyMap \<Rightarrow> policyMap" where
  "update_policy item policies =
     (let policy = (case map_of policies (cs_PolicyID item) of
            Some p \<Rightarrow> p
          | None \<Rightarrow> \<lparr>ps_Count = NewStatusCount, ps_ID = cs_PolicyID item, ps_Severity = cs_PolicySeverity item\<rparr>)
      in amap_put (cs_PolicyID item) (policy\<lparr>ps_Count := updateStatusCount (ps_Count policy) (cs_Status item)\<rparr>) policies)"

definition update_resource :: "ComplianceStatus \<Rightarrow> resourceMap \<Rightarrow> resourceMap" where
  "update_resource item resources =
     (let resource = (case map_of resources (cs_ResourceID item) of
            Some r \<Rightarrow> r
          | None \<Rightarrow> \<lparr>rs_Count = NewStatusCountBySeverity, rs_ID = cs_ResourceID item, rs_Type = cs_ResourceType item\<rparr>)
      in amap_put (cs_ResourceID item) (resource\<lparr>rs_Count :=
           updateStatusCountBySeverity (rs_Count resource) (cs_PolicySeverity item) (cs_Status item)\<rparr>) resources)"

definition scanGroupByID :: "'i unmarshal \<Rightarrow> 'i pages_result \<Rightarrow> bool \<Rightarrow> bool
    \<Rightarrow> (policyMap \<times> resourceMap) \<times> page_error option" where
  "scanGroupByID unmarshal answer includePolicies includeResources =
     (case scanPages unmarshal (\<lambda>item (policies, resources).
          (None, (if includePolicies then update_policy item policies else policies,
                  if includeResources then update_resource item resources else resources)))
        answer ([], []) of (err, maps) \<Rightarrow> (maps, err))"

section \<open>paging.go\<close>

record pageParams =
  Page :: int
  PageSize :: int
  ParamStatus :: string
  ParamSuppressed :: "bool option"

record PolicyResourceDetail =
  pd_Items :: "ComplianceStatus list"
  pd_TotalItems :: int
  pd_TotalPages :: int
  pd_ThisPage :: int
  pd_Status :: string
  pd_Active :: StatusCount
  pd_Suppressed :: StatusCount

definition itemMatchesFilter :: "ComplianceStatus \<Rightarrow> pageParams \<Rightarrow> string \<Rightarrow> bool" where
  "itemMatchesFilter item params severity =
     (if ParamSuppressed params \<noteq> None \<and> the (ParamSuppressed params) \<noteq> cs_Suppressed item then False
      else if ParamStatus params \<noteq> [] \<and> ParamStatus params \<noteq> cs_Status item then False
      else if severity \<noteq> [] \<and> severity \<noteq> cs_PolicySeverity item then False
      else True)"

definition add_totals :: "ComplianceStatus \<Rightarrow> PolicyResourceDetail \<Rightarrow> PolicyResourceDetail" where
  "add_totals item result =
     (if cs_Status item = StatusERROR
      then (if cs_Suppressed item
            then result\<lparr>pd_Suppressed := (pd_Suppressed result)\<lparr>sc_Error := sc_Error (pd_Suppressed result) + 1\<rparr>\<rparr>
            else result\<lparr>pd_Status := StatusERROR,
                        pd_Active := (pd_Active result)\<lparr>sc_Error := sc_Error (pd_Active result) + 1\<rparr>\<rparr>)
      else if cs_Status item = StatusFAIL
      then (if cs_Suppressed item
            then result\<lparr>pd_Suppressed := (pd_Suppressed result)\<lparr>sc_Fail := sc_Fail (pd_Suppressed result) + 1\<rparr>\<rparr>
            else result\<lparr>pd_Status := (if pd_Status result \<noteq> StatusERROR then StatusFAIL else pd_Status result),
                        pd_Active := (pd_Active result)\<lparr>sc_Fail := sc_Fail (pd_Active result) + 1\<rparr>\<rparr>)
      else (if cs_Suppressed item
            then result\<lparr>pd_Suppressed := (pd_Suppressed result)\<lparr>sc_Pass := sc_Pass (pd_Suppressed result) + 1\<rparr>\<rparr>
            else result\<lparr>pd_Active := (pd_Active result)\<lparr>sc_Pass := sc_Pass (pd_Active result) + 1\<rparr>\<rparr>))"

definition addItemToResult :: "pageParams \<Rightarrow> string \<Rightarrow> ComplianceStatus \<Rightarrow> PolicyResourceDetail \<Rightarrow> PolicyResourceDetail" where
  "addItemToResult params severity item result =
     (let r1 = add_totals item result
      in if \<not> itemMatchesFilter item params severity then r1
         else (let r2 = r1\<lparr>pd_TotalItems := pd_TotalItems r1 + 1\<rparr>;
                   firstItem = wrap64 (wrap64 ((Page params - 1) * PageSize params) + 1)
               in if pd_TotalItems r2 \<ge> firstItem \<and> int (length (pd_Items r2)) < PageSize params
                  then r2\<lparr>pd_Items := pd_Items r2 @ [item]\<rparr> else r2))"

text \<open>\<open>make\<close> panics for a negative capacity and for one whose pointers, eight bytes each, exceed the address space of \<open>2 ^ 48\<close>
  bytes (\<open>maxAlloc\<close> of the runtime on amd64); the division panics for a page size of zero. Below that limit, running out of memory is not modelled.\<close>

definition make_panics :: "int \<Rightarrow> bool" where
  "make_panics cap \<longleftrightarrow> cap < 0 \<or> 2 ^ 48 < 8 * cap"

definition policyResourceDetail :: "'i unmarshal \<Rightarrow> 'i pages_result \<Rightarrow> pageParams \<Rightarrow> string
    \<Rightarrow> (page_error + PolicyResourceDetail) option" where
  "policyResourceDetail unmarshal answer params severity =
     (if make_panics (PageSize params) then None
      else (case queryPages unmarshal (\<lambda>item r. (None, addItemToResult params severity item r)) answer
                   \<lparr>pd_Items = [], pd_TotalItems = 0, pd_TotalPages = 0, pd_ThisPage = 0, pd_Status = StatusPASS,
                    pd_Active = NewStatusCount, pd_Suppressed = NewStatusCount\<rparr> of
              (Some err, _) \<Rightarrow> Some (Inl err)
            | (None, r) \<Rightarrow>
                (if PageSize params = 0 then None
                 else (let pages = pd_TotalItems r div PageSize params;
                           remainder = pd_TotalItems r mod PageSize params
                       in Some (Inr (r\<lparr>pd_TotalPages := (if remainder > 0 then pages + 1 else pages),
                            pd_ThisPage := (if pd_TotalItems r = 0 then 0 else Page params)\<rparr>))))))"

section \<open>describe_org.go and get_org_overview.go\<close>

definition listPolicies :: "'i unmarshal \<Rightarrow> 'i pages_result \<Rightarrow> page_error + (string \<times> string) list" where
  "listPolicies unmarshal answer =
     (case scanGroupByID unmarshal answer True False of
        (_, Some err) \<Rightarrow> Inl err
      | ((policies, _), None) \<Rightarrow>
          Inr (map (\<lambda>p. (ps_ID p, countToStatus (ps_Count p))) (sortPoliciesByTopFailing (map snd policies))))"

definition listResources :: "'i unmarshal \<Rightarrow> 'i pages_result \<Rightarrow> page_error + (string \<times> string) list" where
  "listResources unmarshal answer =
     (case scanGroupByID unmarshal answer False True of
        (_, Some err) \<Rightarrow> Inl err
      | ((_, resources), None) \<Rightarrow>
          Inr (map (\<lambda>r. (rs_ID r, countBySeverityToStatus (rs_Count r))) (sortResourcesByTopFailing (map snd resources))))"

record OrgSummary =
  os_AppliedPolicies :: StatusCountBySeverity
  os_ScannedResources :: "(string, StatusCount) amap"
  os_TopFailingPolicies :: "PolicySummary list"
  os_TopFailingResources :: "ResourceSummary list"

text \<open>\<open>xs[:limit]\<close> when the list is longer than the limit: a negative limit panics.\<close>

definition truncate_top :: "int \<Rightarrow> 'a list \<Rightarrow> 'a list option" where
  "truncate_top limit xs =
     (if int (length xs) > limit then (if limit < 0 then None else Some (take (nat limit) xs)) else Some xs)"

definition count_policies :: "PolicySummary list \<Rightarrow> StatusCountBySeverity \<times> PolicySummary list" where
  "count_policies policies =
     foldl (\<lambda>(appliedPolicies, failedPolicies) policy.
        (let status = countToStatus (ps_Count policy)
         in (updateStatusCountBySeverity appliedPolicies (ps_Severity policy) status,
             if status \<noteq> StatusPASS then failedPolicies @ [policy] else failedPolicies)))
       (NewStatusCountBySeverity, []) policies"

definition count_resources :: "ResourceSummary list \<Rightarrow> (string, StatusCount) amap \<times> ResourceSummary list" where
  "count_resources resources =
     foldl (\<lambda>(resourcesByType, failedResources) resource.
        (let cnt = (case map_of resourcesByType (rs_Type resource) of None \<Rightarrow> NewStatusCount | Some c \<Rightarrow> c);
             status = countBySeverityToStatus (rs_Count resource)
         in (amap_put (rs_Type resource) (updateStatusCount cnt status) resourcesByType,
             if status \<noteq> StatusPASS then failedResources @ [resource] else failedResources)))
       ([], []) resources"

definition buildOverview :: "policyMap \<Rightarrow> resourceMap \<Rightarrow> int \<Rightarrow> OrgSummary option" where
  "buildOverview policies resources limitTopFailing =
     (let (appliedPolicies, failedPolicies) = count_policies (map snd policies);
          (resourcesByType, failedResources) = count_resources (map snd resources)
      in case truncate_top limitTopFailing (sortPoliciesByTopFailing failedPolicies) of
           None \<Rightarrow> None
         | Some topPolicies \<Rightarrow>
             (case truncate_top limitTopFailing (sortResourcesByTopFailing failedResources) of
                None \<Rightarrow> None
              | Some topResources \<Rightarrow>
                  Some \<lparr>os_AppliedPolicies = appliedPolicies, os_ScannedResources = resourcesByType,
                        os_TopFailingPolicies = topPolicies, os_TopFailingResources = topResources\<rparr>))"

section \<open>Comparators\<close>

text \<open>A comparator that orders by a key. Then \<open>sort.Slice\<close> has no choice on elements with different keys:
  every arrangement it may leave is the one of the model.\<close>

lemma filter_eq_singleton: "k \<in> set zs \<Longrightarrow> distinct zs \<Longrightarrow> filter (\<lambda>x. x = k) zs = [k]"
  by (induction zs) (auto simp: filter_empty_conv)

locale keyed_comparator =
  fixes lt :: "'a \<Rightarrow> 'a \<Rightarrow> bool" and carrier :: "'a \<Rightarrow> bool" and key :: "'a \<Rightarrow> 'k::linorder"
  assumes lt_key: "carrier a \<Longrightarrow> carrier b \<Longrightarrow> lt a b \<longleftrightarrow> key a < key b"
begin

lemma insert_by_insort:
  "carrier x \<Longrightarrow> \<forall>y \<in> set ys. carrier y \<Longrightarrow> insert_by lt x ys = insort_key key x ys"
  by (induction ys) (auto simp: lt_key not_less)

lemma sort_Slice_sort_key: "\<forall>x \<in> set xs. carrier x \<Longrightarrow> sort_Slice lt xs = sort_key key xs"
proof (induction xs)
  case (Cons x xs)
  then have "\<forall>y \<in> set (sort_key key xs). carrier y" by simp
  with Cons insert_by_insort [of x "sort_key key xs"] show ?case by (simp add: sort_Slice_def)
qed (simp add: sort_Slice_def)

lemma sort_Slice_perm: "\<forall>x \<in> set xs. carrier x \<Longrightarrow> mset (sort_Slice lt xs) = mset xs"
  by (simp add: sort_Slice_sort_key)

lemma sort_Slice_sorted:
  "\<forall>x \<in> set xs. carrier x \<Longrightarrow> sorted_wrt (\<lambda>a b. \<not> lt b a) (sort_Slice lt xs)"
proof -
  assume ok: "\<forall>x \<in> set xs. carrier x"
  have "sorted_wrt (\<lambda>a b. key a \<le> key b) (sort_key key xs)"
    using sorted_sort_key [of key xs] by (simp add: sorted_map)
  then show ?thesis
    unfolding sort_Slice_sort_key [OF ok]
    by (rule sorted_wrt_mono_rel [rotated]) (use ok in \<open>auto simp: lt_key not_less\<close>)
qed

lemma sort_Slice_unique:
  assumes "\<forall>x \<in> set xs. carrier x" "distinct (map key xs)" "mset ys = mset xs" "sorted_wrt (\<lambda>a b. \<not> lt b a) ys"
  shows "ys = sort_Slice lt xs"
proof -
  have set: "set ys = set xs" using assms(3) by (metis set_mset_mset)
  have inj: "inj_on key (set xs)" using assms(2) by (simp add: distinct_map)
  have dist: "distinct xs" "distinct ys"
    using assms(2,3) by (auto simp: distinct_map intro: mset_eq_imp_distinct_iff [THEN iffD2])
  have one: "filter (\<lambda>x. key k = key x) zs = [k]" if "k \<in> set zs" "set zs = set xs" "distinct zs" for k zs
  proof -
    have "filter (\<lambda>x. key k = key x) zs = filter (\<lambda>x. x = k) zs"
      using that inj by (auto simp: inj_on_def intro: filter_cong)
    then show ?thesis using that by (simp add: filter_eq_singleton)
  qed
  have "sorted_wrt (\<lambda>a b. key a \<le> key b) ys"
    using assms(4) by (rule sorted_wrt_mono_rel [rotated]) (use assms(1) set in \<open>auto simp: lt_key not_less\<close>)
  then have "sort_key key xs = ys"
    using set dist by (intro properties_for_sort_key) (simp_all add: assms(3) one sorted_map)
  then show ?thesis by (simp add: sort_Slice_sort_key [OF assms(1)])
qed

end

definition known_severities :: "string list" where
  "known_severities = [''INFO'', ''LOW'', ''MEDIUM'', ''HIGH'', ''CRITICAL'']"

definition policy_ok :: "PolicySummary \<Rightarrow> bool" where
  "policy_ok p \<longleftrightarrow> ps_Severity p \<in> set known_severities \<and> 0 \<le> failures (ps_Count p)"

text \<open>Failing policies first, by severity and number of failures; passing ones by id.\<close>

definition policy_key :: "PolicySummary \<Rightarrow> int \<times> int \<times> int \<times> string" where
  "policy_key p = (if failures (ps_Count p) = 0 then (1, 0, 0, ps_ID p)
     else (0, - severityPriority (ps_Severity p), - failures (ps_Count p), ps_ID p))"

definition resource_key :: "ResourceSummary \<Rightarrow> int \<times> int \<times> int \<times> int \<times> int \<times> string" where
  "resource_key r = (let c = rs_Count r in (- failures (by_Critical c), - failures (by_High c),
     - failures (by_Medium c), - failures (by_Low c), - failures (by_Info c), rs_ID r))"

lemma severityPriority_inj:
  "a \<in> set known_severities \<Longrightarrow> b \<in> set known_severities \<Longrightarrow> severityPriority a = severityPriority b \<longleftrightarrow> a = b"
  by (auto simp: known_severities_def severityPriority_def)

interpretation policies: keyed_comparator policy_less policy_ok policy_key
proof
  fix a b assume ok: "policy_ok a" "policy_ok b"
  then have "severityPriority (ps_Severity a) = severityPriority (ps_Severity b) \<longleftrightarrow> ps_Severity a = ps_Severity b"
    by (simp add: policy_ok_def severityPriority_inj)
  with ok show "policy_less a b \<longleftrightarrow> policy_key a < policy_key b"
    by (auto simp: policy_less_def policy_key_def policy_ok_def Let_def less_prod_def')
qed

interpretation resources: keyed_comparator resource_less "\<lambda>_. True" resource_key
  by unfold_locales (auto simp: resource_less_def resource_key_def Let_def less_prod_def')

section \<open>Reading pages\<close>

text \<open>All items of an answer, if every page can be decoded.\<close>

fun decode_all :: "'i unmarshal \<Rightarrow> 'i list list \<Rightarrow> ComplianceStatus list option" where
  "decode_all unmarshal [] = Some []"
| "decode_all unmarshal (page # rest) =
     (case unmarshal page of
        Inl _ \<Rightarrow> None
      | Inr items \<Rightarrow> map_option (\<lambda>more_items. items @ more_items) (decode_all unmarshal rest))"

lemma handle_entries_total:
  "\<forall>item \<in> set items. \<forall>s. h item s = (None, f item s) \<Longrightarrow>
   handle_entries h items s = (None, foldl (\<lambda>s item. f item s) s items)"
  by (induction items arbitrary: s) simp_all

lemma pages_loop_total:
  "decode_all unmarshal pgs = Some items \<Longrightarrow> \<forall>item \<in> set items. \<forall>s. h item s = (None, f item s) \<Longrightarrow>
   pages_loop unmarshal h pgs s = (None, foldl (\<lambda>s item. f item s) s items)"
proof (induction pgs arbitrary: s items)
  case (Cons page pgs)
  then obtain first rest where "unmarshal page = Inr first" "decode_all unmarshal pgs = Some rest" "items = first @ rest"
    by (auto split: sum.splits)
  moreover from this Cons.prems(2) have "handle_entries h first s = (None, foldl (\<lambda>s item. f item s) s first)"
    by (intro handle_entries_total) simp
  ultimately show ?case using Cons.IH [of rest] Cons.prems(2) by (simp add: handleItems_def)
qed simp

lemma queryPages_total:
  assumes "decode_all unmarshal (pr_pages answer) = Some items" "pr_error answer = None"
    and "\<forall>item \<in> set items. \<forall>s. h item s = (None, f item s)"
  shows "queryPages unmarshal h answer s = (None, foldl (\<lambda>s item. f item s) s items)"
    and "scanPages unmarshal h answer s = (None, foldl (\<lambda>s item. f item s) s items)"
  using assms pages_loop_total [OF assms(1,3)] by (simp_all add: queryPages_def scanPages_def)

lemma queryPages_pure:
  assumes "decode_all unmarshal (pr_pages answer) = Some items" "pr_error answer = None"
  shows "queryPages unmarshal (\<lambda>item s. (None, f item s)) answer s = (None, foldl (\<lambda>s item. f item s) s items)"
    and "scanPages unmarshal (\<lambda>item s. (None, f item s)) answer s = (None, foldl (\<lambda>s item. f item s) s items)"
  using assms by (simp_all add: queryPages_total)

section \<open>Counting\<close>

definition tally :: "string list \<Rightarrow> StatusCount" where
  "tally statuses = \<lparr>
     sc_Error = int (length (filter (\<lambda>st. st \<noteq> StatusPASS \<and> st \<noteq> StatusFAIL) statuses)),
     sc_Fail = int (length (filter (\<lambda>st. st = StatusFAIL) statuses)),
     sc_Pass = int (length (filter (\<lambda>st. st = StatusPASS) statuses))\<rparr>"

lemma tally_simps [simp]:
  "tally [] = NewStatusCount" "updateStatusCount (tally xs) x = tally (xs @ [x])"
  "updateStatusCount NewStatusCount x = tally [x]"
  by (auto simp: tally_def NewStatusCount_def updateStatusCount_def)

text \<open>The severity class that a policy counts for: an unknown severity counts as critical.\<close>

definition severity_class :: "string \<Rightarrow> string" where
  "severity_class s = (if s \<in> {''INFO'', ''LOW'', ''MEDIUM'', ''HIGH''} then s else ''CRITICAL'')"

definition tally_class :: "string \<Rightarrow> (string \<times> string) list \<Rightarrow> StatusCount" where
  "tally_class c xs = tally (map snd (filter (\<lambda>(sev, _). severity_class sev = c) xs))"

definition tally_by_severity :: "(string \<times> string) list \<Rightarrow> StatusCountBySeverity" where
  "tally_by_severity xs = \<lparr>by_Info = tally_class ''INFO'' xs, by_Low = tally_class ''LOW'' xs,
     by_Medium = tally_class ''MEDIUM'' xs, by_High = tally_class ''HIGH'' xs,
     by_Critical = tally_class ''CRITICAL'' xs\<rparr>"

lemma tally_by_severity_simps [simp]:
  "tally_by_severity [] = NewStatusCountBySeverity"
  "updateStatusCountBySeverity (tally_by_severity xs) sev st = tally_by_severity (xs @ [(sev, st)])"
  "updateStatusCountBySeverity NewStatusCountBySeverity sev st = tally_by_severity [(sev, st)]"
proof -
  have nil: "tally_class c [] = NewStatusCount" for c by (simp add: tally_class_def)
  have snoc: "tally_class c (ys @ [(sev', st)]) =
      (if severity_class sev' = c then updateStatusCount (tally_class c ys) st else tally_class c ys)" for c ys sev'
    by (simp add: tally_class_def)
  show empty: "tally_by_severity [] = NewStatusCountBySeverity"
    by (simp add: tally_by_severity_def NewStatusCountBySeverity_def nil)
  consider "sev = ''INFO''" | "sev = ''LOW''" | "sev = ''MEDIUM''" | "sev = ''HIGH''" | "sev \<notin> {''INFO'', ''LOW'', ''MEDIUM'', ''HIGH''}"
    by blast
  then have step: "updateStatusCountBySeverity (tally_by_severity ys) sev st = tally_by_severity (ys @ [(sev, st)])" for ys
    by cases (simp_all add: tally_by_severity_def updateStatusCountBySeverity_def snoc severity_class_def)
  from step [of xs] show "updateStatusCountBySeverity (tally_by_severity xs) sev st = tally_by_severity (xs @ [(sev, st)])" .
  from step [of "[]"] show "updateStatusCountBySeverity NewStatusCountBySeverity sev st = tally_by_severity [(sev, st)]"
    by (simp add: empty)
qed

definition worst_status :: "string list \<Rightarrow> string" where
  "worst_status statuses =
     (if \<exists>st \<in> set statuses. st \<noteq> StatusPASS \<and> st \<noteq> StatusFAIL then StatusERROR
      else if StatusFAIL \<in> set statuses then StatusFAIL else StatusPASS)"

lemma countToStatus_tally: "countToStatus (tally xs) = worst_status xs"
proof -
  have "0 < length (filter (\<lambda>st. st \<noteq> StatusPASS \<and> st \<noteq> StatusFAIL) xs) \<longleftrightarrow>
      (\<exists>st \<in> set xs. st \<noteq> StatusPASS \<and> st \<noteq> StatusFAIL)"
    "0 < length (filter (\<lambda>st. st = StatusFAIL) xs) \<longleftrightarrow> StatusFAIL \<in> set xs"
    unfolding length_greater_0_conv filter_empty_conv by blast+
  then show ?thesis unfolding countToStatus_def tally_def worst_status_def by simp
qed

section \<open>Grouping\<close>

definition group_policies :: "ComplianceStatus list \<Rightarrow> policyMap" where
  "group_policies items = foldl (\<lambda>m item. update_policy item m) [] items"

definition group_resources :: "ComplianceStatus list \<Rightarrow> resourceMap" where
  "group_resources items = foldl (\<lambda>m item. update_resource item m) [] items"

lemma group_policies_lookup:
  "distinct (map fst (group_policies items)) \<and>
   map_of (group_policies items) pid =
     (case filter (\<lambda>i. cs_PolicyID i = pid) items of
        [] \<Rightarrow> None
      | i # is \<Rightarrow> Some \<lparr>ps_Count = tally (map cs_Status (i # is)), ps_ID = pid, ps_Severity = cs_PolicySeverity i\<rparr>)"
proof (induction items arbitrary: pid rule: rev_induct)
  case Nil
  then show ?case by (simp add: group_policies_def)
next
  case (snoc x items)
  have step: "group_policies (items @ [x]) = update_policy x (group_policies items)"
    by (simp add: group_policies_def)
  show ?case
    using snoc.IH [of pid] snoc.IH [of "cs_PolicyID x"]
    by (auto simp: step update_policy_def Let_def amap_simps map_of_amap_put distinct_amap_put
        split: list.splits)
qed

lemma group_resources_lookup:
  "distinct (map fst (group_resources items)) \<and>
   map_of (group_resources items) rid =
     (case filter (\<lambda>i. cs_ResourceID i = rid) items of
        [] \<Rightarrow> None
      | i # is \<Rightarrow> Some \<lparr>rs_Count = tally_by_severity (map (\<lambda>i. (cs_PolicySeverity i, cs_Status i)) (i # is)),
          rs_ID = rid, rs_Type = cs_ResourceType i\<rparr>)"
proof (induction items arbitrary: rid rule: rev_induct)
  case Nil
  then show ?case by (simp add: group_resources_def)
next
  case (snoc x items)
  have step: "group_resources (items @ [x]) = update_resource x (group_resources items)"
    by (simp add: group_resources_def)
  show ?case
    using snoc.IH [of rid] snoc.IH [of "cs_ResourceID x"]
    by (auto simp: step update_resource_def Let_def amap_simps map_of_amap_put distinct_amap_put
        split: list.splits)
qed

lemma scanGroupByID_groups:
  assumes "decode_all unmarshal (pr_pages answer) = Some items" "pr_error answer = None"
  shows "scanGroupByID unmarshal answer ip ir =
    ((if ip then group_policies items else [], if ir then group_resources items else []), None)"
proof -
  have "foldl (\<lambda>s item. case s of (policies, resources) \<Rightarrow> (if ip then update_policy item policies else policies,
        if ir then update_resource item resources else resources)) (ps, rs) items =
      (if ip then foldl (\<lambda>m item. update_policy item m) ps items else ps,
       if ir then foldl (\<lambda>m item. update_resource item m) rs items else rs)" for ps rs
    by (induction items arbitrary: ps rs) simp_all
  then show ?thesis
    using queryPages_pure(2) [OF assms, of "\<lambda>item (policies, resources). (if ip then update_policy item policies else policies,
        if ir then update_resource item resources else resources)" "([], [])"]
    by (simp add: scanGroupByID_def group_policies_def group_resources_def case_prod_beta')
qed

section \<open>The page of a policy or resource\<close>

definition page_items :: "pageParams \<Rightarrow> string \<Rightarrow> ComplianceStatus list \<Rightarrow> ComplianceStatus list" where
  "page_items params severity items = filter (\<lambda>item. itemMatchesFilter item params severity) items"

definition detail_tally :: "string list \<Rightarrow> StatusCount" where
  "detail_tally statuses = \<lparr>
     sc_Error = int (length (filter (\<lambda>st. st = StatusERROR) statuses)),
     sc_Fail = int (length (filter (\<lambda>st. st = StatusFAIL) statuses)),
     sc_Pass = int (length (filter (\<lambda>st. st \<noteq> StatusERROR \<and> st \<noteq> StatusFAIL) statuses))\<rparr>"

definition detail_status :: "string list \<Rightarrow> string" where
  "detail_status statuses = (if StatusERROR \<in> set statuses then StatusERROR
     else if StatusFAIL \<in> set statuses then StatusFAIL else StatusPASS)"

definition active_statuses :: "ComplianceStatus list \<Rightarrow> string list" where
  "active_statuses items = map cs_Status (filter (\<lambda>i. \<not> cs_Suppressed i) items)"

definition suppressed_statuses :: "ComplianceStatus list \<Rightarrow> string list" where
  "suppressed_statuses items = map cs_Status (filter cs_Suppressed items)"

lemma add_totals_spec:
  assumes "pd_Active r = detail_tally (active_statuses xs)" "pd_Suppressed r = detail_tally (suppressed_statuses xs)"
    and "pd_Status r = detail_status (active_statuses xs)"
  shows "add_totals x r = r\<lparr>pd_Active := detail_tally (active_statuses (xs @ [x])),
    pd_Suppressed := detail_tally (suppressed_statuses (xs @ [x])), pd_Status := detail_status (active_statuses (xs @ [x]))\<rparr>"
  using assms
  by (auto simp: add_totals_def detail_tally_def detail_status_def active_statuses_def suppressed_statuses_def)

lemma take_drop_snoc:
  "take n (drop k (xs @ [x])) =
    (if k \<le> length xs \<and> length (take n (drop k xs)) < n then take n (drop k xs) @ [x] else take n (drop k xs))"
  by (auto simp: min_def)

lemma addItems_spec:
  assumes "1 \<le> Page params" "0 \<le> PageSize params" "in_int64 ((Page params - 1) * PageSize params + 1)"
  shows "foldl (\<lambda>r item. addItemToResult params severity item r)
      \<lparr>pd_Items = [], pd_TotalItems = 0, pd_TotalPages = 0, pd_ThisPage = 0, pd_Status = StatusPASS,
       pd_Active = NewStatusCount, pd_Suppressed = NewStatusCount\<rparr> items =
    \<lparr>pd_Items = take (nat (PageSize params)) (drop (nat ((Page params - 1) * PageSize params)) (page_items params severity items)),
     pd_TotalItems = int (length (page_items params severity items)), pd_TotalPages = 0, pd_ThisPage = 0,
     pd_Status = detail_status (active_statuses items), pd_Active = detail_tally (active_statuses items),
     pd_Suppressed = detail_tally (suppressed_statuses items)\<rparr>"
proof (induction items rule: rev_induct)
  case Nil
  then show ?case
    by (simp add: page_items_def detail_status_def detail_tally_def active_statuses_def suppressed_statuses_def
        NewStatusCount_def)
next
  case (snoc x items)
  let ?k = "(Page params - 1) * PageSize params"
  have k0: "0 \<le> ?k" using assms(1,2) by simp
  then have first: "wrap64 (wrap64 ?k + 1) = ?k + 1"
    using assms(3) by (simp add: wrap64_id in_int64_def)
  show ?case
  proof (cases "itemMatchesFilter x params severity")
    case False
    then show ?thesis
      unfolding foldl_append foldl.simps snoc.IH
      by (simp add: addItemToResult_def add_totals_spec page_items_def Let_def)
  next
    case True
    let ?F = "page_items params severity items"
    have F: "page_items params severity (items @ [x]) = ?F @ [x]" using True by (simp add: page_items_def)
    have ge: "?k \<le> int (length ?F) \<longleftrightarrow> nat ?k \<le> length ?F" using k0 by auto
    have lt: "int (length xs) < PageSize params \<longleftrightarrow> length xs < nat (PageSize params)" for xs :: "ComplianceStatus list"
      by auto
    show ?thesis
      using True unfolding foldl_append foldl.simps snoc.IH
      by (simp add: addItemToResult_def add_totals_spec F Let_def first ge lt take_drop_snoc
          del: take_append drop_append length_take length_drop)
  qed
qed

section \<open>Properties\<close>

definition sample_item :: "string \<Rightarrow> string \<Rightarrow> string \<Rightarrow> string \<Rightarrow> bool \<Rightarrow> ComplianceStatus" where
  "sample_item policy resource severity status suppressed = \<lparr>cs_ErrorMessage = [], cs_ExpiresAt = 0,
     cs_IntegrationID = [], cs_LastUpdated = 0, cs_PolicyID = policy, cs_PolicySeverity = severity,
     cs_ResourceID = resource, cs_ResourceType = ''AWS.S3.Bucket'', cs_Status = status, cs_Suppressed = suppressed\<rparr>"

definition sample_items :: "ComplianceStatus list" where
  "sample_items = [sample_item ''p1'' ''r1'' ''HIGH'' StatusPASS False, sample_item ''p1'' ''r2'' ''HIGH'' StatusFAIL False,
     sample_item ''p1'' ''r3'' ''HIGH'' StatusERROR True, sample_item ''p2'' ''r1'' ''LOW'' StatusFAIL False]"

lemma ceil_pages:
  fixes n s :: int
  assumes "0 < s"
  shows "((if 0 < n mod s then n div s + 1 else n div s) - 1) * s < n"
    and "n \<le> (if 0 < n mod s then n div s + 1 else n div s) * s"
proof -
  define q r where "q = n div s" and "r = n mod s"
  have n: "n = q * s + r" by (simp add: q_def r_def)
  have r: "0 \<le> r" "r < s" using assms by (simp_all add: r_def)
  show "((if 0 < n mod s then n div s + 1 else n div s) - 1) * s < n"
    and "n \<le> (if 0 < n mod s then n div s + 1 else n div s) * s"
    unfolding q_def [symmetric] r_def [symmetric]
    using n r assms by (cases "0 < r", simp_all add: distrib_right left_diff_distrib)+
qed

lemma policyResourceDetail_result:
  assumes "decode_all unmarshal (pr_pages answer) = Some items" "pr_error answer = None"
    and "1 \<le> Page params" "1 \<le> PageSize params" "PageSize params \<le> 2 ^ 45" "in_int64 ((Page params - 1) * PageSize params + 1)"
  shows "\<exists>detail. policyResourceDetail unmarshal answer params severity = Some (Inr detail) \<and>
    pd_Items detail = take (nat (PageSize params))
      (drop (nat ((Page params - 1) * PageSize params)) (page_items params severity items)) \<and>
    pd_TotalItems detail = int (length (page_items params severity items)) \<and>
    pd_ThisPage detail = (if pd_TotalItems detail = 0 then 0 else Page params) \<and>
    (pd_TotalPages detail - 1) * PageSize params < pd_TotalItems detail \<and>
    pd_TotalItems detail \<le> pd_TotalPages detail * PageSize params \<and>
    pd_Status detail = detail_status (active_statuses items) \<and>
    pd_Active detail = detail_tally (active_statuses items) \<and>
    pd_Suppressed detail = detail_tally (suppressed_statuses items)"
proof -
  let ?n = "int (length (page_items params severity items))" and ?s = "PageSize params"
  let ?pages = "if ?n mod ?s > 0 then ?n div ?s + 1 else ?n div ?s"
  have s: "0 < ?s" using assms(4) by simp
  note pages = ceil_pages [OF s, of ?n]
  have "policyResourceDetail unmarshal answer params severity = Some (Inr
    \<lparr>pd_Items = take (nat ?s) (drop (nat ((Page params - 1) * ?s)) (page_items params severity items)),
     pd_TotalItems = ?n, pd_TotalPages = ?pages, pd_ThisPage = (if ?n = 0 then 0 else Page params),
     pd_Status = detail_status (active_statuses items), pd_Active = detail_tally (active_statuses items),
     pd_Suppressed = detail_tally (suppressed_statuses items)\<rparr>)"
    using s assms(3,5,6)
    unfolding policyResourceDetail_def
      queryPages_pure(1) [OF assms(1,2), of "addItemToResult params severity"]
    by (simp add: addItems_spec make_panics_def Let_def)
  with pages show ?thesis by simp
qed

text \<open>C19. The page of a policy or resource. For a page number of at least one and a page size in the range that
  \<open>api.yml\<close> documents for it (from 1; up to 1000), where the number of the first item of the page is in the range of an \<open>int\<close>: however
  the items are spread over the pages of the query, the result holds exactly the items of that page among
  the matching ones in query order, with the exact number of matching items and of pages; the totals
  and the overall status are over all items, matching or not, and ERROR trumps FAIL trumps PASS among
  the items that are not suppressed. (The code does not check the range: a page size of zero and one that is too large
  for \<open>make\<close> panic.)\<close>

theorem policyResourceDetail_page:
  assumes "decode_all unmarshal (pr_pages answer) = Some items" "pr_error answer = None"
    and "1 \<le> Page params" "1 \<le> PageSize params" "PageSize params \<le> 1000" "in_int64 ((Page params - 1) * PageSize params + 1)"
  shows "\<exists>detail. policyResourceDetail unmarshal answer params severity = Some (Inr detail) \<and>
    pd_Items detail = take (nat (PageSize params))
      (drop (nat ((Page params - 1) * PageSize params)) (page_items params severity items)) \<and>
    pd_TotalItems detail = int (length (page_items params severity items)) \<and>
    pd_ThisPage detail = (if pd_TotalItems detail = 0 then 0 else Page params) \<and>
    (pd_TotalPages detail - 1) * PageSize params < pd_TotalItems detail \<and>
    pd_TotalItems detail \<le> pd_TotalPages detail * PageSize params \<and>
    pd_Status detail = detail_status (active_statuses items) \<and>
    pd_Active detail = detail_tally (active_statuses items) \<and>
    pd_Suppressed detail = detail_tally (suppressed_statuses items)"
  using assms by (intro policyResourceDetail_result) simp_all

theorem policyResourceDetail_page_witness:
  "\<exists>detail. policyResourceDetail Inr \<lparr>pr_pages = [take 2 sample_items, drop 2 sample_items], pr_error = None\<rparr>
       \<lparr>Page = 2, PageSize = 1, ParamStatus = StatusFAIL, ParamSuppressed = None\<rparr> [] = Some (Inr detail) \<and>
     pd_Items detail = [sample_item ''p2'' ''r1'' ''LOW'' StatusFAIL False] \<and> pd_TotalItems detail = 2 \<and>
     pd_Status detail = StatusFAIL"
proof -
  let ?answer = "\<lparr>pr_pages = [take 2 sample_items, drop 2 sample_items], pr_error = None\<rparr>"
  let ?params = "\<lparr>Page = 2, PageSize = 1, ParamStatus = StatusFAIL, ParamSuppressed = None\<rparr>"
  have "decode_all Inr (pr_pages ?answer) = Some sample_items" by simp
  moreover have "page_items ?params [] sample_items =
      [sample_item ''p1'' ''r2'' ''HIGH'' StatusFAIL False, sample_item ''p2'' ''r1'' ''LOW'' StatusFAIL False]"
    "detail_status (active_statuses sample_items) = StatusFAIL"
    by code_simp+
  ultimately show ?thesis
    using policyResourceDetail_page [of Inr ?answer sample_items ?params "[]"] by (auto simp: in_int64_def)
qed

lemma concat_pages_take:
  "concat (map (\<lambda>p. take n (drop (p * n) xs)) [0..<k]) = take (k * n) xs"
proof (induction k)
  case (Suc k)
  have "take (Suc k * n) xs = take (k * n) xs @ take n (drop (k * n) xs)"
    by (simp add: take_add [symmetric] add.commute)
  with Suc show ?case by simp
qed simp

text \<open>Paging is complete: the pages 1, 2, \<dots> up to the reported number of pages, put together,
  are exactly the matching items, each once and in order.\<close>

theorem paging_complete:
  assumes "decode_all unmarshal (pr_pages answer) = Some items" "pr_error answer = None" "1 \<le> sz"
    and "\<forall>p \<in> {1..int n}. policyResourceDetail unmarshal answer
      \<lparr>Page = p, PageSize = sz, ParamStatus = status, ParamSuppressed = suppressed\<rparr> severity = Some (Inr (detail p))"
    and "1 \<le> n" "int n = pd_TotalPages (detail 1)" "in_int64 (int n * sz + 1)"
  shows "concat (map (\<lambda>p. pd_Items (detail (int p + 1))) [0..<n]) =
    filter (\<lambda>item. itemMatchesFilter item \<lparr>Page = 1, PageSize = sz, ParamStatus = status,
      ParamSuppressed = suppressed\<rparr> severity) items"
proof -
  let ?params = "\<lambda>p. \<lparr>Page = p, PageSize = sz, ParamStatus = status, ParamSuppressed = suppressed\<rparr>"
  let ?F = "page_items (?params 1) severity items"
  have same: "page_items (?params p) severity items = ?F" for p
    by (simp add: page_items_def itemMatchesFilter_def)
  have size: "sz \<le> 2 ^ 45"
    using assms(4,5) by (auto simp: policyResourceDetail_def make_panics_def split: if_splits dest!: bspec [of _ _ 1])
  have page: "pd_Items (detail p) = take (nat sz) (drop (nat ((p - 1) * sz)) ?F) \<and>
      pd_TotalItems (detail p) = int (length ?F) \<and> pd_TotalItems (detail p) \<le> pd_TotalPages (detail p) * sz"
    if "p \<in> {1..int n}" for p
  proof -
    have "(p - 1) * sz \<le> int n * sz" using that assms(3) by (intro mult_right_mono) auto
    moreover have "0 \<le> (p - 1) * sz" using that assms(3) by simp
    ultimately have "in_int64 ((p - 1) * sz + 1)" using assms(7) by (simp add: in_int64_def)
    with policyResourceDetail_result [OF assms(1,2), of "?params p" severity] that assms(3,4) size same [of p] show ?thesis by auto
  qed
  have "concat (map (\<lambda>p. pd_Items (detail (int p + 1))) [0..<n]) =
      concat (map (\<lambda>p. take (nat sz) (drop (p * nat sz) ?F)) [0..<n])"
  proof (intro arg_cong [of _ _ concat] map_cong refl)
    fix p assume "p \<in> set [0..<n]"
    then have "int p + 1 \<in> {1..int n}" by auto
    with page [of "int p + 1"] assms(3) show "pd_Items (detail (int p + 1)) = take (nat sz) (drop (p * nat sz) ?F)"
      by (simp add: nat_mult_distrib)
  qed
  also have "\<dots> = take (n * nat sz) ?F" by (rule concat_pages_take)
  also have "\<dots> = ?F"
  proof -
    have "int (length ?F) \<le> int n * sz" using page [of 1] assms(5,6) by simp
    also have "\<dots> = int (n * nat sz)" using assms(3) by simp
    finally have "length ?F \<le> n * nat sz" by (simp only: of_nat_le_iff)
    then show ?thesis by simp
  qed
  finally show ?thesis by (simp add: page_items_def)
qed

theorem paging_complete_witness:
  "concat (map (\<lambda>p. pd_Items (case policyResourceDetail Inr \<lparr>pr_pages = [sample_items], pr_error = None\<rparr>
         \<lparr>Page = int p + 1, PageSize = 1, ParamStatus = StatusFAIL, ParamSuppressed = None\<rparr> [] of Some (Inr d) \<Rightarrow> d)) [0..<2]) =
     [sample_item ''p1'' ''r2'' ''HIGH'' StatusFAIL False, sample_item ''p2'' ''r1'' ''LOW'' StatusFAIL False]"
proof -
  let ?answer = "\<lparr>pr_pages = [sample_items], pr_error = None\<rparr>"
  let ?run = "\<lambda>p. policyResourceDetail Inr ?answer
      \<lparr>Page = p, PageSize = 1, ParamStatus = StatusFAIL, ParamSuppressed = None\<rparr> []"
  let ?detail = "\<lambda>p. case ?run p of Some (Inr d) \<Rightarrow> d"
  have "decode_all Inr (pr_pages ?answer) = Some sample_items" by simp
  moreover have "\<forall>p \<in> {1..int 2}. ?run p = Some (Inr (?detail p))"
  proof
    fix p :: int assume "p \<in> {1..int 2}"
    then have "p = 1 \<or> p = 2" by auto
    moreover have "\<exists>d. ?run 1 = Some (Inr d)" "\<exists>d. ?run 2 = Some (Inr d)"
      using policyResourceDetail_result [of Inr ?answer sample_items
          "\<lparr>Page = 1, PageSize = 1, ParamStatus = StatusFAIL, ParamSuppressed = None\<rparr>" "[]"]
        policyResourceDetail_result [of Inr ?answer sample_items
          "\<lparr>Page = 2, PageSize = 1, ParamStatus = StatusFAIL, ParamSuppressed = None\<rparr>" "[]"]
      by (auto simp: in_int64_def)
    ultimately show "?run p = Some (Inr (?detail p))" by auto
  qed
  moreover have "pd_TotalPages (?detail 1) = int 2" by code_simp
  moreover have "filter (\<lambda>item. itemMatchesFilter item \<lparr>Page = 1, PageSize = 1, ParamStatus = StatusFAIL,
      ParamSuppressed = None\<rparr> []) sample_items =
      [sample_item ''p1'' ''r2'' ''HIGH'' StatusFAIL False, sample_item ''p2'' ''r1'' ''LOW'' StatusFAIL False]"
    by code_simp
  ultimately show ?thesis
    using paging_complete [of Inr ?answer sample_items 1 2 StatusFAIL None "[]" ?detail] by (simp add: in_int64_def)
qed

text \<open>Scanning the table: when every page can be read, each policy of the table has one summary with
  the exact number of its passing, failing and erroneous entries and the severity of its first entry, and
  each resource one with these numbers for every severity.\<close>

theorem scanGroupByID_correct:
  assumes "decode_all unmarshal (pr_pages answer) = Some items" "pr_error answer = None"
  shows "\<exists>policies resources. scanGroupByID unmarshal answer True True = ((policies, resources), None) \<and>
    distinct (map fst policies) \<and> distinct (map fst resources) \<and>
    map_of policies pid =
      (case filter (\<lambda>i. cs_PolicyID i = pid) items of
         [] \<Rightarrow> None
       | i # is \<Rightarrow> Some \<lparr>ps_Count = tally (map cs_Status (i # is)), ps_ID = pid, ps_Severity = cs_PolicySeverity i\<rparr>) \<and>
    map_of resources rid =
      (case filter (\<lambda>i. cs_ResourceID i = rid) items of
         [] \<Rightarrow> None
       | i # is \<Rightarrow> Some \<lparr>rs_Count = tally_by_severity (map (\<lambda>i. (cs_PolicySeverity i, cs_Status i)) (i # is)),
           rs_ID = rid, rs_Type = cs_ResourceType i\<rparr>)"
  using scanGroupByID_groups [OF assms, of True True] group_policies_lookup [of items pid]
    group_resources_lookup [of items rid]
  by (intro exI [of _ "group_policies items"] exI [of _ "group_resources items"]) simp

theorem scanGroupByID_correct_witness:
  "\<exists>policies resources. scanGroupByID Inr \<lparr>pr_pages = [sample_items], pr_error = None\<rparr> True True = ((policies, resources), None) \<and>
     map_of policies ''p1'' = Some \<lparr>ps_Count = \<lparr>sc_Error = 1, sc_Fail = 1, sc_Pass = 1\<rparr>, ps_ID = ''p1'', ps_Severity = ''HIGH''\<rparr>"
proof -
  let ?answer = "\<lparr>pr_pages = [sample_items], pr_error = None\<rparr>"
  have "decode_all Inr (pr_pages ?answer) = Some sample_items" "pr_error ?answer = None" by simp_all
  moreover have "filter (\<lambda>i. cs_PolicyID i = ''p1'') sample_items = [sample_item ''p1'' ''r1'' ''HIGH'' StatusPASS False,
      sample_item ''p1'' ''r2'' ''HIGH'' StatusFAIL False, sample_item ''p1'' ''r3'' ''HIGH'' StatusERROR True]"
    by code_simp
  moreover have "tally (map cs_Status [sample_item ''p1'' ''r1'' ''HIGH'' StatusPASS False,
      sample_item ''p1'' ''r2'' ''HIGH'' StatusFAIL False, sample_item ''p1'' ''r3'' ''HIGH'' StatusERROR True]) =
      \<lparr>sc_Error = 1, sc_Fail = 1, sc_Pass = 1\<rparr>" by code_simp
  moreover have "cs_PolicySeverity (sample_item ''p1'' ''r1'' ''HIGH'' StatusPASS False) = ''HIGH''" by code_simp
  ultimately show ?thesis
    using scanGroupByID_correct [of Inr ?answer sample_items "''p1''" "''r1''"] by (auto simp del: list.map)
qed

text \<open>C24. The order of the top failing list is total: for policies with different ids and the five known
  severities, every arrangement that a sort may leave (no later element less than an earlier one) is
  the same; in it failing policies come before passing ones, and among failing ones higher severities
  first and then more failures first. The order of resources is total as well.\<close>

theorem top_failing_order_unique:
  assumes "\<forall>p \<in> set policies. policy_ok p" "distinct (map ps_ID policies)"
    and "mset ps = mset policies" "sorted_wrt (\<lambda>a b. \<not> policy_less b a) ps"
    and "distinct (map rs_ID resources)" "mset rs = mset resources" "sorted_wrt (\<lambda>a b. \<not> resource_less b a) rs"
  shows "ps = sortPoliciesByTopFailing policies \<and>
    sorted_wrt (\<lambda>a b. failures (ps_Count a) = 0 \<longrightarrow> failures (ps_Count b) = 0) ps \<and>
    sorted_wrt (\<lambda>a b. failures (ps_Count b) > 0 \<longrightarrow>
      severityPriority (ps_Severity b) < severityPriority (ps_Severity a) \<or>
      severityPriority (ps_Severity b) = severityPriority (ps_Severity a) \<and>
      failures (ps_Count b) \<le> failures (ps_Count a)) ps \<and>
    rs = sortResourcesByTopFailing resources"
proof -
  have keys: "distinct (map policy_key policies)" "distinct (map resource_key resources)"
  proof -
    have "ps_ID p = snd (snd (snd (policy_key p)))" for p by (simp add: policy_key_def)
    then show "distinct (map policy_key policies)"
      using assms(2) by (auto simp: distinct_map inj_on_def)
    have "rs_ID r = snd (snd (snd (snd (snd (resource_key r)))))" for r by (simp add: resource_key_def Let_def)
    then show "distinct (map resource_key resources)"
      using assms(5) by (auto simp: distinct_map inj_on_def)
  qed
  have "set ps = set policies" using assms(3) by (metis set_mset_mset)
  with assms(1) have ok: "\<forall>p \<in> set ps. policy_ok p" by simp
  have "sorted_wrt (\<lambda>a b. policy_key a \<le> policy_key b) ps"
    using assms(4) by (rule sorted_wrt_mono_rel [rotated]) (use ok in \<open>auto simp: policies.lt_key not_less\<close>)
  moreover have "failures (ps_Count a) = 0 \<longrightarrow> failures (ps_Count b) = 0" "failures (ps_Count b) > 0 \<longrightarrow>
      severityPriority (ps_Severity b) < severityPriority (ps_Severity a) \<or>
      severityPriority (ps_Severity b) = severityPriority (ps_Severity a) \<and> failures (ps_Count b) \<le> failures (ps_Count a)"
    if "policy_key a \<le> policy_key b" for a b
    using that by (auto simp: policy_key_def less_eq_prod_def split: if_splits)
  ultimately have "sorted_wrt (\<lambda>a b. failures (ps_Count a) = 0 \<longrightarrow> failures (ps_Count b) = 0) ps"
    "sorted_wrt (\<lambda>a b. failures (ps_Count b) > 0 \<longrightarrow>
      severityPriority (ps_Severity b) < severityPriority (ps_Severity a) \<or>
      severityPriority (ps_Severity b) = severityPriority (ps_Severity a) \<and>
      failures (ps_Count b) \<le> failures (ps_Count a)) ps"
    by (auto elim!: sorted_wrt_mono_rel [rotated])
  moreover have "ps = sortPoliciesByTopFailing policies" "rs = sortResourcesByTopFailing resources"
    unfolding sortPoliciesByTopFailing_def sortResourcesByTopFailing_def
    using policies.sort_Slice_unique [OF assms(1) keys(1) assms(3,4)]
      resources.sort_Slice_unique [OF _ keys(2) assms(6,7)] by simp_all
  ultimately show ?thesis by blast
qed

definition sample_policy :: "string \<Rightarrow> string \<Rightarrow> int \<Rightarrow> PolicySummary" where
  "sample_policy pid sev n = \<lparr>ps_Count = \<lparr>sc_Error = 0, sc_Fail = n, sc_Pass = 1\<rparr>, ps_ID = pid, ps_Severity = sev\<rparr>"

theorem top_failing_order_unique_witness:
  "sortPoliciesByTopFailing [sample_policy ''a'' ''LOW'' 0, sample_policy ''b'' ''LOW'' 5, sample_policy ''c'' ''HIGH'' 1] =
     [sample_policy ''c'' ''HIGH'' 1, sample_policy ''b'' ''LOW'' 5, sample_policy ''a'' ''LOW'' 0]"
proof -
  let ?xs = "[sample_policy ''a'' ''LOW'' 0, sample_policy ''b'' ''LOW'' 5, sample_policy ''c'' ''HIGH'' 1]"
  let ?ys = "[sample_policy ''c'' ''HIGH'' 1, sample_policy ''b'' ''LOW'' 5, sample_policy ''a'' ''LOW'' 0]"
  have "\<forall>p \<in> set ?xs. policy_ok p" "distinct (map ps_ID ?xs)" "sorted_wrt (\<lambda>a b. \<not> policy_less b a) ?ys"
    by code_simp+
  then show ?thesis using top_failing_order_unique [of ?xs ?ys "[]" "[]"] by simp
qed

lemma count_policies_spec:
  "count_policies ps =
     (tally_by_severity (map (\<lambda>p. (ps_Severity p, countToStatus (ps_Count p))) ps),
      filter (\<lambda>p. countToStatus (ps_Count p) \<noteq> StatusPASS) ps)"
  by (induction ps rule: rev_induct) (simp_all add: count_policies_def Let_def)

lemma count_resources_spec:
  "snd (count_resources rs) = filter (\<lambda>r. countBySeverityToStatus (rs_Count r) \<noteq> StatusPASS) rs \<and>
   distinct (map fst (fst (count_resources rs))) \<and>
   map_of (fst (count_resources rs)) ty =
     (if filter (\<lambda>r. rs_Type r = ty) rs = [] then None
      else Some (tally (map (\<lambda>r. countBySeverityToStatus (rs_Count r)) (filter (\<lambda>r. rs_Type r = ty) rs))))"
proof (induction rs arbitrary: ty rule: rev_induct)
  case Nil
  then show ?case by (simp add: count_resources_def)
next
  case (snoc x rs)
  obtain m failed where m: "count_resources rs = (m, failed)" by (cases "count_resources rs")
  have "count_resources (rs @ [x]) =
      (amap_put (rs_Type x) (updateStatusCount (case map_of m (rs_Type x) of None \<Rightarrow> NewStatusCount | Some c \<Rightarrow> c)
         (countBySeverityToStatus (rs_Count x))) m,
       if countBySeverityToStatus (rs_Count x) \<noteq> StatusPASS then failed @ [x] else failed)"
    using m unfolding count_resources_def by (simp add: Let_def)
  then show ?case
    using snoc.IH [of ty] snoc.IH [of "rs_Type x"]
    by (auto simp: m map_of_amap_put distinct_amap_put)
qed

text \<open>The overview of an organisation, for a limit that is not negative: the policies are counted once
  each by severity and worst status, the resources once each by type and worst status, and the top
  failing lists are the first ones, up to the limit, of the failing policies and resources in top
  failing order. A negative limit always panics.\<close>

theorem buildOverview_correct:
  "(0 \<le> limit \<longrightarrow> (\<exists>summary. buildOverview policies resources limit = Some summary \<and>
     os_AppliedPolicies summary = tally_by_severity (map (\<lambda>p. (ps_Severity p, countToStatus (ps_Count p))) (map snd policies)) \<and>
     (\<forall>ty. map_of (os_ScannedResources summary) ty =
        (let rs = filter (\<lambda>r. rs_Type r = ty) (map snd resources)
         in if rs = [] then None else Some (tally (map (\<lambda>r. countBySeverityToStatus (rs_Count r)) rs)))) \<and>
     os_TopFailingPolicies summary = take (nat limit) (sortPoliciesByTopFailing
       (filter (\<lambda>p. countToStatus (ps_Count p) \<noteq> StatusPASS) (map snd policies))) \<and>
     os_TopFailingResources summary = take (nat limit) (sortResourcesByTopFailing
       (filter (\<lambda>r. countBySeverityToStatus (rs_Count r) \<noteq> StatusPASS) (map snd resources))))) \<and>
   (limit < 0 \<longrightarrow> buildOverview policies resources limit = None)"
proof -
  have topr: "truncate_top limit xs = (if limit < 0 then None else Some (take (nat limit) xs))" for xs :: "ResourceSummary list"
    by (auto simp: truncate_top_def)
  have topp: "truncate_top limit xs = (if limit < 0 then None else Some (take (nat limit) xs))" for xs :: "PolicySummary list"
    by (auto simp: truncate_top_def)
  obtain byType failed where r: "count_resources (map snd resources) = (byType, failed)"
    by (cases "count_resources (map snd resources)")
  have "map_of byType ty = (let rs = filter (\<lambda>r. rs_Type r = ty) (map snd resources)
         in if rs = [] then None else Some (tally (map (\<lambda>r. countBySeverityToStatus (rs_Count r)) rs)))" for ty
    using count_resources_spec [of "map snd resources" ty] r by (simp add: Let_def)
  moreover have "failed = filter (\<lambda>r. countBySeverityToStatus (rs_Count r) \<noteq> StatusPASS) (map snd resources)"
    using count_resources_spec [of "map snd resources"] r by simp
  ultimately show ?thesis
    by (auto simp: buildOverview_def count_policies_spec r topp topr)
qed

theorem buildOverview_correct_witness:
  "\<exists>summary. buildOverview [(''b'', sample_policy ''b'' ''LOW'' 5), (''c'', sample_policy ''c'' ''HIGH'' 1)] [] 1 = Some summary \<and>
     os_TopFailingPolicies summary = [sample_policy ''c'' ''HIGH'' 1]"
proof -
  have "take (nat 1) (sortPoliciesByTopFailing (filter (\<lambda>p. countToStatus (ps_Count p) \<noteq> StatusPASS)
      (map snd [(''b'', sample_policy ''b'' ''LOW'' 5), (''c'', sample_policy ''c'' ''HIGH'' 1)]))) =
      [sample_policy ''c'' ''HIGH'' 1]" by code_simp
  then show ?thesis
    using buildOverview_correct [of 1 "[(''b'', sample_policy ''b'' ''LOW'' 5), (''c'', sample_policy ''c'' ''HIGH'' 1)]" "[]"]
    by auto
qed

end
