(* ===== verification/Compliance_Api.thy ===== *)
theory Compliance_Api
  imports Compliance_Model Go_Path Go_Strings
begin

text \<open>
  \<open>compliance_api/handlers\<close>, the requests: parsing of parameters (\<open>paging.go\<close>, \<open>describe_policy.go\<close>,
  \<open>describe_resource.go\<close>, \<open>get_status.go\<close>, \<open>get_org_overview.go\<close>), the queries each handler makes, and
  the handlers themselves, with the batch writes of \<open>set_status.go\<close>, \<open>update_metadata.go\<close> and
  \<open>delete_status.go\<close> going through \<open>dynamodbbatch.BatchWriteItem\<close>.

  A request is its query parameters (a missing one reads as the empty string) and its body. JSON and
  DynamoDB encodings, validation of a body and the DynamoDB client are the fields of \<open>compliance_env\<close>.
  An error response keeps its status code; of a 400 response the parameter at fault is kept in place
  of the text. \<open>None\<close> is a panic.
\<close>

datatype bad_param = BadStatus | BadPage | BadPageSize | BadSuppressed | BadPolicyId | BadResourceId
  | BadSeverity | BadLimit | BadBody error | BadEntry nat | BadPatternParam

datatype 'a response = OK 'a | Created | BadRequest bad_param | NotFound | InternalServerError

record query_input =
  qi_key :: "string \<times> string" \<comment> \<open>the attribute and value of the key condition\<close>
  qi_index :: bool \<comment> \<open>on the global index\<close>
  qi_filterTypes :: "string list" \<comment> \<open>resource types of the filter, none if empty\<close>
  qi_projection :: "string list"
  qi_consistent :: bool

record scan_input =
  si_suppressed :: bool
  si_projection :: "string list"

datatype 'i write_request = PutRequest 'i | DeleteRequest "string \<times> string"

record 'i compliance_env =
  ce_build :: "error option" \<comment> \<open>\<open>expression.Build\<close>\<close>
  ce_query :: "query_input \<Rightarrow> 'i pages_result"
  ce_scan :: "scan_input \<Rightarrow> 'i pages_result"
  ce_getItem :: "string \<times> string \<Rightarrow> error + 'i option"
  ce_unmarshalList :: "'i unmarshal"
  ce_unmarshal :: "'i \<Rightarrow> error + ComplianceStatus"
  ce_marshal :: "ComplianceStatus \<Rightarrow> error + 'i"
  ce_table :: string
  ce_retry :: "'i write_request batchWriteRequest retry"
  ce_client :: "'i write_request bw_client"

type_synonym query_params = "string \<Rightarrow> string"

section \<open>Parameters\<close>

definition valid_Status :: "string \<Rightarrow> bool" where
  "valid_Status s \<longleftrightarrow> s \<in> {StatusERROR, StatusFAIL, StatusPASS}"

text \<open>\<open>validate.MaxLength\<close> counts runes.\<close>

definition valid_PolicyID :: "string \<Rightarrow> bool" where "valid_PolicyID s \<longleftrightarrow> RuneCountInString s \<le> 200"

definition valid_ResourceID :: "string \<Rightarrow> bool" where "valid_ResourceID s \<longleftrightarrow> RuneCountInString s \<le> 2000"

definition valid_PolicySeverity :: "string \<Rightarrow> bool" where
  "valid_PolicySeverity s \<longleftrightarrow> s \<in> set known_severities"

definition ParseBool :: "string \<Rightarrow> bool option" where
  "ParseBool s =
     (if s \<in> {''1'', ''t'', ''T'', ''true'', ''TRUE'', ''True''} then Some True
      else if s \<in> {''0'', ''f'', ''F'', ''false'', ''FALSE'', ''False''} then Some False else None)"

definition parsePageParams :: "query_params \<Rightarrow> bad_param + pageParams" where
  "parsePageParams q =
     (if q ''status'' \<noteq> [] \<and> \<not> valid_Status (q ''status'') then Inl BadStatus
      else (case (if q ''page'' \<noteq> [] then Atoi (q ''page'') else Some 1) of
              None \<Rightarrow> Inl BadPage
            | Some page \<Rightarrow>
                (case (if q ''pageSize'' \<noteq> [] then Atoi (q ''pageSize'') else Some 25) of
                   None \<Rightarrow> Inl BadPageSize
                 | Some pageSize \<Rightarrow>
                     (if q ''suppressed'' \<noteq> []
                      then (case ParseBool (q ''suppressed'') of
                              None \<Rightarrow> Inl BadSuppressed
                            | Some b \<Rightarrow> Inr \<lparr>Page = page, PageSize = pageSize, ParamStatus = q ''status'',
                                            ParamSuppressed = Some b\<rparr>)
                      else Inr \<lparr>Page = page, PageSize = pageSize, ParamStatus = q ''status'', ParamSuppressed = None\<rparr>))))"

definition parseDescribePolicy :: "query_params \<Rightarrow> bad_param + (pageParams \<times> string)" where
  "parseDescribePolicy q =
     (case parsePageParams q of
        Inl e \<Rightarrow> Inl e
      | Inr params \<Rightarrow>
          (case QueryUnescape (q ''policyId'') of
             None \<Rightarrow> Inl BadPolicyId
           | Some policyID \<Rightarrow> if valid_PolicyID policyID then Inr (params, policyID) else Inl BadPolicyId))"

definition parseDescribeResource :: "query_params \<Rightarrow> bad_param + (pageParams \<times> string \<times> string)" where
  "parseDescribeResource q =
     (case parsePageParams q of
        Inl e \<Rightarrow> Inl e
      | Inr params \<Rightarrow>
          (case QueryUnescape (q ''resourceId'') of
             None \<Rightarrow> Inl BadResourceId
           | Some resourceID \<Rightarrow>
               (if \<not> valid_ResourceID resourceID then Inl BadResourceId
                else if q ''severity'' \<noteq> [] \<and> \<not> valid_PolicySeverity (q ''severity'') then Inl BadSeverity
                else Inr (params, resourceID, q ''severity''))))"

definition parseGetStatus :: "query_params \<Rightarrow> bad_param + (string \<times> string)" where
  "parseGetStatus q =
     (case QueryUnescape (q ''resourceId'') of
        None \<Rightarrow> Inl BadResourceId
      | Some resourceID \<Rightarrow>
          (if \<not> valid_ResourceID resourceID then Inl BadResourceId
           else (case QueryUnescape (q ''policyId'') of
                   None \<Rightarrow> Inl BadPolicyId
                 | Some policyID \<Rightarrow>
                     (if \<not> valid_PolicyID policyID then Inl BadPolicyId else Inr (resourceID, policyID)))))"

definition parseGetOrgOverview :: "query_params \<Rightarrow> bad_param + int" where
  "parseGetOrgOverview q =
     (if q ''limitTopFailing'' \<noteq> []
      then (case Atoi (q ''limitTopFailing'') of None \<Rightarrow> Inl BadLimit | Some n \<Rightarrow> Inr n)
      else Inr 10)"

section \<open>Queries\<close>

definition tableKey :: "string \<Rightarrow> string \<Rightarrow> string \<times> string" where
  "tableKey resourceID policyID = (resourceID, policyID)"

definition buildDescribePolicyQuery :: "'i compliance_env \<Rightarrow> string \<Rightarrow> error + query_input" where
  "buildDescribePolicyQuery env policyID =
     (case ce_build env of
        Some err \<Rightarrow> Inl err
      | None \<Rightarrow> Inr \<lparr>qi_key = (''policyId'', policyID), qi_index = True, qi_filterTypes = [], qi_projection = [],
                   qi_consistent = False\<rparr>)"

definition buildDescribeResourceQuery :: "'i compliance_env \<Rightarrow> string \<Rightarrow> error + query_input" where
  "buildDescribeResourceQuery env resourceID =
     (case ce_build env of
        Some err \<Rightarrow> Inl err
      | None \<Rightarrow> Inr \<lparr>qi_key = (''resourceId'', resourceID), qi_index = False, qi_filterTypes = [], qi_projection = [],
                   qi_consistent = False\<rparr>)"

definition buildDescribeOrgScan :: "'i compliance_env \<Rightarrow> error + scan_input" where
  "buildDescribeOrgScan env =
     (case ce_build env of
        Some err \<Rightarrow> Inl err
      | None \<Rightarrow> Inr \<lparr>si_suppressed = False,
                   si_projection = [''policyId'', ''policySeverity'', ''resourceId'', ''status'']\<rparr>)"

definition buildGetOrgOverviewQuery :: "'i compliance_env \<Rightarrow> error + scan_input" where
  "buildGetOrgOverviewQuery env =
     (case ce_build env of
        Some err \<Rightarrow> Inl err
      | None \<Rightarrow> Inr \<lparr>si_suppressed = False, si_projection = []\<rparr>)"

section \<open>Handlers that read\<close>

definition DescribePolicy :: "'i compliance_env \<Rightarrow> query_params \<Rightarrow> PolicyResourceDetail response option" where
  "DescribePolicy env q =
     (case parseDescribePolicy q of
        Inl e \<Rightarrow> Some (BadRequest e)
      | Inr (params, policyID) \<Rightarrow>
          (case buildDescribePolicyQuery env policyID of
             Inl _ \<Rightarrow> Some InternalServerError
           | Inr input \<Rightarrow>
               map_option (\<lambda>r. case r of Inl _ \<Rightarrow> InternalServerError | Inr detail \<Rightarrow> OK detail)
                 (policyResourceDetail (ce_unmarshalList env) (ce_query env input) params [])))"

definition DescribeResource :: "'i compliance_env \<Rightarrow> query_params \<Rightarrow> PolicyResourceDetail response option" where
  "DescribeResource env q =
     (case parseDescribeResource q of
        Inl e \<Rightarrow> Some (BadRequest e)
      | Inr (params, resourceID, severity) \<Rightarrow>
          (case buildDescribeResourceQuery env resourceID of
             Inl _ \<Rightarrow> Some InternalServerError
           | Inr input \<Rightarrow>
               map_option (\<lambda>r. case r of Inl _ \<Rightarrow> InternalServerError | Inr detail \<Rightarrow> OK detail)
                 (policyResourceDetail (ce_unmarshalList env) (ce_query env input) params severity)))"

definition DescribeOrg :: "'i compliance_env \<Rightarrow> query_params \<Rightarrow> (string \<times> string) list response" where
  "DescribeOrg env q =
     (case buildDescribeOrgScan env of
        Inl _ \<Rightarrow> InternalServerError
      | Inr input \<Rightarrow>
          (case (if q ''type'' = ''policy'' then listPolicies (ce_unmarshalList env) (ce_scan env input)
                 else listResources (ce_unmarshalList env) (ce_scan env input)) of
             Inl _ \<Rightarrow> InternalServerError
           | Inr result \<Rightarrow> OK result))"

definition GetOrgOverview :: "'i compliance_env \<Rightarrow> query_params \<Rightarrow> OrgSummary response option" where
  "GetOrgOverview env q =
     (case parseGetOrgOverview q of
        Inl e \<Rightarrow> Some (BadRequest e)
      | Inr limit \<Rightarrow>
          (case buildGetOrgOverviewQuery env of
             Inl _ \<Rightarrow> Some InternalServerError
           | Inr input \<Rightarrow>
               (case scanGroupByID (ce_unmarshalList env) (ce_scan env input) True True of
                  (_, Some _) \<Rightarrow> Some InternalServerError
                | ((policies, resources), None) \<Rightarrow> map_option OK (buildOverview policies resources limit))))"

definition GetStatus :: "'i compliance_env \<Rightarrow> query_params \<Rightarrow> ComplianceStatus response" where
  "GetStatus env q =
     (case parseGetStatus q of
        Inl e \<Rightarrow> BadRequest e
      | Inr (resourceID, policyID) \<Rightarrow>
          (case ce_getItem env (tableKey resourceID policyID) of
             Inl _ \<Rightarrow> InternalServerError
           | Inr None \<Rightarrow> NotFound
           | Inr (Some item) \<Rightarrow>
               (case ce_unmarshal env item of Inl _ \<Rightarrow> InternalServerError | Inr status \<Rightarrow> OK status)))"

section \<open>Handlers that write\<close>

text \<open>A handler returns its response and, if it got that far, the run of the batch write.\<close>

type_synonym 'i writes = "'i write_request batchWriteRequest option"

record set_entry =
  se_ErrorMessage :: string
  se_IntegrationID :: string
  se_PolicyID :: string
  se_PolicySeverity :: string
  se_ResourceID :: string
  se_ResourceType :: string
  se_Status :: string
  se_Suppressed :: bool

abbreviation statusLifetime :: int where "statusLifetime \<equiv> 50 * 3600"

text \<open>The time is in seconds.\<close>

definition status_of_entry :: "int \<Rightarrow> set_entry \<Rightarrow> ComplianceStatus" where
  "status_of_entry now entry =
     \<lparr>cs_ErrorMessage = se_ErrorMessage entry, cs_ExpiresAt = now + statusLifetime,
      cs_IntegrationID = se_IntegrationID entry, cs_LastUpdated = now, cs_PolicyID = se_PolicyID entry,
      cs_PolicySeverity = se_PolicySeverity entry, cs_ResourceID = se_ResourceID entry,
      cs_ResourceType = se_ResourceType entry, cs_Status = se_Status entry, cs_Suppressed = se_Suppressed entry\<rparr>"

fun put_requests :: "'i compliance_env \<Rightarrow> ComplianceStatus list \<Rightarrow> 'i write_request list option" where
  "put_requests env [] = Some []"
| "put_requests env (status # rest) =
     (case ce_marshal env status of
        Inl _ \<Rightarrow> None
      | Inr marshalled \<Rightarrow> map_option (\<lambda>rs. PutRequest marshalled # rs) (put_requests env rest))"

definition write_batch :: "'i compliance_env \<Rightarrow> 'a response \<Rightarrow> 'i write_request list \<Rightarrow> 'a response \<times> 'i writes" where
  "write_batch env success requests =
     (case BatchWriteItem (ce_retry env) (ce_client env) [(ce_table env, requests)] of
        (Some _, r) \<Rightarrow> (InternalServerError, Some r)
      | (None, r) \<Rightarrow> (success, Some r))"

definition parseBody :: "(string \<Rightarrow> error + 'b) \<Rightarrow> ('b \<Rightarrow> error option) \<Rightarrow> string \<Rightarrow> bad_param + 'b" where
  "parseBody decode validate body =
     (case decode body of
        Inl e \<Rightarrow> Inl (BadBody e)
      | Inr result \<Rightarrow> (case validate result of Some e \<Rightarrow> Inl (BadBody e) | None \<Rightarrow> Inr result))"

definition SetStatus :: "'i compliance_env \<Rightarrow> (string \<Rightarrow> error + set_entry list) \<Rightarrow> (set_entry list \<Rightarrow> error option)
    \<Rightarrow> int \<Rightarrow> string \<Rightarrow> unit response \<times> 'i writes" where
  "SetStatus env decode validate now body =
     (case parseBody decode validate body of
        Inl e \<Rightarrow> (BadRequest e, None)
      | Inr entries \<Rightarrow>
          (case put_requests env (map (status_of_entry now) entries) of
             None \<Rightarrow> (InternalServerError, None)
           | Some writeRequests \<Rightarrow> write_batch env Created writeRequests))"

fun isIgnored :: "string \<Rightarrow> string list \<Rightarrow> bool option" where
  "isIgnored resourceID [] = Some False"
| "isIgnored resourceID (pattern # ignoreSet) =
     (case path_Match pattern resourceID of
        BadPattern \<Rightarrow> None
      | Matched _ \<Rightarrow> Some True
      | NoMatch \<Rightarrow> isIgnored resourceID ignoreSet)"

record UpdateMetadata_input =
  um_PolicyID :: string
  um_Severity :: string
  um_Suppressions :: "string list"

definition update_item :: "'i compliance_env \<Rightarrow> UpdateMetadata_input \<Rightarrow> ('i write_request list) item_handler" where
  "update_item env input item writes =
     (case isIgnored (cs_ResourceID item) (um_Suppressions input) of
        None \<Rightarrow> (Some ErrBadPattern, writes)
      | Some ignored \<Rightarrow>
          (if cs_Suppressed item \<noteq> ignored \<or> cs_PolicySeverity item \<noteq> um_Severity input
           then (case ce_marshal env (item\<lparr>cs_PolicySeverity := um_Severity input, cs_Suppressed := ignored\<rparr>) of
                   Inl err \<Rightarrow> (Some (OtherError err), writes)
                 | Inr marshalled \<Rightarrow> (None, writes @ [PutRequest marshalled]))
           else (None, writes)))"

definition itemsToUpdate :: "'i compliance_env \<Rightarrow> UpdateMetadata_input \<Rightarrow> 'a response + 'i write_request list" where
  "itemsToUpdate env input =
     (case buildDescribePolicyQuery env (um_PolicyID input) of
        Inl _ \<Rightarrow> Inl InternalServerError
      | Inr query \<Rightarrow>
          (case queryPages (ce_unmarshalList env) (update_item env input) (ce_query env query) [] of
             (Some err, _) \<Rightarrow> Inl (if err = ErrBadPattern then BadRequest BadPatternParam else InternalServerError)
           | (None, writes) \<Rightarrow> Inr writes))"

definition UpdateMetadata :: "'i compliance_env \<Rightarrow> (string \<Rightarrow> error + UpdateMetadata_input)
    \<Rightarrow> (UpdateMetadata_input \<Rightarrow> error option) \<Rightarrow> string \<Rightarrow> unit response \<times> 'i writes" where
  "UpdateMetadata env decode validate body =
     (case parseBody decode validate body of
        Inl e \<Rightarrow> (BadRequest e, None)
      | Inr input \<Rightarrow>
          (case itemsToUpdate env input of
             Inl errResponse \<Rightarrow> (errResponse, None)
           | Inr writes \<Rightarrow> if writes = [] then (OK (), None) else write_batch env (OK ()) writes))"

record DeleteStatus_entry =
  de_Policy :: "(string \<times> string list) option" \<comment> \<open>policy id and resource types\<close>
  de_Resource :: "string option"

fun bad_entry :: "nat \<Rightarrow> DeleteStatus_entry list \<Rightarrow> nat option" where
  "bad_entry i [] = None"
| "bad_entry i (entry # rest) =
     (if (de_Resource entry = None) = (de_Policy entry = None) then Some i else bad_entry (Suc i) rest)"

definition parseDeleteStatus :: "(string \<Rightarrow> error + DeleteStatus_entry list) \<Rightarrow> (DeleteStatus_entry list \<Rightarrow> error option)
    \<Rightarrow> string \<Rightarrow> bad_param + DeleteStatus_entry list" where
  "parseDeleteStatus decode validate body =
     (case decode body of
        Inl e \<Rightarrow> Inl (BadBody e)
      | Inr entries \<Rightarrow>
          (case bad_entry 0 entries of
             Some i \<Rightarrow> Inl (BadEntry i)
           | None \<Rightarrow> (case validate entries of Some e \<Rightarrow> Inl (BadBody e) | None \<Rightarrow> Inr entries)))"

definition policyDeleteEntries :: "'i compliance_env \<Rightarrow> string \<Rightarrow> string list \<Rightarrow> page_error + 'i write_request list" where
  "policyDeleteEntries env policyID resourceTypes =
     (case ce_build env of
        Some err \<Rightarrow> Inl (OtherError err)
      | None \<Rightarrow>
          (case queryPages (ce_unmarshalList env)
                  (\<lambda>item reqs. (None, reqs @ [DeleteRequest (tableKey (cs_ResourceID item) policyID)]))
                  (ce_query env \<lparr>qi_key = (''policyId'', policyID), qi_index = True, qi_filterTypes = resourceTypes,
                     qi_projection = [''resourceId''], qi_consistent = False\<rparr>) [] of
             (Some err, _) \<Rightarrow> Inl err
           | (None, reqs) \<Rightarrow> Inr reqs))"

definition resourceDeleteEntries :: "'i compliance_env \<Rightarrow> string \<Rightarrow> page_error + 'i write_request list" where
  "resourceDeleteEntries env resourceID =
     (case ce_build env of
        Some err \<Rightarrow> Inl (OtherError err)
      | None \<Rightarrow>
          (case queryPages (ce_unmarshalList env)
                  (\<lambda>item reqs. (None, reqs @ [DeleteRequest (tableKey resourceID (cs_PolicyID item))]))
                  (ce_query env \<lparr>qi_key = (''resourceId'', resourceID), qi_index = False, qi_filterTypes = [],
                     qi_projection = [''policyId''], qi_consistent = True\<rparr>) [] of
             (Some err, _) \<Rightarrow> Inl err
           | (None, reqs) \<Rightarrow> Inr reqs))"

definition delete_entry :: "'i compliance_env \<Rightarrow> DeleteStatus_entry \<Rightarrow> page_error + 'i write_request list" where
  "delete_entry env entry =
     (case de_Policy entry of
        Some (policyID, resourceTypes) \<Rightarrow> policyDeleteEntries env policyID resourceTypes
      | None \<Rightarrow> resourceDeleteEntries env (the (de_Resource entry)))"

fun delete_requests :: "'i compliance_env \<Rightarrow> DeleteStatus_entry list \<Rightarrow> 'i write_request list option" where
  "delete_requests env [] = Some []"
| "delete_requests env (entry # rest) =
     (case delete_entry env entry of
        Inl _ \<Rightarrow> None
      | Inr reqs \<Rightarrow> map_option (\<lambda>rs. reqs @ rs) (delete_requests env rest))"

definition DeleteStatus :: "'i compliance_env \<Rightarrow> (string \<Rightarrow> error + DeleteStatus_entry list)
    \<Rightarrow> (DeleteStatus_entry list \<Rightarrow> error option) \<Rightarrow> string \<Rightarrow> unit response \<times> 'i writes" where
  "DeleteStatus env decode validate body =
     (case parseDeleteStatus decode validate body of
        Inl e \<Rightarrow> (BadRequest e, None)
      | Inr entries \<Rightarrow>
          (case delete_requests env entries of
             None \<Rightarrow> (InternalServerError, None)
           | Some reqs \<Rightarrow> if reqs = [] then (OK (), None) else write_batch env (OK ()) reqs))"

section \<open>What is written\<close>

lemma write_batch_ok:
  assumes "backoff_retry (ce_retry env)" "bw_client_ok (ce_client env)" "write_batch env success reqs = (resp, w)"
  shows "\<exists>r. w = Some r \<and> (resp = success \<or> resp = InternalServerError) \<and>
    bw_acked r \<subseteq># mset (map (Pair (ce_table env)) reqs) \<and>
    (resp = success \<longrightarrow> success = InternalServerError \<or> bw_acked r = mset (map (Pair (ce_table env)) reqs))"
proof -
  obtain err r where run: "BatchWriteItem (ce_retry env) (ce_client env) [(ce_table env, reqs)] = (err, r)"
    by (cases "BatchWriteItem (ce_retry env) (ce_client env) [(ce_table env, reqs)]")
  have "flat [(ce_table env, reqs)] = map (Pair (ce_table env)) reqs" by (simp add: flat_def)
  with BatchWriteItem_ok [OF assms(1,2) run] assms(3) run show ?thesis
    by (auto simp: write_batch_def split: option.splits)
qed

lemma put_requests_ok:
  "(\<And>st. ce_marshal env st = Inr (mar st)) \<Longrightarrow> put_requests env sts = Some (map (PutRequest \<circ> mar) sts)"
  by (induction sts) simp_all

text \<open>An item with the new severity and suppression.\<close>

definition new_metadata :: "UpdateMetadata_input \<Rightarrow> ComplianceStatus \<Rightarrow> ComplianceStatus" where
  "new_metadata input item = item\<lparr>cs_PolicySeverity := um_Severity input,
     cs_Suppressed := the (isIgnored (cs_ResourceID item) (um_Suppressions input))\<rparr>"

lemma new_metadata_idem [simp]: "new_metadata input (new_metadata input item) = new_metadata input item"
  by (simp add: new_metadata_def)

lemma update_item_ok:
  assumes "\<And>st. ce_marshal env st = Inr (mar st)"
    and "isIgnored (cs_ResourceID item) (um_Suppressions input) \<noteq> None"
  shows "update_item env input item ws =
    (None, if new_metadata input item \<noteq> item then ws @ [PutRequest (mar (new_metadata input item))] else ws)"
proof -
  obtain ignored where "isIgnored (cs_ResourceID item) (um_Suppressions input) = Some ignored"
    using assms(2) by blast
  moreover from this have "new_metadata input item = item \<longleftrightarrow>
      cs_PolicySeverity item = um_Severity input \<and> cs_Suppressed item = ignored"
    by (cases item) (auto simp: new_metadata_def)
  ultimately show ?thesis using assms(1) by (auto simp: update_item_def new_metadata_def)
qed

definition policy_query :: "string \<Rightarrow> query_input" where
  "policy_query policyID = \<lparr>qi_key = (''policyId'', policyID), qi_index = True, qi_filterTypes = [], qi_projection = [],
     qi_consistent = False\<rparr>"

lemma itemsToUpdate_ok:
  assumes "ce_build env = None" "\<And>st. ce_marshal env st = Inr (mar st)"
    and "decode_all (ce_unmarshalList env) (pr_pages (ce_query env (policy_query (um_PolicyID input)))) = Some items"
    and "pr_error (ce_query env (policy_query (um_PolicyID input))) = None"
    and "\<forall>item \<in> set items. isIgnored (cs_ResourceID item) (um_Suppressions input) \<noteq> None"
  shows "itemsToUpdate env input =
    Inr (map (PutRequest \<circ> mar \<circ> new_metadata input) (filter (\<lambda>i. new_metadata input i \<noteq> i) items))"
proof -
  let ?f = "\<lambda>item ws. if new_metadata input item \<noteq> item then ws @ [PutRequest (mar (new_metadata input item))] else ws"
  have "foldl (\<lambda>ws item. ?f item ws) ws xs =
      ws @ map (PutRequest \<circ> mar \<circ> new_metadata input) (filter (\<lambda>i. new_metadata input i \<noteq> i) xs)" for ws xs
    by (induction xs arbitrary: ws) simp_all
  moreover have "\<forall>item \<in> set items. \<forall>ws. update_item env input item ws = (None, ?f item ws)"
    using update_item_ok [OF assms(2)] assms(5) by simp
  ultimately show ?thesis
    using queryPages_total(1) [OF assms(3,4), of "update_item env input" ?f "[]"] assms(1)
    by (simp add: itemsToUpdate_def buildDescribePolicyQuery_def policy_query_def)
qed

text \<open>The query for an entry to delete, and the request for a found item.\<close>

definition delete_query :: "DeleteStatus_entry \<Rightarrow> query_input" where
  "delete_query entry =
     (case de_Policy entry of
        Some (policyID, types) \<Rightarrow> \<lparr>qi_key = (''policyId'', policyID), qi_index = True, qi_filterTypes = types,
            qi_projection = [''resourceId''], qi_consistent = False\<rparr>
      | None \<Rightarrow> \<lparr>qi_key = (''resourceId'', the (de_Resource entry)), qi_index = False, qi_filterTypes = [],
            qi_projection = [''policyId''], qi_consistent = True\<rparr>)"

definition delete_key :: "DeleteStatus_entry \<Rightarrow> ComplianceStatus \<Rightarrow> string \<times> string" where
  "delete_key entry item =
     (case de_Policy entry of
        Some (policyID, _) \<Rightarrow> (cs_ResourceID item, policyID)
      | None \<Rightarrow> (the (de_Resource entry), cs_PolicyID item))"

definition finds :: "'i compliance_env \<Rightarrow> (DeleteStatus_entry \<Rightarrow> ComplianceStatus list) \<Rightarrow> DeleteStatus_entry \<Rightarrow> bool" where
  "finds env found entry \<longleftrightarrow>
     decode_all (ce_unmarshalList env) (pr_pages (ce_query env (delete_query entry))) = Some (found entry) \<and>
     pr_error (ce_query env (delete_query entry)) = None"

lemma foldl_snoc_map: "foldl (\<lambda>ws x. ws @ [g x]) ws xs = ws @ map g xs"
  by (induction xs arbitrary: ws) simp_all

lemma delete_entry_ok:
  assumes "ce_build env = None" "finds env found entry"
  shows "delete_entry env entry = Inr (map (DeleteRequest \<circ> delete_key entry) (found entry))"
  using assms
  by (auto simp: delete_entry_def finds_def delete_query_def delete_key_def policyDeleteEntries_def
      resourceDeleteEntries_def queryPages_pure foldl_snoc_map tableKey_def o_def split: option.splits)

lemma delete_requests_ok:
  "ce_build env = None \<Longrightarrow> \<forall>entry \<in> set entries. finds env found entry \<Longrightarrow>
   delete_requests env entries =
     Some (concat (map (\<lambda>entry. map (DeleteRequest \<circ> delete_key entry) (found entry)) entries))"
  by (induction entries) (simp_all add: delete_entry_ok [of env found])

section \<open>Properties\<close>

text \<open>A table whose items are read as they are, and written through a client that first leaves a request
  unprocessed.\<close>

definition sample_compliance_env :: "ComplianceStatus list \<Rightarrow> ComplianceStatus compliance_env" where
  "sample_compliance_env items = \<lparr>ce_build = None, ce_query = (\<lambda>_. \<lparr>pr_pages = [items], pr_error = None\<rparr>),
     ce_scan = (\<lambda>_. \<lparr>pr_pages = [items], pr_error = None\<rparr>), ce_getItem = (\<lambda>_. Inr None),
     ce_unmarshalList = Inr, ce_unmarshal = Inr, ce_marshal = Inr, ce_table = ''compliance'',
     ce_retry = retry_attempts 1, ce_client = bw_flaky_client\<rparr>"

lemma sample_compliance_simps:
  "ce_build (sample_compliance_env items) = None" "ce_marshal (sample_compliance_env items) st = Inr st"
  "backoff_retry (ce_retry (sample_compliance_env items))" "bw_client_ok (ce_client (sample_compliance_env items))"
  "decode_all (ce_unmarshalList (sample_compliance_env items)) (pr_pages (ce_query (sample_compliance_env items) q)) = Some items"
  "pr_error (ce_query (sample_compliance_env items) q) = None"
  "ce_table (sample_compliance_env items) = ''compliance''"
  by (simp_all add: sample_compliance_env_def backoff_retry_attempts bw_flaky_client_ok)

text \<open>C23. Updating the metadata of a policy: when its items can be read and encoded and no suppression
  pattern is malformed, exactly the items whose severity or suppression differs are rewritten, with the new
  severity and with the suppression that the patterns give for their resource; with none, nothing is
  written. A success means that all of them were written, each once; and on the updated items a second
  request finds nothing to write.\<close>

theorem UpdateMetadata_correct:
  assumes "parseBody decode validate body = Inr input" "ce_build env = None" "\<And>st. ce_marshal env st = Inr (mar st)"
    and "decode_all (ce_unmarshalList env) (pr_pages (ce_query env (policy_query (um_PolicyID input)))) = Some items"
    and "pr_error (ce_query env (policy_query (um_PolicyID input))) = None"
    and "\<forall>item \<in> set items. isIgnored (cs_ResourceID item) (um_Suppressions input) \<noteq> None"
    and "backoff_retry (ce_retry env)" "bw_client_ok (ce_client env)"
    and "UpdateMetadata env decode validate body = (resp, w)"
    and "changed = filter (\<lambda>i. new_metadata input i \<noteq> i) items"
  shows "if changed = [] then resp = OK () \<and> w = None
    else (\<exists>r. w = Some r \<and> resp \<in> {OK (), InternalServerError} \<and>
      bw_acked r \<subseteq># mset (map (\<lambda>i. (ce_table env, PutRequest (mar (new_metadata input i)))) changed) \<and>
      (resp = OK () \<longrightarrow>
        bw_acked r = mset (map (\<lambda>i. (ce_table env, PutRequest (mar (new_metadata input i)))) changed)) \<and>
      filter (\<lambda>i. new_metadata input i \<noteq> i) (map (new_metadata input) items) = [])"
proof -
  have writes: "(itemsToUpdate env input :: unit response + _) = Inr (map (PutRequest \<circ> mar \<circ> new_metadata input) changed)"
    unfolding assms(10) by (rule itemsToUpdate_ok) (use assms in auto)
  show ?thesis
  proof (cases "changed = []")
    case True
    with writes assms(1,9) show ?thesis by (simp add: UpdateMetadata_def)
  next
    case False
    with writes assms(1,9) have
      "write_batch env (OK ()) (map (PutRequest \<circ> mar \<circ> new_metadata input) changed) = (resp, w)"
      by (simp add: UpdateMetadata_def)
    from write_batch_ok [OF assms(7,8) this] False show ?thesis
      by (auto simp: o_def filter_empty_conv)
  qed
qed

theorem UpdateMetadata_correct_witness:
  "\<exists>r. snd (UpdateMetadata (sample_compliance_env [sample_item ''p'' ''prod-1'' ''LOW'' StatusFAIL False,
       sample_item ''p'' ''dev-1'' ''HIGH'' StatusFAIL False])
     (\<lambda>_. Inr \<lparr>um_PolicyID = ''p'', um_Severity = ''HIGH'', um_Suppressions = [''prod-1'']\<rparr>) (\<lambda>_. None) []) = Some r \<and>
   bw_acked r \<subseteq># {# (''compliance'', PutRequest (sample_item ''p'' ''prod-1'' ''HIGH'' StatusFAIL True)) #}"
proof -
  let ?items = "[sample_item ''p'' ''prod-1'' ''LOW'' StatusFAIL False, sample_item ''p'' ''dev-1'' ''HIGH'' StatusFAIL False]"
  let ?env = "sample_compliance_env ?items"
  let ?input = "\<lparr>um_PolicyID = ''p'', um_Severity = ''HIGH'', um_Suppressions = [''prod-1'']\<rparr>"
  have plain: "path_Match ''prod-1'' s = (if s = ''prod-1'' then Matched [] else NoMatch)" for s
    by (rule path_Match_plain) (simp add: plain_pattern_def)
  have ign: "\<forall>item \<in> set ?items. isIgnored (cs_ResourceID item) (um_Suppressions ?input) \<noteq> None"
    by (simp add: plain sample_item_def del: not_None_eq)
  have changed: "filter (\<lambda>i. new_metadata ?input i \<noteq> i) ?items = [sample_item ''p'' ''prod-1'' ''LOW'' StatusFAIL False]"
    and new: "new_metadata ?input (sample_item ''p'' ''prod-1'' ''LOW'' StatusFAIL False) = sample_item ''p'' ''prod-1'' ''HIGH'' StatusFAIL True"
    by (simp_all add: new_metadata_def plain sample_item_def)
  have parse: "parseBody (\<lambda>_. Inr ?input) (\<lambda>_. None) [] = Inr ?input" by (simp add: parseBody_def)
  show ?thesis
    using UpdateMetadata_correct [OF parse sample_compliance_simps(1,2,5,6) ign sample_compliance_simps(3,4)
        prod.collapse [symmetric] changed [symmetric]]
    by (auto simp: new sample_compliance_simps)
qed

text \<open>Setting statuses: for a valid body whose entries can be encoded, one item is written for each
  entry, with its fields, the time of the request and an expiry 50 hours later. The response is 201
  only when all of them were written, each once, and otherwise 500.\<close>

theorem SetStatus_correct:
  assumes "parseBody decode validate body = Inr entries" "\<And>st. ce_marshal env st = Inr (mar st)"
    and "backoff_retry (ce_retry env)" "bw_client_ok (ce_client env)"
    and "SetStatus env decode validate now body = (resp, w)"
    and "items = map (\<lambda>entry. (ce_table env, PutRequest (mar (status_of_entry now entry)))) entries"
  shows "\<exists>r. w = Some r \<and> resp \<in> {Created, InternalServerError} \<and> bw_acked r \<subseteq># mset items \<and>
    (resp = Created \<longrightarrow> bw_acked r = mset items) \<and>
    (\<forall>entry \<in> set entries. cs_ExpiresAt (status_of_entry now entry) = cs_LastUpdated (status_of_entry now entry) + 50 * 60 * 60)"
proof -
  have "write_batch env Created (map (PutRequest \<circ> mar) (map (status_of_entry now) entries)) = (resp, w)"
    using assms(1,5) put_requests_ok [OF assms(2)] by (simp add: SetStatus_def)
  from write_batch_ok [OF assms(3,4) this] show ?thesis
    by (auto simp: assms(6) o_def status_of_entry_def)
qed

definition sample_entry_status :: set_entry where
  "sample_entry_status = \<lparr>se_ErrorMessage = [], se_IntegrationID = ''i'', se_PolicyID = ''p'', se_PolicySeverity = ''LOW'',
     se_ResourceID = ''r'', se_ResourceType = ''AWS.S3.Bucket'', se_Status = StatusPASS, se_Suppressed = False\<rparr>"

theorem SetStatus_correct_witness:
  "\<exists>r. snd (SetStatus (sample_compliance_env []) (\<lambda>_. Inr [sample_entry_status]) (\<lambda>_. None) 1000 []) = Some r \<and>
     bw_acked r \<subseteq># {# (''compliance'', PutRequest (status_of_entry 1000 sample_entry_status)) #}"
proof -
  have parse: "parseBody (\<lambda>_. Inr [sample_entry_status]) (\<lambda>_. None) [] = Inr [sample_entry_status]" by (simp add: parseBody_def)
  show ?thesis
    using SetStatus_correct [OF parse sample_compliance_simps(2,3,4) prod.collapse [symmetric] refl, of "[]" 1000]
    by (auto simp: sample_compliance_simps)
qed

text \<open>Deleting statuses: for a valid body whose queries succeed, the rows deleted are exactly those
  that the queries found, the policy's or the resource's own id completing the key. Nothing is sent when nothing
  was found; a success means that every row was deleted.\<close>

theorem DeleteStatus_correct:
  fixes env :: "'i compliance_env"
  assumes "parseDeleteStatus decode validate body = Inr entries" "ce_build env = None"
    and "\<forall>entry \<in> set entries. finds env found entry" "backoff_retry (ce_retry env)" "bw_client_ok (ce_client env)"
    and "DeleteStatus env decode validate body = (resp, w)"
    and "rows = concat (map (\<lambda>entry. map (\<lambda>i. (ce_table env, DeleteRequest (delete_key entry i))) (found entry)) entries)"
  shows "(\<forall>entry \<in> set entries. (de_Policy entry = None) \<noteq> (de_Resource entry = None)) \<and>
    (if rows = [] then resp = OK () \<and> w = None
     else (\<exists>r. w = Some r \<and> resp \<in> {OK (), InternalServerError} \<and> bw_acked r \<subseteq># mset rows \<and>
       (resp = OK () \<longrightarrow> bw_acked r = mset rows)))"
proof -
  let ?reqs = "concat (map (\<lambda>entry. map (DeleteRequest \<circ> delete_key entry) (found entry)) entries) :: 'i write_request list"
  have reqs: "delete_requests env entries = Some ?reqs" by (rule delete_requests_ok [OF assms(2,3)])
  have rows: "rows = map (Pair (ce_table env)) ?reqs" by (simp add: assms(7) map_concat o_def)
  have "\<forall>entry \<in> set es. (de_Policy entry = None) \<noteq> (de_Resource entry = None)" if "bad_entry i es = None" for i es
    using that by (induction i es rule: bad_entry.induct) (auto split: if_splits simp del: not_None_eq)
  then have "\<forall>entry \<in> set entries. (de_Policy entry = None) \<noteq> (de_Resource entry = None)"
    using assms(1) by (auto simp: parseDeleteStatus_def split: sum.splits option.splits)
  moreover have "if rows = [] then resp = OK () \<and> w = None
     else (\<exists>r. w = Some r \<and> resp \<in> {OK (), InternalServerError} \<and> bw_acked r \<subseteq># mset rows \<and>
       (resp = OK () \<longrightarrow> bw_acked r = mset rows))"
  proof (cases "?reqs = []")
    case True
    with reqs assms(1,6) rows show ?thesis by (simp add: DeleteStatus_def)
  next
    case False
    have "write_batch env (OK ()) ?reqs = (resp, w)"
      using assms(6) False unfolding DeleteStatus_def assms(1) reqs sum.case option.case by (simp only: if_False)
    from write_batch_ok [OF assms(4,5) this] False show ?thesis unfolding rows by auto
  qed
  ultimately show ?thesis by blast
qed

theorem DeleteStatus_correct_witness:
  "\<exists>r. snd (DeleteStatus (sample_compliance_env [sample_item ''p'' ''r1'' ''LOW'' StatusFAIL False])
      (\<lambda>_. Inr [\<lparr>de_Policy = Some (''p'', []), de_Resource = None\<rparr>]) (\<lambda>_. None) []) = Some r \<and>
     bw_acked r \<subseteq># {# (''compliance'', DeleteRequest (''r1'', ''p'')) #}"
proof -
  let ?items = "[sample_item ''p'' ''r1'' ''LOW'' StatusFAIL False]"
  let ?env = "sample_compliance_env ?items"
  let ?entry = "\<lparr>de_Policy = Some (''p'', []), de_Resource = None\<rparr>"
  have parse: "parseDeleteStatus (\<lambda>_. Inr [?entry]) (\<lambda>_. None) [] = Inr [?entry]" by (simp add: parseDeleteStatus_def)
  have found: "\<forall>entry \<in> set [?entry]. finds ?env (\<lambda>_. ?items) entry" by (simp add: finds_def sample_compliance_simps)
  show ?thesis
    using DeleteStatus_correct [OF parse sample_compliance_simps(1) found sample_compliance_simps(3,4) prod.collapse [symmetric] refl]
    by (auto simp: sample_compliance_simps delete_key_def sample_item_def)
qed

text \<open>The page size is not checked: a request for a policy with page size 0 is accepted by the
  parameter parser, and when its query succeeds, whatever the table holds, the handler divides by zero.\<close>

theorem DescribePolicy_zero_page_size:
  assumes "q ''pageSize'' = ''0''" "q ''page'' = []" "q ''status'' = []" "q ''suppressed'' = []"
    and "QueryUnescape (q ''policyId'') = Some policyID" "length policyID \<le> 200" "ce_build env = None"
    and "decode_all (ce_unmarshalList env) (pr_pages (ce_query env (policy_query policyID))) = Some items"
    and "pr_error (ce_query env (policy_query policyID)) = None"
  shows "parsePageParams q = Inr \<lparr>Page = 1, PageSize = 0, ParamStatus = [], ParamSuppressed = None\<rparr> \<and>
    DescribePolicy env q = None"
proof -
  have "Atoi ''0'' = Some 0" by code_simp
  then have params: "parsePageParams q = Inr \<lparr>Page = 1, PageSize = 0, ParamStatus = [], ParamSuppressed = None\<rparr>"
    using assms(1-4) by (simp add: parsePageParams_def)
  have "policyResourceDetail (ce_unmarshalList env) (ce_query env (policy_query policyID))
      \<lparr>Page = 1, PageSize = 0, ParamStatus = [], ParamSuppressed = None\<rparr> [] = None"
    unfolding policyResourceDetail_def queryPages_pure(1) [OF assms(8,9)] by (simp add: make_panics_def)
  moreover have "RuneCountInString policyID \<le> 200" using RuneCountInString_le [of policyID] assms(6) by simp
  ultimately show ?thesis using params assms(5,7)
    by (simp add: DescribePolicy_def parseDescribePolicy_def valid_PolicyID_def buildDescribePolicyQuery_def policy_query_def)
qed

theorem DescribePolicy_zero_page_size_witness:
  "DescribePolicy (sample_compliance_env sample_items) (\<lambda>k. if k = ''pageSize'' then ''0'' else if k = ''policyId'' then ''p1'' else []) = None"
  using DescribePolicy_zero_page_size [of "\<lambda>k. if k = ''pageSize'' then ''0'' else if k = ''policyId'' then ''p1'' else []"
      "''p1''" "sample_compliance_env sample_items" sample_items]
  by (simp add: sample_compliance_simps)

end
