(* ===== verification/Go_Glob.thy ===== *)
theory Go_Glob
  imports Go_Path Go_Strings
begin

text \<open>
  Globs as the program writes them in Go: a pattern is quoted with \<open>regexp.QuoteMeta\<close>, its stars are turned back
  into \<open>.*\<close> with \<open>strings.ReplaceAll\<close>, and the text between \<open>^\<close> and \<open>$\<close> is compiled with \<open>regexp.Compile\<close>
  (\<open>isSuppressed\<close> of the resource processor). The other reading of a pattern in the program is \<open>path.Match\<close> of
  \<open>Go_Path\<close>. Here both are compared with one reference definition, \<open>glob\<close>.

  \<open>Compile\<close> covers the part of the regular expression syntax that such texts use: escaped punctuation, ordinary
  characters, \<open>.*\<close>, and the two anchors; other texts are not given a meaning. Without the flag \<open>s\<close> a dot does
  not match a line feed.
\<close>

abbreviation line_feed :: char where "line_feed \<equiv> CHR 0x0A"

section \<open>The reference\<close>

text \<open>A star stands for any text of characters outside \<open>no\<close>, every other character for itself.\<close>

fun glob :: "char list \<Rightarrow> string \<Rightarrow> string \<Rightarrow> bool" where
  "glob no [] s \<longleftrightarrow> s = []"
| "glob no (p # ps) [] \<longleftrightarrow> p = CHR ''*'' \<and> glob no ps []"
| "glob no (p # ps) (c # cs) \<longleftrightarrow>
     (if p = CHR ''*'' then glob no ps (c # cs) \<or> (c \<notin> set no \<and> glob no (p # ps) cs)
      else p = c \<and> glob no ps cs)"

section \<open>regexp.QuoteMeta, strings.ReplaceAll\<close>

definition special :: "char \<Rightarrow> bool" where
  "special c \<longleftrightarrow> c \<in> set (backslash # ''.+*?()|[]{}^$'')"

fun QuoteMeta :: "string \<Rightarrow> string" where
  "QuoteMeta [] = []"
| "QuoteMeta (c # cs) = (if special c then backslash # c # QuoteMeta cs else c # QuoteMeta cs)"

text \<open>For a non-empty \<open>old\<close>.\<close>

function ReplaceAll :: "string \<Rightarrow> string \<Rightarrow> string \<Rightarrow> string" where
  "ReplaceAll s old new =
     (if s = [] then []
      else if old \<noteq> [] \<and> HasPrefix s old then new @ ReplaceAll (drop (length old) s) old new
      else hd s # ReplaceAll (tl s) old new)"
  by pat_completeness auto
termination by (relation "measure (\<lambda>(s, _). length s)") auto

declare ReplaceAll.simps [simp del]

lemma ReplaceAll_Nil [simp]: "ReplaceAll [] old new = []"
  by (simp add: ReplaceAll.simps)

section \<open>regexp.Compile and MatchString\<close>

datatype glob_item = Char char | AnyText

fun parse_items :: "string \<Rightarrow> glob_item list option" where
  "parse_items [] = None"
| "parse_items [c] = (if c = CHR ''$'' then Some [] else None)"
| "parse_items (c # d # rest) =
     (if c = backslash then (if special d then map_option ((#) (Char d)) (parse_items rest) else None)
      else if c = CHR ''.'' \<and> d = CHR ''*'' then map_option ((#) AnyText) (parse_items rest)
      else if special c then None
      else map_option ((#) (Char c)) (parse_items (d # rest)))"

definition regexp_Compile :: "string \<Rightarrow> glob_item list option" where
  "regexp_Compile s = (case s of [] \<Rightarrow> None | c # cs \<Rightarrow> if c = CHR ''^'' then parse_items cs else None)"

text \<open>The search for a match of the whole text: the anchors leave nothing to choose but the length of each \<open>.*\<close>.\<close>

fun items_match :: "glob_item list \<Rightarrow> string \<Rightarrow> bool" where
  "items_match [] s \<longleftrightarrow> s = []"
| "items_match (Char p # ps) s \<longleftrightarrow> (case s of [] \<Rightarrow> False | c # cs \<Rightarrow> p = c \<and> items_match ps cs)"
| "items_match (AnyText # ps) s \<longleftrightarrow>
     (\<exists>n \<in> set [0..<Suc (length (takeWhile (\<lambda>c. c \<noteq> line_feed) s))]. items_match ps (drop n s))"

definition glob_regex :: "string \<Rightarrow> string" where
  "glob_regex pattern = ''^'' @ ReplaceAll (QuoteMeta pattern) (backslash # ''*'') ''.*'' @ ''$''"

section \<open>The regular expression of a glob matches what the glob matches\<close>

definition item_of :: "char \<Rightarrow> glob_item" where
  "item_of c = (if c = CHR ''*'' then AnyText else Char c)"

lemma QuoteMeta_head: "QuoteMeta cs \<noteq> [] \<Longrightarrow> hd (QuoteMeta cs) \<noteq> CHR ''*''"
  by (cases cs) (auto simp: special_def)

lemma replace_skip: "c \<noteq> backslash \<Longrightarrow> ReplaceAll (c # s) (backslash # ''*'') r = c # ReplaceAll s (backslash # ''*'') r"
  by (subst ReplaceAll.simps) (auto simp: HasPrefix_def)

lemma replace_star: "ReplaceAll (backslash # CHR ''*'' # s) (backslash # ''*'') r = r @ ReplaceAll s (backslash # ''*'') r"
  by (subst ReplaceAll.simps) (simp add: HasPrefix_def)

lemma replace_escaped:
  assumes "d \<noteq> CHR ''*''" "d = backslash \<Longrightarrow> s \<noteq> [] \<Longrightarrow> hd s \<noteq> CHR ''*''"
  shows "ReplaceAll (backslash # d # s) (backslash # ''*'') r = backslash # d # ReplaceAll s (backslash # ''*'') r"
proof -
  have "ReplaceAll (d # s) (backslash # ''*'') r = d # ReplaceAll s (backslash # ''*'') r"
    using assms(2) by (subst ReplaceAll.simps) (cases s; auto simp: HasPrefix_def)
  with assms(1) show ?thesis by (subst ReplaceAll.simps) (auto simp: HasPrefix_def)
qed

lemma parse_items_ordinary:
  assumes "\<not> special c" "rest \<noteq> []"
  shows "parse_items (c # rest) = map_option ((#) (Char c)) (parse_items rest)"
  using assms by (cases rest) (auto simp: special_def)

lemma parse_glob:
  "parse_items (ReplaceAll (QuoteMeta p) (backslash # ''*'') ''.*'' @ ''$'') = Some (map item_of p)"
proof (induction p)
  case (Cons c cs)
  show ?case
  proof (cases "special c")
    case False
    then have "c \<noteq> backslash" "c \<noteq> CHR ''*''" by (auto simp: special_def)
    with Cons False show ?thesis by (simp add: replace_skip parse_items_ordinary item_of_def)
  next
    case special: True
    show ?thesis
    proof (cases "c = CHR ''*''")
      case True
      with Cons special show ?thesis by (simp add: replace_star item_of_def)
    next
      case False
      have "ReplaceAll (backslash # c # QuoteMeta cs) (backslash # ''*'') ''.*'' =
          backslash # c # ReplaceAll (QuoteMeta cs) (backslash # ''*'') ''.*''"
        using False QuoteMeta_head [of cs] by (intro replace_escaped) auto
      with Cons special False show ?thesis by (simp add: item_of_def)
    qed
  qed
qed simp

lemma glob_star:
  "glob no (CHR ''*'' # ps) s \<longleftrightarrow> (\<exists>n \<le> length (takeWhile (\<lambda>c. c \<notin> set no) s). glob no ps (drop n s))"
proof (induction s)
  case (Cons c cs)
  show ?case
  proof (cases "c \<in> set no")
    case False
    have "(\<exists>n \<le> Suc k. P n) \<longleftrightarrow> P 0 \<or> (\<exists>n \<le> k. P (Suc n))" for k and P :: "nat \<Rightarrow> bool"
      by (metis Suc_le_mono le0 old.nat.exhaust)
    with Cons False show ?thesis by simp
  qed simp
qed simp

lemma items_match_glob: "items_match (map item_of p) s \<longleftrightarrow> glob [line_feed] p s"
proof (induction p arbitrary: s)
  case (Cons c p)
  show ?case
  proof (cases "c = CHR ''*''")
    case True
    have "set [0..<Suc k] = {n. n \<le> k}" for k by auto
    with True Cons show ?thesis
      using glob_star [of "[line_feed]" p s] by (simp add: item_of_def del: upt_Suc)
  next
    case False
    with Cons show ?thesis by (cases s) (auto simp: item_of_def)
  qed
qed simp

lemma regexp_of_glob: "regexp_Compile (glob_regex p) = Some (map item_of p)"
  using parse_glob [of p] by (simp add: regexp_Compile_def glob_regex_def)

section \<open>\<open>path.Match\<close> and the reference\<close>

lemma glob_literal:
  "CHR ''*'' \<notin> set chunk \<Longrightarrow> glob no (chunk @ ps) s \<longleftrightarrow> take (length chunk) s = chunk \<and> glob no ps (drop (length chunk) s)"
proof (induction chunk arbitrary: s)
  case (Cons c chunk)
  then show ?case by (cases s) auto
qed simp

lemma glob_star_skip: "\<forall>c \<in> set (take k s). c \<notin> set no \<Longrightarrow> glob no (CHR ''*'' # ps) (drop k s) \<Longrightarrow> glob no (CHR ''*'' # ps) s"
proof (induction s arbitrary: k)
  case (Cons c s)
  then show ?case by (cases k) auto
qed simp

lemma glob_star_star: "glob no (CHR ''*'' # CHR ''*'' # ps) s \<longleftrightarrow> glob no (CHR ''*'' # ps) s"
  by (induction s) auto

lemma glob_stars: "glob no (CHR ''*'' # dropWhile (\<lambda>c. c = CHR ''*'') ps) s \<longleftrightarrow> glob no (CHR ''*'' # ps) s"
proof (induction ps)
  case (Cons c ps)
  then show ?case by (cases "c = CHR ''*''") (auto simp: glob_star_star)
qed simp

lemma glob_only_star: "glob no [CHR ''*''] s \<longleftrightarrow> (\<forall>c \<in> set s. c \<notin> set no)"
  by (induction s) auto

text \<open>A later occurrence of the chunk that the star can reach overlaps nothing the star must not skip: the first
  occurrence is as good as any.\<close>

lemma reachable_chunk:
  assumes here: "take (length chunk) s = chunk" and there: "take (length chunk) (drop n s) = chunk"
    and skipped: "\<forall>c \<in> set (take n s). c \<notin> set no"
  shows "\<forall>c \<in> set (take n (drop (length chunk) s)). c \<notin> set no"
proof (cases n)
  case 0
  then show ?thesis by simp
next
  case (Suc n')
  have chunk: "c \<notin> set no" if mem: "c \<in> set chunk" for c
  proof (rule ccontr)
    assume "\<not> c \<notin> set no"
    moreover obtain j where "j < length chunk" "chunk ! j = c" using mem in_set_conv_nth [of c chunk] by blast
    ultimately have j: "j < length chunk" "chunk ! j \<in> set no" by auto
    then have "\<exists>i. i < length chunk \<and> chunk ! i \<in> set no" by blast
    then obtain i where i: "i < length chunk" "chunk ! i \<in> set no" and least: "\<forall>k < i. \<not> (k < length chunk \<and> chunk ! k \<in> set no)"
      using exists_least_iff [of "\<lambda>i. i < length chunk \<and> chunk ! i \<in> set no"] by blast
    have at: "s ! k = chunk ! k" if "k < length chunk" for k using here that by (metis nth_take)
    have len: "length chunk \<le> length s" using here by (metis length_take min.cobounded1)
    have "n \<le> i"
    proof (rule ccontr)
      assume "\<not> n \<le> i"
      then have "s ! i \<in> set (take n s)" using i(1) len by (auto simp: in_set_conv_nth intro!: exI [of _ i])
      with skipped i at show False by auto
    qed
    have "drop n s ! (i - n) = chunk ! (i - n)" using there i(1) by (metis less_imp_diff_less nth_take)
    then have "chunk ! (i - n) = chunk ! i" using \<open>n \<le> i\<close> i(1) at len by simp
    with least [rule_format, of "i - n"] i Suc \<open>n \<le> i\<close> show False by simp
  qed
  have "set (take n (drop (length chunk) s)) \<subseteq> set (take (n + length chunk) s)"
    by (metis take_drop add.commute set_drop_subset)
  also have "\<dots> = set (take n s) \<union> set (take (length chunk) (drop n s))" by (simp add: take_add)
  finally show ?thesis using skipped there chunk by auto
qed

lemma glob_first_chunk:
  assumes "CHR ''*'' \<notin> set chunk" "take (length chunk) s = chunk"
  shows "glob no (CHR ''*'' # chunk @ CHR ''*'' # ps) s \<longleftrightarrow> glob no (CHR ''*'' # ps) (drop (length chunk) s)"
proof
  assume "glob no (CHR ''*'' # chunk @ CHR ''*'' # ps) s"
  then obtain n where n: "n \<le> length (takeWhile (\<lambda>c. c \<notin> set no) s)" "glob no (chunk @ CHR ''*'' # ps) (drop n s)"
    unfolding glob_star by auto
  then have there: "take (length chunk) (drop n s) = chunk" and rest: "glob no (CHR ''*'' # ps) (drop (length chunk) (drop n s))"
    by (auto simp: glob_literal [OF assms(1)])
  have "\<forall>c \<in> set (take n s). c \<notin> set no" using n(1)
    by (metis (no_types, lifting) in_set_takeD set_takeWhileD takeWhile_eq_take take_take min.absorb1)
  note skip = reachable_chunk [OF assms(2) there this]
  have "drop n (drop (length chunk) s) = drop (length chunk) (drop n s)" by (simp add: add.commute)
  with glob_star_skip [OF skip] rest show "glob no (CHR ''*'' # ps) (drop (length chunk) s)" by simp
next
  assume "glob no (CHR ''*'' # ps) (drop (length chunk) s)"
  then have "glob no (chunk @ CHR ''*'' # ps) s" using assms by (simp add: glob_literal)
  then show "glob no (CHR ''*'' # chunk @ CHR ''*'' # ps) s" unfolding glob_star by (intro exI [of _ 0]) simp
qed

text \<open>Patterns whose only special character is the star.\<close>

definition star_pattern :: "string \<Rightarrow> bool" where
  "star_pattern p \<longleftrightarrow> set p \<inter> {CHR ''?'', CHR ''['', CHR '']'', backslash} = {}"

abbreviation matched :: "match_result \<Rightarrow> bool" where
  "matched r \<equiv> (case r of Matched _ \<Rightarrow> True | _ \<Rightarrow> False)"

lemma star_loop_middle:
  assumes "plain_pattern chunk" "chunk \<noteq> []" "take (length chunk) s \<noteq> chunk"
  shows "(case star_loop chunk False s of
       Matched t \<Rightarrow> length t \<le> length s \<and> (glob ''/'' (CHR ''*'' # ps) t \<longleftrightarrow> glob ''/'' (CHR ''*'' # chunk @ CHR ''*'' # ps) s)
     | NoMatch \<Rightarrow> \<not> glob ''/'' (CHR ''*'' # chunk @ CHR ''*'' # ps) s
     | BadPattern \<Rightarrow> False)"
  using assms(3)
proof (induction s)
  case Nil
  with assms(2) show ?case by (cases chunk) (use assms(1) in \<open>auto simp: plain_pattern_def\<close>)
next
  case (Cons c s)
  have star: "CHR ''*'' \<notin> set chunk" using assms(1) by (auto simp: plain_pattern_def)
  have no: "\<not> glob ''/'' (chunk @ CHR ''*'' # ps) (c # s)" using Cons.prems glob_literal [OF star] by simp
  show ?case
  proof (cases "c = CHR ''/'' \<or> take (length chunk) s = chunk")
    case True
    with no star show ?thesis by (auto simp: matchChunk_plain [OF assms(1)] glob_first_chunk)
  next
    case False
    with Cons.IH no show ?thesis
      by (auto simp: matchChunk_plain [OF assms(1)] split: match_result.splits)
  qed
qed

lemma star_loop_last:
  assumes "plain_pattern chunk" "chunk \<noteq> []" "s \<noteq> chunk"
  shows "(case star_loop chunk True s of
       Matched t \<Rightarrow> t = [] \<and> glob ''/'' (CHR ''*'' # chunk) s
     | NoMatch \<Rightarrow> \<not> glob ''/'' (CHR ''*'' # chunk) s
     | BadPattern \<Rightarrow> False)"
  using assms(3)
proof (induction s)
  case Nil
  with assms(1,2) show ?case by (cases chunk) (auto simp: plain_pattern_def)
next
  case (Cons c s)
  have star: "CHR ''*'' \<notin> set chunk" using assms(1) by (auto simp: plain_pattern_def)
  have lit: "glob ''/'' chunk t \<longleftrightarrow> t = chunk" for t
    using glob_literal [OF star, of "''/''" "[]" t] by (auto simp: take_all_iff)
  show ?case
  proof (cases "s = chunk")
    case True
    have "glob ''/'' (CHR ''*'' # chunk) chunk" unfolding glob_star by (intro exI [of _ 0]) (simp add: lit)
    moreover have "matchChunk chunk s = Matched []" by (simp add: True matchChunk_plain [OF assms(1)])
    moreover have "glob ''/'' (CHR ''*'' # chunk) (c # s) \<longleftrightarrow> c \<noteq> CHR ''/'' \<and> glob ''/'' (CHR ''*'' # chunk) s"
      using Cons.prems lit [of "c # s"] by simp
    ultimately show ?thesis using True by auto
  next
    case False
    have "drop (length chunk) s = [] \<Longrightarrow> take (length chunk) s = chunk \<Longrightarrow> s = chunk"
      by (metis append_Nil2 append_take_drop_id)
    with False Cons show ?thesis
      by (auto simp: matchChunk_plain [OF assms(1)] lit split: match_result.splits)
  qed
qed

lemma scan_plain_star:
  assumes "star_pattern p"
  shows "scan_plain False p = (takeWhile (\<lambda>c. c \<noteq> CHR ''*'') p, dropWhile (\<lambda>c. c \<noteq> CHR ''*'') p)"
  using assms
proof (induction p)
  case (Cons c p)
  then have "star_pattern p" by (simp add: star_pattern_def)
  with Cons show ?case by (auto simp: star_pattern_def)
qed simp

lemma star_pattern_parts:
  assumes "star_pattern p"
  shows "plain_pattern (takeWhile (\<lambda>c. c \<noteq> CHR ''*'') p)" "star_pattern (dropWhile P p)"
  using assms by (auto simp: star_pattern_def plain_pattern_def dest: set_takeWhileD set_dropWhileD)

lemma scanChunk_star:
  assumes "star_pattern p" "p \<noteq> []" "scanChunk p = (star, chunk, rest)"
  shows "plain_pattern chunk" "star_pattern rest" "rest = [] \<or> hd rest = CHR ''*''"
    and "glob no p s \<longleftrightarrow> glob no ((if star then [CHR ''*''] else []) @ chunk @ rest) s"
    and "chunk = [] \<Longrightarrow> star \<and> rest = []"
proof -
  let ?q = "dropWhile (\<lambda>c. c = CHR ''*'') p"
  have q: "star_pattern ?q" by (rule star_pattern_parts(2) [OF assms(1)])
  have parts: "star \<longleftrightarrow> hd p = CHR ''*''" "chunk = takeWhile (\<lambda>c. c \<noteq> CHR ''*'') ?q" "rest = dropWhile (\<lambda>c. c \<noteq> CHR ''*'') ?q"
    using assms(2,3) by (auto simp: scanChunk_def Let_def scan_plain_star [OF q])
  show "plain_pattern chunk" "star_pattern rest" using star_pattern_parts [OF q] parts by simp_all
  show "rest = [] \<or> hd rest = CHR ''*''"
    using hd_dropWhile [of "\<lambda>c. c \<noteq> CHR ''*''" ?q] parts(3) by auto
  have q': "chunk @ rest = ?q" by (simp add: parts)
  show "glob no p s \<longleftrightarrow> glob no ((if star then [CHR ''*''] else []) @ chunk @ rest) s"
  proof (cases star)
    case True
    then obtain ps where "p = CHR ''*'' # ps" using assms(2) parts(1) by (cases p) auto
    then show ?thesis using True q' glob_stars [of no ps s] by simp
  next
    case False
    then have "?q = p" using assms(2) parts(1) by (cases p) auto
    then show ?thesis using False q' by simp
  qed
  show "star \<and> rest = []" if "chunk = []"
  proof -
    have "?q = []" using that parts(2) hd_dropWhile [of "\<lambda>c. c = CHR ''*''" p] by (cases ?q) auto
    then show ?thesis using parts(1,3) assms(2) by (cases p) auto
  qed
qed

text \<open>On a pattern whose only special character is the star, \<open>path.Match\<close> never reports a bad pattern and decides the
  reference in which a star does not cross a slash.\<close>

lemma path_Match_glob:
  assumes "star_pattern p"
  shows "path_Match p s \<noteq> BadPattern \<and> (matched (path_Match p s) \<longleftrightarrow> glob ''/'' p s)"
  using assms
proof (induction "length p" arbitrary: p s rule: less_induct)
  case less
  show ?case
  proof (cases "p = []")
    case True
    then show ?thesis by (simp add: path_Match.simps)
  next
    case False
    obtain star chunk rest where scan: "scanChunk p = (star, chunk, rest)" by (cases "scanChunk p")
    note parts = scanChunk_star [OF less.prems False scan]
    have plain: "CHR ''*'' \<notin> set chunk" using parts(1) by (auto simp: plain_pattern_def)
    have shorter: "length rest < length p" if "chunk \<noteq> []" using scanChunk_shorter [OF scan False] that by simp
    note run = path_Match.simps [of p s, unfolded scan prod.case matchChunk_plain [OF parts(1)]]
    show ?thesis
    proof (cases "chunk = [] \<or> rest = []")
      case True
      have lit: "glob ''/'' chunk s \<longleftrightarrow> s = chunk"
        using glob_literal [OF plain, of "''/''" "[]" s] by (auto simp: take_all_iff)
      have exact: "take (length chunk) s = chunk \<and> drop (length chunk) s = [] \<longleftrightarrow> s = chunk"
        by (metis append_Nil2 append_take_drop_id drop_all order_refl take_all)
      consider "chunk = []" | "chunk \<noteq> []" "s = chunk" | "chunk \<noteq> []" "s \<noteq> chunk" by blast
      then show ?thesis
      proof cases
        case 1
        then show ?thesis using run False parts(4) [of "''/''" s] parts(5) glob_only_star [of "''/''" s] by auto
      next
        case 2
        have "glob ''/'' (CHR ''*'' # chunk) chunk" unfolding glob_star using lit 2 by (intro exI [of _ 0]) simp
        then show ?thesis using run False 2 True parts(4) [of "''/''" s] lit by (simp add: path_Match.simps [of "[]"])
      next
        case 3
        have none: "\<not> (take (length chunk) s = chunk \<and> drop (length chunk) s = [])" using 3 exact by simp
        show ?thesis
          using run False 3 none True star_loop_last [OF parts(1) 3] parts(4) [of "''/''" s] lit
          by (auto simp: path_Match.simps [of "[]"] split: match_result.splits)
      qed
    next
      case two: False
      then obtain ps where rest: "rest = CHR ''*'' # ps" using parts(3) by (cases rest) auto
      have IH: "path_Match rest t \<noteq> BadPattern" "matched (path_Match rest t) \<longleftrightarrow> glob ''/'' rest t" for t
        using less.hyps [OF shorter parts(2)] two by auto
      show ?thesis
      proof (cases "take (length chunk) s = chunk")
        case True
        then show ?thesis
          using run False two IH parts(4) [of "''/''" s] glob_first_chunk [OF plain True, of "''/''" ps] glob_literal [OF plain, of "''/''" rest s]
          by (auto simp: rest)
      next
        case no: False
        have "glob ''/'' (chunk @ rest) s = False" using glob_literal [OF plain, of "''/''" rest s] no by simp
        then show ?thesis
          using run False two no IH parts(4) [of "''/''" s] star_loop_middle [OF parts(1) _ no, of ps]
          by (cases "star_loop chunk False s") (simp_all add: rest)
      qed
    qed
  qed
qed

lemma glob_weaken: "glob no p s \<Longrightarrow> \<forall>c \<in> set s. c \<notin> set no' \<Longrightarrow> glob no' p s"
  by (induction no p s rule: glob.induct) (auto split: if_splits)

end
