(* ===== verification/Resource_Processor.thy ===== *)
theory Resource_Processor
  imports Go_Glob Compliance_Api Awsbatch_SQS
begin

text \<open>
  \<open>compliance/resource_processor/processor\<close>: the Lambda that evaluates policies on resources. A batch of messages
  names updated resources, resources to look up and updated policies; the handler evaluates the pairs with the
  policy engine (\<open>handler.go\<close>), with the policies of \<open>analysis_api.go\<close> and the resources of
  \<open>resources_api.go\<close>, reports a status for every pair to the compliance API and queues a notification for
  every failure that is not suppressed.

  The package variable \<open>policyCache\<close> is a field of \<open>rp_state\<close>, which also keeps what the program did to the outside:
  the batches of statuses that the compliance API took and the runs of \<open>SendMessageBatch\<close>, and, as the program logs
  it, each analysis of policies on resources with what the engine answered (\<open>rp_evals\<close>). Every reading of the
  clock and every call of a service gets a number, counted by \<open>rp_calls\<close>: a service is a function of the number and
  its arguments, so that it may answer differently every time. \<open>GetStatus\<close> is also given the batches taken so
  far. An outcome is a panic or the returned error.
\<close>

datatype outcome = Panicked | Returned "error option"

section \<open>Data\<close>

record EnabledPolicy =
  en_Body :: string
  en_ID :: string
  en_ResourceTypes :: "string list"
  en_Severity :: string
  en_Suppressions :: "string list"
  en_VersionID :: string

text \<open>The fields of the analysis API's \<open>Policy\<close> that the compliance components read.\<close>

record Policy =
  pol_AutoRemediationID :: string
  pol_AutoRemediationParameters :: "(string, string) amap"
  pol_Body :: string
  pol_Description :: string
  pol_DisplayName :: string
  pol_ID :: string
  pol_ResourceTypes :: "string list"
  pol_Runbook :: string
  pol_Severity :: string
  pol_Suppressions :: "string list"
  pol_Tags :: "string list"
  pol_VersionID :: string

record 'j Resource =
  res_Attributes :: "'j option"   \<comment> \<open>\<open>None\<close> is nil\<close>
  res_ID :: string
  res_IntegrationID :: string
  res_Type :: string

type_synonym rp_policies = "(string, EnabledPolicy) amap"
type_synonym 'j rp_resources = "(string, 'j Resource) amap"

record ComplianceNotification =
  cn_ResourceID :: "string option"
  cn_PolicyID :: "string option"
  cn_PolicyVersionID :: "string option"
  cn_ShouldAlert :: "bool option"
  cn_Timestamp :: "int option"

record engine_policy =
  engp_Body :: string
  engp_ID :: string
  engp_ResourceTypes :: "string list"

record 'j engine_resource =
  engr_Attributes :: "'j option"
  engr_ID :: string
  engr_Type :: string

record 'j PolicyEngineInput =
  pe_Policies :: "engine_policy list"
  pe_Resources :: "'j engine_resource list"

text \<open>The engine's result for one resource.\<close>

record engine_result =
  rr_ID :: string
  rr_Errored :: "(string \<times> string) list"   \<comment> \<open>id and message\<close>
  rr_Failed :: "string list"
  rr_Passed :: "string list"

datatype status_answer = StatusFound string | StatusNotFound | StatusError error

record batchResults =
  br_StatusEntries :: "set_entry list"
  br_Alerts :: "sqs_entry list"

record 'j rp_state =
  rp_policyCache :: "(int \<times> rp_policies) option"   \<comment> \<open>\<open>LastUpdated\<close> and \<open>Policies\<close>; \<open>None\<close> while \<open>Policies\<close> is nil\<close>
  rp_calls :: nat
  rp_set :: "set_entry list list"
  rp_queued :: "(sqs_result \<times> sendMessageBatchRequest) list"
  rp_evals :: "(rp_policies \<times> 'j rp_resources \<times> engine_result list) list"

record 'j rp_env =
  re_now :: "nat \<Rightarrow> int"
  re_UnmarshalResource :: "string \<Rightarrow> error + 'j Resource"
  re_UnmarshalPolicy :: "string \<Rightarrow> error + Policy"
  re_UnmarshalLookup :: "string \<Rightarrow> error + string"
  re_GetEnabledPolicies :: "nat \<Rightarrow> error + EnabledPolicy list"
  re_GetPolicy :: "nat \<Rightarrow> string \<Rightarrow> error + Policy"
  re_ListResources :: "nat \<Rightarrow> string list \<Rightarrow> int \<Rightarrow> error + ('j Resource list \<times> int)"
  re_GetResource :: "nat \<Rightarrow> string \<Rightarrow> error + 'j Resource"
  re_range_policies :: "rp_policies \<Rightarrow> rp_policies"
  re_range_resources :: "'j rp_resources \<Rightarrow> 'j rp_resources"
  re_MarshalInput :: "'j PolicyEngineInput \<Rightarrow> error + string"
  re_Invoke :: "nat \<Rightarrow> string \<Rightarrow> error + (string \<times> string)"   \<comment> \<open>\<open>FunctionError\<close> and payload\<close>
  re_UnmarshalOutput :: "string \<Rightarrow> error + engine_result list"
  re_GetStatus :: "nat \<Rightarrow> set_entry list list \<Rightarrow> string \<Rightarrow> string \<Rightarrow> status_answer"   \<comment> \<open>policy and resource\<close>
  re_MarshalNotification :: "ComplianceNotification \<Rightarrow> error + string"
  re_SetStatus :: "nat \<Rightarrow> set_entry list \<Rightarrow> error option"
  re_backoff :: "sendMessageBatchRequest retry"
  re_sqs :: "nat \<Rightarrow> sqs_client"

text \<open>A call of a service or of the clock.\<close>

definition call :: "(nat \<Rightarrow> 'a) \<Rightarrow> 'j rp_state \<Rightarrow> 'a \<times> 'j rp_state" where
  "call f s = (f (rp_calls s), s\<lparr>rp_calls := Suc (rp_calls s)\<rparr>)"

section \<open>analysis_api.go\<close>

definition globalPolicy :: string where "globalPolicy = ''aws_globals''"

definition cacheDuration :: int where "cacheDuration = 30 * 1000000000"

text \<open>\<open>policyCache.Policies != nil && policyCache.LastUpdated.Add(cacheDuration).After(time.Now())\<close>: the cached
  policies if they have not expired. The clock is read only when there is a cache.\<close>

definition fresh_cache :: "'j rp_env \<Rightarrow> 'j rp_state \<Rightarrow> rp_policies option \<times> 'j rp_state" where
  "fresh_cache env s =
     (case rp_policyCache s of
        None \<Rightarrow> (None, s)
      | Some (lastUpdated, policies) \<Rightarrow>
          (case call (re_now env) s of (t, s1) \<Rightarrow> (if lastUpdated + cacheDuration > t then Some policies else None, s1)))"

definition policies_by_id :: "EnabledPolicy list \<Rightarrow> rp_policies" where
  "policies_by_id ps = foldl (\<lambda>m p. amap_put (en_ID p) p m) [] ps"

definition getPolicies :: "'j rp_env \<Rightarrow> 'j rp_state \<Rightarrow> (error + rp_policies) \<times> 'j rp_state" where
  "getPolicies env s =
     (case fresh_cache env s of
        (Some policies, s1) \<Rightarrow> (Inr policies, s1)
      | (None, s1) \<Rightarrow>
          (case call (re_GetEnabledPolicies env) s1 of
             (Inl err, s2) \<Rightarrow> (Inl err, s2)
           | (Inr result, s2) \<Rightarrow>
               (let policies = policies_by_id result
                in case call (re_now env) s2 of
                     (t, s3) \<Rightarrow> (Inr policies, s3\<lparr>rp_policyCache := Some (t, policies)\<rparr>))))"

definition enabled_of_policy :: "Policy \<Rightarrow> EnabledPolicy" where
  "enabled_of_policy p =
     \<lparr>en_Body = pol_Body p, en_ID = pol_ID p, en_ResourceTypes = pol_ResourceTypes p, en_Severity = pol_Severity p,
      en_Suppressions = pol_Suppressions p, en_VersionID = pol_VersionID p\<rparr>"

text \<open>The returned policy is never nil when there is no error.\<close>

definition getGlobalPolicy :: "'j rp_env \<Rightarrow> 'j rp_state \<Rightarrow> (error + EnabledPolicy) \<times> 'j rp_state" where
  "getGlobalPolicy env s =
     (case fresh_cache env s of
        (cached, s1) \<Rightarrow>
          (case (case cached of None \<Rightarrow> None | Some policies \<Rightarrow> map_of policies globalPolicy) of
             Some p \<Rightarrow> (Inr p, s1)
           | None \<Rightarrow>
               (case call (\<lambda>n. re_GetPolicy env n globalPolicy) s1 of
                  (Inl err, s2) \<Rightarrow> (Inl err, s2)
                | (Inr p, s2) \<Rightarrow> (Inr (enabled_of_policy p), s2))))"

section \<open>resources_api.go\<close>

definition resources_by_id :: "'j Resource list \<Rightarrow> 'j rp_resources" where
  "resources_by_id rs = foldl (\<lambda>m r. amap_put (res_ID r) r m) [] rs"

definition getResources :: "'j rp_env \<Rightarrow> string list \<Rightarrow> int \<Rightarrow> 'j rp_state \<Rightarrow> (error + ('j rp_resources \<times> int)) \<times> 'j rp_state" where
  "getResources env resourceTypes pageno s =
     (case call (\<lambda>n. re_ListResources env n resourceTypes pageno) s of
        (Inl err, s1) \<Rightarrow> (Inl err, s1)
      | (Inr (resources, totalPages), s1) \<Rightarrow> (Inr (resources_by_id resources, totalPages), s1))"

definition getResource :: "'j rp_env \<Rightarrow> string \<Rightarrow> 'j rp_state \<Rightarrow> (error + 'j Resource) \<times> 'j rp_state" where
  "getResource env resourceID s = call (\<lambda>n. re_GetResource env n resourceID) s"

section \<open>handler.go: one policy and one resource\<close>

definition isSuppressed :: "string \<Rightarrow> EnabledPolicy \<Rightarrow> bool" where
  "isSuppressed resourceID policy \<longleftrightarrow>
     (\<exists>pattern \<in> set (en_Suppressions policy).
        case regexp_Compile (glob_regex pattern) of None \<Rightarrow> False | Some matcher \<Rightarrow> items_match matcher resourceID)"

definition buildStatus :: "EnabledPolicy \<Rightarrow> 'j Resource \<Rightarrow> string \<Rightarrow> set_entry" where
  "buildStatus policy resource status =
     \<lparr>se_ErrorMessage = [], se_IntegrationID = res_IntegrationID resource, se_PolicyID = en_ID policy,
      se_PolicySeverity = en_Severity policy, se_ResourceID = res_ID resource, se_ResourceType = res_Type resource,
      se_Status = status, se_Suppressed = isSuppressed (res_ID resource) policy\<rparr>"

section \<open>handler.go: analyze\<close>

definition evaluatePolicies :: "'j rp_env \<Rightarrow> rp_policies \<Rightarrow> 'j rp_resources \<Rightarrow> 'j rp_state \<Rightarrow> (error + engine_result list) \<times> 'j rp_state" where
  "evaluatePolicies env policies resources s =
     (let input =
        \<lparr>pe_Policies = map (\<lambda>(_, p). \<lparr>engp_Body = en_Body p, engp_ID = en_ID p, engp_ResourceTypes = en_ResourceTypes p\<rparr>)
            (re_range_policies env policies),
         pe_Resources = map (\<lambda>(_, r). \<lparr>engr_Attributes = res_Attributes r, engr_ID = res_ID r, engr_Type = res_Type r\<rparr>)
            (re_range_resources env resources)\<rparr>
      in case re_MarshalInput env input of
           Inl err \<Rightarrow> (Inl err, s)
         | Inr body \<Rightarrow>
             (case call (\<lambda>n. re_Invoke env n body) s of
                (Inl err, s1) \<Rightarrow> (Inl err, s1)
              | (Inr (functionError, payload), s1) \<Rightarrow>
                  (if functionError \<noteq> [] then (Inl (''policy engine error: '' @ payload), s1)
                   else (re_UnmarshalOutput env payload, s1))))"

text \<open>The loops over the policies of one result. A policy or resource that the maps do not have is a nil pointer,
  which \<open>buildStatus\<close> dereferences.\<close>

fun errored_loop :: "rp_policies \<Rightarrow> 'j rp_resources \<Rightarrow> string \<Rightarrow> (string \<times> string) list \<Rightarrow> batchResults \<Rightarrow> batchResults option" where
  "errored_loop policies resources rid [] r = Some r"
| "errored_loop policies resources rid ((pid, message) # errs) r =
     (case (map_of policies pid, map_of resources rid) of
        (Some policy, Some resource) \<Rightarrow>
          errored_loop policies resources rid errs
            (r\<lparr>br_StatusEntries := br_StatusEntries r @ [buildStatus policy resource StatusERROR\<lparr>se_ErrorMessage := message\<rparr>]\<rparr>)
      | _ \<Rightarrow> None)"

fun passed_loop :: "rp_policies \<Rightarrow> 'j rp_resources \<Rightarrow> string \<Rightarrow> string list \<Rightarrow> batchResults \<Rightarrow> batchResults option" where
  "passed_loop policies resources rid [] r = Some r"
| "passed_loop policies resources rid (pid # pids) r =
     (case (map_of policies pid, map_of resources rid) of
        (Some policy, Some resource) \<Rightarrow>
          passed_loop policies resources rid pids
            (r\<lparr>br_StatusEntries := br_StatusEntries r @ [buildStatus policy resource StatusPASS]\<rparr>)
      | _ \<Rightarrow> None)"

definition defaultDelaySeconds :: int where "defaultDelaySeconds = 30"

definition notification :: "EnabledPolicy \<Rightarrow> 'j Resource \<Rightarrow> int \<Rightarrow> string \<Rightarrow> ComplianceNotification" where
  "notification policy resource t status =
     \<lparr>cn_ResourceID = Some (res_ID resource), cn_PolicyID = Some (en_ID policy), cn_PolicyVersionID = Some (en_VersionID policy),
      cn_ShouldAlert = Some (status \<noteq> StatusFAIL), cn_Timestamp = Some t\<rparr>"

text \<open>The part of the loop over failed policies after the status entry of an unsuppressed failure.\<close>

definition notify :: "'j rp_env \<Rightarrow> string \<Rightarrow> string \<Rightarrow> EnabledPolicy \<Rightarrow> 'j Resource \<Rightarrow> batchResults \<Rightarrow> 'j rp_state
    \<Rightarrow> error option \<times> batchResults \<times> 'j rp_state" where
  "notify env rid pid policy resource r s =
     (case call (\<lambda>n. re_GetStatus env n (rp_set s) pid rid) s of
        (StatusError err, s1) \<Rightarrow> (Some err, r, s1)
      | (answer, s1) \<Rightarrow>
          (let status = (case answer of StatusFound st \<Rightarrow> st | _ \<Rightarrow> StatusPASS)
           in case call (re_now env) s1 of
                (t, s2) \<Rightarrow>
                  (case re_MarshalNotification env (notification policy resource t status) of
                     Inl err \<Rightarrow> (Some err, r, s2)
                   | Inr body \<Rightarrow>
                       (None, r\<lparr>br_Alerts := br_Alerts r @
                          [\<lparr>Id = Itoa (int (length (br_Alerts r))), MessageBody = Some body, DelaySeconds = Some defaultDelaySeconds\<rparr>]\<rparr>, s2))))"

fun failed_loop :: "'j rp_env \<Rightarrow> rp_policies \<Rightarrow> 'j rp_resources \<Rightarrow> string \<Rightarrow> string list \<Rightarrow> batchResults \<Rightarrow> 'j rp_state
    \<Rightarrow> outcome \<times> batchResults \<times> 'j rp_state" where
  "failed_loop env policies resources rid [] r s = (Returned None, r, s)"
| "failed_loop env policies resources rid (pid # pids) r s =
     (case (map_of policies pid, map_of resources rid) of
        (Some policy, Some resource) \<Rightarrow>
          (let entry = buildStatus policy resource StatusFAIL; r1 = r\<lparr>br_StatusEntries := br_StatusEntries r @ [entry]\<rparr>
           in if se_Suppressed entry then failed_loop env policies resources rid pids r1 s
              else (case notify env rid pid policy resource r1 s of
                      (Some err, r2, s2) \<Rightarrow> (Returned (Some err), r2, s2)
                    | (None, r2, s2) \<Rightarrow> failed_loop env policies resources rid pids r2 s2))
      | _ \<Rightarrow> (Panicked, r, s))"

fun results_loop :: "'j rp_env \<Rightarrow> rp_policies \<Rightarrow> 'j rp_resources \<Rightarrow> engine_result list \<Rightarrow> batchResults \<Rightarrow> 'j rp_state
    \<Rightarrow> outcome \<times> batchResults \<times> 'j rp_state" where
  "results_loop env policies resources [] r s = (Returned None, r, s)"
| "results_loop env policies resources (result # results) r s =
     (case errored_loop policies resources (rr_ID result) (rr_Errored result) r of
        None \<Rightarrow> (Panicked, r, s)
      | Some r1 \<Rightarrow>
          (case failed_loop env policies resources (rr_ID result) (rr_Failed result) r1 s of
             (Returned None, r2, s2) \<Rightarrow>
               (case passed_loop policies resources (rr_ID result) (rr_Passed result) r2 of
                  None \<Rightarrow> (Panicked, r2, s2)
                | Some r3 \<Rightarrow> results_loop env policies resources results r3 s2)
           | stop \<Rightarrow> stop))"

text \<open>\<open>analyze\<close> once the policies are known. \<open>None\<close> for the policies of \<open>analyze\<close> is nil.\<close>

definition analyze_with :: "'j rp_env \<Rightarrow> 'j rp_resources \<Rightarrow> rp_policies \<Rightarrow> batchResults \<Rightarrow> 'j rp_state \<Rightarrow> outcome \<times> batchResults \<times> 'j rp_state" where
  "analyze_with env resources policies r s =
     (if policies = [] then (Returned None, r, s\<lparr>rp_evals := rp_evals s @ [([], resources, [])]\<rparr>)
      else (case evaluatePolicies env policies resources s of
              (Inl err, s1) \<Rightarrow> (Returned (Some err), r, s1)
            | (Inr results, s1) \<Rightarrow>
                results_loop env policies resources results r (s1\<lparr>rp_evals := rp_evals s1 @ [(policies, resources, results)]\<rparr>)))"

definition analyze :: "'j rp_env \<Rightarrow> 'j rp_resources \<Rightarrow> rp_policies option \<Rightarrow> batchResults \<Rightarrow> 'j rp_state \<Rightarrow> outcome \<times> batchResults \<times> 'j rp_state" where
  "analyze env resources policies r s =
     (if resources = [] then (Returned None, r, s)
      else (case policies of
              Some ps \<Rightarrow> analyze_with env resources ps r s
            | None \<Rightarrow>
                (case getPolicies env s of
                   (Inl err, s1) \<Rightarrow> (Returned (Some err), r, s1)
                 | (Inr ps, s1) \<Rightarrow> analyze_with env resources ps r s1)))"

section \<open>handler.go: updated policies, delivery, the handler\<close>

text \<open>The loop over pages; \<open>None\<close> is a loop that never ends.\<close>

partial_function (option) resource_page_loop :: "'j rp_env \<Rightarrow> string list \<Rightarrow> rp_policies \<Rightarrow> int \<Rightarrow> int \<Rightarrow> batchResults \<Rightarrow> 'j rp_state
    \<Rightarrow> (outcome \<times> batchResults \<times> 'j rp_state) option" where
  "resource_page_loop env types policies pageno totalPages r s =
     (if pageno \<le> totalPages
      then (case getResources env types pageno s of
              (Inl err, s1) \<Rightarrow> Some (Returned (Some err), r, s1)
            | (Inr (resources, pageCount), s1) \<Rightarrow>
                (case analyze env resources (Some policies) r s1 of
                   (Returned None, r2, s2) \<Rightarrow> resource_page_loop env types policies (wrap64 (pageno + 1)) pageCount r2 s2
                 | stop \<Rightarrow> Some stop))
      else Some (Returned None, r, s))"

definition analyzeUpdatedPolicy :: "'j rp_env \<Rightarrow> Policy \<Rightarrow> batchResults \<Rightarrow> 'j rp_state \<Rightarrow> (outcome \<times> batchResults \<times> 'j rp_state) option" where
  "analyzeUpdatedPolicy env policy r s =
     (case getGlobalPolicy env s of
        (Inl err, s1) \<Rightarrow> Some (Returned (Some err), r, s1)
      | (Inr globalFile, s1) \<Rightarrow>
          resource_page_loop env (pol_ResourceTypes policy)
            (amap_put globalPolicy globalFile [(pol_ID policy, enabled_of_policy policy)]) 1 1 r s1)"

datatype 'j queue_msg = MsgResource "'j Resource" | MsgPolicy Policy | MsgLookup string | MsgUnknown

definition parseQueueMsg :: "'j rp_env \<Rightarrow> string \<Rightarrow> 'j queue_msg" where
  "parseQueueMsg env body =
     (case (case re_UnmarshalResource env body of
              Inr resource \<Rightarrow> if res_Attributes resource \<noteq> None \<and> res_Type resource \<noteq> [] then Some resource else None
            | Inl _ \<Rightarrow> None) of
        Some resource \<Rightarrow> MsgResource resource
      | None \<Rightarrow>
          (case (case re_UnmarshalPolicy env body of
                   Inr policy \<Rightarrow> if pol_Body policy \<noteq> [] then Some policy else None
                 | Inl _ \<Rightarrow> None) of
             Some policy \<Rightarrow> MsgPolicy policy
           | None \<Rightarrow>
               (case re_UnmarshalLookup env body of
                  Inr resourceID \<Rightarrow> if resourceID \<noteq> [] then MsgLookup resourceID else MsgUnknown
                | Inl _ \<Rightarrow> MsgUnknown)))"

definition deliver :: "'j rp_env \<Rightarrow> batchResults \<Rightarrow> 'j rp_state \<Rightarrow> outcome \<times> 'j rp_state" where
  "deliver env r s =
     (if br_StatusEntries r = [] then (Returned None, s)
      else (case call (\<lambda>n. re_SetStatus env n (br_StatusEntries r)) s of
              (Some err, s1) \<Rightarrow> (Returned (Some err), s1)
            | (None, s1) \<Rightarrow>
                (let s2 = s1\<lparr>rp_set := rp_set s1 @ [br_StatusEntries r]\<rparr>
                 in if br_Alerts r = [] then (Returned None, s2)
                    else (case call (\<lambda>n. SendMessageBatch (re_backoff env) (re_sqs env n) (br_Alerts r)) s2 of
                            (run, s3) \<Rightarrow>
                              (let s4 = s3\<lparr>rp_queued := rp_queued s3 @ [run]\<rparr>
                               in case fst run of
                                    SqsPanic \<Rightarrow> (Panicked, s4)
                                  | SqsReturned _ err \<Rightarrow> (Returned (map_option sqs_error_text err), s4))))))"

text \<open>The loop over the records collects the resources and analyzes updated policies at once.\<close>

fun message_loop :: "'j rp_env \<Rightarrow> string list \<Rightarrow> 'j rp_resources \<Rightarrow> batchResults \<Rightarrow> 'j rp_state
    \<Rightarrow> (outcome \<times> 'j rp_resources \<times> batchResults \<times> 'j rp_state) option" where
  "message_loop env [] resources r s = Some (Returned None, resources, r, s)"
| "message_loop env (body # bodies) resources r s =
     (case parseQueueMsg env body of
        MsgPolicy policy \<Rightarrow>
          (case analyzeUpdatedPolicy env policy r s of
             None \<Rightarrow> None
           | Some (Returned None, r1, s1) \<Rightarrow> message_loop env bodies resources r1 s1
           | Some (stop, r1, s1) \<Rightarrow> Some (stop, resources, r1, s1))
      | MsgResource resource \<Rightarrow> message_loop env bodies (amap_put (res_ID resource) resource resources) r s
      | MsgLookup resourceID \<Rightarrow>
          (case getResource env resourceID s of
             (Inl _, s1) \<Rightarrow> message_loop env bodies resources r s1
           | (Inr resource, s1) \<Rightarrow> message_loop env bodies (amap_put (res_ID resource) resource resources) r s1)
      | MsgUnknown \<Rightarrow> message_loop env bodies resources r s)"

definition Handle_resources :: "'j rp_env \<Rightarrow> string list \<Rightarrow> 'j rp_state \<Rightarrow> (outcome \<times> 'j rp_state) option" where
  "Handle_resources env batch s =
     (case message_loop env batch [] \<lparr>br_StatusEntries = [], br_Alerts = []\<rparr> s of
        None \<Rightarrow> None
      | Some (Returned None, resources, r, s1) \<Rightarrow>
          (case analyze env resources None r s1 of
             (Returned None, r2, s2) \<Rightarrow> Some (deliver env r2 s2)
           | (stop, r2, s2) \<Rightarrow> Some (stop, s2))
      | Some (stop, resources, r, s1) \<Rightarrow> Some (stop, s1))"

end
