(* ===== verification/Resource_Delivery.thy ===== *)
theory Resource_Delivery
  imports Resource_Processor
begin

text \<open>
  What the resource processor guarantees. The \<open>grows\<close> lemmas follows the loops from one verdict of the
  policy engine to the whole invocation: the status entries and messages of the batch are exactly what the evaluations
  call for. On top of it are the properties of the handler, of the policy cache, of the loop over pages and of the
  suppressions.
\<close>

section \<open>What an analysis adds to the results\<close>

named_theorems rp_frame \<open>what the parts of an analysis leave alone\<close>

lemma call_frame [rp_frame]:
  "call f s = (a, s') \<Longrightarrow> rp_set s' = rp_set s \<and> rp_queued s' = rp_queued s \<and> rp_evals s' = rp_evals s \<and> rp_policyCache s' = rp_policyCache s"
  by (auto simp: call_def)

text \<open>A status entry that calls for a notification.\<close>

definition open_failure :: "set_entry \<Rightarrow> bool" where
  "open_failure e \<longleftrightarrow> se_Status e = StatusFAIL \<and> \<not> se_Suppressed e"

definition previous_status :: "'j rp_env \<Rightarrow> nat \<Rightarrow> set_entry list list \<Rightarrow> set_entry \<Rightarrow> string" where
  "previous_status env n sets e =
     (case re_GetStatus env n sets (se_PolicyID e) (se_ResourceID e) of StatusFound st \<Rightarrow> st | _ \<Rightarrow> StatusPASS)"

text \<open>The message \<open>a\<close> is the notification of the failure \<open>e\<close>: it asks for an alert when the compliance API had no
  failure of the pair.\<close>

definition alert_for :: "'j rp_env \<Rightarrow> set_entry list list \<Rightarrow> set_entry \<Rightarrow> sqs_entry \<Rightarrow> bool" where
  "alert_for env sets e a \<longleftrightarrow> DelaySeconds a = Some 30 \<and> (\<exists>n ver t body.
     (\<forall>err. re_GetStatus env n sets (se_PolicyID e) (se_ResourceID e) \<noteq> StatusError err) \<and>
     re_MarshalNotification env
       \<lparr>cn_ResourceID = Some (se_ResourceID e), cn_PolicyID = Some (se_PolicyID e), cn_PolicyVersionID = Some ver,
        cn_ShouldAlert = Some (previous_status env n sets e \<noteq> StatusFAIL), cn_Timestamp = Some t\<rparr> = Inr body \<and>
     MessageBody a = Some body)"

text \<open>The entries that the engine's verdicts stand for.\<close>

definition pair_entry :: "rp_policies \<Rightarrow> 'j rp_resources \<Rightarrow> string \<Rightarrow> string \<Rightarrow> string \<Rightarrow> set_entry list" where
  "pair_entry policies resources rid status pid =
     (case (map_of policies pid, map_of resources rid) of
        (Some policy, Some resource) \<Rightarrow> [buildStatus policy resource status] | _ \<Rightarrow> [])"

definition result_entries :: "rp_policies \<Rightarrow> 'j rp_resources \<Rightarrow> engine_result \<Rightarrow> set_entry list" where
  "result_entries policies resources result =
     concat (map (\<lambda>(pid, message). map (\<lambda>e. e\<lparr>se_ErrorMessage := message\<rparr>) (pair_entry policies resources (rr_ID result) StatusERROR pid))
       (rr_Errored result)) @
     concat (map (pair_entry policies resources (rr_ID result) StatusFAIL) (rr_Failed result)) @
     concat (map (pair_entry policies resources (rr_ID result) StatusPASS) (rr_Passed result))"

definition verdicts :: "engine_result \<Rightarrow> nat" where
  "verdicts result = length (rr_Errored result) + length (rr_Failed result) + length (rr_Passed result)"

definition keyed_policies :: "rp_policies \<Rightarrow> bool" where
  "keyed_policies policies \<longleftrightarrow> (\<forall>(k, p) \<in> set policies. en_ID p = k)"

definition keyed_resources :: "'j rp_resources \<Rightarrow> bool" where
  "keyed_resources resources \<longleftrightarrow> (\<forall>(k, r) \<in> set resources. res_ID r = k)"

lemma keyed_policies_lookup: "keyed_policies ps \<Longrightarrow> map_of ps k = Some p \<Longrightarrow> en_ID p = k"
  using map_of_SomeD [of ps k p] by (auto simp: keyed_policies_def)

lemma keyed_resources_lookup: "keyed_resources rs \<Longrightarrow> map_of rs k = Some r \<Longrightarrow> res_ID r = k"
  using map_of_SomeD [of rs k r] by (auto simp: keyed_resources_def)

lemma keyed_resources_put: "keyed_resources rs \<Longrightarrow> keyed_resources (amap_put (res_ID r) r rs)"
  by (auto simp: keyed_resources_def dest!: amap_put_in)

lemma keyed_policies_put: "keyed_policies ps \<Longrightarrow> keyed_policies (amap_put (en_ID p) p ps)"
  by (auto simp: keyed_policies_def dest!: amap_put_in)

lemma keyed_policies_by_id: "keyed_policies (policies_by_id ps)"
proof -
  have "keyed_policies (foldl (\<lambda>m p. amap_put (en_ID p) p m) m ps)" if "keyed_policies m" for m
    using that by (induction ps arbitrary: m) (auto intro: keyed_policies_put)
  from this [of "[]"] show ?thesis by (simp add: policies_by_id_def) (simp add: keyed_policies_def)
qed

lemma keyed_resources_by_id: "keyed_resources (resources_by_id rs)"
proof -
  have "keyed_resources (foldl (\<lambda>m r. amap_put (res_ID r) r m) m rs)" if "keyed_resources m" for m
    using that by (induction rs arbitrary: m) (auto intro: keyed_resources_put)
  from this [of "[]"] show ?thesis by (simp add: resources_by_id_def) (simp add: keyed_resources_def)
qed

text \<open>The results grew by the entries \<open>es\<close>, and by a message with the next number for each of them that calls for one.\<close>

definition grows :: "'j rp_env \<Rightarrow> set_entry list list \<Rightarrow> batchResults \<Rightarrow> set_entry list \<Rightarrow> batchResults \<Rightarrow> bool" where
  "grows env sets r es r' \<longleftrightarrow> br_StatusEntries r' = br_StatusEntries r @ es \<and>
     (\<exists>as. br_Alerts r' = br_Alerts r @ as \<and> list_all2 (alert_for env sets) (filter open_failure es) as \<and>
        map Id as = map (\<lambda>i. Itoa (int i)) [length (br_Alerts r)..<length (br_Alerts r')])"

lemma grows_refl: "grows env sets r [] r"
  by (simp add: grows_def)

lemma grows_trans:
  assumes "grows env sets r es r1" "grows env sets r1 es' r2"
  shows "grows env sets r (es @ es') r2"
proof -
  obtain as where as: "br_Alerts r1 = br_Alerts r @ as" "list_all2 (alert_for env sets) (filter open_failure es) as"
    "map Id as = map (\<lambda>i. Itoa (int i)) [length (br_Alerts r)..<length (br_Alerts r1)]"
    using assms(1) by (auto simp: grows_def)
  obtain as' where as': "br_Alerts r2 = br_Alerts r1 @ as'" "list_all2 (alert_for env sets) (filter open_failure es') as'"
    "map Id as' = map (\<lambda>i. Itoa (int i)) [length (br_Alerts r1)..<length (br_Alerts r2)]"
    using assms(2) by (auto simp: grows_def)
  have "[length (br_Alerts r)..<length (br_Alerts r2)] =
      [length (br_Alerts r)..<length (br_Alerts r1)] @ [length (br_Alerts r1)..<length (br_Alerts r2)]"
    using as(1) as'(1) upt_add_eq_append [of "length (br_Alerts r)" "length (br_Alerts r1)" "length as'"] by (simp add: add.assoc)
  then show ?thesis using assms as as' unfolding grows_def
    by (auto intro!: exI [of _ "as @ as'"] list_all2_appendI)
qed

lemma grows_silent:
  "list_all (\<lambda>e. \<not> open_failure e) es \<Longrightarrow> grows env sets r es (r\<lparr>br_StatusEntries := br_StatusEntries r @ es\<rparr>)"
proof -
  assume "list_all (\<lambda>e. \<not> open_failure e) es"
  then have "filter open_failure es = []" by (simp add: list_all_iff filter_empty_conv)
  then show ?thesis by (simp add: grows_def)
qed

lemma grows_Cons:
  assumes "\<not> open_failure e" "grows env sets (r\<lparr>br_StatusEntries := br_StatusEntries r @ [e]\<rparr>) es r'"
  shows "grows env sets r (e # es) r'"
  using grows_trans [OF grows_silent [of "[e]"] assms(2)] assms(1) by simp

lemma pair_entry_known:
  "map_of policies pid = Some p \<Longrightarrow> map_of resources rid = Some x \<Longrightarrow> pair_entry policies resources rid st pid = [buildStatus p x st]"
  by (simp add: pair_entry_def)

lemma not_open [simp]:
  "\<not> open_failure (buildStatus p r StatusPASS)" "\<not> open_failure (buildStatus p r StatusERROR\<lparr>se_ErrorMessage := m\<rparr>)"
  by (simp_all add: open_failure_def buildStatus_def)

lemma errored_loop_grows:
  assumes "errored_loop policies resources rid errs r = Some r'"
  shows "grows env sets r (concat (map (\<lambda>(pid, m). map (\<lambda>e. e\<lparr>se_ErrorMessage := m\<rparr>) (pair_entry policies resources rid StatusERROR pid)) errs)) r' \<and>
    length (concat (map (\<lambda>(pid, m). map (\<lambda>e. e\<lparr>se_ErrorMessage := m\<rparr>) (pair_entry policies resources rid StatusERROR pid)) errs)) = length errs"
  using assms
proof (induction policies resources rid errs r rule: errored_loop.induct)
  case (2 policies resources rid pid message errs r)
  then obtain p x where px: "map_of policies pid = Some p" "map_of resources rid = Some x"
    by (auto split: option.splits)
  let ?e = "buildStatus p x StatusERROR\<lparr>se_ErrorMessage := message\<rparr>"
  from 2 px have "grows env sets (r\<lparr>br_StatusEntries := br_StatusEntries r @ [?e]\<rparr>)
      (concat (map (\<lambda>(pid, m). map (\<lambda>e. e\<lparr>se_ErrorMessage := m\<rparr>) (pair_entry policies resources rid StatusERROR pid)) errs)) r' \<and>
      length (concat (map (\<lambda>(pid, m). map (\<lambda>e. e\<lparr>se_ErrorMessage := m\<rparr>) (pair_entry policies resources rid StatusERROR pid)) errs)) = length errs"
    by simp
  with px show ?case by (simp add: pair_entry_known [OF px] grows_Cons)
qed (simp add: grows_refl)

lemma passed_loop_grows:
  assumes "passed_loop policies resources rid pids r = Some r'"
  shows "grows env sets r (concat (map (pair_entry policies resources rid StatusPASS) pids)) r' \<and>
    length (concat (map (pair_entry policies resources rid StatusPASS) pids)) = length pids"
  using assms
proof (induction policies resources rid pids r rule: passed_loop.induct)
  case (2 policies resources rid pid pids r)
  then obtain p x where px: "map_of policies pid = Some p" "map_of resources rid = Some x"
    by (auto split: option.splits)
  from 2 px have "grows env sets (r\<lparr>br_StatusEntries := br_StatusEntries r @ [buildStatus p x StatusPASS]\<rparr>)
      (concat (map (pair_entry policies resources rid StatusPASS) pids)) r' \<and>
      length (concat (map (pair_entry policies resources rid StatusPASS) pids)) = length pids"
    by simp
  with px show ?case by (simp add: pair_entry_known [OF px] grows_Cons)
qed (simp add: grows_refl)

lemma notify_grows:
  assumes "notify env rid pid policy resource r s = (None, r', s')" "en_ID policy = pid" "res_ID resource = rid"
    and "\<not> isSuppressed rid policy" "r = r0\<lparr>br_StatusEntries := br_StatusEntries r0 @ [buildStatus policy resource StatusFAIL]\<rparr>"
  shows "grows env (rp_set s) r0 [buildStatus policy resource StatusFAIL] r'"
proof -
  let ?e = "buildStatus policy resource StatusFAIL"
  let ?t = "re_now env (Suc (rp_calls s))" and ?n = "rp_calls s"
  obtain body where
    body: "re_MarshalNotification env (notification policy resource ?t (previous_status env ?n (rp_set s) ?e)) = Inr body"
    and r': "r' = r\<lparr>br_Alerts := br_Alerts r @ [\<lparr>Id = Itoa (int (length (br_Alerts r))), MessageBody = Some body, DelaySeconds = Some 30\<rparr>]\<rparr>"
    and found: "\<forall>err. re_GetStatus env ?n (rp_set s) (en_ID policy) (res_ID resource) \<noteq> StatusError err"
    using assms(1-3)
    by (auto simp: notify_def call_def previous_status_def buildStatus_def defaultDelaySeconds_def
        split: prod.splits status_answer.splits sum.splits)
  have "alert_for env (rp_set s) ?e \<lparr>Id = Itoa (int (length (br_Alerts r))), MessageBody = Some body, DelaySeconds = Some 30\<rparr>"
    using body found unfolding alert_for_def notification_def by (auto simp: buildStatus_def)
  moreover have "open_failure ?e" using assms(3,4) by (simp add: open_failure_def buildStatus_def)
  ultimately show ?thesis using r' assms(5) by (auto simp: grows_def)
qed

lemma notify_frame [rp_frame]:
  "notify env rid pid policy resource r s = (err, r', s') \<Longrightarrow>
     rp_set s' = rp_set s \<and> rp_queued s' = rp_queued s \<and> rp_evals s' = rp_evals s \<and> rp_policyCache s' = rp_policyCache s"
  by (auto simp: notify_def call_def Let_def split: prod.splits status_answer.splits sum.splits)

lemma failed_loop_frame [rp_frame]:
  "failed_loop env policies resources rid pids r s = (out, r', s') \<Longrightarrow>
     rp_set s' = rp_set s \<and> rp_queued s' = rp_queued s \<and> rp_evals s' = rp_evals s \<and> rp_policyCache s' = rp_policyCache s"
proof (induction pids arbitrary: r s)
  case (Cons pid pids)
  show ?case
  proof (cases "map_of policies pid = None \<or> map_of resources rid = None")
    case True
    with Cons.prems show ?thesis by (auto split: option.splits)
  next
    case False
    then obtain policy resource where p: "map_of policies pid = Some policy" "map_of resources rid = Some resource" by auto
    let ?e = "buildStatus policy resource StatusFAIL"
    let ?r1 = "r\<lparr>br_StatusEntries := br_StatusEntries r @ [?e]\<rparr>"
    obtain err r2 s2 where n: "notify env rid pid policy resource ?r1 s = (err, r2, s2)" by (rule prod_cases3)
    with Cons.prems p have "failed_loop env policies resources rid pids ?r1 s = (out, r', s') \<or> s' = s2 \<or>
        failed_loop env policies resources rid pids r2 s2 = (out, r', s')"
      by (auto simp: Let_def split: option.splits if_splits)
    with Cons.IH notify_frame [OF n] show ?thesis by metis
  qed
qed simp

lemma failed_loop_grows:
  assumes "failed_loop env policies resources rid pids r s = (Returned None, r', s')"
    and "keyed_policies policies" "keyed_resources resources"
  shows "grows env (rp_set s) r (concat (map (pair_entry policies resources rid StatusFAIL) pids)) r' \<and>
    length (concat (map (pair_entry policies resources rid StatusFAIL) pids)) = length pids"
  using assms(1)
proof (induction pids arbitrary: r s)
  case (Cons pid pids)
  then obtain p x where px: "map_of policies pid = Some p" "map_of resources rid = Some x"
    by (auto split: option.splits)
  have ids: "en_ID p = pid" "res_ID x = rid"
    using keyed_policies_lookup [OF assms(2) px(1)] keyed_resources_lookup [OF assms(3) px(2)] .
  let ?e = "buildStatus p x StatusFAIL"
  let ?r1 = "r\<lparr>br_StatusEntries := br_StatusEntries r @ [?e]\<rparr>"
  show ?case
  proof (cases "isSuppressed rid p")
    case True
    then have "\<not> open_failure ?e" "se_Suppressed ?e" using ids by (auto simp: open_failure_def buildStatus_def)
    with Cons px show ?thesis by (simp add: pair_entry_known [OF px] grows_Cons)
  next
    case False
    then have "\<not> se_Suppressed ?e" using ids by (simp add: buildStatus_def)
    with Cons.prems px obtain r2 s2 where n: "notify env rid pid p x ?r1 s = (None, r2, s2)"
      and rest: "failed_loop env policies resources rid pids r2 s2 = (Returned None, r', s')"
      by (auto simp: Let_def split: prod.splits option.splits)
    have "grows env (rp_set s) r [?e] r2" by (rule notify_grows [OF n ids False]) simp
    moreover have "rp_set s2 = rp_set s" using notify_frame [OF n] by simp
    ultimately show ?thesis using Cons.IH [OF rest] grows_trans [of env "rp_set s" r "[?e]" r2]
      by (simp add: pair_entry_known [OF px])
  qed
qed (simp add: grows_refl)

lemma results_loop_frame [rp_frame]:
  "results_loop env policies resources results r s = (out, r', s') \<Longrightarrow>
     rp_set s' = rp_set s \<and> rp_queued s' = rp_queued s \<and> rp_evals s' = rp_evals s \<and> rp_policyCache s' = rp_policyCache s"
proof (induction results arbitrary: r s)
  case (Cons result results)
  show ?case
  proof (cases "errored_loop policies resources (rr_ID result) (rr_Errored result) r")
    case None
    with Cons.prems show ?thesis by simp
  next
    case (Some r1)
    obtain out2 r2 s2 where f: "failed_loop env policies resources (rr_ID result) (rr_Failed result) r1 s = (out2, r2, s2)"
      by (cases "failed_loop env policies resources (rr_ID result) (rr_Failed result) r1 s")
    note failed_loop_frame [OF f]
    with Some f Cons.prems Cons.IH [of _ s2] show ?thesis
      by (cases "out2 = Returned None")
         (auto split: option.splits outcome.splits)
  qed
qed simp

lemma results_loop_grows:
  assumes "results_loop env policies resources results r s = (Returned None, r', s')"
    and "keyed_policies policies" "keyed_resources resources"
  shows "grows env (rp_set s) r (concat (map (result_entries policies resources) results)) r' \<and>
    length (concat (map (result_entries policies resources) results)) = sum_list (map verdicts results)"
  using assms(1)
proof (induction results arbitrary: r s)
  case (Cons result results)
  then obtain r1 r2 s2 r3 where loops: "errored_loop policies resources (rr_ID result) (rr_Errored result) r = Some r1"
    "failed_loop env policies resources (rr_ID result) (rr_Failed result) r1 s = (Returned None, r2, s2)"
    "passed_loop policies resources (rr_ID result) (rr_Passed result) r2 = Some r3"
    "results_loop env policies resources results r3 s2 = (Returned None, r', s')"
    by (auto split: option.splits prod.splits outcome.splits)
  note parts = errored_loop_grows [OF loops(1), of env "rp_set s"] failed_loop_grows [OF loops(2) assms(2,3)]
    passed_loop_grows [OF loops(3), of env "rp_set s"]
  have "grows env (rp_set s) r (result_entries policies resources result) r3"
    unfolding result_entries_def
    by (rule grows_trans [OF conjunct1 [OF parts(1)] grows_trans [OF conjunct1 [OF parts(2)] conjunct1 [OF parts(3)]]])
  moreover have "length (result_entries policies resources result) = verdicts result"
    using parts by (simp add: result_entries_def verdicts_def del: length_concat)
  moreover have "rp_set s2 = rp_set s" using failed_loop_frame [OF loops(2)] by simp
  ultimately show ?case using Cons.IH [OF loops(4)] grows_trans [of env "rp_set s" r "result_entries policies resources result" r3]
    by (simp del: length_concat)
qed (simp add: grows_refl)

section \<open>A whole invocation\<close>

text \<open>The analysis API returns the policy it was asked for.\<close>

definition rp_services :: "'j rp_env \<Rightarrow> bool" where
  "rp_services env \<longleftrightarrow> (\<forall>n pid p. re_GetPolicy env n pid = Inr p \<longrightarrow> pol_ID p = pid)"

definition cache_ok :: "'j rp_state \<Rightarrow> bool" where
  "cache_ok s \<longleftrightarrow> (case rp_policyCache s of None \<Rightarrow> True | Some (_, ps) \<Rightarrow> keyed_policies ps)"

type_synonym 'j evaluation = "rp_policies \<times> 'j rp_resources \<times> engine_result list"

definition eval_entries :: "'j evaluation \<Rightarrow> set_entry list" where
  "eval_entries ev = (case ev of (ps, rs, results) \<Rightarrow> concat (map (result_entries ps rs) results))"

definition eval_verdicts :: "'j evaluation \<Rightarrow> nat" where
  "eval_verdicts ev = (case ev of (ps, rs, results) \<Rightarrow> sum_list (map verdicts results))"

text \<open>From results \<open>r\<close> and state \<open>s\<close> the program came to \<open>r'\<close> and \<open>s'\<close> by the evaluations \<open>evs\<close>, and added to the
  results exactly what they call for.\<close>

definition advances :: "'j rp_env \<Rightarrow> batchResults \<Rightarrow> 'j rp_state \<Rightarrow> 'j evaluation list \<Rightarrow> batchResults \<Rightarrow> 'j rp_state \<Rightarrow> bool" where
  "advances env r s evs r' s' \<longleftrightarrow> rp_evals s' = rp_evals s @ evs \<and> rp_set s' = rp_set s \<and> rp_queued s' = rp_queued s \<and>
     cache_ok s' \<and> grows env (rp_set s) r (concat (map eval_entries evs)) r' \<and>
     list_all (\<lambda>ev. length (eval_entries ev) = eval_verdicts ev) evs"

lemma advances_refl: "cache_ok s \<Longrightarrow> advances env r s [] r s"
  by (simp add: advances_def grows_refl)

lemma advances_trans: "advances env r s evs r1 s1 \<Longrightarrow> advances env r1 s1 evs' r2 s2 \<Longrightarrow> advances env r s (evs @ evs') r2 s2"
  by (auto simp: advances_def intro: grows_trans)

lemma advances_after:
  assumes "rp_set s1 = rp_set s \<and> rp_queued s1 = rp_queued s \<and> rp_evals s1 = rp_evals s"
    and "advances env r s1 evs r' s'"
  shows "advances env r s evs r' s'"
  using assms by (simp add: advances_def)

lemma advances_cache: "advances env r s evs r' s' \<Longrightarrow> cache_ok s'"
  by (simp add: advances_def)

lemma fresh_cache_frame [rp_frame]:
  assumes "fresh_cache env s = (cached, s')"
  shows "rp_set s' = rp_set s \<and> rp_queued s' = rp_queued s \<and> rp_evals s' = rp_evals s \<and> rp_policyCache s' = rp_policyCache s"
  using assms by (auto simp: fresh_cache_def call_def split: option.splits prod.splits)

lemma fresh_cache_keyed: "fresh_cache env s = (Some ps, s') \<Longrightarrow> cache_ok s \<Longrightarrow> keyed_policies ps"
  by (auto simp: fresh_cache_def cache_ok_def split: option.splits prod.splits if_splits)

lemma cache_ok_cong: "rp_policyCache s' = rp_policyCache s \<Longrightarrow> cache_ok s' = cache_ok s"
  by (simp add: cache_ok_def)

lemma getPolicies_ok:
  assumes "getPolicies env s = (res, s')" "cache_ok s"
  shows "rp_set s' = rp_set s \<and> rp_queued s' = rp_queued s \<and> rp_evals s' = rp_evals s \<and> cache_ok s' \<and>
    (\<forall>ps. res = Inr ps \<longrightarrow> keyed_policies ps)"
proof -
  obtain cached s1 where f: "fresh_cache env s = (cached, s1)" by (cases "fresh_cache env s")
  note frame = fresh_cache_frame [OF f]
  with assms(2) have c: "cache_ok s1" by (simp add: cache_ok_def)
  show ?thesis
  proof (cases cached)
    case (Some ps)
    with f assms frame c fresh_cache_keyed [of env s ps s1] show ?thesis by (auto simp: getPolicies_def)
  next
    case None
    with f assms(1) frame c show ?thesis
      by (auto simp: getPolicies_def call_def Let_def cache_ok_def keyed_policies_by_id split: sum.splits)
  qed
qed

lemma getGlobalPolicy_ok:
  assumes "getGlobalPolicy env s = (res, s')" "cache_ok s" "rp_services env"
  shows "rp_set s' = rp_set s \<and> rp_queued s' = rp_queued s \<and> rp_evals s' = rp_evals s \<and> cache_ok s' \<and>
    (\<forall>p. res = Inr p \<longrightarrow> en_ID p = globalPolicy)"
proof -
  obtain cached s1 where f: "fresh_cache env s = (cached, s1)" by (cases "fresh_cache env s")
  note frame = fresh_cache_frame [OF f]
  with assms(2) have c: "cache_ok s1" by (simp add: cache_ok_def)
  let ?hit = "case cached of None \<Rightarrow> None | Some policies \<Rightarrow> map_of policies globalPolicy"
  show ?thesis
  proof (cases ?hit)
    case (Some p)
    then obtain ps where ps: "cached = Some ps" "map_of ps globalPolicy = Some p" by (auto split: option.splits)
    have "en_ID p = globalPolicy"
      using keyed_policies_lookup [OF fresh_cache_keyed [of env s ps s1] ps(2)] f assms(2) ps(1) by simp
    with f assms(1) frame c Some show ?thesis by (auto simp: getGlobalPolicy_def)
  next
    case None
    then have "(res, s') = (case call (\<lambda>n. re_GetPolicy env n globalPolicy) s1 of
        (Inl err, s2) \<Rightarrow> (Inl err, s2) | (Inr p, s2) \<Rightarrow> (Inr (enabled_of_policy p), s2))"
      using f assms(1) by (simp add: getGlobalPolicy_def)
    with frame c assms(3) show ?thesis
      by (auto simp: call_def cache_ok_def enabled_of_policy_def rp_services_def split: sum.splits)
  qed
qed

lemma analyze_with_advances:
  assumes "analyze_with env resources policies r s = (Returned None, r', s')"
    and "keyed_policies policies" "keyed_resources resources" "cache_ok s"
  shows "\<exists>results. advances env r s [(policies, resources, results)] r' s'"
proof (cases "policies = []")
  case True
  with assms show ?thesis
    by (auto simp: analyze_with_def advances_def eval_entries_def eval_verdicts_def grows_refl cache_ok_def intro!: exI [of _ "[]"])
next
  case False
  with assms(1) obtain results s1 where e: "evaluatePolicies env policies resources s = (Inr results, s1)"
    and loop: "results_loop env policies resources results r (s1\<lparr>rp_evals := rp_evals s1 @ [(policies, resources, results)]\<rparr>) = (Returned None, r', s')"
    by (auto simp: analyze_with_def split: prod.splits sum.splits)
  have "rp_set s1 = rp_set s \<and> rp_queued s1 = rp_queued s \<and> rp_evals s1 = rp_evals s \<and> rp_policyCache s1 = rp_policyCache s"
    using e by (auto simp: evaluatePolicies_def call_def Let_def split: sum.splits prod.splits if_splits)
  with results_loop_grows [OF loop assms(2,3)] results_loop_frame [OF loop] assms(4) show ?thesis
    by (auto simp: advances_def eval_entries_def eval_verdicts_def cache_ok_def simp del: length_concat intro!: exI [of _ results])
qed

lemma analyze_advances:
  assumes "analyze env resources ps r s = (Returned None, r', s')" "keyed_resources resources" "cache_ok s"
    and "\<forall>p. ps = Some p \<longrightarrow> keyed_policies p"
  shows "\<exists>evs. advances env r s evs r' s' \<and> (resources \<noteq> [] \<longrightarrow> (\<exists>p results. evs = [(p, resources, results)]))"
proof (cases "resources = []")
  case True
  with assms show ?thesis by (auto simp: analyze_def intro!: exI [of _ "[]"] advances_refl)
next
  case False
  show ?thesis
  proof (cases ps)
    case (Some p)
    with False assms analyze_with_advances [of env resources p r s r' s'] show ?thesis by (auto simp: analyze_def)
  next
    case None
    with False assms(1) obtain p s1 where g: "getPolicies env s = (Inr p, s1)"
      and w: "analyze_with env resources p r s1 = (Returned None, r', s')"
      by (auto simp: analyze_def split: prod.splits sum.splits)
    note ok = getPolicies_ok [OF g assms(3)]
    from analyze_with_advances [OF w _ assms(2)] ok obtain results where "advances env r s1 [(p, resources, results)] r' s'" by auto
    with ok False show ?thesis using advances_after [of s1 s] by (metis (no_types, lifting))
  qed
qed

lemma page_loop_advances:
  assumes "resource_page_loop env types policies pageno pages_total r s = Some y"
    and "fst y = Returned None" "keyed_policies policies" "cache_ok s"
  shows "\<exists>evs. advances env r s evs (fst (snd y)) (snd (snd y))"
  using assms
proof (induction rule: resource_page_loop.raw_induct [rotated, consumes 1, case_names 1])
  case (1 loop env types policies pageno pages_total r s y)
  show ?case
  proof (cases "pageno \<le> pages_total")
    case False
    with 1(2,5) show ?thesis by (auto intro!: exI [of _ "[]"] advances_refl)
  next
    case True
    with 1(2,3) obtain resources pageCount s1 where g: "getResources env types pageno s = (Inr (resources, pageCount), s1)"
      by (auto split: prod.splits sum.splits)
    obtain out2 r2 s2 where a2: "analyze env resources (Some policies) r s1 = (out2, r2, s2)" by (rule prod_cases3)
    have step: "(case out2 of Returned None \<Rightarrow> loop env types policies (wrap64 (pageno + 1)) pageCount r2 s2 | _ \<Rightarrow> Some (out2, r2, s2)) = Some y"
      using True 1(2) by (simp add: g a2 split: outcome.splits option.splits)
    then have "out2 = Returned None" using 1(3) by (auto split: outcome.splits option.splits)
    with a2 step have a: "analyze env resources (Some policies) r s1 = (Returned None, r2, s2)"
      and rest: "loop env types policies (wrap64 (pageno + 1)) pageCount r2 s2 = Some y" by simp_all
    have frame: "rp_set s1 = rp_set s \<and> rp_queued s1 = rp_queued s \<and> rp_evals s1 = rp_evals s" "cache_ok s1"
      and keyed: "keyed_resources resources"
      using g 1(5) cache_ok_cong [of s1 s] by (auto simp: getResources_def call_def keyed_resources_by_id split: sum.splits prod.splits)
    from analyze_advances [OF a keyed frame(2)] 1(4) obtain evs where evs: "advances env r s1 evs r2 s2" by auto
    from 1(1) [OF rest 1(3,4) advances_cache [OF evs]] obtain evs' where "advances env r2 s2 evs' (fst (snd y)) (snd (snd y))" by blast
    with advances_trans advances_after [OF frame(1) evs] show ?thesis by blast
  qed
qed

lemma analyzeUpdatedPolicy_advances:
  assumes "analyzeUpdatedPolicy env policy r s = Some (Returned None, r', s')" "cache_ok s" "rp_services env"
  shows "\<exists>evs. advances env r s evs r' s'"
proof -
  obtain globalFile s1 where g: "getGlobalPolicy env s = (Inr globalFile, s1)"
    using assms(1) by (auto simp: analyzeUpdatedPolicy_def split: prod.splits sum.splits)
  note ok = getGlobalPolicy_ok [OF g assms(2,3)]
  let ?ps = "amap_put globalPolicy globalFile [(pol_ID policy, enabled_of_policy policy)]"
  have "keyed_policies [(pol_ID policy, enabled_of_policy policy)]" by (simp add: keyed_policies_def enabled_of_policy_def)
  with ok have keyed: "keyed_policies ?ps" using keyed_policies_put [of _ globalFile] by metis
  have loop: "resource_page_loop env (pol_ResourceTypes policy) ?ps 1 1 r s1 = Some (Returned None, r', s')"
    using assms(1) g by (simp add: analyzeUpdatedPolicy_def)
  from page_loop_advances [OF loop _ keyed] ok obtain evs where "advances env r s1 evs r' s'" by auto
  with ok advances_after [of s1 s] show ?thesis by blast
qed

lemma message_loop_advances:
  assumes "message_loop env bodies resources r s = Some (Returned None, resources', r', s')"
    and "cache_ok s" "rp_services env" "keyed_resources resources"
  shows "keyed_resources resources' \<and> fst ` set resources \<subseteq> fst ` set resources' \<and>
    (\<forall>body resource. body \<in> set bodies \<longrightarrow> parseQueueMsg env body = MsgResource resource \<longrightarrow> res_ID resource \<in> fst ` set resources') \<and>
    (\<exists>evs. advances env r s evs r' s')"
  using assms(1,2,4)
proof (induction bodies arbitrary: resources r s)
  case Nil
  then show ?case by (auto intro!: exI [of _ "[]"] advances_refl)
next
  case (Cons body bodies)
  show ?case
  proof (cases "parseQueueMsg env body")
    case (MsgResource resource)
    with Cons.prems Cons.IH [OF _ Cons.prems(2) keyed_resources_put [OF Cons.prems(3)]] show ?thesis
      by (auto simp: keys_amap_put)
  next
    case (MsgPolicy policy)
    with Cons.prems(1) obtain r1 s1 where p: "analyzeUpdatedPolicy env policy r s = Some (Returned None, r1, s1)"
      and rest: "message_loop env bodies resources r1 s1 = Some (Returned None, resources', r', s')"
      by (auto split: option.splits outcome.splits)
    from analyzeUpdatedPolicy_advances [OF p Cons.prems(2) assms(3)] obtain evs where evs: "advances env r s evs r1 s1" ..
    note IH = Cons.IH [OF rest advances_cache [OF evs] Cons.prems(3)]
    moreover have "\<exists>evs. advances env r s evs r' s'" using IH advances_trans [OF evs] by blast
    ultimately show ?thesis using MsgPolicy by auto
  next
    case (MsgLookup rid)
    obtain res s1 where l: "getResource env rid s = (res, s1)" by (cases "getResource env rid s")
    then have frame: "rp_set s1 = rp_set s \<and> rp_queued s1 = rp_queued s \<and> rp_evals s1 = rp_evals s" "cache_ok s1"
      using Cons.prems(2) by (auto simp: getResource_def call_def cache_ok_def)
    note after = advances_after [OF frame(1)]
    show ?thesis
    proof (cases res)
      case (Inl err)
      with l MsgLookup Cons.prems(1) have "message_loop env bodies resources r s1 = Some (Returned None, resources', r', s')" by simp
      note IH = Cons.IH [OF this frame(2) Cons.prems(3)]
      moreover have "\<exists>evs. advances env r s evs r' s'" using IH after by blast
      ultimately show ?thesis using MsgLookup by auto
    next
      case (Inr resource)
      with l MsgLookup Cons.prems(1)
      have "message_loop env bodies (amap_put (res_ID resource) resource resources) r s1 = Some (Returned None, resources', r', s')" by simp
      note IH = Cons.IH [OF this frame(2) keyed_resources_put [OF Cons.prems(3)]]
      moreover have "\<exists>evs. advances env r s evs r' s'" using IH after by blast
      ultimately show ?thesis using MsgLookup by (auto simp: keys_amap_put)
    qed
  next
    case MsgUnknown
    with Cons show ?thesis by auto
  qed
qed

text \<open>What an invocation without error delivered for the evaluations it made.\<close>

definition delivered :: "'j rp_env \<Rightarrow> 'j evaluation list \<Rightarrow> 'j rp_state \<Rightarrow> 'j rp_state \<Rightarrow> bool" where
  "delivered env evs s s' \<longleftrightarrow>
     (let entries = concat (map eval_entries evs); failures = filter open_failure entries
      in rp_set s' = rp_set s @ (if entries = [] then [] else [entries]) \<and>
         (if failures = [] then rp_queued s' = rp_queued s
          else (\<exists>run alerts. rp_queued s' = rp_queued s @ [run] \<and> list_all2 (alert_for env (rp_set s)) failures alerts \<and>
                  distinct (map Id alerts) \<and> sqs_acked (snd run) = mset alerts)))"

lemma deliver_delivered:
  assumes "deliver env r s1 = (Returned None, s')" "advances env \<lparr>br_StatusEntries = [], br_Alerts = []\<rparr> s evs r s1"
    and "backoff_retry (re_backoff env)" "\<And>n. sqs_client_ok (re_sqs env n)"
  shows "rp_evals s' = rp_evals s @ evs \<and> delivered env evs s s'"
proof -
  let ?entries = "concat (map eval_entries evs)"
  have adv: "rp_evals s1 = rp_evals s @ evs" "rp_set s1 = rp_set s" "rp_queued s1 = rp_queued s" "br_StatusEntries r = ?entries"
    and alerts: "list_all2 (alert_for env (rp_set s)) (filter open_failure ?entries) (br_Alerts r)"
    and ids: "map Id (br_Alerts r) = map (\<lambda>i. Itoa (int i)) [0..<length (br_Alerts r)]"
    using assms(2) by (auto simp: advances_def grows_def)
  have d: "distinct (map Id (br_Alerts r))" unfolding ids by (simp add: distinct_map inj_on_def)
  show ?thesis
  proof (cases "?entries = []")
    case True
    with assms(1) adv show ?thesis by (simp add: deliver_def delivered_def)
  next
    case False
    show ?thesis
    proof (cases "br_Alerts r = []")
      case True
      then have "filter open_failure ?entries = []" using alerts by simp
      moreover have "rp_set s' = rp_set s @ [?entries]" "rp_queued s' = rp_queued s" "rp_evals s' = rp_evals s @ evs"
        using assms(1) False True adv by (auto simp: deliver_def call_def simp del: concat_eq_Nil_conv split: option.splits)
      ultimately show ?thesis using False by (simp add: delivered_def del: filter_concat concat_eq_Nil_conv)
    next
      case alerting: False
      then have fails: "filter open_failure ?entries \<noteq> []" using alerts by auto
      obtain run where run: "run = SendMessageBatch (re_backoff env) (re_sqs env (Suc (rp_calls s1))) (br_Alerts r)" by simp
      obtain xs where "fst run = SqsReturned xs None" and s': "rp_set s' = rp_set s @ [?entries]"
        "rp_queued s' = rp_queued s @ [run]" "rp_evals s' = rp_evals s @ evs"
        using assms(1) False alerting adv run
        by (auto simp: deliver_def call_def Let_def simp del: concat_eq_Nil_conv split: option.splits sqs_result.splits)
      then have "SendMessageBatch (re_backoff env) (re_sqs env (Suc (rp_calls s1))) (br_Alerts r) = (SqsReturned xs None, snd run)"
        using run by (metis prod.collapse)
      from SendMessageBatch_no_error [OF assms(3,4) this] have "sqs_acked (snd run) = mset (br_Alerts r)" by simp
      with s' fails False alerts d show ?thesis
        by (auto simp: delivered_def Let_def simp del: filter_concat concat_eq_Nil_conv)
    qed
  qed
qed

lemma Handle_evaluations:
  assumes "Handle_resources env batch s = Some (Returned None, s')" "cache_ok s" "rp_services env"
    and "backoff_retry (re_backoff env)" "\<And>n. sqs_client_ok (re_sqs env n)"
  shows "\<exists>evs. rp_evals s' = rp_evals s @ evs \<and> delivered env evs s s' \<and>
    list_all (\<lambda>ev. length (eval_entries ev) = eval_verdicts ev) evs \<and>
    (\<forall>body resource. body \<in> set batch \<longrightarrow> parseQueueMsg env body = MsgResource resource \<longrightarrow>
       (\<exists>(ps, rs, results) \<in> set evs. res_ID resource \<in> fst ` set rs))"
proof -
  let ?r0 = "\<lparr>br_StatusEntries = [], br_Alerts = []\<rparr>"
  obtain resources r s1 where loop: "message_loop env batch [] ?r0 s = Some (Returned None, resources, r, s1)"
    using assms(1) by (auto simp: Handle_resources_def split: option.splits outcome.splits)
  obtain r2 s2 where a: "analyze env resources None r s1 = (Returned None, r2, s2)" and d: "deliver env r2 s2 = (Returned None, s')"
    using assms(1) loop by (cases "analyze env resources None r s1") (auto simp: Handle_resources_def split: option.splits outcome.splits)
  have "keyed_resources []" by (simp add: keyed_resources_def)
  note ml = message_loop_advances [OF loop assms(2,3) this]
  then obtain evs where evs: "advances env ?r0 s evs r s1" by blast
  from analyze_advances [OF a _ advances_cache [OF evs]] ml obtain evs' where evs': "advances env r s1 evs' r2 s2"
    "resources \<noteq> [] \<longrightarrow> (\<exists>p results. evs' = [(p, resources, results)])" by blast
  note both = advances_trans [OF evs evs'(1)]
  have "(\<exists>(ps, rs, results) \<in> set (evs @ evs'). res_ID resource \<in> fst ` set rs)"
    if "body \<in> set batch" "parseQueueMsg env body = MsgResource resource" for body resource
  proof -
    have "res_ID resource \<in> fst ` set resources" using that ml by blast
    moreover from this obtain p results where "evs' = [(p, resources, results)]" using evs'(2) by fastforce
    ultimately show ?thesis by auto
  qed
  moreover note deliver_delivered [OF d both assms(4,5)]
  ultimately show ?thesis using both unfolding advances_def by blast
qed

section \<open>The loop over pages ends\<close>

lemma page_loop_returns:
  assumes bound: "\<And>n p rs c. re_ListResources env n types p = Inr (rs, c) \<Longrightarrow> c \<le> B" and "B < 2 ^ 63 - 1"
    and "1 \<le> pageno" "pages_total \<le> max 1 B" "pageno \<le> max 1 B + 1"
  shows "\<exists>y. resource_page_loop env types policies pageno pages_total r s = Some y"
  using assms(3-5)
proof (induction "nat (max 1 B + 1 - pageno)" arbitrary: pageno pages_total r s rule: less_induct)
  case less
  show ?case
  proof (cases "pageno \<le> pages_total")
    case False
    then show ?thesis by (subst resource_page_loop.simps) simp
  next
    case True
    obtain g s1 where g: "getResources env types pageno s = (g, s1)" by (cases "getResources env types pageno s")
    show ?thesis
    proof (cases g)
      case (Inl err)
      with True g show ?thesis by (subst resource_page_loop.simps) simp
    next
      case (Inr res)
      obtain resources c where rc: "res = (resources, c)" by (cases res)
      have "c \<le> B" using g Inr rc bound [of "rp_calls s" pageno]
        by (auto simp: getResources_def call_def split: sum.splits prod.splits)
      have w: "wrap64 (pageno + 1) = pageno + 1"
        using less.prems True assms(2) by (intro wrap64_id) (auto simp: in_int64_def)
      obtain out2 r2 s2 where a: "analyze env resources (Some policies) r s1 = (out2, r2, s2)" by (rule prod_cases3)
      have "\<exists>y. resource_page_loop env types policies (pageno + 1) c r2 s2 = Some y"
        using less.prems True \<open>c \<le> B\<close> by (intro less.hyps) auto
      with True g Inr rc a w show ?thesis
        by (subst resource_page_loop.simps) (auto split: outcome.splits option.splits)
    qed
  qed
qed

lemma analyzeUpdatedPolicy_returns:
  assumes "\<And>n types p rs c. re_ListResources env n types p = Inr (rs, c) \<Longrightarrow> c \<le> B" "B < 2 ^ 63 - 1"
  shows "\<exists>y. analyzeUpdatedPolicy env policy r s = Some y"
proof -
  have "\<exists>y. resource_page_loop env (pol_ResourceTypes policy) ps 1 1 r s1 = Some y" for ps s1
    by (rule page_loop_returns [OF assms]) auto
  then show ?thesis by (auto simp: analyzeUpdatedPolicy_def split: prod.splits sum.splits)
qed

lemma message_loop_returns:
  assumes "\<And>n types p rs c. re_ListResources env n types p = Inr (rs, c) \<Longrightarrow> c \<le> B" "B < 2 ^ 63 - 1"
  shows "\<exists>y. message_loop env bodies resources r s = Some y"
proof (induction bodies arbitrary: resources r s)
  case (Cons body bodies)
  show ?case
  proof (cases "parseQueueMsg env body")
    case (MsgPolicy policy)
    have "\<exists>y. analyzeUpdatedPolicy env policy r s = Some y" by (rule analyzeUpdatedPolicy_returns [OF assms])
    then obtain out r1 s1 where "analyzeUpdatedPolicy env policy r s = Some (out, r1, s1)" by auto
    with MsgPolicy Cons show ?thesis by (auto split: outcome.splits option.splits)
  qed (use Cons in \<open>auto split: prod.splits sum.splits\<close>)
qed simp

section \<open>What the policy cache holds\<close>

text \<open>The cache holds the result of an earlier call of the analysis API, with the reading of the clock after it.\<close>

definition read_before :: "'j rp_env \<Rightarrow> nat \<Rightarrow> int \<times> rp_policies \<Rightarrow> bool" where
  "read_before env k c \<longleftrightarrow>
     (\<exists>n fetched. Suc n < k \<and> re_GetEnabledPolicies env n = Inr fetched \<and> c = (re_now env (Suc n), policies_by_id fetched))"

definition cache_read :: "'j rp_env \<Rightarrow> 'j rp_state \<Rightarrow> bool" where
  "cache_read env s \<longleftrightarrow> (\<forall>c. rp_policyCache s = Some c \<longrightarrow> read_before env (rp_calls s) c)"

lemma read_before_mono: "read_before env k c \<Longrightarrow> k \<le> k' \<Longrightarrow> read_before env k' c"
  unfolding read_before_def by (metis order_less_le_trans)

lemma read_before_Suc: "read_before env k c \<Longrightarrow> read_before env (Suc k) c"
  by (erule read_before_mono) simp

lemma read_before_now: "re_GetEnabledPolicies env n = Inr fetched \<Longrightarrow> read_before env (Suc (Suc n)) (re_now env (Suc n), policies_by_id fetched)"
  unfolding read_before_def by blast

text \<open>Every step but \<open>getPolicies\<close> leaves the cache alone.\<close>

definition cache_kept :: "'j rp_state \<Rightarrow> 'j rp_state \<Rightarrow> bool" where
  "cache_kept s s' \<longleftrightarrow> rp_policyCache s' = rp_policyCache s \<and> rp_calls s \<le> rp_calls s'"

lemma cache_kept_read: "cache_kept s s' \<Longrightarrow> cache_read env s \<Longrightarrow> cache_read env s'"
  by (auto simp: cache_kept_def cache_read_def intro: read_before_mono)

lemma cache_kept_trans: "cache_kept s s1 \<Longrightarrow> cache_kept s1 s' \<Longrightarrow> cache_kept s s'"
  by (simp add: cache_kept_def)

lemma notify_keeps: "notify env rid pid policy resource r s = (res, r', s') \<Longrightarrow> cache_kept s s'"
  by (auto simp: notify_def call_def cache_kept_def Let_def split: status_answer.splits sum.splits)

lemma failed_loop_keeps: "failed_loop env policies resources rid pids r s = (out, r', s') \<Longrightarrow> cache_kept s s'"
proof (induction env policies resources rid pids r s arbitrary: out r' s' rule: failed_loop.induct)
  case (2 env policies resources rid pid pids r s)
  then show ?case
    by (auto simp: cache_kept_def Let_def split: option.splits if_splits prod.splits dest!: notify_keeps) (meson order_trans)
qed (simp add: cache_kept_def)

lemma results_loop_keeps: "results_loop env policies resources results r s = (out, r', s') \<Longrightarrow> cache_kept s s'"
proof (induction env policies resources results r s arbitrary: out r' s' rule: results_loop.induct)
  case (2 env policies resources result results r s)
  show ?case
  proof (cases "errored_loop policies resources (rr_ID result) (rr_Errored result) r")
    case (Some r1)
    obtain out2 r2 s2 where f: "failed_loop env policies resources (rr_ID result) (rr_Failed result) r1 s = (out2, r2, s2)" by (rule prod_cases3)
    show ?thesis using 2 Some f failed_loop_keeps [OF f]
      by (auto split: outcome.splits option.splits intro: cache_kept_trans)
  qed (use 2(2) in \<open>simp add: cache_kept_def\<close>)
qed (simp add: cache_kept_def)

lemma analyze_with_keeps: "analyze_with env resources policies r s = (out, r', s') \<Longrightarrow> cache_kept s s'"
  by (auto simp: analyze_with_def evaluatePolicies_def call_def cache_kept_def Let_def
    split: if_splits sum.splits prod.splits dest!: results_loop_keeps)

lemma getPolicies_read:
  assumes "getPolicies env s = (res, s')" "cache_read env s"
  shows "cache_read env s'"
  using assms by (auto simp: getPolicies_def fresh_cache_def call_def cache_read_def Let_def
    read_before_Suc read_before_now split: option.splits sum.splits if_splits)

lemma getPolicies_read_age:
  assumes "getPolicies env s = (Inr ps, s')" "cache_read env s"
  shows "\<exists>n fetched. re_GetEnabledPolicies env n = Inr fetched \<and> ps = policies_by_id fetched \<and>
    rp_policyCache s' = Some (re_now env (Suc n), ps) \<and>
    (rp_calls s \<le> n \<and> rp_calls s' = n + 2 \<or>
     Suc n < rp_calls s \<and> re_now env (rp_calls s) - re_now env (Suc n) < 30 * 1000000000)"
proof -
  obtain cached s1 where f: "fresh_cache env s = (cached, s1)" by (cases "fresh_cache env s")
  show ?thesis
  proof (cases cached)
    case None
    with f assms(1) obtain fetched where "re_GetEnabledPolicies env (rp_calls s1) = Inr fetched" "ps = policies_by_id fetched"
      "rp_policyCache s' = Some (re_now env (Suc (rp_calls s1)), ps)" "rp_calls s' = rp_calls s1 + 2"
      by (auto simp: getPolicies_def call_def Let_def split: sum.splits)
    moreover have "rp_calls s \<le> rp_calls s1" using f by (auto simp: fresh_cache_def call_def split: option.splits prod.splits)
    ultimately show ?thesis by blast
  next
    case (Some qs)
    with f assms(1) obtain t where "rp_policyCache s = Some (t, ps)" "re_now env (rp_calls s) < t + 30 * 1000000000"
      "rp_policyCache s' = Some (t, ps)"
      by (auto simp: getPolicies_def fresh_cache_def call_def cacheDuration_def split: option.splits prod.splits if_splits)
    with assms(2) show ?thesis unfolding cache_read_def read_before_def by fastforce
  qed
qed

lemma analyze_read: "analyze env resources policies r s = (out, r', s') \<Longrightarrow> cache_read env s \<Longrightarrow> cache_read env s'"
  by (auto simp: analyze_def cache_kept_def split: if_splits option.splits prod.splits sum.splits
    dest!: analyze_with_keeps dest: getPolicies_read intro: cache_kept_read)

lemma page_loop_read:
  assumes "resource_page_loop env types policies pageno pages_total r s = Some y" "cache_read env s"
  shows "cache_read env (snd (snd y))"
  using assms
proof (induction rule: resource_page_loop.raw_induct [rotated, consumes 1, case_names 1])
  case (1 loop env types policies pageno pages_total r s y)
  obtain g s1 where g: "getResources env types pageno s = (g, s1)" by (cases "getResources env types pageno s")
  then have "cache_kept s s1" by (auto simp: getResources_def call_def cache_kept_def split: sum.splits)
  then have s1: "cache_read env s1" using 1(3) by (rule cache_kept_read)
  show ?case
  proof (cases g)
    case (Inr res)
    obtain resources c where res: "res = (resources, c)" by (cases res)
    obtain out2 r2 s2 where a: "analyze env resources (Some policies) r s1 = (out2, r2, s2)" by (rule prod_cases3)
    have s2: "cache_read env s2" by (rule analyze_read [OF a s1])
    have "y = (Returned None, r, s) \<or> y = (out2, r2, s2) \<or> loop env types policies (wrap64 (pageno + 1)) c r2 s2 = Some y"
      using 1(2) by (simp add: g Inr res a split: if_splits outcome.splits option.splits)
    then show ?thesis using 1(1) [OF _ s2, of types policies "wrap64 (pageno + 1)" c r2 y] 1(3) s2 by auto
  qed (use 1 g s1 in \<open>auto split: if_splits\<close>)
qed

lemma analyzeUpdatedPolicy_read:
  assumes "analyzeUpdatedPolicy env policy r s = Some (out, r', s')" "cache_read env s"
  shows "cache_read env s'"
proof -
  obtain g s1 where g: "getGlobalPolicy env s = (g, s1)" by (cases "getGlobalPolicy env s")
  then have "cache_kept s s1"
    by (auto simp: getGlobalPolicy_def fresh_cache_def call_def cache_kept_def split: option.splits sum.splits prod.splits if_splits)
  then have "cache_read env s1" using assms(2) by (rule cache_kept_read)
  with assms(1) g page_loop_read show ?thesis by (fastforce simp: analyzeUpdatedPolicy_def split: sum.splits)
qed

lemma message_loop_read:
  "message_loop env bodies resources r s = Some y \<Longrightarrow> cache_read env s \<Longrightarrow> cache_read env (snd (snd (snd y)))"
proof (induction bodies arbitrary: resources r s)
  case (Cons body bodies)
  show ?case
  proof (cases "parseQueueMsg env body")
    case (MsgPolicy policy)
    with Cons.prems(1) obtain out r1 s1 where a: "analyzeUpdatedPolicy env policy r s = Some (out, r1, s1)"
      by (auto split: option.splits)
    with MsgPolicy Cons.prems(1) have "message_loop env bodies resources r1 s1 = Some y \<or> y = (out, resources, r1, s1)"
      by (auto split: outcome.splits option.splits)
    with Cons.IH analyzeUpdatedPolicy_read [OF a Cons.prems(2)] show ?thesis by auto
  next
    case (MsgLookup rid)
    obtain g s1 where g: "getResource env rid s = (g, s1)" by (cases "getResource env rid s")
    then have "cache_kept s s1" by (auto simp: getResource_def call_def cache_kept_def)
    then have "cache_read env s1" using Cons.prems(2) by (rule cache_kept_read)
    with Cons.IH Cons.prems(1) MsgLookup g show ?thesis by (auto split: sum.splits)
  qed (use Cons in auto)
qed auto

lemma deliver_keeps: "deliver env r s = (out, s') \<Longrightarrow> cache_kept s s'"
  by (auto simp: deliver_def call_def cache_kept_def Let_def split: if_splits option.splits sqs_result.splits)

lemma Handle_resources_read:
  assumes "Handle_resources env batch s = Some (out, s')" "cache_read env s"
  shows "cache_read env s'"
proof -
  obtain out1 resources r s1 where loop: "message_loop env batch [] \<lparr>br_StatusEntries = [], br_Alerts = []\<rparr> s = Some (out1, resources, r, s1)"
    using assms(1) by (auto simp: Handle_resources_def split: option.splits)
  have s1: "cache_read env s1" using message_loop_read [OF loop assms(2)] by simp
  obtain out2 r2 s2 where a: "analyze env resources None r s1 = (out2, r2, s2)" by (rule prod_cases3)
  have s2: "cache_read env s2" by (rule analyze_read [OF a s1])
  have "s' = s1 \<or> s' = s2 \<or> deliver env r2 s2 = (out, s')"
    using assms(1) by (auto simp: Handle_resources_def loop a split: outcome.splits option.splits)
  then show ?thesis using s1 s2 cache_kept_read [OF deliver_keeps s2] by auto
qed

section \<open>Properties\<close>

text \<open>C6. The Lambda that evaluates policies: an invocation without error made some evaluations, one of them for every
  updated resource of the batch; it sent the compliance API one status for every verdict of the engine, in one
  batch, and got one message acknowledged for every failure that is not suppressed, which asks for an alert exactly
  when the pair was not failing before.\<close>

theorem Handle_delivers:
  assumes "Handle_resources env batch s = Some (Returned None, s')" "cache_ok s" "rp_services env"
    and "backoff_retry (re_backoff env)" "\<And>n. sqs_client_ok (re_sqs env n)"
  shows "\<exists>evs. rp_evals s' = rp_evals s @ evs \<and> delivered env evs s s' \<and>
    list_all (\<lambda>ev. length (eval_entries ev) = eval_verdicts ev) evs \<and>
    (\<forall>body resource. body \<in> set batch \<longrightarrow> parseQueueMsg env body = MsgResource resource \<longrightarrow>
       (\<exists>(ps, rs, results) \<in> set evs. res_ID resource \<in> fst ` set rs))"
  by (rule Handle_evaluations [OF assms])

text \<open>C28. The invocation returns, as long as the resources API never reports more pages than a bound below the
  largest 64-bit integer: the loop over the pages of an updated policy ends.\<close>

theorem Handle_returns:
  assumes "\<And>n types p rs c. re_ListResources env n types p = Inr (rs, c) \<Longrightarrow> c \<le> B" "B < 2 ^ 63 - 1"
  shows "\<exists>y. Handle_resources env batch s = Some y"
proof -
  have "\<exists>y. message_loop env batch [] \<lparr>br_StatusEntries = [], br_Alerts = []\<rparr> s = Some y" by (rule message_loop_returns [OF assms])
  then show ?thesis by (auto simp: Handle_resources_def split: outcome.splits option.splits prod.splits)
qed

text \<open>C29. The policies an analysis uses were read less than thirty seconds ago, or in this very call. When the cache holds what some
  earlier call of the analysis API returned, stamped with the reading of the clock that followed it, then \<open>getPolicies\<close> returns the
  result of one call \<open>n\<close> of the analysis API by id: either a call that it just made, or one whose stamp is less than thirty seconds
  before the present reading of the clock. Either way the cache holds them with their stamp. An empty cache is such a cache, and
  every invocation leaves such a cache, also when it fails or panics.\<close>

theorem getPolicies_fresh:
  assumes "cache_read env s"
  shows "(\<forall>ps s'. getPolicies env s = (Inr ps, s') \<longrightarrow> cache_read env s' \<and>
      (\<exists>n fetched. re_GetEnabledPolicies env n = Inr fetched \<and> ps = policies_by_id fetched \<and>
         rp_policyCache s' = Some (re_now env (Suc n), ps) \<and>
         (rp_calls s \<le> n \<and> rp_calls s' = n + 2 \<or>
          Suc n < rp_calls s \<and> re_now env (rp_calls s) - re_now env (Suc n) < 30 * 1000000000))) \<and>
    (\<forall>batch out s'. Handle_resources env batch s = Some (out, s') \<longrightarrow> cache_read env s')"
  using getPolicies_read [OF _ assms] Handle_resources_read [OF _ assms] getPolicies_read_age [OF _ assms] by blast

text \<open>A suppressed resource is one that a glob of the policy matches, where a star stands for any text without a
  line feed and every other character for itself.\<close>

theorem isSuppressed_glob:
  "isSuppressed resourceID policy \<longleftrightarrow> list_ex (\<lambda>pattern. glob [line_feed] pattern resourceID) (en_Suppressions policy)"
  by (simp add: isSuppressed_def regexp_of_glob items_match_glob list_ex_iff)

lemma isIgnored_glob:
  "list_all star_pattern pats \<Longrightarrow> isIgnored rid pats = Some (list_ex (\<lambda>p. glob ''/'' p rid) pats)"
proof (induction pats)
  case (Cons p pats)
  then have "path_Match p rid \<noteq> BadPattern" "matched (path_Match p rid) \<longleftrightarrow> glob ''/'' p rid" using path_Match_glob [of p rid] by auto
  with Cons show ?case by (auto split: match_result.splits)
qed simp

text \<open>C25. The compliance API matches the same suppressions with \<open>path.Match\<close> when a policy is updated. On patterns whose only
  special character is the star (no question mark, bracket or backslash, which only \<open>path.Match\<close> interprets) and ids without a line
  feed: what it ignores the resource processor suppresses, and for an id without a slash the two agree. For every id with a slash there is a
  suppression on which they do not: the pattern \<open>*\<close> suppresses it in the resource processor and does not match it in \<open>path.Match\<close>.\<close>

theorem suppressions_compared:
  assumes "list_all star_pattern (en_Suppressions policy)" "line_feed \<notin> set rid"
  shows "\<exists>ignored. isIgnored rid (en_Suppressions policy) = Some ignored \<and> (ignored \<longrightarrow> isSuppressed rid policy) \<and>
    (CHR ''/'' \<notin> set rid \<longrightarrow> ignored = isSuppressed rid policy) \<and>
    (CHR ''/'' \<in> set rid \<longrightarrow> isSuppressed rid (policy\<lparr>en_Suppressions := [''*'']\<rparr>) \<and> isIgnored rid [''*''] = Some False)"
proof -
  have into: "glob ''/'' p rid \<Longrightarrow> glob [line_feed] p rid" for p
    by (erule glob_weaken) (use assms(2) in auto)
  have conv: "glob [line_feed] p rid \<Longrightarrow> glob ''/'' p rid" if "CHR ''/'' \<notin> set rid" for p
    by (erule glob_weaken) (use that in auto)
  have sup: "isSuppressed rid q \<longleftrightarrow> list_ex (\<lambda>p. glob [line_feed] p rid) (en_Suppressions q)" for q
    by (simp add: isSuppressed_def regexp_of_glob items_match_glob list_ex_iff)
  have star: "isSuppressed rid (policy\<lparr>en_Suppressions := [''*'']\<rparr>)"
    using assms(2) by (auto simp: sup glob_only_star)
  have "isIgnored rid [''*''] = Some False" if "CHR ''/'' \<in> set rid"
    using that isIgnored_glob [of "[''*'']" rid] by (auto simp: star_pattern_def glob_only_star)
  with isIgnored_glob [OF assms(1), of rid] into conv star show ?thesis
    by (auto simp: sup list_ex_iff)
qed

theorem suppressions_compared_witness:
  "isSuppressed ''arn:aws:ec2:us-east-1:1:instance/i-1'' \<lparr>en_Body = [], en_ID = ''p'', en_ResourceTypes = [], en_Severity = ''LOW'',
     en_Suppressions = [''*''], en_VersionID = []\<rparr> \<and> isIgnored ''arn:aws:ec2:us-east-1:1:instance/i-1'' [''*''] = Some False"
  using suppressions_compared [of "\<lparr>en_Body = [], en_ID = ''p'', en_ResourceTypes = [], en_Severity = ''LOW'',
     en_Suppressions = [''*''], en_VersionID = []\<rparr>" "''arn:aws:ec2:us-east-1:1:instance/i-1''"]
  by (auto simp: star_pattern_def simp del: isIgnored.simps)

text \<open>A missing global policy: the code provides for a nil result, but the lookup of a policy that does not exist is an
  error. Unless the cache has the global policy, the analysis of an updated policy ends with that error, and the whole
  batch with it: nothing was reported and nothing queued.\<close>

theorem missing_globals_fail:
  assumes "\<And>n. re_GetPolicy env n globalPolicy = Inl err" "rp_policyCache s = None"
    and "parseQueueMsg env body = MsgPolicy policy"
  shows "\<exists>s'. Handle_resources env (body # bodies) s = Some (Returned (Some err), s') \<and>
    rp_set s' = rp_set s \<and> rp_queued s' = rp_queued s \<and> rp_evals s' = rp_evals s"
proof -
  have "getGlobalPolicy env s = (Inl err, s\<lparr>rp_calls := Suc (rp_calls s)\<rparr>)"
    using assms(1,2) by (simp add: getGlobalPolicy_def fresh_cache_def call_def)
  then show ?thesis using assms(3) by (simp add: Handle_resources_def analyzeUpdatedPolicy_def)
qed

section \<open>An instance\<close>

text \<open>One policy \<open>p\<close> that the resource \<open>r1\<close> fails. The queue takes messages from its second call on. The status of a pair is
  the last one reported.\<close>

definition stored :: "set_entry list list \<Rightarrow> string \<Rightarrow> string \<Rightarrow> string option" where
  "stored sets pid rid =
     (case filter (\<lambda>e. se_PolicyID e = pid \<and> se_ResourceID e = rid) (rev (concat sets)) of [] \<Rightarrow> None | e # _ \<Rightarrow> Some (se_Status e))"

definition sample_rp_policy :: EnabledPolicy where
  "sample_rp_policy = \<lparr>en_Body = ''b'', en_ID = ''p'', en_ResourceTypes = [], en_Severity = ''LOW'', en_Suppressions = [], en_VersionID = ''v''\<rparr>"

definition sample_failing_client :: sqs_client where
  "sample_failing_client h es = Inl ''unavailable''"

definition sample_rp_env :: "(nat \<Rightarrow> bool) \<Rightarrow> unit rp_env" where
  "sample_rp_env up =
     \<lparr>re_now = \<lambda>n. int n,
      re_UnmarshalResource = \<lambda>b. if b = ''r1'' then Inr \<lparr>res_Attributes = Some (), res_ID = ''r1'', res_IntegrationID = ''i'', res_Type = ''T''\<rparr>
        else Inl ''not a resource'',
      re_UnmarshalPolicy = \<lambda>b. if b = ''p'' then Inr \<lparr>pol_AutoRemediationID = [], pol_AutoRemediationParameters = [], pol_Body = ''b'', pol_Description = [], pol_DisplayName = [],
          pol_ID = ''p'', pol_ResourceTypes = [], pol_Runbook = [], pol_Severity = ''LOW'', pol_Suppressions = [], pol_Tags = [], pol_VersionID = ''v''\<rparr>
        else Inl ''not a policy'',
      re_UnmarshalLookup = \<lambda>b. Inr b,
      re_GetEnabledPolicies = \<lambda>n. Inr [sample_rp_policy],
      re_GetPolicy = \<lambda>n pid. Inl ''not found'',
      re_ListResources = \<lambda>n types p. Inr ([], 1),
      re_GetResource = \<lambda>n rid. Inl ''not found'',
      re_range_policies = \<lambda>m. m, re_range_resources = \<lambda>m. m,
      re_MarshalInput = \<lambda>i. Inr ''input'',
      re_Invoke = \<lambda>n body. Inr ([], ''output''),
      re_UnmarshalOutput = \<lambda>payload. Inr [\<lparr>rr_ID = ''r1'', rr_Errored = [], rr_Failed = [''p''], rr_Passed = []\<rparr>],
      re_GetStatus = \<lambda>n sets pid rid. case stored sets pid rid of None \<Rightarrow> StatusNotFound | Some st \<Rightarrow> StatusFound st,
      re_MarshalNotification = \<lambda>n. Inr (if cn_ShouldAlert n = Some True then ''alert'' else ''quiet''),
      re_SetStatus = \<lambda>n entries. None,
      re_backoff = retry_attempts 0,
      re_sqs = \<lambda>n. if up n then sqs_accepting_client else sample_failing_client\<rparr>"

definition sample_rp_state :: "unit rp_state" where
  "sample_rp_state = \<lparr>rp_policyCache = None, rp_calls = 0, rp_set = [], rp_queued = [], rp_evals = []\<rparr>"

lemma sample_rp_laws:
  "rp_services (sample_rp_env up)" "cache_ok sample_rp_state"
  "backoff_retry (re_backoff (sample_rp_env up))" "\<And>n. sqs_client_ok (re_sqs (sample_rp_env up) n)"
proof -
  show "sqs_client_ok (re_sqs (sample_rp_env up) n)" for n
    by (auto simp: sample_rp_env_def sqs_client_ok_def sqs_accepting_client_def sample_failing_client_def split: if_splits)
qed (auto simp: sample_rp_env_def rp_services_def cache_ok_def sample_rp_state_def backoff_retry_attempts)

lemmas rp_run_simps = Handle_resources_def parseQueueMsg_def analyze_def getPolicies_def fresh_cache_def call_def
  policies_by_id_def analyze_with_def evaluatePolicies_def notify_def buildStatus_def isSuppressed_def notification_def deliver_def
  sample_rp_env_def sample_rp_state_def sample_rp_policy_def sample_failing_client_def sqs_accepting_client_def stored_def
  defaultDelaySeconds_def SendMessageBatch_def send_loop.simps retry_attempts.simps sqs_send_def entry_size_def
  Itoa_def string_of_nat.simps digit_char_values Let_def

lemma sample_rp_first: "\<exists>s'. Handle_resources (sample_rp_env (\<lambda>n. True)) [''r1''] sample_rp_state = Some (Returned None, s')"
  by (simp add: rp_run_simps)

theorem Handle_delivers_witness:
  "\<exists>s' evs. Handle_resources (sample_rp_env (\<lambda>n. True)) [''r1''] sample_rp_state = Some (Returned None, s') \<and>
     rp_evals s' = evs \<and> delivered (sample_rp_env (\<lambda>n. True)) evs sample_rp_state s'"
proof -
  obtain s' where run: "Handle_resources (sample_rp_env (\<lambda>n. True)) [''r1''] sample_rp_state = Some (Returned None, s')"
    using sample_rp_first ..
  show ?thesis using Handle_delivers [OF run sample_rp_laws(2,1,3,4)] run by (auto simp: sample_rp_state_def)
qed

theorem Handle_returns_witness: "Handle_resources (sample_rp_env (\<lambda>n. True)) [''p''] sample_rp_state \<noteq> None"
proof -
  have "\<exists>y. Handle_resources (sample_rp_env (\<lambda>n. True)) [''p''] sample_rp_state = Some y"
    by (rule Handle_returns [where B = 1]) (auto simp: sample_rp_env_def)
  then show ?thesis by auto
qed

text \<open>The second call is answered from the cache that the first one filled.\<close>

theorem getPolicies_fresh_witness:
  "\<exists>s1 s2 t. getPolicies (sample_rp_env (\<lambda>n. True)) sample_rp_state = (Inr [(''p'', sample_rp_policy)], s1) \<and>
     getPolicies (sample_rp_env (\<lambda>n. True)) s1 = (Inr [(''p'', sample_rp_policy)], s2) \<and>
     cache_read (sample_rp_env (\<lambda>n. True)) s1 \<and> rp_policyCache s2 = Some (t, [(''p'', sample_rp_policy)])"
proof -
  let ?env = "sample_rp_env (\<lambda>n. True)"
  obtain s1 s2 where runs: "getPolicies ?env sample_rp_state = (Inr [(''p'', sample_rp_policy)], s1)"
      "getPolicies ?env s1 = (Inr [(''p'', sample_rp_policy)], s2)"
    by (simp add: getPolicies_def fresh_cache_def call_def sample_rp_env_def sample_rp_state_def policies_by_id_def sample_rp_policy_def
      cacheDuration_def Let_def)
  have "cache_read ?env sample_rp_state" by (simp add: cache_read_def sample_rp_state_def)
  from getPolicies_fresh [OF this] runs(1) have "cache_read ?env s1" by blast
  with getPolicies_fresh [OF this] runs show ?thesis by blast
qed

theorem missing_globals_fail_witness:
  "\<exists>s'. Handle_resources (sample_rp_env (\<lambda>n. True)) [''p''] sample_rp_state = Some (Returned (Some ''not found''), s')"
proof -
  have "\<exists>policy. parseQueueMsg (sample_rp_env (\<lambda>n. True)) ''p'' = MsgPolicy policy" by (simp add: parseQueueMsg_def sample_rp_env_def)
  then obtain policy where p: "parseQueueMsg (sample_rp_env (\<lambda>n. True)) ''p'' = MsgPolicy policy" ..
  have "\<exists>s'. Handle_resources (sample_rp_env (\<lambda>n. True)) [''p''] sample_rp_state = Some (Returned (Some ''not found''), s') \<and>
    rp_set s' = rp_set sample_rp_state \<and> rp_queued s' = rp_queued sample_rp_state \<and> rp_evals s' = rp_evals sample_rp_state"
    by (rule missing_globals_fail [OF _ _ p]) (simp_all add: sample_rp_env_def sample_rp_state_def)
  then show ?thesis by blast
qed

end
