(* ===== verification/Compliance_Alerts.thy ===== *)
theory Compliance_Alerts
  imports Resource_Processor Alert_Forwarder
begin

text \<open>
  From a failed policy to its alert: \<open>compliance/alert_processor\<close> decides on a notification of the resource processor
  whether to alert and to remediate, \<open>compliance/remediation_api\<close> remediates, and \<open>compliance/alert_forwarder\<close> sends the alerts
  that the first one stored to the delivery queue.

  The services of the alert processor share a world of type \<open>'w\<close> through \<open>ap_UpdateItem\<close>, the conditional update of the table of
  recent alerts; the other services and the clock (in seconds) are functions of the number of the call, as in
  \<open>Resource_Processor\<close>. The remediations that were accepted are kept in the state.
\<close>

section \<open>alert_processor/processor/processor.go\<close>

definition alertSuppressPeriod :: int where "alertSuppressPeriod = 3600"

text \<open>\<open>alert_delivery/models.Alert\<close> with its pointers; the alert of a policy has no output ids, alert id or title.\<close>

record PolicyAlert =
  al_CreatedAt :: "int option"
  al_PolicyDescription :: "string option"
  al_PolicyID :: "string option"
  al_PolicyName :: "string option"
  al_PolicyVersionID :: "string option"
  al_Runbook :: "string option"
  al_Severity :: "string option"
  al_Tags :: "string list"
  al_Type :: "string option"

text \<open>The update of a row of the table of recent alerts, under the condition that the row has no \<open>lastUpdated\<close> or one
  before \<open>ru_before\<close>.\<close>

record recent_update =
  ru_policyId :: string
  ru_lastUpdated :: int
  ru_alertConfig :: string
  ru_expiresAt :: int
  ru_before :: int

datatype update_answer = Updated | ConditionFailed | UpdateError error

record 'w ap_env =
  ap_now :: "nat \<Rightarrow> int"
  ap_GetStatus :: "nat \<Rightarrow> string \<Rightarrow> string \<Rightarrow> status_answer"
  ap_GetPolicy :: "nat \<Rightarrow> string \<Rightarrow> error + Policy"
  ap_Marshal :: "PolicyAlert \<Rightarrow> error + string"
  ap_Build :: "recent_update \<Rightarrow> error option"
  ap_UpdateItem :: "recent_update \<Rightarrow> 'w \<Rightarrow> update_answer \<times> 'w"
  ap_RemediateResourceAsync :: "nat \<Rightarrow> string \<Rightarrow> string \<Rightarrow> error option"
  ap_Unmarshal :: "string \<Rightarrow> error + ComplianceNotification"

record 'w ap_state =
  ap_calls :: nat
  ap_world :: 'w
  ap_updates :: "recent_update list"         \<comment> \<open>the updates that the table took\<close>
  ap_remediated :: "(string \<times> string) list"   \<comment> \<open>policy and resource\<close>

definition ap_call :: "(nat \<Rightarrow> 'a) \<Rightarrow> 'w ap_state \<Rightarrow> 'a \<times> 'w ap_state" where
  "ap_call f s = (f (ap_calls s), s\<lparr>ap_calls := Suc (ap_calls s)\<rparr>)"

text \<open>The handlers below take the ids of the event, which the caller has dereferenced.\<close>

definition shouldTriggerActions :: "'w ap_env \<Rightarrow> string \<Rightarrow> string \<Rightarrow> 'w ap_state \<Rightarrow> (error + bool) \<times> 'w ap_state" where
  "shouldTriggerActions env policyID resourceID s =
     (case ap_call (\<lambda>n. ap_GetStatus env n policyID resourceID) s of
        (StatusNotFound, s1) \<Rightarrow> (Inr False, s1)
      | (StatusError err, s1) \<Rightarrow> (Inl err, s1)
      | (StatusFound status, s1) \<Rightarrow> (Inr (status = StatusFAIL), s1))"

definition policy_alert :: "ComplianceNotification \<Rightarrow> Policy \<Rightarrow> PolicyAlert" where
  "policy_alert event policy =
     \<lparr>al_CreatedAt = cn_Timestamp event, al_PolicyDescription = Some (pol_Description policy), al_PolicyID = cn_PolicyID event,
      al_PolicyName = Some (pol_DisplayName policy), al_PolicyVersionID = cn_PolicyVersionID event,
      al_Runbook = Some (pol_Runbook policy), al_Severity = Some (pol_Severity policy), al_Tags = pol_Tags policy,
      al_Type = Some PolicyType\<rparr>"

definition getAlertConfigPolicy :: "'w ap_env \<Rightarrow> ComplianceNotification \<Rightarrow> string \<Rightarrow> 'w ap_state
    \<Rightarrow> (error + (PolicyAlert \<times> bool)) \<times> 'w ap_state" where
  "getAlertConfigPolicy env event policyID s =
     (case ap_call (\<lambda>n. ap_GetPolicy env n policyID) s of
        (Inl err, s1) \<Rightarrow> (Inl err, s1)
      | (Inr policy, s1) \<Rightarrow> (Inr (policy_alert event policy, pol_AutoRemediationID policy \<noteq> []), s1))"

definition recent_input :: "int \<Rightarrow> string \<Rightarrow> string \<Rightarrow> recent_update" where
  "recent_input timeNow policyID config =
     \<lparr>ru_policyId = policyID, ru_lastUpdated = timeNow, ru_alertConfig = config, ru_expiresAt = alertSuppressPeriod + timeNow,
      ru_before = timeNow - alertSuppressPeriod\<rparr>"

text \<open>The update of the table, once its expression is built.\<close>

definition store_alert :: "'w ap_env \<Rightarrow> recent_update \<Rightarrow> string \<Rightarrow> bool \<Rightarrow> 'w ap_state \<Rightarrow> (error + bool) \<times> 'w ap_state" where
  "store_alert env input policyID canRemediate s =
     (case ap_UpdateItem env input (ap_world s) of
        (ConditionFailed, w) \<Rightarrow> (Inr False, s\<lparr>ap_world := w\<rparr>)
      | (UpdateError err, w) \<Rightarrow> (Inl (Wrap err (''experienced issue while updating ddb table for policy: '' @ policyID)), s\<lparr>ap_world := w\<rparr>)
      | (Updated, w) \<Rightarrow> (Inr canRemediate, s\<lparr>ap_world := w, ap_updates := ap_updates s @ [input]\<rparr>))"

definition triggerAlert :: "'w ap_env \<Rightarrow> ComplianceNotification \<Rightarrow> string \<Rightarrow> 'w ap_state \<Rightarrow> (error + bool) \<times> 'w ap_state" where
  "triggerAlert env event policyID s =
     (if cn_ShouldAlert event \<noteq> Some True then (Inr False, s)
      else (case ap_call (ap_now env) s of
        (timeNow, s1) \<Rightarrow>
          (case getAlertConfigPolicy env event policyID s1 of
             (Inl err, s2) \<Rightarrow> (Inl (Wrap err (''encountered issue when getting policy: '' @ policyID)), s2)
           | (Inr (alertConfig, canRemediate), s2) \<Rightarrow>
               (case ap_Marshal env alertConfig of
                  Inl err \<Rightarrow> (Inl (Wrap err (''failed to marshal alerting config for policy '' @ policyID)), s2)
                | Inr config \<Rightarrow>
                    (let input = recent_input timeNow policyID config
                     in case ap_Build env input of
                          Some err \<Rightarrow> (Inl (Wrap err (''could not build ddb expression for policy: '' @ policyID)), s2)
                        | None \<Rightarrow> store_alert env input policyID canRemediate s2)))))"

definition triggerRemediation :: "'w ap_env \<Rightarrow> string \<Rightarrow> string \<Rightarrow> 'w ap_state \<Rightarrow> error option \<times> 'w ap_state" where
  "triggerRemediation env policyID resourceID s =
     (case ap_call (\<lambda>n. ap_RemediateResourceAsync env n policyID resourceID) s of
        (Some err, s1) \<Rightarrow>
          (Some (Wrap err (''failed to trigger remediation on policy '' @ policyID @ '' for resource '' @ resourceID)), s1)
      | (None, s1) \<Rightarrow> (None, s1\<lparr>ap_remediated := ap_remediated s1 @ [(policyID, resourceID)]\<rparr>))"

definition Handle_notification :: "'w ap_env \<Rightarrow> ComplianceNotification \<Rightarrow> 'w ap_state \<Rightarrow> outcome \<times> 'w ap_state" where
  "Handle_notification env event s =
     (case (cn_PolicyID event, cn_ResourceID event) of
        (Some policyID, Some resourceID) \<Rightarrow>
          (case shouldTriggerActions env policyID resourceID s of
             (Inl err, s1) \<Rightarrow> (Returned (Some err), s1)
           | (Inr False, s1) \<Rightarrow> (Returned None, s1)
           | (Inr True, s1) \<Rightarrow>
               (case triggerAlert env event policyID s1 of
                  (Inl err, s2) \<Rightarrow> (Returned (Some err), s2)
                | (Inr False, s2) \<Rightarrow> (Returned None, s2)
                | (Inr True, s2) \<Rightarrow>
                    (case triggerRemediation env policyID resourceID s2 of (err, s3) \<Rightarrow> (Returned err, s3))))
      | _ \<Rightarrow> (Panicked, s))"

section \<open>alert_processor/main/lambda.go\<close>

text \<open>The struct tags of \<open>ComplianceNotification\<close>: \<open>required,min=1\<close> on both ids.\<close>

definition valid_notification :: "ComplianceNotification \<Rightarrow> bool" where
  "valid_notification event \<longleftrightarrow>
     (case (cn_ResourceID event, cn_PolicyID event) of (Some r, Some p) \<Rightarrow> r \<noteq> [] \<and> p \<noteq> [] | _ \<Rightarrow> False)"

fun notification_loop :: "'w ap_env \<Rightarrow> string list \<Rightarrow> 'w ap_state \<Rightarrow> outcome \<times> 'w ap_state" where
  "notification_loop env [] s = (Returned None, s)"
| "notification_loop env (body # bodies) s =
     (case ap_Unmarshal env body of
        Inl _ \<Rightarrow> notification_loop env bodies s
      | Inr event \<Rightarrow>
          (if \<not> valid_notification event then notification_loop env bodies s
           else (case Handle_notification env event s of
                   (Returned None, s1) \<Rightarrow> notification_loop env bodies s1
                 | (Returned (Some err), s1) \<Rightarrow> (Returned (Some (Wrap err ''encountered issue while processing event'')), s1)
                 | (Panicked, s1) \<Rightarrow> (Panicked, s1))))"

section \<open>alert_forwarder\<close>

datatype attribute_value = BinaryValue string | OtherValue

record 'w cf_env =
  cf_Unmarshal :: "string \<Rightarrow> error + PolicyAlert"
  cf_Marshal :: "PolicyAlert \<Rightarrow> error + string"
  cf_SendMessage :: "string \<Rightarrow> 'w \<Rightarrow> error option \<times> 'w"

text \<open>The struct tags of \<open>models.Alert\<close>.\<close>

definition valid_alert :: "PolicyAlert \<Rightarrow> bool" where
  "valid_alert al \<longleftrightarrow> al_CreatedAt al \<noteq> None \<and> al_PolicyID al \<noteq> None \<and>
     (case al_Severity al of None \<Rightarrow> False | Some sv \<Rightarrow> sv \<in> set [''INFO'', ''LOW'', ''MEDIUM'', ''HIGH'', ''CRITICAL'']) \<and>
     (case al_Type al of None \<Rightarrow> True | Some t \<Rightarrow> t \<in> set [RuleType, PolicyType])"

definition forward_Handle :: "'w cf_env \<Rightarrow> PolicyAlert \<Rightarrow> 'w \<Rightarrow> outcome \<times> 'w" where
  "forward_Handle env event w =
     (if al_PolicyID event = None then (Panicked, w)
      else (case cf_Marshal env event of
              Inl err \<Rightarrow> (Returned (Some err), w)
            | Inr msgBody \<Rightarrow> (case cf_SendMessage env msgBody w of (err, w1) \<Rightarrow> (Returned err, w1))))"

text \<open>A record is its new image, \<open>None\<close> if it has none. An attribute that is missing or not binary is a panic.\<close>

fun forward_records :: "'w cf_env \<Rightarrow> (string, attribute_value) amap option list \<Rightarrow> 'w \<Rightarrow> outcome \<times> 'w" where
  "forward_records env [] w = (Returned None, w)"
| "forward_records env (None # records) w = forward_records env records w"
| "forward_records env (Some img # records) w =
     (case map_of img ''alertConfig'' of
        Some (BinaryValue b) \<Rightarrow>
          (case cf_Unmarshal env b of
             Inl _ \<Rightarrow> forward_records env records w
           | Inr alert \<Rightarrow>
               (if \<not> valid_alert alert then forward_records env records w
                else (case forward_Handle env alert w of
                        (Returned None, w1) \<Rightarrow> forward_records env records w1
                      | (Returned (Some err), w1) \<Rightarrow> (Returned (Some (Wrap err ''encountered issue while processing event'')), w1)
                      | (Panicked, w1) \<Rightarrow> (Panicked, w1))))
      | _ \<Rightarrow> (Panicked, w))"

section \<open>remediation_api\<close>

text \<open>A response is its status code and body. An error of the invoker keeps the type the handlers test for: the variable
  \<open>ErrNotFound\<close>, a \<open>DoesNotExistError\<close>, or any other.\<close>

type_synonym api_response = "int \<times> string"

datatype rem_error = RemErrNotFound | RemDoesNotExist error | RemOther error

record 'j remediation_payload =
  rp_RemediationID :: string
  rp_Resource :: "'j option"
  rp_Parameters :: "(string, string) amap"

record 'j remediation_input =
  li_Action :: string
  li_Payload :: "'j remediation_payload option"

record ('j, 'r) rem_env =
  rm_UnmarshalRequest :: "string \<Rightarrow> error + (string \<times> string)"   \<comment> \<open>policy and resource\<close>
  rm_Validate :: "string \<times> string \<Rightarrow> error option"
  rm_MarshalError :: "string \<Rightarrow> error + string"
  rm_GetPolicy :: "string \<Rightarrow> error + Policy"
  rm_GetResource :: "string \<Rightarrow> error + 'j Resource"
  rm_MarshalInput :: "'j remediation_input \<Rightarrow> error + string"
  rm_Invoke :: "string \<Rightarrow> error + (string option \<times> string)"   \<comment> \<open>\<open>FunctionError\<close> and payload\<close>
  rm_UnmarshalRemediations :: "string \<Rightarrow> error + 'r"
  rm_MarshalRemediations :: "'r \<Rightarrow> error + string"
  rm_SendMessage :: "string \<Rightarrow> error option"

definition invokeLambda :: "('j, 'r) rem_env \<Rightarrow> 'j remediation_input \<Rightarrow> error + string" where
  "invokeLambda env lambdaInput =
     (case rm_MarshalInput env lambdaInput of
        Inl err \<Rightarrow> Inl (Wrap err ''failed to marshal lambda input'')
      | Inr serializedPayload \<Rightarrow>
          (case rm_Invoke env serializedPayload of
             Inl err \<Rightarrow> Inl err
           | Inr (Some _, payload) \<Rightarrow> Inl (''error invoking lambda: '' @ payload)
           | Inr (None, payload) \<Rightarrow> Inr payload))"

definition Remediate :: "('j, 'r) rem_env \<Rightarrow> string \<times> string \<Rightarrow> rem_error option" where
  "Remediate env remediation =
     (case rm_GetPolicy env (fst remediation) of
        Inl err \<Rightarrow> Some (RemOther (Wrap err ''Encountered issue when getting policy''))
      | Inr policy \<Rightarrow>
          (if pol_AutoRemediationID policy = [] then Some RemErrNotFound
           else (case rm_GetResource env (snd remediation) of
                   Inl err \<Rightarrow> Some (RemOther (Wrap err ''Encountered issue when getting resource''))
                 | Inr resource \<Rightarrow>
                     (case invokeLambda env \<lparr>li_Action = ''remediate'', li_Payload = Some \<lparr>rp_RemediationID = pol_AutoRemediationID policy,
                             rp_Resource = res_Attributes resource, rp_Parameters = pol_AutoRemediationParameters policy\<rparr>\<rparr> of
                        Inl err \<Rightarrow> Some (RemOther (Wrap err ''failed to invoke remediator''))
                      | Inr _ \<Rightarrow> None))))"

definition invoker_GetRemediations :: "('j, 'r) rem_env \<Rightarrow> rem_error + 'r" where
  "invoker_GetRemediations env =
     (case invokeLambda env \<lparr>li_Action = ''listRemediations'', li_Payload = None\<rparr> of
        Inl err \<Rightarrow> Inl (RemOther err)
      | Inr result \<Rightarrow> (case rm_UnmarshalRemediations env result of Inl err \<Rightarrow> Inl (RemOther err) | Inr r \<Rightarrow> Inr r))"

definition rem_badRequest :: "('j, 'r) rem_env \<Rightarrow> string \<Rightarrow> api_response" where
  "rem_badRequest env errorMessage =
     (case rm_MarshalError env errorMessage of Inl _ \<Rightarrow> (400, ''invalid request'') | Inr body \<Rightarrow> (400, body))"

text \<open>\<open>gatewayapi.MarshalResponse\<close> of an error model.\<close>

definition rem_MarshalResponse :: "('j, 'r) rem_env \<Rightarrow> string \<Rightarrow> int \<Rightarrow> api_response" where
  "rem_MarshalResponse env message statusCode =
     (case rm_MarshalError env message of Inl _ \<Rightarrow> (500, []) | Inr body \<Rightarrow> (statusCode, body))"

definition checkRequest :: "('j, 'r) rem_env \<Rightarrow> string \<Rightarrow> api_response + (string \<times> string)" where
  "checkRequest env body =
     (case rm_UnmarshalRequest env body of
        Inl _ \<Rightarrow> Inl (rem_badRequest env ''invalid request'')
      | Inr req \<Rightarrow> (case rm_Validate env req of Some err \<Rightarrow> Inl (rem_badRequest env err) | None \<Rightarrow> Inr req))"

definition RemediationLambdaNotFound :: string where
  "RemediationLambdaNotFound = ''Remediation Lambda not found or misconfigured''"

definition RemediateResource :: "('j, 'r) rem_env \<Rightarrow> string \<Rightarrow> api_response" where
  "RemediateResource env body =
     (case checkRequest env body of
        Inl response \<Rightarrow> response
      | Inr req \<Rightarrow>
          (case Remediate env req of
             None \<Rightarrow> (200, [])
           | Some RemErrNotFound \<Rightarrow> rem_MarshalResponse env ''Remediation not associated with policy'' 400
           | Some (RemDoesNotExist _) \<Rightarrow> rem_MarshalResponse env RemediationLambdaNotFound 404
           | Some (RemOther _) \<Rightarrow> (500, [])))"

text \<open>With the message that was queued, if any.\<close>

definition RemediateResourceAsync :: "('j, 'r) rem_env \<Rightarrow> string \<Rightarrow> api_response \<times> string option" where
  "RemediateResourceAsync env body =
     (case checkRequest env body of
        Inl response \<Rightarrow> (response, None)
      | Inr req \<Rightarrow> (case rm_SendMessage env body of Some _ \<Rightarrow> ((500, []), None) | None \<Rightarrow> ((200, []), Some body)))"

definition GetRemediations :: "('j, 'r) rem_env \<Rightarrow> api_response" where
  "GetRemediations env =
     (case invoker_GetRemediations env of
        Inl (RemDoesNotExist _) \<Rightarrow> rem_MarshalResponse env RemediationLambdaNotFound 404
      | Inl _ \<Rightarrow> (500, [])
      | Inr remediations \<Rightarrow> (case rm_MarshalRemediations env remediations of Inl _ \<Rightarrow> (500, []) | Inr body \<Rightarrow> (200, body)))"

section \<open>The table of recent alerts\<close>

text \<open>What DynamoDB documents of a conditional update, seen through the rows of the table. An update that reports another error may
  have been made.\<close>

type_synonym 'w table_view = "'w \<Rightarrow> string \<rightharpoonup> int \<times> string \<times> int"

definition update_allowed :: "'w table_view \<Rightarrow> recent_update \<Rightarrow> 'w \<Rightarrow> bool" where
  "update_allowed view u w \<longleftrightarrow> (case view w (ru_policyId u) of None \<Rightarrow> True | Some (lastUpdated, _) \<Rightarrow> lastUpdated < ru_before u)"

definition updated_view :: "'w table_view \<Rightarrow> recent_update \<Rightarrow> 'w \<Rightarrow> string \<rightharpoonup> int \<times> string \<times> int" where
  "updated_view view u w = (view w)(ru_policyId u \<mapsto> (ru_lastUpdated u, ru_alertConfig u, ru_expiresAt u))"

definition recent_table :: "'w ap_env \<Rightarrow> 'w table_view \<Rightarrow> bool" where
  "recent_table env view \<longleftrightarrow> (\<forall>u w ans w'. ap_UpdateItem env u w = (ans, w') \<longrightarrow>
     (case ans of
        Updated \<Rightarrow> update_allowed view u w \<and> view w' = updated_view view u w
      | ConditionFailed \<Rightarrow> \<not> update_allowed view u w \<and> view w' = view w
      | UpdateError _ \<Rightarrow> view w' = view w \<or> update_allowed view u w \<and> view w' = updated_view view u w))"

lemma recent_tableD:
  assumes "recent_table env view" "ap_UpdateItem env u w = (ans, w')"
  shows "ans = Updated \<Longrightarrow> update_allowed view u w \<and> view w' = updated_view view u w"
    and "ans = ConditionFailed \<Longrightarrow> \<not> update_allowed view u w \<and> view w' = view w"
    and "view w' = view w \<or> update_allowed view u w \<and> view w' = updated_view view u w"
  using assms unfolding recent_table_def by (fastforce split: update_answer.splits)+

text \<open>The stages of an invocation before the update leave the table alone.\<close>

lemma ap_call_frame:
  "ap_call f s = (a, s') \<Longrightarrow> ap_world s' = ap_world s \<and> ap_updates s' = ap_updates s \<and> ap_remediated s' = ap_remediated s"
  by (auto simp: ap_call_def)

lemma shouldTriggerActions_frame:
  "shouldTriggerActions env p r s = (a, s') \<Longrightarrow> ap_world s' = ap_world s \<and> ap_updates s' = ap_updates s \<and> ap_remediated s' = ap_remediated s"
  by (auto simp: shouldTriggerActions_def ap_call_def split: status_answer.splits)

lemma getAlertConfigPolicy_frame:
  "getAlertConfigPolicy env e p s = (a, s') \<Longrightarrow> ap_world s' = ap_world s \<and> ap_updates s' = ap_updates s \<and> ap_remediated s' = ap_remediated s"
  by (auto simp: getAlertConfigPolicy_def ap_call_def split: sum.splits)

lemma triggerRemediation_frame:
  "triggerRemediation env p r s = (err, s') \<Longrightarrow> ap_world s' = ap_world s \<and> ap_updates s' = ap_updates s \<and>
     ap_remediated s' = ap_remediated s @ (if err = None then [(p, r)] else [])"
  by (auto simp: triggerRemediation_def ap_call_def split: option.splits)

text \<open>What \<open>triggerAlert\<close> does: nothing to the table, or the update at the time it read, with the alert of the policy it read.\<close>

lemma triggerAlert_cases:
  assumes "triggerAlert env event policyID s = (res, s')"
  obtains (quiet) "cn_ShouldAlert event \<noteq> Some True" "res = Inr False" "s' = s"
  | (failed) err where "res = Inl err" "cn_ShouldAlert event = Some True" "ap_world s' = ap_world s" "ap_updates s' = ap_updates s"
      "ap_remediated s' = ap_remediated s"
  | (asked) t policy config ans w' where "cn_ShouldAlert event = Some True" "t = ap_now env (ap_calls s)"
      "ap_GetPolicy env (Suc (ap_calls s)) policyID = Inr policy" "ap_Marshal env (policy_alert event policy) = Inr config"
      "ap_Build env (recent_input t policyID config) = None"
      "ap_UpdateItem env (recent_input t policyID config) (ap_world s) = (ans, w')" "ap_world s' = w'"
      "ap_updates s' = ap_updates s @ (if ans = Updated then [recent_input t policyID config] else [])"
      "ap_remediated s' = ap_remediated s"
      "res = (case ans of Updated \<Rightarrow> Inr (pol_AutoRemediationID policy \<noteq> []) | ConditionFailed \<Rightarrow> Inr False
         | UpdateError err \<Rightarrow> Inl (Wrap err (''experienced issue while updating ddb table for policy: '' @ policyID)))"
proof (cases "cn_ShouldAlert event = Some True")
  case False
  then show ?thesis using assms quiet by (simp add: triggerAlert_def)
next
  case True
  let ?t = "ap_now env (ap_calls s)" and ?s1 = "s\<lparr>ap_calls := Suc (ap_calls s)\<rparr>" and ?s2 = "s\<lparr>ap_calls := Suc (Suc (ap_calls s))\<rparr>"
  show ?thesis
  proof (cases "ap_GetPolicy env (Suc (ap_calls s)) policyID")
    case (Inl err)
    then have "res = Inl (Wrap err (''encountered issue when getting policy: '' @ policyID))" "s' = ?s2"
      using assms True by (auto simp: triggerAlert_def getAlertConfigPolicy_def ap_call_def)
    then show ?thesis using failed True by simp
  next
    case policy: (Inr policy)
    show ?thesis
    proof (cases "ap_Marshal env (policy_alert event policy)")
      case (Inl err)
      then have "res = Inl (Wrap err (''failed to marshal alerting config for policy '' @ policyID))" "s' = ?s2"
        using assms True policy by (auto simp: triggerAlert_def getAlertConfigPolicy_def ap_call_def)
      then show ?thesis using failed True by simp
    next
      case config: (Inr config)
      show ?thesis
      proof (cases "ap_Build env (recent_input ?t policyID config)")
        case (Some err)
        then have "res = Inl (Wrap err (''could not build ddb expression for policy: '' @ policyID))" "s' = ?s2"
          using assms True policy config by (auto simp: triggerAlert_def getAlertConfigPolicy_def ap_call_def)
        then show ?thesis using failed True by simp
      next
        case build: None
        obtain ans w' where u: "ap_UpdateItem env (recent_input ?t policyID config) (ap_world s) = (ans, w')"
          by (cases "ap_UpdateItem env (recent_input ?t policyID config) (ap_world s)")
        have "store_alert env (recent_input ?t policyID config) policyID (pol_AutoRemediationID policy \<noteq> []) ?s2 = (res, s')"
          using assms True policy config build by (simp add: triggerAlert_def getAlertConfigPolicy_def ap_call_def)
        with u show ?thesis
          by (intro asked [OF True refl policy config build u]) (cases ans; auto simp: store_alert_def)+
      qed
    qed
  qed
qed

section \<open>Alerts of a policy are spaced\<close>

definition spaced :: "'w table_view \<Rightarrow> 'w ap_state \<Rightarrow> bool" where
  "spaced view s \<longleftrightarrow>
     sorted_wrt (\<lambda>u v. ru_policyId u = ru_policyId v \<longrightarrow> ru_lastUpdated u + alertSuppressPeriod < ru_lastUpdated v) (ap_updates s) \<and>
     (\<forall>u \<in> set (ap_updates s). \<exists>t row. view (ap_world s) (ru_policyId u) = Some (t, row) \<and> ru_lastUpdated u \<le> t)"

lemma triggerAlert_spaced:
  assumes "recent_table env view" "spaced view s" "triggerAlert env event policyID s = (res, s')"
  shows "spaced view s'"
  using assms(3)
proof (cases rule: triggerAlert_cases)
  case (asked t policy config ans w')
  let ?u = "recent_input t policyID config"
  note law = recent_tableD [OF assms(1) asked(6)]
  have newer: "\<exists>t' row. view w' (ru_policyId u) = Some (t', row) \<and> ru_lastUpdated u \<le> t'"
    and gap: "update_allowed view ?u (ap_world s) \<Longrightarrow> ru_policyId u = policyID \<Longrightarrow> ru_lastUpdated u + alertSuppressPeriod < t"
    if mem: "u \<in> set (ap_updates s)" for u
  proof -
    obtain tu row where row: "view (ap_world s) (ru_policyId u) = Some (tu, row)" "ru_lastUpdated u \<le> tu"
      using assms(2) mem unfolding spaced_def by blast
    then show gap: "ru_lastUpdated u + alertSuppressPeriod < t" if "update_allowed view ?u (ap_world s)" "ru_policyId u = policyID"
      using that by (auto simp: update_allowed_def recent_input_def)
    show "\<exists>t' row. view w' (ru_policyId u) = Some (t', row) \<and> ru_lastUpdated u \<le> t'"
      using law(3)
    proof
      assume "view w' = view (ap_world s)"
      then show ?thesis using row by auto
    next
      assume a: "update_allowed view ?u (ap_world s) \<and> view w' = updated_view view ?u (ap_world s)"
      show ?thesis
      proof (cases "ru_policyId u = policyID")
        case True
        then show ?thesis using a gap by (auto simp: updated_view_def recent_input_def alertSuppressPeriod_def)
      next
        case False
        then show ?thesis using a row by (auto simp: updated_view_def recent_input_def)
      qed
    qed
  qed
  show ?thesis
  proof (cases "ans = Updated")
    case True
    with law(1) have l: "update_allowed view ?u (ap_world s)" "view w' = updated_view view ?u (ap_world s)" by auto
    have "\<exists>t' row. view w' (ru_policyId ?u) = Some (t', row) \<and> ru_lastUpdated ?u \<le> t'"
      using l(2) by (auto simp: updated_view_def)
    moreover have "ru_policyId ?u = policyID" "ru_lastUpdated ?u = t" by (simp_all add: recent_input_def)
    ultimately show ?thesis
      using asked True assms(2) newer gap [OF _ l(1)] by (auto simp: spaced_def sorted_wrt_append)
  next
    case False
    then show ?thesis using asked assms(2) newer by (auto simp: spaced_def)
  qed
qed (use assms(2) in \<open>simp_all add: spaced_def\<close>)

lemma Handle_notification_spaced:
  assumes "recent_table env view" "spaced view s" "Handle_notification env event s = (out, s')"
  shows "spaced view s'"
proof (cases "cn_PolicyID event = None \<or> cn_ResourceID event = None")
  case True
  then show ?thesis using assms(2,3) by (auto simp: Handle_notification_def split: option.splits)
next
  case False
  then obtain p r where ids: "cn_PolicyID event = Some p" "cn_ResourceID event = Some r" by auto
  obtain act s1 where sh: "shouldTriggerActions env p r s = (act, s1)" by (cases "shouldTriggerActions env p r s")
  have s1: "spaced view s1" using shouldTriggerActions_frame [OF sh] assms(2) by (simp add: spaced_def)
  obtain res s2 where al: "triggerAlert env event p s1 = (res, s2)" by (cases "triggerAlert env event p s1")
  have s2: "spaced view s2" by (rule triggerAlert_spaced [OF assms(1) s1 al])
  obtain err s3 where re: "triggerRemediation env p r s2 = (err, s3)" by (cases "triggerRemediation env p r s2")
  have s3: "spaced view s3" using triggerRemediation_frame [OF re] s2 by (simp add: spaced_def)
  show ?thesis
    using assms(3) ids sh s1 al s2 re s3 by (auto simp: Handle_notification_def split: sum.splits bool.splits)
qed

lemma notification_loop_spaced:
  assumes "recent_table env view" "spaced view s" "notification_loop env bodies s = (out, s')"
  shows "spaced view s'"
  using assms(2,3)
proof (induction bodies arbitrary: s)
  case (Cons body bodies)
  show ?case
  proof (cases "\<exists>event. ap_Unmarshal env body = Inr event \<and> valid_notification event")
    case False
    with Cons show ?thesis by (auto split: sum.splits if_splits)
  next
    case True
    then obtain event where e: "ap_Unmarshal env body = Inr event" "valid_notification event" by blast
    obtain o1 s1 where h: "Handle_notification env event s = (o1, s1)" by (cases "Handle_notification env event s")
    have s1: "spaced view s1" by (rule Handle_notification_spaced [OF assms(1) Cons.prems(1) h])
    show ?thesis
      using Cons.prems(2) Cons.IH [OF s1] s1 e h by (auto split: outcome.splits option.splits)
  qed
qed simp

section \<open>Properties\<close>

text \<open>C8. However many notifications arrive, in whatever batches and whatever the services answer, the alerts that are stored for
  one policy are more than an hour apart.\<close>

theorem policy_alerts_spaced:
  assumes "recent_table env view" "ap_updates s = []" "notification_loop env bodies s = (out, s')"
  shows "sorted_wrt (\<lambda>u v. ru_policyId u = ru_policyId v \<longrightarrow> ru_lastUpdated u + 60 * 60 < ru_lastUpdated v) (ap_updates s')"
  using notification_loop_spaced [OF assms(1) _ assms(3)] assms(2) by (simp add: spaced_def alertSuppressPeriod_def)

lemma notification_effect:
  assumes "recent_table env view" "cn_PolicyID event = Some p" "cn_ResourceID event = Some r"
    and "Handle_notification env event s = (Returned None, s')"
    and "now = ap_now env (Suc (ap_calls s))"
    and "alerting \<longleftrightarrow> ap_GetStatus env (ap_calls s) p r = StatusFound StatusFAIL \<and> cn_ShouldAlert event = Some True \<and>
      (case view (ap_world s) p of None \<Rightarrow> True | Some (lastUpdated, _) \<Rightarrow> lastUpdated < now - 3600)"
  shows "if alerting
    then \<exists>n policy config. ap_GetPolicy env n p = Inr policy \<and> ap_Marshal env (policy_alert event policy) = Inr config \<and>
      view (ap_world s') = (view (ap_world s))(p \<mapsto> (now, config, now + 3600)) \<and> ap_updates s' = ap_updates s @ [recent_input now p config] \<and>
      ap_remediated s' = ap_remediated s @ (if pol_AutoRemediationID policy \<noteq> [] then [(p, r)] else [])
    else view (ap_world s') = view (ap_world s) \<and> ap_updates s' = ap_updates s \<and> ap_remediated s' = ap_remediated s"
proof (cases "ap_GetStatus env (ap_calls s) p r = StatusFound StatusFAIL")
  case False
  with assms(2-4,6) show ?thesis
    by (auto simp: Handle_notification_def shouldTriggerActions_def ap_call_def split: status_answer.splits)
next
  case failing: True
  let ?s1 = "s\<lparr>ap_calls := Suc (ap_calls s)\<rparr>"
  have sh: "shouldTriggerActions env p r s = (Inr True, ?s1)" using failing by (simp add: shouldTriggerActions_def ap_call_def)
  obtain res s2 where al: "triggerAlert env event p ?s1 = (res, s2)" by (cases "triggerAlert env event p ?s1")
  have run: "(case res of Inl err \<Rightarrow> (Returned (Some err), s2) | Inr False \<Rightarrow> (Returned None, s2)
      | Inr True \<Rightarrow> (case triggerRemediation env p r s2 of (err, s3) \<Rightarrow> (Returned err, s3))) = (Returned None, s')"
    using assms(2-4) sh al by (simp add: Handle_notification_def)
  from al show ?thesis
  proof (cases rule: triggerAlert_cases)
    case quiet
    with run assms(6) show ?thesis by auto
  next
    case (failed err)
    with run show ?thesis by simp
  next
    case (asked t policy config ans w')
    have t: "t = now" using asked(2) assms(5) by simp
    have allowed: "update_allowed view (recent_input t p config) (ap_world ?s1) \<longleftrightarrow> alerting"
      using failing asked(1) assms(6) t by (auto simp: update_allowed_def recent_input_def alertSuppressPeriod_def split: option.splits)
    note law = recent_tableD [OF assms(1) asked(6)]
    show ?thesis
    proof (cases ans)
      case Updated
      with law(1) allowed have a: alerting "view w' = (view (ap_world s))(p \<mapsto> (now, config, now + 3600))"
        by (auto simp: updated_view_def recent_input_def t alertSuppressPeriod_def add.commute)
      obtain err s3 where re: "triggerRemediation env p r s2 = (err, s3)" by (cases "triggerRemediation env p r s2")
      have "ap_world s' = w' \<and> ap_updates s' = ap_updates s @ [recent_input now p config] \<and>
          ap_remediated s' = ap_remediated s @ (if pol_AutoRemediationID policy \<noteq> [] then [(p, r)] else [])"
        using run asked Updated re triggerRemediation_frame [OF re] t by (auto split: bool.splits if_splits)
      with a asked(3,4) show ?thesis by auto
    next
      case ConditionFailed
      with law(2) allowed asked run show ?thesis by auto
    next
      case (UpdateError err)
      with asked run show ?thesis by simp
    qed
  qed
qed

text \<open>While the services answer, a notification of a pair that is failing is handled without error.\<close>

definition ap_answers :: "'w ap_env \<Rightarrow> 'w ap_state \<Rightarrow> ComplianceNotification \<Rightarrow> string \<Rightarrow> string \<Rightarrow> bool" where
  "ap_answers env s event p r \<longleftrightarrow> ap_GetStatus env (ap_calls s) p r = StatusFound StatusFAIL \<and>
     (\<exists>policy config. ap_GetPolicy env (Suc (Suc (ap_calls s))) p = Inr policy \<and> ap_Marshal env (policy_alert event policy) = Inr config) \<and>
     (\<forall>u. ap_Build env u = None) \<and> (\<forall>u w err. fst (ap_UpdateItem env u w) \<noteq> UpdateError err) \<and>
     (\<forall>n. ap_RemediateResourceAsync env n p r = None)"

lemma Handle_notification_returns:
  assumes "ap_answers env s event p r" "cn_PolicyID event = Some p" "cn_ResourceID event = Some r"
  shows "\<exists>s'. Handle_notification env event s = (Returned None, s')"
proof -
  let ?s1 = "s\<lparr>ap_calls := Suc (ap_calls s)\<rparr>"
  obtain policy config where pc: "ap_GetPolicy env (Suc (Suc (ap_calls s))) p = Inr policy" "ap_Marshal env (policy_alert event policy) = Inr config"
    using assms(1) by (auto simp: ap_answers_def)
  have sh: "shouldTriggerActions env p r s = (Inr True, ?s1)"
    using assms(1) by (simp add: ap_answers_def shouldTriggerActions_def ap_call_def)
  obtain ans w' where u: "ap_UpdateItem env (recent_input (ap_now env (Suc (ap_calls s))) p config) (ap_world s) = (ans, w')"
    by (cases "ap_UpdateItem env (recent_input (ap_now env (Suc (ap_calls s))) p config) (ap_world s)")
  have "ans \<noteq> UpdateError err" for err using assms(1) u by (metis ap_answers_def fst_conv)
  then have "\<exists>b s2. triggerAlert env event p ?s1 = (Inr b, s2)"
    using assms(1) pc u by (cases ans) (auto simp: ap_answers_def triggerAlert_def getAlertConfigPolicy_def ap_call_def store_alert_def)
  then obtain b s2 where b: "triggerAlert env event p ?s1 = (Inr b, s2)" by blast
  have "\<exists>s3. triggerRemediation env p r s2 = (None, s3)"
    using assms(1) by (simp add: ap_answers_def triggerRemediation_def ap_call_def)
  then show ?thesis using sh b assms(2,3) by (cases b) (auto simp: Handle_notification_def)
qed

text \<open>C20. What one notification does, when it is handled without error: a pair that is not failing, or whose notification asks for no
  alert, or whose policy had an alert within the hour, changes nothing; otherwise the alert of the policy is
  stored with the current time and expires after an hour, and the resource is remediated if the policy has a
  remediation.\<close>

theorem Handle_notification_effect:
  assumes "recent_table env view" "cn_PolicyID event = Some p" "cn_ResourceID event = Some r"
    and "Handle_notification env event s = (Returned None, s')"
    and "now = ap_now env (Suc (ap_calls s))"
    and "alerting \<longleftrightarrow> ap_GetStatus env (ap_calls s) p r = StatusFound StatusFAIL \<and> cn_ShouldAlert event = Some True \<and>
      (case view (ap_world s) p of None \<Rightarrow> True | Some (lastUpdated, _) \<Rightarrow> lastUpdated < now - 3600)"
  shows "if alerting
    then \<exists>n policy config. ap_GetPolicy env n p = Inr policy \<and> ap_Marshal env (policy_alert event policy) = Inr config \<and>
      view (ap_world s') = (view (ap_world s))(p \<mapsto> (now, config, now + 3600)) \<and> ap_updates s' = ap_updates s @ [recent_input now p config] \<and>
      ap_remediated s' = ap_remediated s @ (if pol_AutoRemediationID policy \<noteq> [] then [(p, r)] else [])
    else view (ap_world s') = view (ap_world s) \<and> ap_updates s' = ap_updates s \<and> ap_remediated s' = ap_remediated s"
  using assms by (rule notification_effect)

text \<open>C35. Remediation hangs on the alert: a second resource that fails the policy within the hour is handled without error, but it is
  not remediated, although the policy has a remediation and the resource processor sends its notification for that.\<close>

theorem second_resource_not_remediated:
  assumes "recent_table env view" "cn_PolicyID event = Some p" "cn_ResourceID event = Some r"
    and "view (ap_world s) p = Some (lastUpdated, row)" "ap_now env (Suc (ap_calls s)) \<le> lastUpdated + 3600"
    and "ap_GetStatus env (ap_calls s) p r = StatusFound StatusFAIL"
    and "ap_GetPolicy env (Suc (Suc (ap_calls s))) p = Inr policy" "pol_AutoRemediationID policy \<noteq> []"
    and "ap_Marshal env (policy_alert event policy) = Inr config" "\<And>u. ap_Build env u = None"
    and "\<And>u w err. fst (ap_UpdateItem env u w) \<noteq> UpdateError err"
  shows "\<exists>s'. Handle_notification env event s = (Returned None, s') \<and> ap_remediated s' = ap_remediated s \<and>
    ap_updates s' = ap_updates s \<and> view (ap_world s') = view (ap_world s)"
proof -
  let ?s1 = "s\<lparr>ap_calls := Suc (ap_calls s)\<rparr>"
  let ?s3 = "s\<lparr>ap_calls := Suc (Suc (Suc (ap_calls s)))\<rparr>"
  let ?u = "recent_input (ap_now env (Suc (ap_calls s))) p config"
  have sh: "shouldTriggerActions env p r s = (Inr True, ?s1)" using assms(6) by (simp add: shouldTriggerActions_def ap_call_def)
  show ?thesis
  proof (cases "cn_ShouldAlert event = Some True")
    case False
    then have "triggerAlert env event p ?s1 = (Inr False, ?s1)" by (simp add: triggerAlert_def)
    with sh assms(2,3) show ?thesis by (simp add: Handle_notification_def)
  next
    case True
    obtain ans w' where u: "ap_UpdateItem env ?u (ap_world s) = (ans, w')" by (cases "ap_UpdateItem env ?u (ap_world s)")
    have "ans \<noteq> Updated"
      using recent_tableD(1) [OF assms(1) u] assms(4,5) by (auto simp: update_allowed_def recent_input_def alertSuppressPeriod_def)
    moreover have "ans \<noteq> UpdateError err" for err using assms(11) u by (metis fst_conv)
    ultimately have ans: "ans = ConditionFailed" by (cases ans) auto
    have "triggerAlert env event p ?s1 = (Inr False, ?s3\<lparr>ap_world := w'\<rparr>)"
      using True assms(7,9,10) u ans by (simp add: triggerAlert_def getAlertConfigPolicy_def ap_call_def store_alert_def)
    with sh assms(2,3) recent_tableD(2) [OF assms(1) u] ans show ?thesis by (simp add: Handle_notification_def)
  qed
qed

lemma forwards_stored:
  assumes "cf_Unmarshal cf config = Inr (policy_alert event policy)" "cf_Marshal cf (policy_alert event policy) = Inr body"
    and "cn_PolicyID event = Some p" "cn_Timestamp event = Some t" "valid_PolicySeverity (pol_Severity policy)"
    and "cf_SendMessage cf body w = (None, w')"
  shows "forward_records cf [Some [(''alertConfig'', BinaryValue (ru_alertConfig (recent_input now p config)))]] w = (Returned None, w') \<and>
    al_Type (policy_alert event policy) = Some PolicyType \<and> al_PolicyID (policy_alert event policy) = Some p"
proof -
  have "valid_alert (policy_alert event policy)"
    using assms(3-5) by (auto simp: valid_alert_def policy_alert_def valid_PolicySeverity_def known_severities_def)
  moreover have "al_PolicyID (policy_alert event policy) = Some p" "al_Type (policy_alert event policy) = Some PolicyType"
    using assms(3) by (simp_all add: policy_alert_def)
  ultimately show ?thesis using assms(1,2,6) by (simp add: recent_input_def forward_Handle_def)
qed

text \<open>The stored alert reaches the delivery queue: when the change of the row comes to the alert forwarder, it queues the alert of the
  policy, once, as long as the severity is a known one, the notification had its time, and the queue takes the message.\<close>

theorem stored_alert_forwarded:
  assumes "cf_Unmarshal cf config = Inr (policy_alert event policy)" "cf_Marshal cf (policy_alert event policy) = Inr body"
    and "cn_PolicyID event = Some p" "cn_Timestamp event = Some t" "valid_PolicySeverity (pol_Severity policy)"
    and "cf_SendMessage cf body w = (None, w')"
  shows "forward_records cf [Some [(''alertConfig'', BinaryValue (ru_alertConfig (recent_input now p config)))]] w = (Returned None, w') \<and>
    al_Type (policy_alert event policy) = Some PolicyType \<and> al_PolicyID (policy_alert event policy) = Some p"
  using assms by (rule forwards_stored)

lemma Remediate_None:
  "Remediate env (p, r) = None \<longleftrightarrow>
     (\<exists>policy resource payload answer. rm_GetPolicy env p = Inr policy \<and>
        pol_AutoRemediationID policy \<noteq> [] \<and> rm_GetResource env r = Inr resource \<and>
        rm_MarshalInput env \<lparr>li_Action = ''remediate'', li_Payload = Some \<lparr>rp_RemediationID = pol_AutoRemediationID policy,
          rp_Resource = res_Attributes resource, rp_Parameters = pol_AutoRemediationParameters policy\<rparr>\<rparr> = Inr payload \<and>
        rm_Invoke env payload = Inr (None, answer))"
  by (auto simp: Remediate_def invokeLambda_def split: sum.splits option.splits)

lemma Remediate_error: "Remediate env req = Some err \<Longrightarrow> err = RemErrNotFound \<or> (\<exists>e. err = RemOther e)"
  by (auto simp: Remediate_def split: sum.splits if_splits)

lemma checkRequest_error: "checkRequest env body = Inl response \<Longrightarrow> fst response = 400"
  by (auto simp: checkRequest_def rem_badRequest_def split: sum.splits option.splits)

text \<open>C22. The handler that remediates at once answers 200 exactly when the request is valid, the policy has a remediation, the resource is
  known and the Lambda took the payload of that policy and resource without an error. It never answers 404, although
  it has a response for a missing Lambda: every error of the invocation is wrapped before the test of its type.\<close>

theorem RemediateResource_outcome:
  "(fst (RemediateResource env body) = 200 \<longleftrightarrow>
     (\<exists>p r policy resource payload answer. checkRequest env body = Inr (p, r) \<and> rm_GetPolicy env p = Inr policy \<and>
        pol_AutoRemediationID policy \<noteq> [] \<and> rm_GetResource env r = Inr resource \<and>
        rm_MarshalInput env \<lparr>li_Action = ''remediate'', li_Payload = Some \<lparr>rp_RemediationID = pol_AutoRemediationID policy,
          rp_Resource = res_Attributes resource, rp_Parameters = pol_AutoRemediationParameters policy\<rparr>\<rparr> = Inr payload \<and>
        rm_Invoke env payload = Inr (None, answer))) \<and>
   fst (RemediateResource env body) \<in> {200, 400, 500} \<and> fst (GetRemediations env) \<in> {200, 500}"
proof -
  have err: "fst (rem_MarshalResponse env m 400) \<in> {400, 500}" for m by (auto simp: rem_MarshalResponse_def split: sum.splits)
  have "fst (GetRemediations env) \<in> {200, 500}"
    by (auto simp: GetRemediations_def invoker_GetRemediations_def rem_MarshalResponse_def split: sum.splits rem_error.splits)
  moreover have "fst (RemediateResource env body) \<in> {200, 400, 500} \<and>
      (fst (RemediateResource env body) = 200 \<longleftrightarrow> (\<exists>p r. checkRequest env body = Inr (p, r) \<and> Remediate env (p, r) = None))"
  proof (cases "checkRequest env body")
    case (Inl response)
    with checkRequest_error [OF Inl] show ?thesis by (simp add: RemediateResource_def)
  next
    case (Inr req)
    show ?thesis
    proof (cases "Remediate env req")
      case None
      then show ?thesis using Inr by (cases req) (simp add: RemediateResource_def)
    next
      case (Some e)
      then show ?thesis using Inr Remediate_error [OF Some] err [of "''Remediation not associated with policy''"]
        by (auto simp: RemediateResource_def)
    qed
  qed
  ultimately show ?thesis unfolding Remediate_None by blast
qed

section \<open>An instance\<close>

definition sample_UpdateItem :: "recent_update \<Rightarrow> (string, int \<times> string \<times> int) amap \<Rightarrow> update_answer \<times> (string, int \<times> string \<times> int) amap" where
  "sample_UpdateItem u w =
     (if (case map_of w (ru_policyId u) of None \<Rightarrow> True | Some (t, _) \<Rightarrow> t < ru_before u)
      then (Updated, amap_put (ru_policyId u) (ru_lastUpdated u, ru_alertConfig u, ru_expiresAt u) w) else (ConditionFailed, w))"

definition sample_ap_policy :: Policy where
  "sample_ap_policy = \<lparr>pol_AutoRemediationID = ''fix'', pol_AutoRemediationParameters = [], pol_Body = ''b'', pol_Description = [],
     pol_DisplayName = ''P'', pol_ID = ''p'', pol_ResourceTypes = [], pol_Runbook = [], pol_Severity = ''HIGH'', pol_Suppressions = [],
     pol_Tags = [], pol_VersionID = ''v''\<rparr>"

definition sample_notification :: "string \<Rightarrow> ComplianceNotification" where
  "sample_notification r = \<lparr>cn_ResourceID = Some r, cn_PolicyID = Some ''p'', cn_PolicyVersionID = Some ''v'', cn_ShouldAlert = Some True,
     cn_Timestamp = Some 0\<rparr>"

definition sample_ap_env :: "(string, int \<times> string \<times> int) amap ap_env" where
  "sample_ap_env = \<lparr>ap_now = \<lambda>n. 100000 + int n, ap_GetStatus = \<lambda>n p r. StatusFound StatusFAIL, ap_GetPolicy = \<lambda>n p. Inr sample_ap_policy,
     ap_Marshal = \<lambda>al. Inr ''config'', ap_Build = \<lambda>u. None, ap_UpdateItem = sample_UpdateItem, ap_RemediateResourceAsync = \<lambda>n p r. None,
     ap_Unmarshal = \<lambda>body. Inr (sample_notification body)\<rparr>"

definition sample_ap_state :: "(string, int \<times> string \<times> int) amap \<Rightarrow> (string, int \<times> string \<times> int) amap ap_state" where
  "sample_ap_state w = \<lparr>ap_calls = 0, ap_world = w, ap_updates = [], ap_remediated = []\<rparr>"

lemma sample_recent_table: "recent_table sample_ap_env map_of"
  by (auto simp: recent_table_def sample_ap_env_def sample_UpdateItem_def update_allowed_def updated_view_def map_of_amap_put
      split: if_splits option.splits)

theorem policy_alerts_spaced_witness:
  "sorted_wrt (\<lambda>u v. ru_policyId u \<noteq> ru_policyId v \<or> ru_lastUpdated u + 60 * 60 < ru_lastUpdated v)
     (ap_updates (snd (notification_loop sample_ap_env [''r1'', ''r2''] (sample_ap_state []))))"
proof -
  have "ap_updates (sample_ap_state []) = []" by (simp add: sample_ap_state_def)
  from policy_alerts_spaced [OF sample_recent_table this prod.collapse [symmetric]] show ?thesis
    by (rule sorted_wrt_mono_rel [rotated]) blast
qed

theorem Handle_notification_effect_witness:
  "ap_remediated (snd (Handle_notification sample_ap_env (sample_notification ''r1'') (sample_ap_state []))) = [(''p'', ''r1'')]"
proof -
  let ?run = "Handle_notification sample_ap_env (sample_notification ''r1'') (sample_ap_state [])"
  have ids: "cn_PolicyID (sample_notification ''r1'') = Some ''p''" "cn_ResourceID (sample_notification ''r1'') = Some ''r1''"
    by (simp_all add: sample_notification_def)
  have "?run = (Returned None, snd ?run)"
    by (simp add: Handle_notification_def shouldTriggerActions_def triggerAlert_def getAlertConfigPolicy_def store_alert_def triggerRemediation_def
        ap_call_def sample_notification_def sample_ap_env_def sample_ap_state_def sample_UpdateItem_def sample_ap_policy_def recent_input_def)
  from Handle_notification_effect [OF sample_recent_table ids this refl refl] show ?thesis
    by (auto simp: sample_ap_env_def sample_ap_state_def sample_notification_def sample_ap_policy_def)
qed

theorem second_resource_not_remediated_witness:
  "ap_remediated (snd (Handle_notification sample_ap_env (sample_notification ''r2'') (sample_ap_state [(''p'', 99999, ''config'', 103599)]))) = []"
proof -
  let ?s = "sample_ap_state [(''p'', 99999, ''config'', 103599)]"
  have "\<exists>s'. Handle_notification sample_ap_env (sample_notification ''r2'') ?s = (Returned None, s') \<and>
      ap_remediated s' = ap_remediated ?s \<and> ap_updates s' = ap_updates ?s \<and> map_of (ap_world s') = map_of (ap_world ?s)"
    by (rule second_resource_not_remediated [OF sample_recent_table, where p = "''p''" and r = "''r2''" and lastUpdated = 99999
          and row = "(''config'', 103599)" and policy = sample_ap_policy and config = "''config''"])
       (auto simp: sample_notification_def sample_ap_state_def sample_ap_env_def sample_ap_policy_def sample_UpdateItem_def)
  then show ?thesis by (auto simp: sample_ap_state_def)
qed

theorem stored_alert_forwarded_witness:
  "forward_records \<lparr>cf_Unmarshal = \<lambda>_. Inr (policy_alert (sample_notification ''r1'') sample_ap_policy), cf_Marshal = \<lambda>_. Inr ''alert'',
       cf_SendMessage = \<lambda>m w. (None, w @ [m])\<rparr>
     [Some [(''alertConfig'', BinaryValue (ru_alertConfig (recent_input 5 ''p'' ''config'')))]] [] = (Returned None, [''alert''])"
  using stored_alert_forwarded [of "\<lparr>cf_Unmarshal = \<lambda>_. Inr (policy_alert (sample_notification ''r1'') sample_ap_policy), cf_Marshal = \<lambda>_. Inr ''alert'',
       cf_SendMessage = \<lambda>m w. (None, w @ [m])\<rparr>" "''config''" "sample_notification ''r1''" sample_ap_policy "''alert''" "''p''" 0 "[]" "[''alert'']" 5]
  by (simp add: sample_notification_def sample_ap_policy_def valid_PolicySeverity_def known_severities_def)

end
