(* ===== verification/Resources_Api.thy ===== *)
theory Resources_Api
  imports Compliance_Api Awsbatch_SQS Go_Strings
begin

text \<open>
  \<open>compliance/resources_api/handlers\<close>: adding, deleting, reading and listing resources, with the cache of the resources'
  compliance status (\<open>compliance.go\<close>).

  The package variable \<open>complianceCache\<close> and the effects are in \<open>ra_state\<close>: what was written to the table, the runs of
  \<open>SendMessageBatch\<close>, the rows marked as deleted and the deletions sent to the compliance API. A service or the clock is
  a function of the number of the call. Items of type \<open>'i\<close> are DynamoDB's encodings, attributes are of type \<open>'j\<close>. A
  response keeps its status code and value; of the text of a 400 response only the part before the colon is kept.
  \<open>None\<close> is a panic, which the router answers with 500.
\<close>

section \<open>dynamo.go\<close>

record 'j resourceItem =
  ri_Attributes :: 'j
  ri_Deleted :: bool
  ri_ID :: string
  ri_IntegrationID :: string
  ri_IntegrationType :: string
  ri_LastModified :: int
  ri_Type :: string
  ri_ExpiresAt :: int
  ri_LowerID :: string

text \<open>\<open>models.Resource\<close>\<close>

record 'j ResourceModel =
  rm_Attributes :: 'j
  rm_ComplianceStatus :: string
  rm_Deleted :: bool
  rm_ID :: string
  rm_IntegrationID :: string
  rm_IntegrationType :: string
  rm_LastModified :: int
  rm_Type :: string

definition item_Resource :: "'j resourceItem \<Rightarrow> string \<Rightarrow> 'j ResourceModel" where
  "item_Resource r status =
     \<lparr>rm_Attributes = ri_Attributes r, rm_ComplianceStatus = status, rm_Deleted = ri_Deleted r, rm_ID = ri_ID r,
      rm_IntegrationID = ri_IntegrationID r, rm_IntegrationType = ri_IntegrationType r, rm_LastModified = ri_LastModified r,
      rm_Type = ri_Type r\<rparr>"

datatype 'a ra_response = ROk 'a | RCreated | RBadRequest string | RNotFound | RError

datatype ra_update = RowUpdated | RowMissing | RowError error

record list_params =
  lp_ComplianceStatus :: "string option"
  lp_Deleted :: "bool option"
  lp_IDContains :: "string option"
  lp_IntegrationID :: "string option"
  lp_IntegrationType :: "string option"
  lp_Types :: "string list"
  lp_Fields :: "string list"
  lp_SortBy :: string
  lp_SortDir :: string
  lp_PageSize :: int
  lp_Page :: int

text \<open>The filter and the projection of a scan, as far as the handlers build them.\<close>

record ra_scan =
  sc_Deleted :: "bool option"
  sc_IDContains :: "string option"
  sc_IntegrationID :: "string option"
  sc_IntegrationType :: "string option"
  sc_Types :: "string list"
  sc_Projection :: "string list"

record 'j add_entry =
  ae_Attributes :: "'j option"   \<comment> \<open>\<open>None\<close> if the value is not a JSON object\<close>
  ae_ID :: string
  ae_IntegrationID :: string
  ae_IntegrationType :: string
  ae_Type :: string

record complianceStatus =
  st_SortIndex :: int
  st_Status :: string

record ra_state =
  ra_cache :: "(int \<times> (string, complianceStatus) amap) option"   \<comment> \<open>\<open>ExpiresAt\<close> and \<open>Resources\<close>\<close>
  ra_calls :: nat
  ra_marked :: "(string \<times> int) list"      \<comment> \<open>rows marked as deleted, with their expiry\<close>
  ra_deletes :: "string list list"    \<comment> \<open>deletions of statuses that the compliance API took\<close>

record ('i, 'j) ra_env =
  ra_now :: "nat \<Rightarrow> int"                                \<comment> \<open>in nanoseconds\<close>
  ra_DescribeOrg :: "nat \<Rightarrow> error + (string \<times> string) list"   \<comment> \<open>id and status, in order\<close>
  ra_Build :: "ra_scan \<Rightarrow> error option"
  ra_BuildUpdate :: "int \<Rightarrow> string \<Rightarrow> error option"
  ra_Scan :: "nat \<Rightarrow> ra_scan \<Rightarrow> 'i pages_result"
  ra_GetItem :: "nat \<Rightarrow> string \<Rightarrow> error + 'i option"
  ra_UpdateItem :: "nat \<Rightarrow> string \<Rightarrow> int \<Rightarrow> ra_update"      \<comment> \<open>mark as deleted, with the expiry\<close>
  ra_DeleteStatus :: "nat \<Rightarrow> string list \<Rightarrow> error option"
  ra_Unmarshal :: "'i \<Rightarrow> error + 'j resourceItem"
  ra_UnmarshalList :: "'i list \<Rightarrow> error + 'j resourceItem list"
  ra_Marshal :: "'j resourceItem \<Rightarrow> error + 'i"
  ra_empty :: "'j \<Rightarrow> bool"                              \<comment> \<open>an object without members\<close>
  ra_UnmarshalAdd :: "string \<Rightarrow> error + 'j add_entry list"
  ra_ValidateAdd :: "'j add_entry list \<Rightarrow> error option"
  ra_UnmarshalDelete :: "string \<Rightarrow> error + string list"
  ra_ValidateDelete :: "string list \<Rightarrow> error option"
  ra_MarshalResource :: "'j ResourceModel \<Rightarrow> error + string"
  ra_MarshalLookup :: "string \<Rightarrow> error + string"
  ra_table :: string
  ra_retry :: "'i write_request batchWriteRequest retry"
  ra_client :: "'i write_request bw_client"
  ra_backoff :: "sendMessageBatchRequest retry"
  ra_sqs :: "nat \<Rightarrow> sqs_client"

definition ra_call :: "(nat \<Rightarrow> 'a) \<Rightarrow> ra_state \<Rightarrow> 'a \<times> ra_state" where
  "ra_call f s = (f (ra_calls s), s\<lparr>ra_calls := Suc (ra_calls s)\<rparr>)"

text \<open>The handler of a page stops at its first error.\<close>

fun items_loop :: "('j resourceItem \<Rightarrow> 's \<Rightarrow> error option \<times> 's) \<Rightarrow> 'j resourceItem list \<Rightarrow> 's \<Rightarrow> error option \<times> 's" where
  "items_loop handler [] s = (None, s)"
| "items_loop handler (entry # rest) s =
     (case handler entry s of (Some err, s1) \<Rightarrow> (Some err, s1) | (None, s1) \<Rightarrow> items_loop handler rest s1)"

fun scan_loop :: "('i list \<Rightarrow> error + 'j resourceItem list) \<Rightarrow> ('j resourceItem \<Rightarrow> 's \<Rightarrow> error option \<times> 's) \<Rightarrow> 'i list list \<Rightarrow> 's
    \<Rightarrow> error option \<times> 's" where
  "scan_loop unmarshal handler [] s = (None, s)"
| "scan_loop unmarshal handler (page # rest) s =
     (case unmarshal page of
        Inl err \<Rightarrow> (Some err, s)
      | Inr items \<Rightarrow>
          (case items_loop handler items s of
             (Some err, s1) \<Rightarrow> (Some err, s1) | (None, s1) \<Rightarrow> scan_loop unmarshal handler rest s1))"

definition ra_scanPages :: "('i, 'j) ra_env \<Rightarrow> 'i pages_result \<Rightarrow> ('j resourceItem \<Rightarrow> 's \<Rightarrow> error option \<times> 's) \<Rightarrow> 's \<Rightarrow> error option \<times> 's" where
  "ra_scanPages env answer handler s =
     (case scan_loop (ra_UnmarshalList env) handler (pr_pages answer) s of
        (Some err, s1) \<Rightarrow> (Some err, s1)
      | (None, s1) \<Rightarrow> (pr_error answer, s1))"

definition doUpdate :: "('i, 'j) ra_env \<Rightarrow> int \<Rightarrow> string \<Rightarrow> ra_state \<Rightarrow> unit ra_response \<times> ra_state" where
  "doUpdate env expiresAt resourceID s =
     (case ra_BuildUpdate env expiresAt resourceID of
        Some _ \<Rightarrow> (RError, s)
      | None \<Rightarrow>
          (case ra_call (\<lambda>n. ra_UpdateItem env n resourceID expiresAt) s of
             (RowMissing, s1) \<Rightarrow> (RNotFound, s1)
           | (RowError _, s1) \<Rightarrow> (RError, s1)
           | (RowUpdated, s1) \<Rightarrow> (ROk (), s1\<lparr>ra_marked := ra_marked s1 @ [(resourceID, expiresAt)]\<rparr>)))"

section \<open>compliance.go\<close>

definition complianceCacheDuration :: int where "complianceCacheDuration = 3 * 1000000000"

fun index_statuses :: "int \<Rightarrow> (string \<times> string) list \<Rightarrow> (string, complianceStatus) amap \<Rightarrow> (string, complianceStatus) amap" where
  "index_statuses i [] m = m"
| "index_statuses i ((rid, status) # rest) m = index_statuses (i + 1) rest (amap_put rid \<lparr>st_SortIndex = i, st_Status = status\<rparr> m)"

definition load_compliance :: "('i, 'j) ra_env \<Rightarrow> ra_state \<Rightarrow> (error + (string, complianceStatus) amap) \<times> ra_state" where
  "load_compliance env s =
     (case ra_call (ra_DescribeOrg env) s of
        (Inl err, s1) \<Rightarrow> (Inl err, s1)
      | (Inr result, s1) \<Rightarrow>
          (case ra_call (ra_now env) s1 of
             (t, s2) \<Rightarrow>
               (let m = index_statuses 0 result [] in (Inr m, s2\<lparr>ra_cache := Some (t + complianceCacheDuration, m)\<rparr>))))"

definition getOrgCompliance :: "('i, 'j) ra_env \<Rightarrow> ra_state \<Rightarrow> (error + (string, complianceStatus) amap) \<times> ra_state" where
  "getOrgCompliance env s =
     (case ra_cache s of
        None \<Rightarrow> load_compliance env s
      | Some (expiresAt, m) \<Rightarrow>
          (case ra_call (ra_now env) s of (t, s1) \<Rightarrow> if expiresAt > t then (Inr m, s1) else load_compliance env s1))"

definition getComplianceStatus :: "('i, 'j) ra_env \<Rightarrow> string \<Rightarrow> ra_state \<Rightarrow> (error + complianceStatus) \<times> ra_state" where
  "getComplianceStatus env resourceID s =
     (case getOrgCompliance env s of
        (Inl err, s1) \<Rightarrow> (Inl err, s1)
      | (Inr m, s1) \<Rightarrow>
          (Inr (case map_of m resourceID of Some st \<Rightarrow> st | None \<Rightarrow> \<lparr>st_SortIndex = - 1, st_Status = StatusPASS\<rparr>), s1))"

section \<open>add_resources.go\<close>

text \<open>\<open>strings.ToLower\<close> on ASCII texts, which the ids of AWS resources are; other letters, which it also maps, are left alone here.\<close>

definition ToLower :: "string \<Rightarrow> string" where
  "ToLower s = map (\<lambda>c. if 65 \<le> (of_char c :: nat) \<and> (of_char c :: nat) \<le> 90 then char_of ((of_char c :: nat) + 32) else c) s"

text \<open>A resource whose attributes are not an object makes the type assertion panic.\<close>

fun check_attributes :: "('i, 'j) ra_env \<Rightarrow> nat \<Rightarrow> 'j add_entry list \<Rightarrow> string option option" where
  "check_attributes env i [] = Some None"
| "check_attributes env i (r # rs) =
     (case ae_Attributes r of
        None \<Rightarrow> None
      | Some attrs \<Rightarrow>
          (if ra_empty env attrs then Some (Some (''resources['' @ Itoa (int i) @ ''].attributes cannot be empty''))
           else check_attributes env (Suc i) rs))"

definition parseAddResources :: "('i, 'j) ra_env \<Rightarrow> string \<Rightarrow> (error + 'j add_entry list) option" where
  "parseAddResources env body =
     (case ra_UnmarshalAdd env body of
        Inl err \<Rightarrow> Some (Inl err)
      | Inr input \<Rightarrow>
          (case check_attributes env 0 input of
             None \<Rightarrow> None
           | Some (Some err) \<Rightarrow> Some (Inl err)
           | Some None \<Rightarrow> (case ra_ValidateAdd env input of Some err \<Rightarrow> Some (Inl err) | None \<Rightarrow> Some (Inr input))))"

definition added_item :: "int \<Rightarrow> 'j add_entry \<Rightarrow> 'j resourceItem" where
  "added_item now r =
     \<lparr>ri_Attributes = the (ae_Attributes r), ri_Deleted = False, ri_ID = ae_ID r, ri_IntegrationID = ae_IntegrationID r,
      ri_IntegrationType = ae_IntegrationType r, ri_LastModified = now, ri_Type = ae_Type r, ri_ExpiresAt = 0,
      ri_LowerID = ToLower (ae_ID r)\<rparr>"

text \<open>The loop over the resources: the write requests and the messages, \<open>None\<close> when one cannot be encoded.\<close>

fun add_loop :: "('i, 'j) ra_env \<Rightarrow> int \<Rightarrow> nat \<Rightarrow> 'j add_entry list \<Rightarrow> ('i write_request list \<times> sqs_entry list) option" where
  "add_loop env now i [] = Some ([], [])"
| "add_loop env now i (r # rs) =
     (case ra_Marshal env (added_item now r) of
        Inl _ \<Rightarrow> None
      | Inr marshalled \<Rightarrow>
          (case ra_MarshalResource env (item_Resource (added_item now r) []) of
             Inl _ \<Rightarrow> None
           | Inr body \<Rightarrow>
               (case add_loop env now (Suc i) rs of
                  None \<Rightarrow> None
                | Some (writes, entries) \<Rightarrow>
                    Some (PutRequest marshalled # writes, \<lparr>Id = Itoa (int i), MessageBody = Some body, DelaySeconds = None\<rparr> # entries))))"

fun retry_loop :: "('i, 'j) ra_env \<Rightarrow> 'j add_entry list \<Rightarrow> nat \<Rightarrow> sqs_entry list \<Rightarrow> sqs_entry list option option" where
  "retry_loop env input i [] = Some (Some [])"
| "retry_loop env input i (message # messages) =
     (case Atoi (Id message) of
        None \<Rightarrow> Some None
      | Some inputIndex \<Rightarrow>
          (if \<not> (0 \<le> inputIndex \<and> inputIndex < int (length input)) then None
           else (case ra_MarshalLookup env (ae_ID (input ! nat inputIndex)) of
                   Inl _ \<Rightarrow> Some None
                 | Inr body \<Rightarrow>
                     map_option (map_option ((#) \<lparr>Id = Itoa (int i), MessageBody = Some body, DelaySeconds = None\<rparr>))
                       (retry_loop env input (Suc i) messages))))"

text \<open>The response, the run of the batch write and the runs of \<open>SendMessageBatch\<close>; \<open>None\<close> is a panic.\<close>

record 'i add_run =
  ar_write :: "'i write_request batchWriteRequest option"
  ar_sent :: "(sqs_result \<times> sendMessageBatchRequest) list"

definition handleBigMessages :: "('i, 'j) ra_env \<Rightarrow> sqs_entry list \<Rightarrow> 'j add_entry list \<Rightarrow> 'i add_run \<Rightarrow> ra_state
    \<Rightarrow> (unit ra_response \<times> 'i add_run \<times> ra_state) option" where
  "handleBigMessages env bigMessages input run s =
     (case retry_loop env input 0 bigMessages of
        None \<Rightarrow> None
      | Some None \<Rightarrow> Some (RError, run, s)
      | Some (Some sqsRetries) \<Rightarrow>
          (case ra_call (\<lambda>n. SendMessageBatch (ra_backoff env) (ra_sqs env n) sqsRetries) s of
             (sent, s1) \<Rightarrow>
               (let run1 = run\<lparr>ar_sent := ar_sent run @ [sent]\<rparr>
                in case fst sent of
                     SqsPanic \<Rightarrow> None
                   | SqsReturned _ (Some _) \<Rightarrow> Some (RError, run1, s1)
                   | SqsReturned _ None \<Rightarrow> Some (RCreated, run1, s1))))"

definition AddResources :: "('i, 'j) ra_env \<Rightarrow> string \<Rightarrow> ra_state \<Rightarrow> (unit ra_response \<times> 'i add_run \<times> ra_state) option" where
  "AddResources env body s =
     (let run0 = \<lparr>ar_write = None, ar_sent = []\<rparr>
      in case parseAddResources env body of
           None \<Rightarrow> None
         | Some (Inl err) \<Rightarrow> Some (RBadRequest err, run0, s)
         | Some (Inr input) \<Rightarrow>
             (case ra_call (ra_now env) s of
                (now, s1) \<Rightarrow>
                  (case add_loop env now 0 input of
                     None \<Rightarrow> Some (RError, run0, s1)
                   | Some (writeRequests, sqsEntries) \<Rightarrow>
                       (case BatchWriteItem (ra_retry env) (ra_client env) [(ra_table env, writeRequests)] of
                          (Some _, w) \<Rightarrow> Some (RError, run0\<lparr>ar_write := Some w\<rparr>, s1)
                        | (None, w) \<Rightarrow>
                            (case ra_call (\<lambda>n. SendMessageBatch (ra_backoff env) (ra_sqs env n) sqsEntries) s1 of
                               (sent, s2) \<Rightarrow>
                                 (let run1 = \<lparr>ar_write = Some w, ar_sent = [sent]\<rparr>
                                  in case fst sent of
                                       SqsPanic \<Rightarrow> None
                                     | SqsReturned _ None \<Rightarrow> Some (RCreated, run1, s2)
                                     | SqsReturned unsent (Some err) \<Rightarrow>
                                         (if sqs_error_text err = ''AWS.SimpleQueueService.BatchRequestTooLong''
                                          then handleBigMessages env unsent input run1 s2
                                          else Some (RError, run1, s2))))))))"

section \<open>delete_resources.go\<close>

definition deleteWindowSecs :: int where "deleteWindowSecs = 30 * 24 * 60 * 60"

definition Unix :: "int \<Rightarrow> int" where "Unix t = t div 1000000000"

fun delete_loop :: "('i, 'j) ra_env \<Rightarrow> int \<Rightarrow> string list \<Rightarrow> ra_state \<Rightarrow> unit ra_response option \<times> ra_state" where
  "delete_loop env expiresAt [] s = (None, s)"
| "delete_loop env expiresAt (rid # rids) s =
     (case doUpdate env expiresAt rid s of
        (ROk _, s1) \<Rightarrow> delete_loop env expiresAt rids s1
      | (RNotFound, s1) \<Rightarrow> delete_loop env expiresAt rids s1
      | (response, s1) \<Rightarrow> (Some response, s1))"

definition parseDeleteResources :: "('i, 'j) ra_env \<Rightarrow> string \<Rightarrow> error + string list" where
  "parseDeleteResources env body =
     (case ra_UnmarshalDelete env body of
        Inl err \<Rightarrow> Inl err
      | Inr ids \<Rightarrow> (case ra_ValidateDelete env ids of Some err \<Rightarrow> Inl err | None \<Rightarrow> Inr ids))"

definition DeleteResources :: "('i, 'j) ra_env \<Rightarrow> string \<Rightarrow> ra_state \<Rightarrow> unit ra_response \<times> ra_state" where
  "DeleteResources env body s =
     (case parseDeleteResources env body of
        Inl err \<Rightarrow> (RBadRequest err, s)
      | Inr ids \<Rightarrow>
          (case ra_call (ra_now env) s of
             (now, s1) \<Rightarrow>
               (case delete_loop env (Unix now + deleteWindowSecs) ids s1 of
                  (Some response, s2) \<Rightarrow> (response, s2)
                | (None, s2) \<Rightarrow>
                    (case ra_call (\<lambda>n. ra_DeleteStatus env n ids) s2 of
                       (Some _, s3) \<Rightarrow> (RError, s3)
                     | (None, s3) \<Rightarrow> (ROk (), s3\<lparr>ra_deletes := ra_deletes s3 @ [ids]\<rparr>)))))"

section \<open>get_resource.go, org_overview.go\<close>

definition valid_resource_id :: "string \<Rightarrow> bool" where
  "valid_resource_id s \<longleftrightarrow> 1 \<le> RuneCountInString s \<and> RuneCountInString s \<le> 5000"

definition parseGetResource :: "query_params \<Rightarrow> string option" where
  "parseGetResource q =
     (case QueryUnescape (q ''resourceId'') of
        None \<Rightarrow> None
      | Some resourceID \<Rightarrow> if valid_resource_id resourceID then Some resourceID else None)"

definition GetResource :: "('i, 'j) ra_env \<Rightarrow> query_params \<Rightarrow> ra_state \<Rightarrow> 'j ResourceModel ra_response \<times> ra_state" where
  "GetResource env q s =
     (case parseGetResource q of
        None \<Rightarrow> (RBadRequest ''invalid resourceId'', s)
      | Some resourceID \<Rightarrow>
          (case ra_call (\<lambda>n. ra_GetItem env n resourceID) s of
             (Inl _, s1) \<Rightarrow> (RError, s1)
           | (Inr None, s1) \<Rightarrow> (RNotFound, s1)
           | (Inr (Some raw), s1) \<Rightarrow>
               (case ra_Unmarshal env raw of
                  Inl _ \<Rightarrow> (RError, s1)
                | Inr item \<Rightarrow>
                    (case getComplianceStatus env resourceID s1 of
                       (Inl _, s2) \<Rightarrow> (RError, s2)
                     | (Inr st, s2) \<Rightarrow> (ROk (item_Resource item (st_Status st)), s2)))))"

text \<open>The summaries come in the order in which Go visits the map.\<close>

definition OrgOverview :: "('i, 'j) ra_env \<Rightarrow> ra_state \<Rightarrow> (string \<times> int) list ra_response \<times> ra_state" where
  "OrgOverview env s =
     (let input = \<lparr>sc_Deleted = Some False, sc_IDContains = None, sc_IntegrationID = None, sc_IntegrationType = None, sc_Types = [],
                   sc_Projection = [''type'']\<rparr>
      in case ra_Build env input of
           Some _ \<Rightarrow> (RError, s)
         | None \<Rightarrow>
             (case ra_call (\<lambda>n. ra_Scan env n input) s of
                (answer, s1) \<Rightarrow>
                  (case ra_scanPages env answer
                          (\<lambda>item m. (None, amap_put (ri_Type item) ((case map_of m (ri_Type item) of None \<Rightarrow> 0 | Some n \<Rightarrow> n) + 1) m)) [] of
                     (Some _, _) \<Rightarrow> (RError, s1)
                   | (None, m) \<Rightarrow> (ROk m, s1))))"

section \<open>list_resources.go\<close>

definition validSortFields :: "string list" where
  "validSortFields = [''complianceStatus'', ''id'', ''lastModified'', ''type'']"

definition defaultFields :: "string list" where
  "defaultFields = [''complianceStatus'', ''deleted'', ''id'', ''integrationId'', ''integrationType'', ''lastModified'', ''type'']"

definition statusSortPriority :: "string \<Rightarrow> int" where
  "statusSortPriority st = (if st = StatusPASS then 1 else if st = StatusFAIL then 2 else if st = StatusERROR then 3 else 0)"

text \<open>The generated validators: an enumeration, a pattern that may occur anywhere, another enumeration.\<close>

definition valid_ComplianceStatus :: "string \<Rightarrow> bool" where
  "valid_ComplianceStatus s \<longleftrightarrow> s \<in> {StatusERROR, StatusFAIL, StatusPASS}"

definition uuid_char :: "char \<Rightarrow> bool" where
  "uuid_char c \<longleftrightarrow> is_digit c \<or> (97 \<le> (of_char c :: nat) \<and> (of_char c :: nat) \<le> 102) \<or> c = CHR ''-''"

definition valid_IntegrationID :: "string \<Rightarrow> bool" where
  "valid_IntegrationID s \<longleftrightarrow> re_search (Repeat 36 (Cls uuid_char)) s \<noteq> None"

definition NewListResourcesParams :: list_params where
  "NewListResourcesParams = \<lparr>lp_ComplianceStatus = None, lp_Deleted = None, lp_IDContains = None, lp_IntegrationID = None,
     lp_IntegrationType = None, lp_Types = [], lp_Fields = [], lp_SortBy = ''id'', lp_SortDir = ''ascending'', lp_PageSize = 25, lp_Page = 1\<rparr>"

text \<open>The parts of the parser: each returns the parameters or the parameter at fault. The types that were unescaped are
  replaced by the ones before unescaping.\<close>

definition parse_filters :: "query_params \<Rightarrow> string + list_params" where
  "parse_filters q =
     (let p0 = NewListResourcesParams
      in if q ''complianceStatus'' \<noteq> [] \<and> \<not> valid_ComplianceStatus (q ''complianceStatus'') then Inl ''invalid complianceStatus''
         else let p1 = (if q ''complianceStatus'' \<noteq> [] then p0\<lparr>lp_ComplianceStatus := Some (q ''complianceStatus'')\<rparr> else p0)
         in if q ''deleted'' \<noteq> [] \<and> ParseBool (q ''deleted'') = None then Inl ''invalid deleted''
         else let p2 = (if q ''deleted'' \<noteq> [] then p1\<lparr>lp_Deleted := ParseBool (q ''deleted'')\<rparr> else p1)
         in if q ''idContains'' \<noteq> [] \<and> QueryUnescape (q ''idContains'') = None then Inl ''invalid idContains''
         else let p3 = (if q ''idContains'' \<noteq> [] then p2\<lparr>lp_IDContains := map_option ToLower (QueryUnescape (q ''idContains''))\<rparr> else p2)
         in if q ''integrationId'' \<noteq> [] \<and> \<not> valid_IntegrationID (q ''integrationId'') then Inl ''invalid integrationId''
         else let p4 = (if q ''integrationId'' \<noteq> [] then p3\<lparr>lp_IntegrationID := Some (q ''integrationId'')\<rparr> else p3)
         in if q ''integrationType'' \<noteq> [] \<and> q ''integrationType'' \<noteq> ''aws'' then Inl ''invalid integrationType''
         else let p5 = (if q ''integrationType'' \<noteq> [] then p4\<lparr>lp_IntegrationType := Some (q ''integrationType'')\<rparr> else p4)
         in if q ''types'' \<noteq> [] \<and> (\<exists>raw \<in> set (split_on (CHR '','') (q ''types'')). QueryUnescape raw = None) then Inl ''invalid resourceType''
         else Inr (if q ''types'' \<noteq> [] then p5\<lparr>lp_Types := split_on (CHR '','') (q ''types'')\<rparr> else p5))"

definition parse_order :: "query_params \<Rightarrow> list_params \<Rightarrow> string + list_params" where
  "parse_order q p0 =
     (let p1 = p0\<lparr>lp_Fields := (if q ''fields'' \<noteq> [] then filter (\<lambda>f. f \<noteq> []) (split_on (CHR '','') (q ''fields'')) else defaultFields)\<rparr>
      in if q ''sortBy'' \<noteq> [] \<and> q ''sortBy'' \<notin> set validSortFields then Inl ''invalid sortBy''
         else let p2 = (if q ''sortBy'' \<noteq> [] then p1\<lparr>lp_SortBy := q ''sortBy''\<rparr> else p1)
         in if q ''sortDir'' \<noteq> [] \<and> q ''sortDir'' \<noteq> ''ascending'' \<and> q ''sortDir'' \<noteq> ''descending'' then Inl ''invalid sortDir''
         else Inr (if q ''sortDir'' \<noteq> [] then p2\<lparr>lp_SortDir := q ''sortDir''\<rparr> else p2))"

definition parse_paging :: "query_params \<Rightarrow> list_params \<Rightarrow> string + list_params" where
  "parse_paging q p0 =
     (case (if q ''pageSize'' \<noteq> [] then Atoi (q ''pageSize'') else Some (lp_PageSize p0)) of
        None \<Rightarrow> Inl ''invalid pageSize''
      | Some sz \<Rightarrow>
          (if sz < 1 then Inl ''invalid pageSize''
           else (case (if q ''page'' \<noteq> [] then Atoi (q ''page'') else Some (lp_Page p0)) of
                   None \<Rightarrow> Inl ''invalid page''
                 | Some page \<Rightarrow> (if page < 1 then Inl ''invalid pageSize'' else Inr (p0\<lparr>lp_PageSize := sz, lp_Page := page\<rparr>)))))"

definition parseListResources :: "query_params \<Rightarrow> string + list_params" where
  "parseListResources q =
     (case parse_filters q of
        Inl e \<Rightarrow> Inl e
      | Inr p1 \<Rightarrow> (case parse_order q p1 of Inl e \<Rightarrow> Inl e | Inr p2 \<Rightarrow> parse_paging q p2))"

definition buildListScan :: "('i, 'j) ra_env \<Rightarrow> list_params \<Rightarrow> error + ra_scan" where
  "buildListScan env params =
     (let input = \<lparr>sc_Deleted = lp_Deleted params, sc_IDContains = lp_IDContains params, sc_IntegrationID = lp_IntegrationID params,
                   sc_IntegrationType = lp_IntegrationType params, sc_Types = lp_Types params,
                   sc_Projection = filter (\<lambda>f. f \<noteq> ''complianceStatus'') (lp_Fields params)\<rparr>
      in case ra_Build env input of Some err \<Rightarrow> Inl err | None \<Rightarrow> Inr input)"

text \<open>One item of the scan: the result so far and the state.\<close>

definition list_item :: "('i, 'j) ra_env \<Rightarrow> list_params \<Rightarrow> 'j resourceItem \<Rightarrow> 'j ResourceModel list \<times> ra_state
    \<Rightarrow> error option \<times> 'j ResourceModel list \<times> ra_state" where
  "list_item env params item acc =
     (case acc of (result, s) \<Rightarrow>
        (if ''complianceStatus'' \<notin> set (lp_Fields params) then (None, result @ [item_Resource item []], s)
         else (case getComplianceStatus env (ri_ID item) s of
                 (Inl err, s1) \<Rightarrow> (Some err, result, s1)
               | (Inr status, s1) \<Rightarrow>
                   (if lp_ComplianceStatus params \<noteq> None \<and> lp_ComplianceStatus params \<noteq> Some (st_Status status) then (None, result, s1)
                    else (None, result @ [item_Resource item (st_Status status)], s1)))))"

definition listFilteredResources :: "('i, 'j) ra_env \<Rightarrow> ra_scan \<Rightarrow> list_params \<Rightarrow> ra_state \<Rightarrow> error option \<times> 'j ResourceModel list \<times> ra_state" where
  "listFilteredResources env scanInput params s =
     (case ra_call (\<lambda>n. ra_Scan env n scanInput) s of
        (answer, s1) \<Rightarrow> ra_scanPages env answer (list_item env params) ([], s1))"

text \<open>\<open>strfmt.DateTime.String\<close> of the modification time is a parameter of the comparators.\<close>

definition by_id :: "bool \<Rightarrow> 'j ResourceModel \<Rightarrow> 'j ResourceModel \<Rightarrow> bool" where
  "by_id ascending left right = (if ascending then rm_ID left < rm_ID right else rm_ID left > rm_ID right)"

definition by_type :: "bool \<Rightarrow> 'j ResourceModel \<Rightarrow> 'j ResourceModel \<Rightarrow> bool" where
  "by_type ascending left right =
     (if rm_Type left \<noteq> rm_Type right then (if ascending then rm_Type left < rm_Type right else rm_Type left > rm_Type right)
      else by_id ascending left right)"

definition by_lastModified :: "(int \<Rightarrow> string) \<Rightarrow> bool \<Rightarrow> 'j ResourceModel \<Rightarrow> 'j ResourceModel \<Rightarrow> bool" where
  "by_lastModified time_text ascending left right =
     (let leftTime = time_text (rm_LastModified left); rightTime = time_text (rm_LastModified right)
      in if leftTime \<noteq> rightTime then (if ascending then leftTime < rightTime else leftTime > rightTime)
         else by_id ascending left right)"

definition sort_index :: "(string, complianceStatus) amap \<Rightarrow> 'j ResourceModel \<Rightarrow> int" where
  "sort_index m r = (case map_of m (rm_ID r) of None \<Rightarrow> 0 | Some st \<Rightarrow> st_SortIndex st)"

definition by_complianceStatus :: "(string, complianceStatus) amap \<Rightarrow> bool \<Rightarrow> 'j ResourceModel \<Rightarrow> 'j ResourceModel \<Rightarrow> bool" where
  "by_complianceStatus m ascending left right =
     (if rm_ComplianceStatus left \<noteq> rm_ComplianceStatus right
      then (if ascending then statusSortPriority (rm_ComplianceStatus left) < statusSortPriority (rm_ComplianceStatus right)
            else statusSortPriority (rm_ComplianceStatus left) > statusSortPriority (rm_ComplianceStatus right))
      else if rm_ComplianceStatus left = StatusERROR \<or> rm_ComplianceStatus left = StatusFAIL
      then (if ascending then sort_index m left > sort_index m right else sort_index m left < sort_index m right)
      else by_id ascending left right)"

text \<open>The comparison of two failing resources dereferences their entries of the cache. A sort compares every element with its
  neighbour of the result: it panics if the cache lacks one of at least two resources with the same failing status.\<close>

definition status_missing :: "(string, complianceStatus) amap \<Rightarrow> 'j ResourceModel list \<Rightarrow> bool" where
  "status_missing m rs \<longleftrightarrow>
     (\<exists>st \<in> set [StatusERROR, StatusFAIL]. let group = filter (\<lambda>r. rm_ComplianceStatus r = st) rs
        in 2 \<le> length group \<and> (\<exists>r \<in> set group. map_of m (rm_ID r) = None))"

definition sortResources :: "(int \<Rightarrow> string) \<Rightarrow> (int \<times> (string, complianceStatus) amap) option \<Rightarrow> string \<Rightarrow> bool \<Rightarrow> 'j ResourceModel list
    \<Rightarrow> 'j ResourceModel list option" where
  "sortResources time_text cache sortBy ascending rs =
     (if length rs \<le> 1 then Some rs
      else if sortBy = ''complianceStatus''
      then (case cache of
              None \<Rightarrow> None
            | Some (_, m) \<Rightarrow> if status_missing m rs then None else Some (sort_Slice (by_complianceStatus m ascending) rs))
      else if sortBy = ''lastModified'' then Some (sort_Slice (by_lastModified time_text ascending) rs)
      else if sortBy = ''type'' then Some (sort_Slice (by_type ascending) rs)
      else Some (sort_Slice (by_id ascending) rs))"

record 'j ResourceList =
  rl_ThisPage :: int
  rl_TotalItems :: int
  rl_TotalPages :: int
  rl_Resources :: "'j ResourceModel list"

text \<open>\<open>resources[lowerBound:upperBound]\<close>, which panics outside the slice; the products wrap around.\<close>

definition pageResources :: "'j ResourceModel list \<Rightarrow> int \<Rightarrow> int \<Rightarrow> 'j ResourceList option" where
  "pageResources rs pageSize page =
     (if rs = [] then Some \<lparr>rl_ThisPage = 0, rl_TotalItems = 0, rl_TotalPages = 0, rl_Resources = []\<rparr>
      else if pageSize = 0 then None
      else (let n = int (length rs);
                totalPages = n div pageSize + (if n mod pageSize > 0 then 1 else 0);
                lowerBound = min (wrap64 (wrap64 (page - 1) * pageSize)) n;
                upperBound = min (wrap64 (page * pageSize)) n
            in if 0 \<le> lowerBound \<and> lowerBound \<le> upperBound
               then Some \<lparr>rl_ThisPage = page, rl_TotalItems = n, rl_TotalPages = totalPages,
                          rl_Resources = take (nat (upperBound - lowerBound)) (drop (nat lowerBound) rs)\<rparr>
               else None))"

definition ListResources :: "('i, 'j) ra_env \<Rightarrow> (int \<Rightarrow> string) \<Rightarrow> query_params \<Rightarrow> ra_state
    \<Rightarrow> ('j ResourceList ra_response \<times> ra_state) option" where
  "ListResources env time_text q s =
     (case parseListResources q of
        Inl e \<Rightarrow> Some (RBadRequest e, s)
      | Inr params \<Rightarrow>
          (case buildListScan env params of
             Inl _ \<Rightarrow> Some (RError, s)
           | Inr scanInput \<Rightarrow>
               (case listFilteredResources env scanInput params s of
                  (Some _, _, s1) \<Rightarrow> Some (RError, s1)
                | (None, rs, s1) \<Rightarrow>
                    (case sortResources time_text (ra_cache s1) (lp_SortBy params) (lp_SortDir params \<noteq> ''descending'') rs of
                       None \<Rightarrow> None
                     | Some sorted_rs \<Rightarrow>
                         map_option (\<lambda>l. (ROk l, s1)) (pageResources sorted_rs (lp_PageSize params) (lp_Page params))))))"

end
