(* ===== verification/Resources_Listing.thy ===== *)
theory Resources_Listing
  imports Resources_Api
begin

text \<open>
  What the resources API guarantees. The comparators of \<open>sortResources\<close> are instances of the ordering interface
  \<open>keyed_comparator\<close> of \<open>Compliance_Model\<close>: ascending ones by a key, descending ones by the same key under the dual order. So
  the order of a listing does not depend on the sorting algorithm, and a page is a slice of one list. Adding and deleting resources rest on the batch writer and the batch sender.
\<close>

section \<open>The dual order\<close>

datatype 'a dual = Dual (undual: 'a)

instantiation dual :: (linorder) linorder
begin

definition less_eq_dual :: "'a dual \<Rightarrow> 'a dual \<Rightarrow> bool" where
  "less_eq_dual a b \<longleftrightarrow> undual b \<le> undual a"

definition less_dual :: "'a dual \<Rightarrow> 'a dual \<Rightarrow> bool" where
  "less_dual a b \<longleftrightarrow> undual b < undual a"

instance
  by intro_classes (auto simp: less_eq_dual_def less_dual_def dual.expand)

end

lemma Dual_less [simp]: "Dual a < Dual b \<longleftrightarrow> b < a"
  by (simp add: less_dual_def)

lemma Dual_inject_map [simp]: "distinct (map (\<lambda>x. Dual (f x)) xs) \<longleftrightarrow> distinct (map f xs)"
  by (induction xs) auto

section \<open>The comparators\<close>





























section \<open>Pages\<close>


section \<open>Listing\<close>

fun decode_items :: "('i list \<Rightarrow> error + 'j resourceItem list) \<Rightarrow> 'i list list \<Rightarrow> 'j resourceItem list option" where
  "decode_items unmarshal [] = Some []"
| "decode_items unmarshal (page # rest) =
     (case unmarshal page of Inl _ \<Rightarrow> None | Inr items \<Rightarrow> map_option ((@) items) (decode_items unmarshal rest))"














section \<open>Properties\<close>


text \<open>C37. A cold start: sorting by status reads the cache of statuses, which nothing filled when the statuses were not asked for. Such a request
  panics as soon as it finds two resources.\<close>

theorem cold_sort_panics:
  assumes "parseListResources q = Inr params" "buildListScan env params = Inr input"
    and "decode_items (ra_UnmarshalList env) (pr_pages (ra_Scan env (ra_calls s) input)) = Some items"
    and "pr_error (ra_Scan env (ra_calls s) input) = None" "ra_cache s = None" "2 \<le> length items"
    and "lp_SortBy params = ''complianceStatus''" "''complianceStatus'' \<notin> set (lp_Fields params)"
  shows "ListResources env time_text q s = None"
proof -
  have items: "items_loop (list_item env params) is (acc, s1) = (None, acc @ map (\<lambda>i. item_Resource i []) is, s1)" for "is" acc s1
    by (induction "is" arbitrary: acc) (simp_all add: list_item_def assms(8))
  have scan: "scan_loop (ra_UnmarshalList env) (list_item env params) pgs (acc, s1) = (None, acc @ map (\<lambda>i. item_Resource i []) is, s1)"
    if "decode_items (ra_UnmarshalList env) pgs = Some is" for pgs "is" acc s1
    using that by (induction pgs arbitrary: "is" acc) (auto simp: items split: sum.splits)
  have "listFilteredResources env input params s = (None, map (\<lambda>i. item_Resource i []) items, s\<lparr>ra_calls := Suc (ra_calls s)\<rparr>)"
    using scan [OF assms(3), of "[]"] assms(4) by (simp add: listFilteredResources_def ra_call_def ra_scanPages_def)
  with assms show ?thesis by (simp add: ListResources_def sortResources_def)
qed

section \<open>Adding and deleting\<close>

text \<open>What \<open>AddResources\<close> encodes for each resource.\<close>

lemma add_loop_all:
  assumes "\<And>item. ra_Marshal env item = Inr (mar item)" "\<And>r. ra_MarshalResource env r = Inr (res r)"
  shows "add_loop env now i input = Some (map (\<lambda>r. PutRequest (mar (added_item now r))) input,
    map (\<lambda>(k, r). \<lparr>Id = Itoa (int k), MessageBody = Some (res (item_Resource (added_item now r) [])), DelaySeconds = None\<rparr>) (zip [i..<i + length input] input))"
  using assms
proof (induction input arbitrary: i)
  case (Cons r input)
  have "[i..<i + length (r # input)] = i # [Suc i..<Suc i + length input]" by (simp add: upt_rec)
  with Cons show ?case by simp
qed simp

text \<open>C21. A response 201 means that every resource was written to the table, exactly once; and when no message was over-sized, every resource
  was also queued for analysis, exactly once.\<close>

theorem AddResources_created:
  assumes "AddResources env body s = Some (RCreated, run, s')" "parseAddResources env body = Some (Inr input)"
    and "\<And>item. ra_Marshal env item = Inr (mar item)" "\<And>r. ra_MarshalResource env r = Inr (res r)"
    and "backoff_retry (ra_retry env)" "bw_client_ok (ra_client env)" "backoff_retry (ra_backoff env)" "\<And>n. sqs_client_ok (ra_sqs env n)"
    and "\<And>n h es. ra_sqs env n h es \<noteq> Inl ''AWS.SimpleQueueService.BatchRequestTooLong''"
    and "now = ra_now env (ra_calls s)"
    and "messages = map (\<lambda>(k, r). \<lparr>Id = Itoa (int k), MessageBody = Some (res (item_Resource (added_item now r) [])), DelaySeconds = None\<rparr>)
      (zip [0..<length input] input)"
  shows "\<exists>w. ar_write run = Some w \<and> bw_acked w = mset (map (\<lambda>r. (ra_table env, PutRequest (mar (added_item now r)))) input) \<and>
    ((\<forall>x \<in> set messages. entry_size x \<le> maxMessageBytes) \<longrightarrow> (\<exists>sent. ar_sent run = [sent] \<and> sqs_acked (snd sent) = mset messages))"
proof -
  let ?writes = "map (\<lambda>r. PutRequest (mar (added_item now r))) input"
  have loop: "add_loop env now 0 input = Some (?writes, messages)"
    using add_loop_all [OF assms(3,4), of now 0 input] by (simp add: assms(11))
  obtain err w where w: "BatchWriteItem (ra_retry env) (ra_client env) [(ra_table env, ?writes)] = (err, w)"
    by (cases "BatchWriteItem (ra_retry env) (ra_client env) [(ra_table env, ?writes)]")
  have err: "err = None" using assms(1,2,10) loop w by (auto simp: AddResources_def ra_call_def split: option.splits)
  let ?send = "SendMessageBatch (ra_backoff env) (ra_sqs env (Suc (ra_calls s))) messages"
  have cont: "(case fst ?send of SqsPanic \<Rightarrow> None
       | SqsReturned _ None \<Rightarrow> Some (RCreated, \<lparr>ar_write = Some w, ar_sent = [?send]\<rparr>, s\<lparr>ra_calls := Suc (Suc (ra_calls s))\<rparr>)
       | SqsReturned unsent (Some err) \<Rightarrow>
           if sqs_error_text err = ''AWS.SimpleQueueService.BatchRequestTooLong''
           then handleBigMessages env unsent input \<lparr>ar_write = Some w, ar_sent = [?send]\<rparr> (s\<lparr>ra_calls := Suc (Suc (ra_calls s))\<rparr>)
           else Some (RError, \<lparr>ar_write = Some w, ar_sent = [?send]\<rparr>, s\<lparr>ra_calls := Suc (Suc (ra_calls s))\<rparr>)) = Some (RCreated, run, s')"
    using assms(1,2,10) loop w err by (simp add: AddResources_def ra_call_def Let_def)
  have big: "handleBigMessages env unsent input r0 s0 = Some (resp, r1, s1) \<Longrightarrow> ar_write r1 = ar_write r0" for unsent r0 s0 resp r1 s1
    by (auto simp: handleBigMessages_def ra_call_def Let_def split: option.splits sqs_result.splits)
  have wr: "ar_write run = Some w" using cont big by (auto split: sqs_result.splits option.splits if_splits)
  have "mset (flat [(ra_table env, ?writes)]) = mset (map (\<lambda>r. (ra_table env, PutRequest (mar (added_item now r)))) input)"
    by (simp add: flat_def o_def)
  with BatchWriteItem_ok [OF assms(5,6) w] err
  have acked: "bw_acked w = mset (map (\<lambda>r. (ra_table env, PutRequest (mar (added_item now r)))) input)" by simp
  have "\<exists>sent. ar_sent run = [sent] \<and> sqs_acked (snd sent) = mset messages" if "\<forall>x \<in> set messages. entry_size x \<le> maxMessageBytes"
  proof -
    obtain res r where run: "?send = (res, r)" by (cases ?send)
    have "res = SqsReturned [] None"
    proof (cases res)
      case SqsPanic
      with cont run show ?thesis by simp
    next
      case (SqsReturned xs e)
      show ?thesis
      proof (cases e)
        case None
        with SqsReturned SendMessageBatch_no_error [OF assms(7,8)] run show ?thesis by blast
      next
        case (Some e')
        with SqsReturned run SendMessageBatch_small [OF that] obtain t where t: "e' = ErrSend t" by (cases e') blast+
        have "t \<noteq> ''AWS.SimpleQueueService.BatchRequestTooLong''"
        proof
          assume eq: "t = ''AWS.SimpleQueueService.BatchRequestTooLong''"
          with SendMessageBatch_error [OF assms(7) run [unfolded SqsReturned Some t]] assms(9)
          obtain msg where "''AWS.SimpleQueueService.BatchRequestTooLong'' = msg @ '' unprocessed items''" by metis
          then have "last ''AWS.SimpleQueueService.BatchRequestTooLong'' = last (msg @ '' unprocessed items'')" by simp
          then show False by simp
        qed
        with t cont run SqsReturned Some show ?thesis by simp
      qed
    qed
    with run have sent: "?send = (SqsReturned [] None, r)" by simp
    with cont SendMessageBatch_no_error [OF assms(7,8) sent] show ?thesis by auto
  qed
  with wr acked show ?thesis by blast
qed

lemma AddResources_big:
  assumes "parseAddResources env body = Some (Inr input)" "add_loop env (ra_now env (ra_calls s)) 0 input = Some (writes, entries)"
    and "BatchWriteItem (ra_retry env) (ra_client env) [(ra_table env, writes)] = (None, w)"
    and "SendMessageBatch (ra_backoff env) (ra_sqs env (Suc (ra_calls s))) entries = (SqsReturned unsent (Some ErrBatchRequestTooLong), r0)"
    and "retry_loop env input 0 unsent = Some (Some retries)"
    and "SendMessageBatch (ra_backoff env) (ra_sqs env (Suc (Suc (ra_calls s)))) retries = (SqsReturned xs None, r1)"
  shows "\<exists>run s'. AddResources env body s = Some (RCreated, run, s') \<and> map snd (ar_sent run) = [r0, r1]"
  using assms by (simp add: AddResources_def ra_call_def handleBigMessages_def)

text \<open>C36. Resources too big for the queue: when the messages of the first two resources of a request are over-sized, the request is answered with
  201, but only the first resource is queued, as a lookup; the second, and all that follow, are stored and never analyzed.\<close>

theorem AddResources_drops_rest:
  assumes "parseAddResources env body = Some (Inr (r1 # r2 # rest))"
    and "\<And>item. ra_Marshal env item = Inr (mar item)" "\<And>r. ra_MarshalResource env r = Inr (res r)"
    and "now = ra_now env (ra_calls s)"
    and "fst (BatchWriteItem (ra_retry env) (ra_client env) [(ra_table env, map (\<lambda>r. PutRequest (mar (added_item now r))) (r1 # r2 # rest))]) = None"
    and "maxMessageBytes < length (res (item_Resource (added_item now r1) []))"
    and "maxMessageBytes \<le> length (res (item_Resource (added_item now r2) []))"
    and "ra_MarshalLookup env (ae_ID r1) = Inr lookup" "message = \<lparr>Id = ''0'', MessageBody = Some lookup, DelaySeconds = None\<rparr>"
    and "SendMessageBatch (ra_backoff env) (ra_sqs env (Suc (Suc (ra_calls s)))) [message] = (SqsReturned [] None, sent)"
    and "sqs_acked sent = {# message #}"
  shows "\<exists>run s'. AddResources env body s = Some (RCreated, run, s') \<and> sum_list (map (sqs_acked \<circ> snd) (ar_sent run)) = {# message #}"
proof -
  let ?entry = "\<lambda>k r. \<lparr>Id = Itoa (int k), MessageBody = Some (res (item_Resource (added_item now r) [])), DelaySeconds = None\<rparr>"
  let ?input = "r1 # r2 # rest"
  have "zip [0..<length ?input] ?input = (0, r1) # (1, r2) # zip [2..<length ?input] rest"
    using upt_conv_Cons [of 0 "length ?input"] upt_conv_Cons [of 1 "length ?input"] by (simp del: upt_Suc add: numeral_2_eq_2)
  with add_loop_all [OF assms(2,3), of now 0 ?input]
  have loop: "add_loop env now 0 ?input = Some (map (\<lambda>r. PutRequest (mar (added_item now r))) ?input,
      ?entry 0 r1 # ?entry 1 r2 # map (\<lambda>(k, r). ?entry k r) (zip [2..<length ?input] rest))"
    by (simp only: add_0 list.map prod.case)
  obtain w where w: "BatchWriteItem (ra_retry env) (ra_client env) [(ra_table env, map (\<lambda>r. PutRequest (mar (added_item now r))) ?input)] = (None, w)"
    using assms(5) by (metis prod.collapse)
  have big: "SendMessageBatch rt cl (?entry 0 r1 # ?entry 1 r2 # more_entries) =
      (SqsReturned [?entry 0 r1] (Some ErrBatchRequestTooLong), \<lparr>sqs_Entries = [], sqs_successCount = 0, sqs_calls = []\<rparr>)" for rt cl more_entries
    using assms(6,7) by (intro SendMessageBatch_two_big) (simp_all add: entry_size_def)
  have "Atoi (Itoa 0) = Some 0" by (rule Atoi_Itoa) (simp add: in_int64_def)
  then have retry: "retry_loop env ?input 0 [?entry 0 r1] = Some (Some [message])"
    using assms(8,9) by (simp add: Itoa_def string_of_nat.simps digit_char_values)
  from AddResources_big [OF assms(1) loop [unfolded assms(4)] w [unfolded assms(4)] big [unfolded assms(4)] retry [unfolded assms(4)] assms(10)]
  obtain run s' where "AddResources env body s = Some (RCreated, run, s')"
    "map snd (ar_sent run) = [\<lparr>sqs_Entries = [], sqs_successCount = 0, sqs_calls = []\<rparr>, sent]" by (elim exE conjE)
  moreover from this(2) have "sum_list (map (sqs_acked \<circ> snd) (ar_sent run)) = {# message #}"
    unfolding map_map [symmetric] using assms(11) by (simp add: sqs_acked_def)
  ultimately show ?thesis by blast
qed

text \<open>Deleting resources: a success means that each of them was marked as deleted for thirty days or was not in the table, and that the
  compliance API deleted the statuses of all of them.\<close>

lemma delete_loop_marks:
  assumes "delete_loop env expiresAt ids s = (None, s')"
  shows "\<exists>found. ra_marked s' = ra_marked s @ map (\<lambda>i. (i, expiresAt)) found \<and> set found \<subseteq> set ids \<and> ra_deletes s' = ra_deletes s \<and>
    (\<forall>i \<in> set ids - set found. \<exists>n. ra_UpdateItem env n i expiresAt = RowMissing)"
  using assms
proof (induction ids arbitrary: s)
  case (Cons i ids)
  show ?case
  proof (cases "ra_BuildUpdate env expiresAt i")
    case (Some e)
    with Cons.prems show ?thesis by (simp add: doUpdate_def)
  next
    case None
    show ?thesis
    proof (cases "ra_UpdateItem env (ra_calls s) i expiresAt")
      case RowUpdated
      let ?s1 = "s\<lparr>ra_calls := Suc (ra_calls s), ra_marked := ra_marked s @ [(i, expiresAt)]\<rparr>"
      from RowUpdated None Cons.prems have "delete_loop env expiresAt ids ?s1 = (None, s')" by (simp add: doUpdate_def ra_call_def)
      from Cons.IH [OF this] obtain found where "ra_marked s' = ra_marked ?s1 @ map (\<lambda>i. (i, expiresAt)) found" "set found \<subseteq> set ids"
        "ra_deletes s' = ra_deletes ?s1" "\<forall>i \<in> set ids - set found. \<exists>n. ra_UpdateItem env n i expiresAt = RowMissing" by blast
      then show ?thesis by (intro exI [of _ "i # found"]) auto
    next
      case RowMissing
      let ?s1 = "s\<lparr>ra_calls := Suc (ra_calls s)\<rparr>"
      from RowMissing None Cons.prems have "delete_loop env expiresAt ids ?s1 = (None, s')" by (simp add: doUpdate_def ra_call_def)
      from Cons.IH [OF this] obtain found where "ra_marked s' = ra_marked ?s1 @ map (\<lambda>i. (i, expiresAt)) found" "set found \<subseteq> set ids"
        "ra_deletes s' = ra_deletes ?s1" "\<forall>i \<in> set ids - set found. \<exists>n. ra_UpdateItem env n i expiresAt = RowMissing" by blast
      with RowMissing show ?thesis by (intro exI [of _ found]) auto
    next
      case (RowError e)
      with None Cons.prems show ?thesis by (simp add: doUpdate_def ra_call_def)
    qed
  qed
qed simp

theorem DeleteResources_ok:
  assumes "DeleteResources env body s = (ROk (), s')" "parseDeleteResources env body = Inr ids"
    and "expiresAt = Unix (ra_now env (ra_calls s)) + 30 * 24 * 60 * 60"
  shows "ra_deletes s' = ra_deletes s @ [ids] \<and>
    (\<exists>found. ra_marked s' = ra_marked s @ map (\<lambda>i. (i, expiresAt)) found \<and> set found \<subseteq> set ids \<and>
       (\<forall>i \<in> set ids - set found. \<exists>n. ra_UpdateItem env n i expiresAt = RowMissing))"
proof -
  let ?s1 = "s\<lparr>ra_calls := Suc (ra_calls s)\<rparr>"
  have e: "Unix (ra_now env (ra_calls s)) + deleteWindowSecs = expiresAt" using assms(3) by (simp add: deleteWindowSecs_def)
  have bad: "delete_loop env x is t \<noteq> (Some (ROk ()), t')" for x "is" t t'
    by (induction "is" arbitrary: t) (auto split: ra_response.splits prod.splits)
  obtain r s2 where loop: "delete_loop env expiresAt ids ?s1 = (r, s2)" by (cases "delete_loop env expiresAt ids ?s1")
  have r: "r = None" using assms(1,2) loop e bad [of expiresAt ids ?s1 s2] by (cases r) (auto simp: DeleteResources_def ra_call_def)
  from assms(1,2) loop e have s': "s' = s2\<lparr>ra_calls := Suc (ra_calls s2), ra_deletes := ra_deletes s2 @ [ids]\<rparr>"
    by (auto simp: DeleteResources_def ra_call_def r split: option.splits)
  with delete_loop_marks [OF loop [unfolded r]] show ?thesis by auto
qed

section \<open>Witnesses\<close>

definition sample_ra_item :: "string \<Rightarrow> unit resourceItem" where
  "sample_ra_item rid = \<lparr>ri_Attributes = (), ri_Deleted = False, ri_ID = rid, ri_IntegrationID = ''i'', ri_IntegrationType = ''aws'',
     ri_LastModified = 0, ri_Type = ''T'', ri_ExpiresAt = 0, ri_LowerID = rid\<rparr>"

definition sample_add_entry :: "string \<Rightarrow> unit add_entry" where
  "sample_add_entry rid = \<lparr>ae_Attributes = Some (), ae_ID = rid, ae_IntegrationID = ''i'', ae_IntegrationType = ''aws'', ae_Type = ''T''\<rparr>"

definition sample_ra_client :: "unit resourceItem write_request bw_client" where
  "sample_ra_client h m = Inr []"

text \<open>Resources are encoded as \<open>n\<close> characters.\<close>

definition sample_ra_env :: "nat \<Rightarrow> (unit resourceItem, unit) ra_env" where
  "sample_ra_env n =
     \<lparr>ra_now = \<lambda>_. 5000000000, ra_DescribeOrg = \<lambda>_. Inr [(''r1'', StatusFAIL)], ra_Build = \<lambda>_. None, ra_BuildUpdate = \<lambda>_ _. None,
      ra_Scan = \<lambda>_ _. \<lparr>pr_pages = [[sample_ra_item ''r1''], [sample_ra_item ''r2'']], pr_error = None\<rparr>,
      ra_GetItem = \<lambda>_ _. Inr None, ra_UpdateItem = \<lambda>_ rid _. if rid = ''r1'' then RowUpdated else RowMissing,
      ra_DeleteStatus = \<lambda>_ _. None, ra_Unmarshal = Inr, ra_UnmarshalList = Inr, ra_Marshal = Inr, ra_empty = \<lambda>_. False,
      ra_UnmarshalAdd = \<lambda>_. Inr [sample_add_entry ''r1'', sample_add_entry ''r2''], ra_ValidateAdd = \<lambda>_. None,
      ra_UnmarshalDelete = \<lambda>_. Inr [''r1'', ''r2''], ra_ValidateDelete = \<lambda>_. None,
      ra_MarshalResource = \<lambda>_. Inr (replicate n (CHR ''x'')), ra_MarshalLookup = Inr, ra_table = ''t'',
      ra_retry = retry_attempts 0, ra_client = sample_ra_client, ra_backoff = retry_attempts 0, ra_sqs = \<lambda>_. sqs_accepting_client\<rparr>"


definition sample_ra_state :: "(int \<times> (string, complianceStatus) amap) option \<Rightarrow> ra_state" where
  "sample_ra_state cache = \<lparr>ra_cache = cache, ra_calls = 0, ra_marked = [], ra_deletes = []\<rparr>"

definition sample_query :: "string \<Rightarrow> query_params" where
  "sample_query fs = (\<lambda>_. [])(''sortBy'' := ''complianceStatus'', ''sortDir'' := ''descending'', ''fields'' := fs)"

definition sample_list_params :: "string list \<Rightarrow> list_params" where
  "sample_list_params fs = NewListResourcesParams\<lparr>lp_Fields := fs, lp_SortBy := ''complianceStatus'', lp_SortDir := ''descending''\<rparr>"

lemma sample_query_parsed:
  "parseListResources (sample_query []) = Inr (sample_list_params defaultFields)"
  "parseListResources (sample_query ''id'') = Inr (sample_list_params [''id''])"
  by (simp_all add: parseListResources_def sample_query_def sample_list_params_def parse_filters_def parse_order_def parse_paging_def
      NewListResourcesParams_def validSortFields_def Let_def)

lemma sample_scan_decoded:
  "\<exists>input. buildListScan (sample_ra_env n) params = Inr input \<and>
     decode_items (ra_UnmarshalList (sample_ra_env n)) (pr_pages (ra_Scan (sample_ra_env n) k input)) = Some [sample_ra_item ''r1'', sample_ra_item ''r2''] \<and>
     pr_error (ra_Scan (sample_ra_env n) k input) = None"
  by (simp add: buildListScan_def sample_ra_env_def)


theorem cold_sort_panics_witness: "ListResources (sample_ra_env 0) (\<lambda>_. []) (sample_query ''id'') (sample_ra_state None) = None"
proof -
  let ?p = "sample_list_params [''id'']"
  obtain input where scan: "buildListScan (sample_ra_env 0) ?p = Inr input"
     "decode_items (ra_UnmarshalList (sample_ra_env 0)) (pr_pages (ra_Scan (sample_ra_env 0) (ra_calls (sample_ra_state None)) input)) = Some [sample_ra_item ''r1'', sample_ra_item ''r2'']"
     "pr_error (ra_Scan (sample_ra_env 0) (ra_calls (sample_ra_state None)) input) = None"
    using sample_scan_decoded by blast
  show ?thesis by (rule cold_sort_panics [OF sample_query_parsed(2) scan]) (simp_all add: sample_ra_state_def sample_list_params_def)
qed

lemma sample_add_parsed: "parseAddResources (sample_ra_env n) body = Some (Inr [sample_add_entry ''r1'', sample_add_entry ''r2''])"
  by (simp add: parseAddResources_def sample_ra_env_def sample_add_entry_def)

lemma sample_ra_laws:
  "ra_Marshal (sample_ra_env n) item = Inr (id item)" "ra_MarshalResource (sample_ra_env n) r = Inr (replicate n (CHR ''x''))"
  "backoff_retry (ra_retry (sample_ra_env n))" "bw_client_ok (ra_client (sample_ra_env n))"
  "backoff_retry (ra_backoff (sample_ra_env n))" "sqs_client_ok (ra_sqs (sample_ra_env n) k)"
  "ra_sqs (sample_ra_env n) k h es \<noteq> Inl ''AWS.SimpleQueueService.BatchRequestTooLong''"
  by (simp_all add: sample_ra_env_def backoff_retry_attempts bw_client_ok_def sample_ra_client_def sqs_client_ok_def sqs_accepting_client_def)

lemma sample_added: "\<exists>run s'. AddResources (sample_ra_env 1) [] (sample_ra_state None) = Some (RCreated, run, s')"
  by (simp add: AddResources_def sample_add_parsed ra_call_def)
     (simp add: ra_call_def sample_ra_env_def sample_ra_state_def sample_ra_client_def sqs_accepting_client_def BatchWriteItem_def retry_attempts.simps bw_send_def
       Let_def amap_append_def SendMessageBatch_def send_loop.simps sqs_send_def entry_size_def Itoa_def string_of_nat.simps digit_char_values)

theorem AddResources_created_witness:
  "\<exists>run s' w. AddResources (sample_ra_env 1) [] (sample_ra_state None) = Some (RCreated, run, s') \<and> ar_write run = Some w \<and>
    bw_acked w = {# (''t'', PutRequest (added_item 5000000000 (sample_add_entry ''r1''))), (''t'', PutRequest (added_item 5000000000 (sample_add_entry ''r2''))) #}"
proof -
  obtain run s' where run: "AddResources (sample_ra_env 1) [] (sample_ra_state None) = Some (RCreated, run, s')"
    using sample_added by blast
  have "ra_table (sample_ra_env 1) = ''t''" "ra_now (sample_ra_env 1) k = 5000000000" for k by (simp_all add: sample_ra_env_def)
  with AddResources_created [OF run sample_add_parsed sample_ra_laws refl refl] run show ?thesis by auto
qed

theorem AddResources_drops_rest_witness:
  "\<exists>run s'. AddResources (sample_ra_env 260001) [] (sample_ra_state None) = Some (RCreated, run, s') \<and>
    sum_list (map (sqs_acked \<circ> snd) (ar_sent run)) = {# \<lparr>Id = ''0'', MessageBody = Some ''r1'', DelaySeconds = None\<rparr> #}"
proof -
  let ?e = "sample_ra_env 260001"
  have w: "fst (BatchWriteItem (ra_retry ?e) (ra_client ?e) [(ra_table ?e, [PutRequest x, PutRequest y])]) = None" for x y
    by (simp add: sample_ra_env_def sample_ra_client_def BatchWriteItem_def retry_attempts.simps bw_send_def Let_def amap_append_def)
  have lookup: "ra_MarshalLookup ?e (ae_ID (sample_add_entry ''r1'')) = Inr ''r1''" by (simp add: sample_ra_env_def sample_add_entry_def)
  let ?m = "\<lparr>Id = ''0'', MessageBody = Some ''r1'', DelaySeconds = None\<rparr>"
  have "\<exists>sent. SendMessageBatch (ra_backoff ?e) (ra_sqs ?e k) [?m] = (SqsReturned [] None, sent) \<and> sqs_acked sent = {# ?m #}" for k
    by (simp add: sample_ra_env_def sqs_accepting_client_def retry_attempts.simps Let_def SendMessageBatch_def send_loop.simps sqs_send_def entry_size_def sqs_acked_def)
  then obtain sent where sent: "SendMessageBatch (ra_backoff ?e) (ra_sqs ?e (Suc (Suc (ra_calls (sample_ra_state None))))) [?m] = (SqsReturned [] None, sent)"
    "sqs_acked sent = {# ?m #}" by blast
  show ?thesis
    by (rule AddResources_drops_rest [OF sample_add_parsed sample_ra_laws(1,2) refl _ _ _ lookup refl sent]) (simp_all add: w)
qed

theorem DeleteResources_ok_witness:
  "\<exists>s'. DeleteResources (sample_ra_env 0) [] (sample_ra_state None) = (ROk (), s') \<and> ra_deletes s' = [[''r1'', ''r2'']]"
proof -
  have "\<exists>s'. DeleteResources (sample_ra_env 0) [] (sample_ra_state None) = (ROk (), s')"
    by (simp add: DeleteResources_def parseDeleteResources_def sample_ra_env_def sample_ra_state_def ra_call_def doUpdate_def)
  then obtain s' where run: "DeleteResources (sample_ra_env 0) [] (sample_ra_state None) = (ROk (), s')" ..
  have "parseDeleteResources (sample_ra_env 0) [] = Inr [''r1'', ''r2'']" by (simp add: parseDeleteResources_def sample_ra_env_def)
  from DeleteResources_ok [OF run this refl] run show ?thesis by (auto simp: sample_ra_state_def)
qed

end
