(* ===== verification/Spec2Isabelle.thy ===== *)
theory Spec2Isabelle
  imports Backoff Awsbatch_SQS Awsbatch_Kinesis Awsbatch_S3 Awsbatch_Dynamo Parser_Queue Classifier Log_Processor
    S3_Destination Cloudtrail_Classifiers Cloudtrail_EC2_IAM Event_Processor Md5 Alert_Forwarder Alert_Outputs Alert_Delivery Go_Path Glue_Sync Datacatalog
    Alerts_Api Alerts_Paging Compliance_Model Compliance_Api Go_Glob Resource_Delivery Compliance_Alerts Resources_Listing
begin

text \<open>
  Panther is a security-analytics platform that runs as AWS Lambda functions written in Go. Two pipelines
  carry its work. In log analysis, the log processor reads lines from S3 objects, classifies each line by the
  log type whose parser accepts it, buffers the parsed events by hour and log type and uploads the buffers to
  S3, and the data catalog updater registers a Glue partition for them; rules run on the uploaded events, and
  their matches are counted in a DynamoDB table whose changes the alert forwarder turns into alerts and
  notifications; the alerts API reads alerts and their events back. In compliance, the event processor
  turns CloudTrail events into resources to scan or delete, the resources API stores resources and queues them, the
  resource processor evaluates the policies on them, the compliance API keeps one status row per policy and
  resource and answers paged and aggregated queries, and the alert processor and its forwarder turn a new
  failure into an alert and a remediation. Both pipelines end in alert delivery, which sends an alert to the
  configured outputs and queues what failed for another attempt. All of them reach AWS through the batching
  helpers of \<open>pkg/awsbatch\<close>.

  \<^bold>\<open>Theories.\<close> Paths are under \<open>src/\<close>; \<open>internal/log_analysis\<close> is abbreviated LA, \<open>internal/core\<close> CORE,
  \<open>internal/compliance\<close> COMP and \<open>COMP/compliance_api/handlers\<close> CH.

  \<^item> \<open>Panther_Prelude\<close>: association maps for Go maps (\<open>amap\<close>), decimal text, slices, 64-bit wrap-around, and
    the lemma collections the components share.
  \<^item> \<open>Backoff\<close>: what \<open>backoff.Retry\<close> promises as a locale and as the predicate \<open>backoff_retry\<close>: it calls the
    operation at least once, repeats it only after a transient error and returns the last result. The page and
    batch loops of the senders are here. \<open>retry_attempts n\<close> is a concrete retry with a bound on its attempts;
    only the witnesses use it, every property holds for an arbitrary \<open>backoff_retry\<close>.
  \<^item> \<open>Awsbatch_SQS\<close>, \<open>Awsbatch_Kinesis\<close>, \<open>Awsbatch_S3\<close>, \<open>Awsbatch_Dynamo\<close> (\<open>pkg/awsbatch/*\<close>): the batch
    senders, each with the record of its request as its state. A client is a function of the calls made so
    far, so it may fail differently every time. The properties: batches keep the limits of the service, a call
    that reports no error has had every item acknowledged exactly once, and nothing is sent that was not asked.
  \<^item> \<open>Parser_Queue\<close>, \<open>Classifier\<close> (\<open>LA/log_processor/classification\<close>): the priority queue on
    \<open>container/heap\<close>, the classification loop and its statistics. A parser is a function of its own state. The
    properties: a line is classified if and only if some parser accepts it, the queue stays a heap of the same
    parsers, the statistics are exact.
  \<^item> \<open>Log_Processor\<close> (\<open>LA/log_processor/processor\<close>): reading lines and forwarding events; every line
    of a stream is processed, streams in order, and an error is reported.
  \<^item> \<open>S3_Destination\<close> (\<open>LA/log_processor/destinations/s3.go\<close>): the set of buffers with explicit addresses,
    since the code shares pointers to buffers. Below the memory limit every event is uploaded exactly once under
    its hour and log type; above it the code loses the largest buffer (a finding).
  \<^item> \<open>Md5\<close>, \<open>Alert_Forwarder\<close> (\<open>LA/alert_forwarder\<close>): reading DynamoDB change records, creating and
    updating alerts, notifications. DynamoDB, SQS and the analysis API act on an abstract world through the
    fields of \<open>fw_env\<close>. The properties: a batch that fails and is repeated converges to one successful run, no
    notification without its alert, the life cycle of an alert. MD5 is computed, down to the test vectors.
  \<^item> \<open>Alert_Outputs\<close> (\<open>CORE/alert_delivery/outputs\<close>): the texts, requests and outcomes of the nine outputs.
  \<^item> \<open>Alert_Delivery\<close> (\<open>CORE/alert_delivery/delivery\<close>, \<open>main/lambda.go\<close>): the cache of outputs, the
    parallel dispatch in every order of its goroutines, the loop over alerts and the retry queue.
  \<^item> \<open>Go_Path\<close>, \<open>Go_Strings\<close>, \<open>Go_Time\<close>, \<open>Go_Url\<close>, \<open>Base64\<close>, \<open>Go_Glob\<close>: what the code uses of the standard
    library: \<open>path.Match\<close>, \<open>url.QueryUnescape\<close>, splitting and formatting, calendar dates, encodings, and regular
    expressions made from globs, with a reference meaning of globs that both matchers are compared to.
  \<^item> \<open>Cloudtrail_Base\<close>, \<open>Cloudtrail_Classifiers\<close>, \<open>Cloudtrail_EC2_IAM\<close>, \<open>Event_Processor\<close>
    (\<open>COMP/aws_event_processor/processor\<close>): the 18 classifiers of CloudTrail events, the ignored events, the caches and
    the handler; an invocation without error has submitted the newest change of every resource, unless two accounts ask for the same scan (a finding).
  \<^item> \<open>Awsglue\<close>, \<open>Glue_Sync\<close>, \<open>Datacatalog\<close> (\<open>pkg/awsglue\<close>, \<open>LA/log_processor/registry\<close>,
    \<open>LA/datacatalog_updater\<close>): time bins, partitions and their locations; the ten goroutines of \<open>SyncPartitions\<close> as a step
    relation, whose runs end and miss no time bin; the handler with its cache of created partitions.
  \<^item> \<open>Alerts_Api\<close>, \<open>Alerts_Paging\<close> (\<open>LA/alerts_api\<close>): listing alerts and paging through the events of an alert, complete
    and without repetition for any page sizes if every log type has an object, and failing otherwise.
  \<^item> \<open>Resource_Processor\<close>, \<open>Resource_Delivery\<close> (\<open>COMP/resource_processor\<close>): the Lambda that evaluates policies, first
    the definitions, then what an invocation delivers, its termination, its cache, and suppressions.
  \<^item> \<open>Compliance_Alerts\<close> (\<open>COMP/alert_processor\<close>, \<open>COMP/alert_forwarder\<close>, \<open>COMP/remediation_api\<close>): from the notification of
    a failure to the stored alert, its forwarding and the remediation.
  \<^item> \<open>Resources_Api\<close>, \<open>Resources_Listing\<close> (\<open>COMP/resources_api/handlers\<close>): adding, deleting, reading and listing
    resources; the eight comparators of the listing are interpretations of the locale of \<open>Compliance_Model\<close>.
  \<^item> \<open>Compliance_Model\<close> (\<open>CH/util.go\<close>, \<open>dynamo.go\<close>, \<open>paging.go\<close>, parts of \<open>describe_org.go\<close> and
    \<open>get_org_overview.go\<close>): status counts, severity orders, pages. A locale gives the comparators their
    theory; the orders of policies and resources are its interpretations.
  \<^item> \<open>Compliance_Api\<close> (\<open>CH\<close>): the handlers from the HTTP request to the response, on the DynamoDB batch writer.

  This theory adds the properties that span components: from the alert of a rule to its outputs, and from a
  failure that the resource processor found to the queue of the delivery.

  \<^bold>\<open>Conventions.\<close> A Go function that can panic returns an option or an outcome with a panic constructor. Errors
  are their texts. Go maps are association lists where the order of a \<open>range\<close> loop can be observed; the
  properties hold for every order. Times are nanoseconds or seconds as unbounded integers, with the
  saturation of \<open>time.Sub\<close> and the wrap-around of 64-bit arithmetic written out where they matter. Loops are
  structural recursion or have a termination proof; no definition takes fuel. Three loops may run forever in the code
  (\<open>month_loop\<close> and \<open>timebins\<close> of \<open>Awsglue\<close>, \<open>resource_page_loop\<close> of \<open>Resource_Processor\<close>): they are partial functions whose
  value \<open>None\<close> means that they do not return, and there are theorems that they do.

  \<^bold>\<open>Parameters.\<close> AWS clients, JSON encoding and validation, the HTTP client, clocks, random numbers and
  the log parsers are parameters. What the code relies on is stated as a named hypothesis
  (\<open>sqs_client_ok\<close>, \<open>bw_client_ok\<close>, \<open>aws_services\<close>, \<open>backoff_retry\<close>, \<open>encodable\<close>, \<open>any_order\<close>,
  \<open>rp_services\<close>, \<open>recent_table\<close>, \<open>steady_status\<close>, \<open>indexed\<close>), and a witness instantiates it.

  \<^bold>\<open>Not modelled.\<close> The log parsers and the swagger clients (declarative or generated), the snapshot pollers (calls
  of AWS describe operations), the Firehose destination, the APIs for analyses, users, organisations and
  sources, deployment, and the web application.
\<close>

section \<open>From the alert of a rule to its outputs\<close>

text \<open>Proper outputs have a configuration of their type, and the address to post to, where they have one, is accepted by
  \<open>http.NewRequest\<close>.\<close>

definition proper_outputs :: "surroundings \<Rightarrow> AlertOutput list \<Rightarrow> bool" where
  "proper_outputs sr outputs \<longleftrightarrow> (\<forall>output \<in> set outputs. encodable (sr_env sr output) \<and>
     (\<exists>c. OutputConfig_field output = Some c \<and> configured (sr_env sr output) (OutputType output) c \<and>
        well_addressed (sr_env sr output) (OutputType output) c))"

lemma alert_notification_deliverable:
  "Severity (alert_notification rule event) \<in> set severities \<Longrightarrow> deliverable (alert_notification rule event)"
  by (simp add: deliverable_def alert_notification_def)

lemma transient_failure_down:
  assumes "encodable (sr_env sr output)" "deliverable alert"
    and "OutputConfig_field output = Some c" "configured (sr_env sr output) (OutputType output) c"
    and "well_addressed (sr_env sr output) (OutputType output) c"
  shows "services_up (sr_env sr output) \<Longrightarrow> success (send sr alert output) \<and> \<not> transient_failure sr alert output"
    and "services_down (sr_env sr output) \<Longrightarrow> transient_failure sr alert output"
  using output_call_reports [OF assms(1,2,4)] assms(3,5)
  by (auto simp: reports_def send_def transient_failure_def split: option.splits)

text \<open>Two outputs, of which the second is down.\<close>

definition sample_down :: output_env where
  "sample_down = sample_output_env\<lparr>oe_Do := \<lambda>_. Inl ''timeout'', oe_Publish := \<lambda>_ _ _ _. Some ''down'',
     oe_SendMessage := \<lambda>_ _ _. Some ''down''\<rparr>"

definition sample_mixed :: surroundings where
  "sample_mixed = sample_surroundings\<lparr>sr_env := \<lambda>out. if OutputID out = ''b'' then sample_down else sample_output_env\<rparr>"

text \<open>C17. The notification that the forwarder makes of a rule's alert can be delivered: when its severity is a
  known one, the outputs chosen for it have proper configurations with addresses that \<open>http.NewRequest\<close> accepts, and the services behind each
  all accept or all refuse what they are sent, then
  every output that is up gets the alert, and the ones that are down, and only those, are to be sent to
  again; dispatch succeeds if none is.\<close>

theorem notification_delivered:
  assumes "Severity (alert_notification rule event) \<in> set severities" "any_order sr"
    and "getAlertOutputs ri sr cache (alert_notification rule event) = (Inr outputs, cache')"
    and "proper_outputs sr outputs"
    and "\<forall>output \<in> set outputs. services_up (sr_env sr output) \<or> services_down (sr_env sr output)"
  shows "\<exists>ok alert' cache''. dispatch ri sr cache (alert_notification rule event) = (ok, alert', cache'') \<and>
    (\<forall>output \<in> set outputs. services_up (sr_env sr output) \<longrightarrow> success (send sr (alert_notification rule event) output)) \<and>
    (ok \<longleftrightarrow> (\<forall>output \<in> set outputs. services_up (sr_env sr output))) \<and>
    (\<not> ok \<longrightarrow> set (OutputIDs alert') = OutputID ` {output \<in> set outputs. services_down (sr_env sr output)})"
proof -
  let ?alert = "alert_notification rule event"
  obtain ok alert' cache'' where d: "dispatch ri sr cache ?alert = (ok, alert', cache'')"
    by (cases "dispatch ri sr cache ?alert") auto
  have one: "(services_up (sr_env sr out) \<longrightarrow> success (send sr ?alert out) \<and> \<not> transient_failure sr ?alert out) \<and>
      (services_down (sr_env sr out) \<longrightarrow> transient_failure sr ?alert out)" if "out \<in> set outputs" for out
    using transient_failure_down [OF _ alert_notification_deliverable [OF assms(1)], of sr out] assms(4) that
    by (fastforce simp: proper_outputs_def)
  then have down: "transient_failure sr ?alert out \<longleftrightarrow> services_down (sr_env sr out)"
      "services_up (sr_env sr out) \<longleftrightarrow> \<not> services_down (sr_env sr out)" if "out \<in> set outputs" for out
    using assms(5) that by blast+
  note dispatched = dispatch_outputs [OF assms(2) d assms(3)]
  have "set (OutputIDs alert') = OutputID ` {output \<in> set outputs. services_down (sr_env sr output)}" if "\<not> ok"
    using arg_cong [OF conjunct1 [OF dispatched(3) [OF that]], of set_mset] down(1) by auto
  moreover have "ok \<longleftrightarrow> (\<forall>output \<in> set outputs. services_up (sr_env sr output))"
    using dispatched(1) down by simp
  moreover have "\<forall>output \<in> set outputs. services_up (sr_env sr output) \<longrightarrow> success (send sr ?alert output)"
    using one by simp
  ultimately show ?thesis using d by (intro exI [of _ ok] exI [of _ alert'] exI [of _ cache'']) simp
qed

theorem notification_delivered_witness:
  "set (OutputIDs (fst (snd (dispatch 0 sample_mixed None (alert_notification sample_rule (sample_event 1 5)))))) = {''b''}"
proof -
  let ?alert = "alert_notification sample_rule (sample_event 1 5)"
  have sev: "Severity ?alert = ''HIGH''" "OutputIDs ?alert = []"
    by (simp_all add: alert_notification_def sample_rule_def)
  have chosen: "getAlertOutputs 0 sample_mixed None ?alert = (Inr sample_outputs, Some \<lparr>Outputs = sample_outputs, Timestamp = 6\<rparr>)"
    by (simp add: getAlertOutputs_def sample_mixed_def sample_surroundings_def getOutputsBySeverity_def sample_outputs_def sev)
  have enc: "encodable (sr_env sample_mixed out)" for out
    by (simp add: encodable_def sample_mixed_def sample_down_def sample_output_env_def)
  have states: "services_up (sr_env sample_mixed (sample_outputs ! 0))" "services_down (sr_env sample_mixed (sample_outputs ! 1))"
    "\<not> services_up (sr_env sample_mixed (sample_outputs ! 1))" "\<not> services_down (sr_env sample_mixed (sample_outputs ! 0))"
    by (simp_all add: services_up_def services_down_def sample_mixed_def sample_down_def sample_output_env_def sample_outputs_def)
  have outs: "set sample_outputs = {sample_outputs ! 0, sample_outputs ! 1}" by (simp add: sample_outputs_def)
  have proper: "proper_outputs sample_mixed sample_outputs"
    by (simp add: proper_outputs_def enc, simp add: sample_outputs_def configured_def well_addressed_def output_url_def no_config_def sample_mixed_def sample_down_def sample_output_env_def)
  have "any_order sample_mixed" by (simp add: any_order_def sample_mixed_def sample_surroundings_def)
  from notification_delivered [OF _ this chosen proper] obtain ok alert' cache'' where
    "dispatch 0 sample_mixed None ?alert = (ok, alert', cache'')"
    "ok \<longleftrightarrow> (\<forall>out \<in> set sample_outputs. services_up (sr_env sample_mixed out))"
    "\<not> ok \<longrightarrow> set (OutputIDs alert') = OutputID ` {out \<in> set sample_outputs. services_down (sr_env sample_mixed out)}"
    using states by (auto simp: sev severities_def outs)
  moreover have "{out \<in> set sample_outputs. services_down (sr_env sample_mixed out)} = {sample_outputs ! 1}"
    using states unfolding outs by auto
  moreover have "OutputID (sample_outputs ! 1) = ''b''" by (simp add: sample_outputs_def)
  ultimately show ?thesis using states by (simp add: outs)
qed

section \<open>From the failure of a policy to the queue of alerts\<close>

text \<open>The path of a failure through the compliance pipeline. The message that the resource processor queued tells the alert processor
  of the pair. While its services answer, it handles the message without error; unless the policy had an alert within the hour,
  it stores the alert of the policy, and the stored row makes the forwarder send that alert. An alert of the last hour stays as it is.\<close>

definition recent_alert :: "'v ap_env \<Rightarrow> ('v \<Rightarrow> string \<Rightarrow> (int \<times> string \<times> int) option) \<Rightarrow> 'v ap_state \<Rightarrow> string \<Rightarrow> bool" where
  "recent_alert ap view t p \<longleftrightarrow>
     (case view (ap_world t) p of None \<Rightarrow> False | Some (lastUpdated, _) \<Rightarrow> ap_now ap (Suc (ap_calls t)) - 3600 \<le> lastUpdated)"

definition alert_forwarded :: "'v ap_env \<Rightarrow> ('v \<Rightarrow> string \<Rightarrow> (int \<times> string \<times> int) option) \<Rightarrow> 'u cf_env \<Rightarrow> string \<Rightarrow> ComplianceNotification
    \<Rightarrow> 'v ap_state \<Rightarrow> bool" where
  "alert_forwarded ap view cf p event t' \<longleftrightarrow>
     (\<exists>n policy now config. ap_GetPolicy ap n p = Inr policy \<and> view (ap_world t') p = Some (now, config, now + 3600) \<and>
        al_PolicyID (policy_alert event policy) = Some p \<and> al_Severity (policy_alert event policy) = Some (pol_Severity policy) \<and>
        (\<forall>body u u'. cf_Marshal cf (policy_alert event policy) = Inr body \<longrightarrow> cf_SendMessage cf body u = (None, u') \<longrightarrow>
           forward_records cf [Some [(''alertConfig'', BinaryValue config)]] u = (Returned None, u')))"

definition alert_path :: "'v ap_env \<Rightarrow> ('v \<Rightarrow> string \<Rightarrow> (int \<times> string \<times> int) option) \<Rightarrow> 'u cf_env \<Rightarrow> set_entry \<Rightarrow> string \<Rightarrow> bool" where
  "alert_path ap view cf e message \<longleftrightarrow>
     (\<exists>event. ap_Unmarshal ap message = Inr event \<and> (\<forall>t. ap_answers ap t event (se_PolicyID e) (se_ResourceID e) \<longrightarrow>
        (\<exists>t'. notification_loop ap [message] t = (Returned None, t') \<and>
           (if recent_alert ap view t (se_PolicyID e) then view (ap_world t') = view (ap_world t)
            else alert_forwarded ap view cf (se_PolicyID e) event t'))))"

lemma alert_path_of_message:
  fixes ap :: "'v ap_env" and cf :: "'u cf_env"
  assumes "alert_for env sets e a" "\<And>n. re_GetStatus env n sets (se_PolicyID e) (se_ResourceID e) \<noteq> StatusFound StatusFAIL"
    and "\<And>event body. re_MarshalNotification env event = Inr body \<Longrightarrow> ap_Unmarshal ap body = Inr event"
    and "\<And>al config. ap_Marshal ap al = Inr config \<Longrightarrow> cf_Unmarshal cf config = Inr al"
    and "\<And>n pid policy. ap_GetPolicy ap n pid = Inr policy \<Longrightarrow> valid_PolicySeverity (pol_Severity policy)"
    and "recent_table ap view" "se_PolicyID e \<noteq> []" "se_ResourceID e \<noteq> []"
  shows "\<exists>message. MessageBody a = Some message \<and> alert_path ap view cf e message"
proof -
  obtain n ver ts message where m: "re_MarshalNotification env
       \<lparr>cn_ResourceID = Some (se_ResourceID e), cn_PolicyID = Some (se_PolicyID e), cn_PolicyVersionID = Some ver,
        cn_ShouldAlert = Some (previous_status env n sets e \<noteq> StatusFAIL), cn_Timestamp = Some ts\<rparr> = Inr message" "MessageBody a = Some message"
    using assms(1) unfolding alert_for_def by blast
  define event where "event = \<lparr>cn_ResourceID = Some (se_ResourceID e), cn_PolicyID = Some (se_PolicyID e), cn_PolicyVersionID = Some ver,
    cn_ShouldAlert = Some True, cn_Timestamp = Some ts\<rparr>"
  have "previous_status env n sets e \<noteq> StatusFAIL"
    using assms(2) [of n] by (auto simp: previous_status_def split: status_answer.splits)
  with assms(3) [OF m(1)] have read: "ap_Unmarshal ap message = Inr event" by (simp add: event_def)
  have event: "cn_PolicyID event = Some (se_PolicyID e)" "cn_ResourceID event = Some (se_ResourceID e)" "cn_Timestamp event = Some ts"
    "cn_ShouldAlert event = Some True" "valid_notification event" using assms(7,8) by (simp_all add: event_def valid_notification_def)
  have "alert_path ap view cf e message"
    unfolding alert_path_def
  proof (intro exI [of _ event] conjI read allI impI)
    fix t :: "'v ap_state"
    let ?now = "ap_now ap (Suc (ap_calls t))"
    assume answers: "ap_answers ap t event (se_PolicyID e) (se_ResourceID e)"
    then have failing: "ap_GetStatus ap (ap_calls t) (se_PolicyID e) (se_ResourceID e) = StatusFound StatusFAIL" by (simp add: ap_answers_def)
    obtain t' where h: "Handle_notification ap event t = (Returned None, t')"
      using Handle_notification_returns [OF answers event(1,2)] by blast
    note effect = notification_effect [OF assms(6) event(1,2) h refl refl]
    have "alert_forwarded ap view cf (se_PolicyID e) event t'" if "\<not> recent_alert ap view t (se_PolicyID e)"
    proof -
      have due: "case view (ap_world t) (se_PolicyID e) of None \<Rightarrow> True | Some (lastUpdated, _) \<Rightarrow> lastUpdated < ?now - 3600"
        using that by (auto simp: recent_alert_def not_le split: option.splits)
      obtain k policy config where p: "ap_GetPolicy ap k (se_PolicyID e) = Inr policy" "ap_Marshal ap (policy_alert event policy) = Inr config"
        "view (ap_world t') (se_PolicyID e) = Some (?now, config, ?now + 3600)"
        using effect failing event(4) due by auto
      have "forward_records cf [Some [(''alertConfig'', BinaryValue config)]] u = (Returned None, u')"
        if "cf_Marshal cf (policy_alert event policy) = Inr body" "cf_SendMessage cf body u = (None, u')" for body and u u' :: 'u
        using forwards_stored [OF assms(4) [OF p(2)] that(1) event(1,3) assms(5) [OF p(1)] that(2), of ?now] by (simp add: recent_input_def)
      then show ?thesis unfolding alert_forwarded_def using p event(1)
        by (intro exI [of _ k] exI [of _ policy] exI [of _ ?now] exI [of _ config]) (auto simp: policy_alert_def)
    qed
    moreover have "view (ap_world t') = view (ap_world t)" if "recent_alert ap view t (se_PolicyID e)"
      using effect that by (auto simp: recent_alert_def split: option.splits)
    ultimately show "\<exists>t'. notification_loop ap [message] t = (Returned None, t') \<and>
        (if recent_alert ap view t (se_PolicyID e) then view (ap_world t') = view (ap_world t)
         else alert_forwarded ap view cf (se_PolicyID e) event t')"
      using read event(5) h by (intro exI [of _ t']) simp
  qed
  with m(2) show ?thesis by blast
qed

text \<open>C3. A new failure reaches the queue of alerts. After an invocation of the resource processor without error, every unsuppressed
  failure that the compliance API did not know before has an acknowledged message of its own. The alert processor, given that message
  while the pair is still failing and its services answer, returns without error: if the policy had no alert within the last hour, the alert of
  the policy is stored, and the forwarder, given the stored row, sends that alert to the delivery queue; if it had one, the table stays as it is.\<close>

theorem failure_reaches_delivery:
  assumes "Handle_resources env batch s = Some (Returned None, s')" "cache_ok s" "rp_services env"
    and "backoff_retry (re_backoff env)" "\<And>n. sqs_client_ok (re_sqs env n)"
    and "rp_evals s' = rp_evals s @ evs" "ev \<in> set evs" "e \<in> set (eval_entries ev)" "open_failure e"
    and "\<And>n. re_GetStatus env n (rp_set s) (se_PolicyID e) (se_ResourceID e) \<noteq> StatusFound StatusFAIL"
    and "\<And>event body. re_MarshalNotification env event = Inr body \<Longrightarrow> ap_Unmarshal ap body = Inr event"
    and "\<And>al config. ap_Marshal ap al = Inr config \<Longrightarrow> cf_Unmarshal cf config = Inr al"
    and "\<And>n pid policy. ap_GetPolicy ap n pid = Inr policy \<Longrightarrow> valid_PolicySeverity (pol_Severity policy)"
    and "recent_table ap view" "se_PolicyID e \<noteq> []" "se_ResourceID e \<noteq> []"
  shows "\<exists>run a message. rp_queued s' = rp_queued s @ [run] \<and> a \<in># sqs_acked (snd run) \<and> MessageBody a = Some message \<and>
    alert_path ap view cf e message"
proof -
  obtain evs' where "rp_evals s' = rp_evals s @ evs'" "delivered env evs' s s'"
    using Handle_evaluations [OF assms(1-5)] by blast
  with assms(6) have d: "delivered env evs s s'" by simp
  let ?failures = "filter open_failure (concat (map eval_entries evs))"
  have e: "e \<in> set ?failures" using assms(7-9) by auto
  then have "?failures \<noteq> []" by (metis empty_iff empty_set)
  with d obtain run alerts where run: "rp_queued s' = rp_queued s @ [run]" "list_all2 (alert_for env (rp_set s)) ?failures alerts"
    "sqs_acked (snd run) = mset alerts"
    by (auto simp: delivered_def Let_def simp del: filter_concat)
  from e run(2) obtain a where "a \<in> set alerts" "alert_for env (rp_set s) e a"
    by (metis in_set_conv_nth list_all2_conv_all_nth)
  with run(1,3) alert_path_of_message [OF this(2) assms(10-16)] show ?thesis by fastforce
qed

text \<open>One policy that one resource fails. The codecs know the one notification and the one alert that occur.\<close>

definition sample_policy_alert :: PolicyAlert where
  "sample_policy_alert = policy_alert (sample_notification ''r1'') sample_ap_policy"

definition sample_rp_pipeline :: "unit rp_env" where
  "sample_rp_pipeline = (sample_rp_env (\<lambda>n. True))\<lparr>re_now := \<lambda>n. 0,
     re_MarshalNotification := \<lambda>event. if event = sample_notification ''r1'' then Inr ''message'' else Inl ''unknown''\<rparr>"

definition sample_ap_pipeline :: "(string, int \<times> string \<times> int) amap ap_env" where
  "sample_ap_pipeline = sample_ap_env\<lparr>ap_Unmarshal := \<lambda>body. Inr (sample_notification ''r1''),
     ap_Marshal := \<lambda>al. if al = sample_policy_alert then Inr ''config'' else Inl ''unknown''\<rparr>"

definition sample_cf_pipeline :: "string list cf_env" where
  "sample_cf_pipeline = \<lparr>cf_Unmarshal = \<lambda>_. Inr sample_policy_alert, cf_Marshal = \<lambda>_. Inr ''alert'', cf_SendMessage = \<lambda>m w. (None, w @ [m])\<rparr>"

definition sample_failure :: set_entry where
  "sample_failure = buildStatus sample_rp_policy \<lparr>res_Attributes = Some (), res_ID = ''r1'', res_IntegrationID = ''i'', res_Type = ''T''\<rparr> StatusFAIL"

lemma sample_pipeline_run:
  "\<exists>s' ev. Handle_resources sample_rp_pipeline [''r1''] sample_rp_state = Some (Returned None, s') \<and>
     rp_evals s' = rp_evals sample_rp_state @ [ev] \<and> sample_failure \<in> set (eval_entries ev)"
  by (simp add: sample_rp_pipeline_def rp_run_simps sample_notification_def sample_failure_def eval_entries_def result_entries_def pair_entry_def)

theorem failure_reaches_delivery_witness:
  "\<exists>s' run a message. Handle_resources sample_rp_pipeline [''r1''] sample_rp_state = Some (Returned None, s') \<and>
     rp_queued s' = [run] \<and> a \<in># sqs_acked (snd run) \<and> MessageBody a = Some message \<and>
     alert_path sample_ap_pipeline map_of sample_cf_pipeline sample_failure message"
proof -
  obtain s' ev where run: "Handle_resources sample_rp_pipeline [''r1''] sample_rp_state = Some (Returned None, s')"
      "rp_evals s' = rp_evals sample_rp_state @ [ev]" "sample_failure \<in> set (eval_entries ev)"
    using sample_pipeline_run by blast
  have laws: "rp_services sample_rp_pipeline" "backoff_retry (re_backoff sample_rp_pipeline)" "sqs_client_ok (re_sqs sample_rp_pipeline n)" for n
    using sample_rp_laws(1,3,4) [of "\<lambda>n. True"] by (simp_all add: sample_rp_pipeline_def rp_services_def)
  have table: "recent_table sample_ap_pipeline map_of"
    using sample_recent_table by (simp add: recent_table_def sample_ap_pipeline_def)
  have failure: "open_failure sample_failure" "se_PolicyID sample_failure \<noteq> []" "se_ResourceID sample_failure \<noteq> []"
    by (simp_all add: sample_failure_def buildStatus_def isSuppressed_def open_failure_def sample_rp_policy_def)
  have "\<exists>run a message. rp_queued s' = rp_queued sample_rp_state @ [run] \<and> a \<in># sqs_acked (snd run) \<and> MessageBody a = Some message \<and>
      alert_path sample_ap_pipeline map_of sample_cf_pipeline sample_failure message"
    by (rule failure_reaches_delivery [OF run(1) sample_rp_laws(2) laws run(2) _ run(3) failure(1) _ _ _ _ table failure(2,3)])
       (auto simp: sample_rp_pipeline_def sample_ap_pipeline_def sample_cf_pipeline_def sample_rp_env_def sample_rp_state_def stored_def sample_ap_env_def
         sample_ap_policy_def valid_PolicySeverity_def known_severities_def split: if_splits)
  with run(1) show ?thesis by (auto simp: sample_rp_state_def)
qed

end
